(* ===== verification/Prelude.thy ===== *)
theory Prelude
  imports Main "HOL-Library.Word" "HOL-Library.AList"
begin

text \<open>
  Shared vocabulary of the development: bytes and byte strings, the result of code that may
  panic, the functions of Rust's standard library that the sources use on strings and
  integers (splitting, trimming, prefixes, decimal printing and parsing, big-endian
  encoding), and hash maps as association lists with distinct keys. A Rust \<open>String\<close> is the
  list of its UTF-8 bytes, so \<open>length\<close> is \<open>str::len\<close>.
\<close>

named_theorems text_simps \<comment> \<open>evaluation of the string functions\<close>
named_theorems codec_laws \<comment> \<open>what an encoder and its decoder promise\<close>

section \<open>Bytes and results\<close>

type_synonym byte = "8 word"
type_synonym bytes = "8 word list"

text \<open>
  \<open>Returned\<close>: the call returned. \<open>Panicked\<close>: it hit an \<open>unwrap\<close> or \<open>expect\<close> on nothing, which
  ends the task that ran it. \<open>Diverged\<close>: a loop that does not end.
\<close>

datatype 'a exec = Returned 'a | Panicked | Diverged

fun returns :: "'a exec \<Rightarrow> bool" where
  "returns (Returned _) = True"
| "returns _ = False"

definition str_bytes :: "string \<Rightarrow> bytes" where
  "str_bytes s = map (\<lambda>c. word_of_nat (of_char c)) s"

lemma length_str_bytes [simp]: "length (str_bytes s) = length s"
  by (simp add: str_bytes_def)

lemma str_bytes_append [simp]: "str_bytes (s @ t) = str_bytes s @ str_bytes t"
  by (simp add: str_bytes_def)

lemma str_bytes_Nil [simp]: "str_bytes [] = []"
  by (simp add: str_bytes_def)

lemma str_bytes_eq_Nil [simp]: "str_bytes s = [] \<longleftrightarrow> s = []"
  by (simp add: str_bytes_def)

lemma word_of_char_inj: "(word_of_nat (of_char c) :: byte) = word_of_nat (of_char d) \<Longrightarrow> c = d"
proof -
  assume "(word_of_nat (of_char c) :: byte) = word_of_nat (of_char d)"
  then have "unat (word_of_nat (of_char c) :: byte) = unat (word_of_nat (of_char d) :: byte)"
    by simp
  then have "of_char c mod 256 = (of_char d mod 256 :: nat)"
    by (simp add: unat_of_nat)
  then show "c = d"
    by (metis char_of_char char_of_mod_256)
qed

lemma str_bytes_inj: "str_bytes s = str_bytes t \<Longrightarrow> s = t"
proof (induction s arbitrary: t)
  case Nil
  then show ?case by (simp add: str_bytes_def)
next
  case (Cons c s)
  then show ?case
    by (cases t) (auto simp: str_bytes_def dest: word_of_char_inj)
qed

lemma str_bytes_inject [simp]: "str_bytes s = str_bytes t \<longleftrightarrow> s = t"
  by (auto dest: str_bytes_inj)

section \<open>Prefixes, suffixes, splitting\<close>

definition strip_prefix :: "'a list \<Rightarrow> 'a list \<Rightarrow> 'a list option" where
  "strip_prefix p s = (if take (length p) s = p then Some (drop (length p) s) else None)"

definition strip_suffix :: "'a list \<Rightarrow> 'a list \<Rightarrow> 'a list option" where
  "strip_suffix p s = map_option rev (strip_prefix (rev p) (rev s))"

definition starts_with :: "'a list \<Rightarrow> 'a list \<Rightarrow> bool" where
  "starts_with s p \<longleftrightarrow> take (length p) s = p"

definition ends_with :: "'a list \<Rightarrow> 'a list \<Rightarrow> bool" where
  "ends_with s p \<longleftrightarrow> starts_with (rev s) (rev p)"

lemma strip_prefix_append [simp]: "strip_prefix p (p @ s) = Some s"
  by (simp add: strip_prefix_def)

lemma strip_prefix_Some_iff: "strip_prefix p s = Some r \<longleftrightarrow> s = p @ r"
  by (auto simp: strip_prefix_def) (metis append_take_drop_id)

lemma strip_suffix_append [simp]: "strip_suffix p (s @ p) = Some s"
  by (simp add: strip_suffix_def)

lemma strip_suffix_Some_iff: "strip_suffix p s = Some r \<longleftrightarrow> s = r @ p"
proof
  assume "strip_suffix p s = Some r"
  then obtain z where z: "strip_prefix (rev p) (rev s) = Some z" "r = rev z"
    by (auto simp: strip_suffix_def)
  then have "rev s = rev p @ rev r" by (simp add: strip_prefix_Some_iff)
  then show "s = r @ p" by (metis rev_append rev_rev_ident)
qed simp

lemma starts_with_append [simp]: "starts_with (p @ s) p"
  by (simp add: starts_with_def)

lemma starts_with_iff: "starts_with s p \<longleftrightarrow> (\<exists>r. s = p @ r)"
  by (auto simp: starts_with_def) (metis append_take_drop_id)

lemma ends_with_iff: "ends_with s p \<longleftrightarrow> (\<exists>r. s = r @ p)"
  by (auto simp: ends_with_def starts_with_iff) (metis rev_append rev_rev_ident)

text \<open>\<open>str::split(c)\<close>: the pieces between separators, at least one.\<close>

fun split_on :: "'a \<Rightarrow> 'a list \<Rightarrow> 'a list list" where
  "split_on c [] = [[]]"
| "split_on c (x # xs) =
     (if x = c then [] # split_on c xs
      else (case split_on c xs of [] \<Rightarrow> [[x]] | p # ps \<Rightarrow> (x # p) # ps))"

text \<open>\<open>str::split_once(c)\<close> and \<open>str::rsplit_once(c)\<close>: split at the first or the last separator.\<close>

fun split_once :: "'a \<Rightarrow> 'a list \<Rightarrow> ('a list \<times> 'a list) option" where
  "split_once c [] = None"
| "split_once c (x # xs) =
     (if x = c then Some ([], xs)
      else map_option (\<lambda>(a, b). (x # a, b)) (split_once c xs))"

definition rsplit_once :: "'a \<Rightarrow> 'a list \<Rightarrow> ('a list \<times> 'a list) option" where
  "rsplit_once c s = map_option (\<lambda>(a, b). (rev b, rev a)) (split_once c (rev s))"

lemma split_on_not_Nil [simp]: "split_on c s \<noteq> []"
  by (induction s) (auto split: list.splits)

lemma split_on_none: "c \<notin> set s \<Longrightarrow> split_on c s = [s]"
  by (induction s) auto

lemma split_on_append: "c \<notin> set s \<Longrightarrow> split_on c (s @ c # t) = s # split_on c t"
  by (induction s) auto

lemma split_once_None_iff: "split_once c s = None \<longleftrightarrow> c \<notin> set s"
  by (induction s) auto

lemma split_once_append: "c \<notin> set a \<Longrightarrow> split_once c (a @ c # b) = Some (a, b)"
  by (induction a) auto

lemma split_once_Some: "split_once c s = Some (a, b) \<Longrightarrow> s = a @ c # b \<and> c \<notin> set a"
  by (induction s arbitrary: a) (auto split: if_splits)

lemma rsplit_once_append: "c \<notin> set b \<Longrightarrow> rsplit_once c (a @ c # b) = Some (a, b)"
  by (simp add: rsplit_once_def split_once_append)

lemma rsplit_once_None_iff: "rsplit_once c s = None \<longleftrightarrow> c \<notin> set s"
  by (simp add: rsplit_once_def split_once_None_iff)

lemma rsplit_once_Some: "rsplit_once c s = Some (a, b) \<Longrightarrow> s = a @ c # b \<and> c \<notin> set b"
  by (auto simp: rsplit_once_def dest!: split_once_Some)
     (metis append_Cons append_Nil append_assoc rev.simps(2) rev_append rev_rev_ident)

text \<open>\<open>str::lines\<close>: lines end at \<open>\n\<close> or \<open>\r\n\<close>; a last line without \<open>\n\<close> is kept as it is.\<close>

definition nl :: char where "nl = CHR 0x0A"
definition cr :: char where "cr = CHR 0x0D"

definition strip_cr :: "string \<Rightarrow> string" where
  "strip_cr s = (if s \<noteq> [] \<and> last s = cr then butlast s else s)"

definition str_lines :: "string \<Rightarrow> string list" where
  "str_lines s =
     (let ps = split_on nl s
      in map strip_cr (butlast ps) @ (if last ps = [] then [] else [last ps]))"

section \<open>Trimming\<close>

text \<open>
  \<open>char::is_whitespace\<close> on UTF-8 bytes: the number of bytes of the whitespace character the
  string starts with, 0 when it starts with another character.
\<close>

definition ws_len :: "string \<Rightarrow> nat" where
  "ws_len s = (case map of_char s :: nat list of
       [] \<Rightarrow> 0
     | x # r \<Rightarrow>
         if (9 \<le> x \<and> x \<le> 13) \<or> x = 32 then 1
         else (case r of
             [] \<Rightarrow> 0
           | y # r' \<Rightarrow>
               if x = 0xC2 \<and> (y = 0x85 \<or> y = 0xA0) then 2
               else (case r' of
                   [] \<Rightarrow> 0
                 | z # _ \<Rightarrow>
                     if (x = 0xE1 \<and> y = 0x9A \<and> z = 0x80)
                        \<or> (x = 0xE2 \<and> y = 0x80 \<and>
                            ((0x80 \<le> z \<and> z \<le> 0x8A) \<or> z = 0xA8 \<or> z = 0xA9 \<or> z = 0xAF))
                        \<or> (x = 0xE2 \<and> y = 0x81 \<and> z = 0x9F)
                        \<or> (x = 0xE3 \<and> y = 0x80 \<and> z = 0x80)
                     then 3 else 0)))"

definition ws_suffix :: "string \<Rightarrow> nat" where
  "ws_suffix s =
     (if 1 \<le> length s \<and> ws_len (drop (length s - 1) s) = 1 then 1
      else if 2 \<le> length s \<and> ws_len (drop (length s - 2) s) = 2 then 2
      else if 3 \<le> length s \<and> ws_len (drop (length s - 3) s) = 3 then 3
      else 0)"

lemma ws_len_Nil [simp]: "ws_len [] = 0"
  by (simp add: ws_len_def)

lemma ws_suffix_Nil [simp]: "ws_suffix [] = 0"
  by (simp add: ws_suffix_def)

function trim_start :: "string \<Rightarrow> string" where
  "trim_start s = (if ws_len s = 0 then s else trim_start (drop (ws_len s) s))"
  by pat_completeness auto
termination
proof (relation "measure length")
  fix s assume "ws_len s \<noteq> 0"
  then show "(drop (ws_len s) s, s) \<in> measure length" by (cases s) auto
qed simp

function trim_end :: "string \<Rightarrow> string" where
  "trim_end s = (if ws_suffix s = 0 then s else trim_end (take (length s - ws_suffix s) s))"
  by pat_completeness auto
termination
proof (relation "measure length")
  fix s assume "ws_suffix s \<noteq> 0"
  then show "(take (length s - ws_suffix s) s, s) \<in> measure length" by (cases s) auto
qed simp

declare trim_start.simps [simp del] trim_end.simps [simp del]

definition trim :: "string \<Rightarrow> string" where
  "trim s = trim_end (trim_start s)"

text \<open>Printable ASCII without the space: what identifiers, digits and base64 are made of.\<close>

definition graphic :: "char \<Rightarrow> bool" where
  "graphic c \<longleftrightarrow> 33 \<le> (of_char c :: nat) \<and> (of_char c :: nat) \<le> 126"

lemma ws_len_graphic: "graphic c \<Longrightarrow> ws_len (c # s) = 0"
  by (auto simp: ws_len_def graphic_def split: list.splits)

lemma ws_suffix_graphic:
  assumes "\<forall>c \<in> set s. graphic c"
  shows "ws_suffix s = 0"
proof -
  have "ws_len (drop k s) = 0" for k
    using assms by (cases "drop k s") (auto intro!: ws_len_graphic dest: in_set_dropD
        simp flip: set_ConsD, metis in_set_dropD list.set_intros(1))
  then show ?thesis by (simp add: ws_suffix_def)
qed

lemma trim_graphic: "\<forall>c \<in> set s. graphic c \<Longrightarrow> trim s = s"
proof -
  assume g: "\<forall>c \<in> set s. graphic c"
  then have "ws_len s = 0"
    by (cases s) (auto intro: ws_len_graphic)
  then have "trim_start s = s" by (subst trim_start.simps) simp
  moreover have "trim_end s = s"
    using g by (subst trim_end.simps) (simp add: ws_suffix_graphic)
  ultimately show ?thesis by (simp add: trim_def)
qed

section \<open>Decimal numbers\<close>

text \<open>\<open>to_string\<close> of unsigned and signed integers.\<close>

definition digit_char :: "nat \<Rightarrow> char" where
  "digit_char d = char_of (48 + d)"

fun nat_str :: "nat \<Rightarrow> string" where
  "nat_str n = (if n < 10 then [digit_char n] else nat_str (n div 10) @ [digit_char (n mod 10)])"

declare nat_str.simps [simp del]

definition int_str :: "int \<Rightarrow> string" where
  "int_str i = (if i < 0 then CHR ''-'' # nat_str (nat (- i)) else nat_str (nat i))"

text \<open>
  \<open>str::parse\<close> to an unsigned type with largest value \<open>mx\<close>: an optional plus sign, at least one
  digit, nothing else, and no overflow. A value above \<open>mx\<close> is the overflow the standard
  library reports, since the value read so far never decreases.
\<close>

definition is_digit :: "char \<Rightarrow> bool" where
  "is_digit c \<longleftrightarrow> 48 \<le> (of_char c :: nat) \<and> (of_char c :: nat) \<le> 57"

fun dec_val :: "nat \<Rightarrow> string \<Rightarrow> nat option" where
  "dec_val acc [] = Some acc"
| "dec_val acc (c # cs) =
     (if is_digit c then dec_val (10 * acc + (of_char c - 48)) cs else None)"

definition parse_uint :: "nat \<Rightarrow> string \<Rightarrow> nat option" where
  "parse_uint mx s =
     (let ds = (case s of c # r \<Rightarrow> if c = CHR ''+'' then r else s | [] \<Rightarrow> s)
      in if ds = [] then None
         else (case dec_val 0 ds of
                 Some v \<Rightarrow> if v \<le> mx then Some v else None
               | None \<Rightarrow> None))"

lemma of_char_digit_char: "d < 10 \<Longrightarrow> of_char (digit_char d) = 48 + d"
  by (simp add: digit_char_def)

lemma is_digit_digit_char: "d < 10 \<Longrightarrow> is_digit (digit_char d)"
  by (simp add: is_digit_def of_char_digit_char)

lemma digit_graphic: "is_digit c \<Longrightarrow> graphic c"
  by (simp add: is_digit_def graphic_def)

lemma nat_str_digits: "\<forall>c \<in> set (nat_str n). is_digit c"
proof (induction n rule: nat_str.induct)
  case (1 n)
  then show ?case
    by (subst nat_str.simps) (auto simp: is_digit_digit_char)
qed

lemma nat_str_not_Nil [simp]: "nat_str n \<noteq> []"
  by (subst nat_str.simps) simp

lemma dec_val_append:
  "dec_val acc (s @ t) = (case dec_val acc s of Some v \<Rightarrow> dec_val v t | None \<Rightarrow> None)"
  by (induction s arbitrary: acc) auto

lemma dec_val_nat_str: "dec_val 0 (nat_str n) = Some n"
proof (induction n rule: nat_str.induct)
  case (1 n)
  show ?case
  proof (cases "n < 10")
    case True
    then show ?thesis
      by (subst nat_str.simps) (simp add: is_digit_digit_char of_char_digit_char)
  next
    case False
    with "1.IH" have "dec_val 0 (nat_str (n div 10)) = Some (n div 10)" by simp
    with False show ?thesis
      by (subst nat_str.simps)
         (simp add: dec_val_append is_digit_digit_char of_char_digit_char)
  qed
qed

lemma nat_str_inj: "nat_str m = nat_str n \<Longrightarrow> m = n"
  by (metis dec_val_nat_str option.inject)

lemma nat_str_inject [simp]: "nat_str m = nat_str n \<longleftrightarrow> m = n"
  by (auto dest: nat_str_inj)

lemma nat_str_no_sign: "nat_str n \<noteq> CHR ''-'' # s" "nat_str n \<noteq> CHR ''+'' # s"
  using nat_str_digits [of n] by (auto simp: is_digit_def)

lemma int_str_inject [simp]: "int_str i = int_str j \<longleftrightarrow> i = j"
  using nat_str_no_sign by (auto simp: int_str_def) (metis nat_str_no_sign(1))+

lemma int_str_not_Nil [simp]: "int_str i \<noteq> []"
  by (simp add: int_str_def)

lemma int_str_chars: "c \<in> set (int_str i) \<Longrightarrow> is_digit c \<or> c = CHR ''-''"
  using nat_str_digits by (auto simp: int_str_def split: if_splits)

lemma parse_uint_nat_str: "n \<le> mx \<Longrightarrow> parse_uint mx (nat_str n) = Some n"
proof -
  assume le: "n \<le> mx"
  obtain c r where cr: "nat_str n = c # r" by (cases "nat_str n") auto
  then have "c \<noteq> CHR ''+''" using nat_str_no_sign(2) by metis
  with cr have "parse_uint mx (nat_str n) =
      (case dec_val 0 (nat_str n) of Some v \<Rightarrow> if v \<le> mx then Some v else None | None \<Rightarrow> None)"
    by (simp only: parse_uint_def Let_def list.case if_False list.distinct)
  with le show ?thesis by (simp add: dec_val_nat_str)
qed

lemma parse_uint_le: "parse_uint mx s = Some n \<Longrightarrow> n \<le> mx"
  by (auto simp: parse_uint_def Let_def split: if_splits option.splits list.splits)

section \<open>Big-endian encoding\<close>

text \<open>\<open>to_be_bytes\<close> of a \<open>k\<close>-byte integer, and the value of a byte string read big-endian.\<close>

fun be_bytes :: "nat \<Rightarrow> nat \<Rightarrow> bytes" where
  "be_bytes 0 n = []"
| "be_bytes (Suc k) n = be_bytes k (n div 256) @ [word_of_nat (n mod 256)]"

definition be_val :: "bytes \<Rightarrow> nat" where
  "be_val bs = foldl (\<lambda>v b. 256 * v + unat b) 0 bs"

lemma length_be_bytes [simp]: "length (be_bytes k n) = k"
  by (induction k arbitrary: n) auto

lemma be_val_snoc [simp]: "be_val (bs @ [b]) = 256 * be_val bs + unat b"
  by (simp add: be_val_def)

lemma be_val_Nil [simp]: "be_val [] = 0"
  by (simp add: be_val_def)

lemma be_val_be_bytes: "be_val (be_bytes k n) = n mod 256 ^ k"
proof (induction k arbitrary: n)
  case 0
  then show ?case by simp
next
  case (Suc k)
  have "unat (word_of_nat (n mod 256) :: byte) = n mod 256"
    by (simp add: unat_of_nat)
  with Suc show ?case
    by (simp add: mod_mult2_eq)
qed

lemma be_bytes_inj: "m < 256 ^ k \<Longrightarrow> n < 256 ^ k \<Longrightarrow> be_bytes k m = be_bytes k n \<Longrightarrow> m = n"
  by (metis be_val_be_bytes mod_less)

lemma be_bytes_0 [simp]: "be_bytes k 0 = replicate k 0"
  by (induction k) (auto simp: replicate_append_same)

lemma be_bytes_leading_zeros:
  "n < 256 ^ k \<Longrightarrow> be_bytes (j + k) n = replicate j 0 @ be_bytes k n"
proof (induction k arbitrary: n)
  case 0
  then show ?case by simp
next
  case (Suc k)
  then have "n div 256 < 256 ^ k" by (simp add: less_mult_imp_div_less mult.commute)
  with Suc.IH show ?case by simp
qed

section \<open>Hash maps\<close>

text \<open>
  A \<open>HashMap\<close> is an association list with distinct keys; the order of the list stands for the
  (unspecified) order in which the map iterates.
\<close>

type_synonym ('k, 'v) hmap = "('k \<times> 'v) list"

definition hm_wf :: "('k, 'v) hmap \<Rightarrow> bool" where
  "hm_wf m \<longleftrightarrow> distinct (map fst m)"

definition hm_get :: "('k, 'v) hmap \<Rightarrow> 'k \<Rightarrow> 'v option" where
  "hm_get m k = map_of m k"

definition hm_insert :: "'k \<Rightarrow> 'v \<Rightarrow> ('k, 'v) hmap \<Rightarrow> ('k, 'v) hmap" where
  "hm_insert k v m = AList.update k v m"

definition hm_remove :: "'k \<Rightarrow> ('k, 'v) hmap \<Rightarrow> ('k, 'v) hmap" where
  "hm_remove k m = AList.delete k m"

definition hm_values :: "('k, 'v) hmap \<Rightarrow> 'v list" where
  "hm_values m = map snd m"

text \<open>What the users of a map rely on.\<close>

locale keyed_store =
  fixes wf :: "'m \<Rightarrow> bool"
    and empty :: 'm
    and get :: "'m \<Rightarrow> 'k \<Rightarrow> 'v option"
    and put :: "'k \<Rightarrow> 'v \<Rightarrow> 'm \<Rightarrow> 'm"
    and del :: "'k \<Rightarrow> 'm \<Rightarrow> 'm"
    and vals :: "'m \<Rightarrow> 'v list"
  assumes wf_empty: "wf empty"
    and wf_put: "wf m \<Longrightarrow> wf (put k v m)"
    and wf_del: "wf m \<Longrightarrow> wf (del k m)"
    and get_empty: "get empty k = None"
    and get_put: "get (put k v m) = (get m)(k \<mapsto> v)"
    and get_del: "get (del k m) = (get m)(k := None)"
    and vals_get: "wf m \<Longrightarrow> v \<in> set (vals m) \<longleftrightarrow> (\<exists>k. get m k = Some v)"
begin

lemma get_put_same: "get (put k v m) k = Some v"
  by (simp add: get_put)

lemma get_put_other: "k \<noteq> j \<Longrightarrow> get (put k v m) j = get m j"
  by (simp add: get_put)

lemma get_del_same: "get (del k m) k = None"
  by (simp add: get_del)

lemma get_del_other: "k \<noteq> j \<Longrightarrow> get (del k m) j = get m j"
  by (simp add: get_del)

lemma put_in_vals: "wf m \<Longrightarrow> v \<in> set (vals (put k v m))"
  using get_put_same wf_put vals_get by metis

lemma vals_putD: "wf m \<Longrightarrow> w \<in> set (vals (put k v m)) \<Longrightarrow> w = v \<or> w \<in> set (vals m)"
  by (auto simp: vals_get wf_put get_put split: if_splits)

lemma vals_delD: "wf m \<Longrightarrow> w \<in> set (vals (del k m)) \<Longrightarrow> w \<in> set (vals m)"
  by (auto simp: vals_get wf_del get_del split: if_splits)

text \<open>A predicate on entries that every stored value satisfies.\<close>

definition all_entries :: "('k \<Rightarrow> 'v \<Rightarrow> bool) \<Rightarrow> 'm \<Rightarrow> bool" where
  "all_entries P m \<longleftrightarrow> (\<forall>k v. get m k = Some v \<longrightarrow> P k v)"

lemma all_entries_empty: "all_entries P empty"
  by (simp add: all_entries_def get_empty)

lemma all_entries_put: "all_entries P m \<Longrightarrow> P k v \<Longrightarrow> all_entries P (put k v m)"
  by (simp add: all_entries_def get_put)

lemma all_entries_del: "all_entries P m \<Longrightarrow> all_entries P (del k m)"
  by (simp add: all_entries_def get_del)

end

interpretation hm: keyed_store hm_wf "[]" hm_get hm_insert hm_remove hm_values
proof
  fix m :: "('a, 'b) hmap" and k v
  show "hm_wf m \<Longrightarrow> hm_wf (hm_insert k v m)"
    by (simp add: hm_wf_def hm_insert_def distinct_update)
  show "hm_wf m \<Longrightarrow> hm_wf (hm_remove k m)"
    by (simp add: hm_wf_def hm_remove_def distinct_delete)
  show "hm_get (hm_insert k v m) = (hm_get m)(k \<mapsto> v)"
    by (simp add: hm_get_def hm_insert_def update_conv' fun_eq_iff)
  show "hm_get (hm_remove k m) = (hm_get m)(k := None)"
    by (simp add: hm_get_def hm_remove_def delete_conv' fun_eq_iff)
  show "hm_wf m \<Longrightarrow> v \<in> set (hm_values m) \<longleftrightarrow> (\<exists>k. hm_get m k = Some v)"
    by (force simp: hm_wf_def hm_values_def hm_get_def)
qed (simp_all add: hm_wf_def hm_get_def)

lemmas hm_simps = hm.get_put hm.get_del hm.get_empty

text \<open>Inserting a list of entries with distinct keys, one after the other.\<close>

lemma hm_insert_all_get:
  assumes "distinct (map fst ps)"
  shows "hm_get (foldl (\<lambda>p (k, v). hm_insert k v p) m ps) k = (case map_of ps k of Some v \<Rightarrow> Some v | None \<Rightarrow> hm_get m k)"
  using assms
proof (induction ps arbitrary: m)
  case Nil
  then show ?case by simp
next
  case (Cons p ps)
  then have "map_of ps (fst p) = None" by (simp add: map_of_eq_None_iff)
  with Cons show ?case by (auto simp: case_prod_beta hm.get_put split: option.split)
qed

lemma hm_insert_all_wf: "hm_wf m \<Longrightarrow> hm_wf (foldl (\<lambda>p (k, v). hm_insert k v p) m ps)"
  by (induction ps arbitrary: m) (auto simp: hm.wf_put case_prod_beta)

end
