(* ===== verification/Pin_Noob.thy ===== *)
theory Pin_Noob
  imports Prelude
begin

text \<open>
  The six-digit PIN and its encoding as a 16-byte out-of-band nonce
  (crates/pair-pairing/src/pin.rs), and the PIN that the inviter mints
  (\<open>mint_pin\<close>, crates/pair-cluster/src/node.rs).
\<close>

definition is_valid_pin :: "string \<Rightarrow> bool" where
  "is_valid_pin pin \<longleftrightarrow> length pin = 6 \<and> list_all is_digit pin"

definition noob_from_pin :: "string \<Rightarrow> bytes" where
  "noob_from_pin pin =
     be_bytes 16 (case parse_uint (2 ^ 128 - 1) pin of Some v \<Rightarrow> v | None \<Rightarrow> 0)"

text \<open>\<open>{:06}\<close>: decimal, padded with zeros on the left to at least six digits.\<close>

definition mint_pin :: "nat \<Rightarrow> string" where
  "mint_pin n = replicate (6 - length (nat_str n)) CHR ''0'' @ nat_str n"

lemma length_noob_from_pin [simp]: "length (noob_from_pin pin) = 16"
  by (simp add: noob_from_pin_def)

lemma noob_from_pin_not_Nil [simp]: "noob_from_pin pin \<noteq> []"
  by (metis length_noob_from_pin list.size(3) zero_neq_numeral)

text \<open>The value of a digit string.\<close>

lemma dec_val_digits:
  "list_all is_digit s \<Longrightarrow> \<exists>v. dec_val acc s = Some v \<and> acc * 10 ^ length s \<le> v
     \<and> v < (acc + 1) * 10 ^ length s"
proof (induction s arbitrary: acc)
  case Nil
  then show ?case by simp
next
  case (Cons c s)
  let ?d = "of_char c - 48 :: nat"
  have d: "?d < 10" using Cons.prems by (auto simp: is_digit_def)
  from Cons obtain v where v: "dec_val (10 * acc + ?d) s = Some v"
    "(10 * acc + ?d) * 10 ^ length s \<le> v" "v < (10 * acc + ?d + 1) * 10 ^ length s"
    by auto
  have "(10 * acc + ?d + 1) * 10 ^ length s \<le> (10 * (acc + 1)) * 10 ^ length s"
    using d by (intro mult_right_mono) auto
  moreover have "(10 * acc) * 10 ^ length s \<le> (10 * acc + ?d) * 10 ^ length s"
    by (intro mult_right_mono) auto
  ultimately have "acc * 10 ^ length (c # s) \<le> v" "v < (acc + 1) * 10 ^ length (c # s)"
    using v(2,3) by (simp_all add: algebra_simps)
  with v(1) Cons.prems show ?case by simp
qed

lemma dec_val_inj:
  "list_all is_digit s \<Longrightarrow> list_all is_digit t \<Longrightarrow> length s = length t \<Longrightarrow>
   dec_val a s = dec_val b t \<Longrightarrow> a = b \<and> s = t"
proof (induction s arbitrary: t a b)
  case Nil
  then show ?case by simp
next
  case (Cons c s)
  then obtain d t' where t: "t = d # t'" by (cases t) auto
  let ?v = "\<lambda>c. of_char c - 48 :: nat"
  have "10 * a + ?v c = 10 * b + ?v d \<and> s = t'"
    using Cons.prems t by (intro Cons.IH) auto
  then have eq: "10 * a + ?v c = 10 * b + ?v d" "s = t'" by simp_all
  have "?v c < 10" "?v d < 10" "48 \<le> (of_char c :: nat)" "48 \<le> (of_char d :: nat)"
    using Cons.prems t by (auto simp: is_digit_def)
  note b = this
  with eq(1) have ab: "a = b" by linarith
  with b eq(1) have "(of_char c :: nat) = of_char d" by linarith
  with ab eq(2) show ?case by (simp add: t)
qed

lemma digits_no_plus: "list_all is_digit s \<Longrightarrow> s \<noteq> CHR ''+'' # r"
  by (auto simp: is_digit_def)

lemma parse_uint_digits:
  "list_all is_digit s \<Longrightarrow> s \<noteq> [] \<Longrightarrow> dec_val 0 s = Some v \<Longrightarrow> v \<le> mx \<Longrightarrow> parse_uint mx s = Some v"
  using digits_no_plus by (auto simp: parse_uint_def Let_def split: list.splits)

lemma valid_pin_value:
  assumes "is_valid_pin pin"
  obtains v where "dec_val 0 pin = Some v" "v < 10 ^ 6"
    "parse_uint (2 ^ 128 - 1) pin = Some v" "noob_from_pin pin = be_bytes 16 v"
proof -
  from assms have d: "list_all is_digit pin" "length pin = 6"
    by (simp_all add: is_valid_pin_def)
  obtain v where v: "dec_val 0 pin = Some v" "v < (0 + 1) * 10 ^ length pin"
    using dec_val_digits [OF d(1), of 0] by auto
  moreover from v d(2) have le: "v < 10 ^ 6" by simp
  moreover from d have "pin \<noteq> []" by auto
  ultimately have "parse_uint (2 ^ 128 - 1) pin = Some v"
    using d by (intro parse_uint_digits) auto
  with v le that show thesis by (simp add: noob_from_pin_def)
qed

lemma mint_pin_digits: "list_all is_digit (mint_pin n)"
  using nat_str_digits by (auto simp: mint_pin_def list_all_iff is_digit_def)

lemma dec_val_zeros: "dec_val 0 (replicate k CHR ''0'' @ s) = dec_val 0 s"
  by (induction k) (simp_all add: is_digit_def)

lemma length_nat_str: "0 < k \<Longrightarrow> n < 10 ^ k \<Longrightarrow> length (nat_str n) \<le> k"
proof (induction k arbitrary: n)
  case (Suc k)
  show ?case
  proof (cases "n < 10")
    case True
    then show ?thesis by (subst nat_str.simps) simp
  next
    case False
    with Suc.prems have "n div 10 < 10 ^ k" "0 < k"
      by (auto simp: less_mult_imp_div_less mult.commute intro: gr0I)
    with Suc.IH False show ?thesis by (subst nat_str.simps) simp
  qed
qed simp

lemma length_mint_pin: "n < 1000000 \<Longrightarrow> length (mint_pin n) = 6"
  using length_nat_str [of 6 n] by (simp add: mint_pin_def)

lemma mint_pin_valid: "n < 1000000 \<Longrightarrow> is_valid_pin (mint_pin n)"
  by (simp add: is_valid_pin_def length_mint_pin mint_pin_digits)

text \<open>
  Two well-formed PINs have the same Noob exactly when they are the same PIN: the 16-byte
  encoding loses nothing, leading zeros included.
\<close>
theorem noob_from_pin_inj:
  assumes "is_valid_pin p" and "is_valid_pin q"
  shows "noob_from_pin p = noob_from_pin q \<longleftrightarrow> p = q"
proof
  assume eq: "noob_from_pin p = noob_from_pin q"
  obtain v where v: "dec_val 0 p = Some v" "v < 10 ^ 6" "noob_from_pin p = be_bytes 16 v"
    using assms(1) by (rule valid_pin_value)
  obtain w where w: "dec_val 0 q = Some w" "w < 10 ^ 6" "noob_from_pin q = be_bytes 16 w"
    using assms(2) by (rule valid_pin_value)
  have "v = w" using eq v w by (intro be_bytes_inj [of v 16 w]) simp_all
  with v w assms show "p = q"
    by (metis dec_val_inj is_valid_pin_def)
qed simp

theorem noob_from_pin_inj_witness:
  "noob_from_pin ''000123'' = noob_from_pin ''000124'' \<longleftrightarrow> ''000123'' = ''000124''"
  by (rule noob_from_pin_inj) (simp_all add: is_valid_pin_def is_digit_def)

lemma mint_pin_be: "n < 1000000 \<Longrightarrow> noob_from_pin (mint_pin n) = be_bytes 16 n"
proof -
  assume n: "n < 1000000"
  have "dec_val 0 (mint_pin n) = Some n"
    by (simp add: mint_pin_def dec_val_zeros dec_val_nat_str)
  with valid_pin_value [OF mint_pin_valid [OF n]] show ?thesis by (metis option.inject)
qed

text \<open>
  The PIN that the inviter mints from a random number below a million is well formed, and
  its Noob is that number, big-endian, in the last three of the sixteen bytes.
\<close>
theorem mint_pin_noob:
  assumes "n < 1000000"
  shows "is_valid_pin (mint_pin n) \<and>
         noob_from_pin (mint_pin n) = replicate 13 0 @ be_bytes 3 n"
proof -
  have "noob_from_pin (mint_pin n) = be_bytes (13 + 3) n"
    using mint_pin_be [OF assms] by simp
  also have "\<dots> = replicate 13 0 @ be_bytes 3 n"
    by (rule be_bytes_leading_zeros) (use assms in simp)
  finally show ?thesis using mint_pin_valid [OF assms] by simp
qed

theorem mint_pin_noob_witness:
  "is_valid_pin (mint_pin 123456) \<and>
   noob_from_pin (mint_pin 123456) = replicate 13 0 @ be_bytes 3 123456"
  by (rule mint_pin_noob) simp

end
