(* ===== verification/Crates.thy ===== *)
theory Crates
  imports Prelude
begin

text \<open>
  The third-party crates the pairing code computes with (sha2, hmac, x25519-dalek, p256,
  base64), as the fields of a record that every definition takes as an argument, and what
  their documentation promises, as the predicate \<open>crypto_ok\<close>.
\<close>

record crypto =
  sha256 :: "bytes \<Rightarrow> bytes" \<comment> \<open>sha2\<close>
  hmac_sha256 :: "bytes \<Rightarrow> bytes \<Rightarrow> bytes" \<comment> \<open>hmac: key, data\<close>
  x25519_secret :: "bytes \<Rightarrow> bytes" \<comment> \<open>\<open>StaticSecret::random_from_rng\<close> of the drawn bytes\<close>
  x25519_public :: "bytes \<Rightarrow> bytes"
  x25519_dh :: "bytes \<Rightarrow> bytes \<Rightarrow> bytes"
  p256_secret :: "bytes \<Rightarrow> bytes"
  p256_public :: "bytes \<Rightarrow> bytes \<times> bytes" \<comment> \<open>the affine coordinates\<close>
  p256_dh :: "bytes \<Rightarrow> bytes \<Rightarrow> bytes option"
    \<comment> \<open>secret and SEC1 point; \<open>None\<close> when the point does not decode or is not on the curve\<close>
  b64url_encode :: "bytes \<Rightarrow> string" \<comment> \<open>\<open>URL_SAFE_NO_PAD\<close>\<close>
  b64url_decode :: "string \<Rightarrow> bytes option"
  b64_encode :: "bytes \<Rightarrow> string" \<comment> \<open>\<open>STANDARD\<close>\<close>
  b64_decode :: "string \<Rightarrow> bytes option"

definition p256_sec1 :: "bytes \<times> bytes \<Rightarrow> bytes" where
  "p256_sec1 xy = 4 # fst xy @ snd xy"

definition crypto_ok :: "crypto \<Rightarrow> bool" where
  "crypto_ok C \<longleftrightarrow>
     (\<forall>d. length (sha256 C d) = 32) \<and>
     (\<forall>k d. length (hmac_sha256 C k d) = 32) \<and>
     (\<forall>a. length (x25519_public C (x25519_secret C a)) = 32) \<and>
     (\<forall>a b. x25519_dh C (x25519_secret C a) (x25519_public C (x25519_secret C b))
          = x25519_dh C (x25519_secret C b) (x25519_public C (x25519_secret C a))) \<and>
     (\<forall>a b. \<exists>z. p256_dh C (p256_secret C a) (p256_sec1 (p256_public C (p256_secret C b))) = Some z \<and>
               p256_dh C (p256_secret C b) (p256_sec1 (p256_public C (p256_secret C a))) = Some z) \<and>
     (\<forall>d. b64url_decode C (b64url_encode C d) = Some d) \<and>
     (\<forall>d. b64_decode C (b64_encode C d) = Some d) \<and>
     (\<forall>d. b64_encode C d = [] \<longleftrightarrow> d = [])"

lemma crypto_okD [codec_laws]:
  assumes "crypto_ok C"
  shows "length (sha256 C d) = 32"
    and "length (hmac_sha256 C k d) = 32"
    and "length (x25519_public C (x25519_secret C a)) = 32"
    and "b64url_decode C (b64url_encode C d) = Some d"
    and "b64_decode C (b64_encode C d) = Some d"
    and "b64_encode C d = [] \<longleftrightarrow> d = []"
  using assms by (simp_all add: crypto_ok_def)

lemma x25519_agree:
  "crypto_ok C \<Longrightarrow>
   x25519_dh C (x25519_secret C a) (x25519_public C (x25519_secret C b)) =
   x25519_dh C (x25519_secret C b) (x25519_public C (x25519_secret C a))"
  by (simp add: crypto_ok_def)

lemma p256_agree:
  "crypto_ok C \<Longrightarrow> \<exists>z.
   p256_dh C (p256_secret C a) (p256_sec1 (p256_public C (p256_secret C b))) = Some z \<and>
   p256_dh C (p256_secret C b) (p256_sec1 (p256_public C (p256_secret C a))) = Some z"
  by (simp add: crypto_ok_def)

section \<open>A concrete instance\<close>

text \<open>
  Stand-ins that satisfy the promises, for the witnesses: a hash that keeps the last bytes
  of its input, a keyed variant, an exclusive-or key agreement, and encodings that map
  bytes to characters one to one.
\<close>

definition demo_hash :: "bytes \<Rightarrow> bytes" where
  "demo_hash d = take 32 (rev d @ replicate 32 0)"

definition demo_xor :: "bytes \<Rightarrow> bytes \<Rightarrow> bytes" where
  "demo_xor a b = map (\<lambda>(x, y). xor x y) (zip a b)"

definition demo_secret :: "bytes \<Rightarrow> bytes" where
  "demo_secret d = take 32 (d @ replicate 32 0)"

definition demo_chars :: "bytes \<Rightarrow> string" where
  "demo_chars d = map (\<lambda>b. char_of (unat b)) d"

definition demo_crypto :: crypto where
  "demo_crypto = \<lparr>
     sha256 = demo_hash,
     hmac_sha256 = (\<lambda>k d. demo_hash (k @ d)),
     x25519_secret = demo_secret,
     x25519_public = (\<lambda>s. s),
     x25519_dh = demo_xor,
     p256_secret = demo_secret,
     p256_public = (\<lambda>s. (s, s)),
     p256_dh = (\<lambda>s p. Some (demo_xor s (take 32 (tl p)))),
     b64url_encode = demo_chars,
     b64url_decode = (\<lambda>s. Some (str_bytes s)),
     b64_encode = demo_chars,
     b64_decode = (\<lambda>s. Some (str_bytes s))\<rparr>"

lemma unat_byte_mod [simp]: "unat (b :: byte) mod 256 = unat b"
  using unsigned_less [of b, where 'a = nat] by simp

lemma str_bytes_demo_chars [simp]: "str_bytes (demo_chars d) = d"
  by (simp add: str_bytes_def demo_chars_def comp_def)

lemma demo_chars_eq_Nil [simp]: "demo_chars d = [] \<longleftrightarrow> d = []"
  by (simp add: demo_chars_def)

lemma demo_xor_commute: "demo_xor a b = demo_xor b a"
proof (induction a arbitrary: b)
  case Nil
  then show ?case by (simp add: demo_xor_def)
next
  case (Cons x a)
  then show ?case
    by (cases b) (auto simp: demo_xor_def xor.commute)
qed

lemma length_demo_hash [simp]: "length (demo_hash d) = 32"
  by (simp add: demo_hash_def)

lemma length_demo_secret [simp]: "length (demo_secret d) = 32"
  by (simp add: demo_secret_def)

lemma demo_crypto_simps [simp]:
  "sha256 demo_crypto = demo_hash"
  "hmac_sha256 demo_crypto = (\<lambda>k d. demo_hash (k @ d))"
  "x25519_secret demo_crypto = demo_secret"
  "x25519_public demo_crypto = (\<lambda>s. s)"
  "x25519_dh demo_crypto = demo_xor"
  "p256_secret demo_crypto = demo_secret"
  "p256_public demo_crypto = (\<lambda>s. (s, s))"
  "p256_dh demo_crypto = (\<lambda>s p. Some (demo_xor s (take 32 (tl p))))"
  "b64url_encode demo_crypto = demo_chars"
  "b64url_decode demo_crypto = (\<lambda>s. Some (str_bytes s))"
  "b64_encode demo_crypto = demo_chars"
  "b64_decode demo_crypto = (\<lambda>s. Some (str_bytes s))"
  by (simp_all add: demo_crypto_def)

lemma demo_crypto_ok: "crypto_ok demo_crypto"
  unfolding crypto_ok_def demo_crypto_simps
proof (intro conjI allI)
  fix a b
  show "demo_xor (demo_secret a) (demo_secret b) = demo_xor (demo_secret b) (demo_secret a)"
    by (rule demo_xor_commute)
  show "\<exists>z. Some (demo_xor (demo_secret a) (take 32 (tl (p256_sec1 (demo_secret b, demo_secret b))))) = Some z \<and>
            Some (demo_xor (demo_secret b) (take 32 (tl (p256_sec1 (demo_secret a, demo_secret a))))) = Some z"
    using demo_xor_commute [of "demo_secret a" "demo_secret b"] by (simp add: p256_sec1_def)
qed simp_all

end
