(* ===== verification/Suite.thy ===== *)
theory Suite
  imports Crates
begin

text \<open>
  The two EAP-NOOB cryptosuites, the JWK form of a public key, key generation and the shared
  secret \<open>Z\<close> (crates/pair-pairing/src/suite.rs). Key generation takes the random bytes it
  draws as an argument.
\<close>

datatype suite = X25519 | P256

fun suite_from_id :: "8 word \<Rightarrow> suite option" where
  "suite_from_id n = (if n = 1 then Some X25519 else if n = 2 then Some P256 else None)"

fun suite_id :: "suite \<Rightarrow> 8 word" where
  "suite_id X25519 = 1"
| "suite_id P256 = 2"

record jwk =
  kty :: string
  crv :: string
  jx :: string
  jy :: "string option"

datatype secret_key = SkX25519 bytes | SkP256 bytes

record key_pair =
  secret :: secret_key
  public_jwk :: jwk

fun generate :: "crypto \<Rightarrow> suite \<Rightarrow> bytes \<Rightarrow> key_pair" where
  "generate C X25519 rnd =
     (let sk = x25519_secret C rnd
      in \<lparr>secret = SkX25519 sk,
          public_jwk = \<lparr>kty = ''OKP'', crv = ''X25519'',
                        jx = b64url_encode C (x25519_public C sk), jy = None\<rparr>\<rparr>)"
| "generate C P256 rnd =
     (let sk = p256_secret C rnd; (x, y) = p256_public C sk
      in \<lparr>secret = SkP256 sk,
          public_jwk = \<lparr>kty = ''EC'', crv = ''P-256'',
                        jx = b64url_encode C x, jy = Some (b64url_encode C y)\<rparr>\<rparr>)"

text \<open>The ways in which \<open>compute_z\<close> returns an error.\<close>

datatype z_error = NotX25519 | BadX25519Len | NotP256 | MissingY | BadBase64 | InvalidPoint

fun compute_z :: "crypto \<Rightarrow> key_pair \<Rightarrow> jwk \<Rightarrow> z_error + bytes" where
  "compute_z C kp peer =
     (case secret kp of
        SkX25519 sk \<Rightarrow>
          if \<not> (kty peer = ''OKP'' \<and> crv peer = ''X25519'') then Inl NotX25519
          else (case b64url_decode C (jx peer) of
              None \<Rightarrow> Inl BadBase64
            | Some xb \<Rightarrow>
                if length xb \<noteq> 32 then Inl BadX25519Len
                else Inr (x25519_dh C sk xb))
      | SkP256 sk \<Rightarrow>
          if \<not> (kty peer = ''EC'' \<and> crv peer = ''P-256'') then Inl NotP256
          else (case b64url_decode C (jx peer) of
              None \<Rightarrow> Inl BadBase64
            | Some x \<Rightarrow>
                (case jy peer of
                   None \<Rightarrow> Inl MissingY
                 | Some ys \<Rightarrow>
                     (case b64url_decode C ys of
                        None \<Rightarrow> Inl BadBase64
                      | Some y \<Rightarrow>
                          (case p256_dh C sk (4 # x @ y) of
                             None \<Rightarrow> Inl InvalidPoint
                           | Some z \<Rightarrow> Inr z)))))"

lemma suite_from_id_id [simp]: "suite_from_id (suite_id s) = Some s"
  by (cases s) simp_all

lemma suite_from_id_Some: "suite_from_id n = Some s \<longleftrightarrow> n = suite_id s"
  by (cases s) auto

lemma same_suite_agree:
  assumes "crypto_ok C"
  shows "\<exists>z. compute_z C (generate C s a) (public_jwk (generate C s b)) = Inr z \<and>
             compute_z C (generate C s b) (public_jwk (generate C s a)) = Inr z"
proof (cases s)
  case X25519
  then show ?thesis
    using crypto_okD [OF assms] x25519_agree [OF assms, of a b] by (simp add: Let_def)
next
  case P256
  obtain z where
    "p256_dh C (p256_secret C a) (p256_sec1 (p256_public C (p256_secret C b))) = Some z"
    "p256_dh C (p256_secret C b) (p256_sec1 (p256_public C (p256_secret C a))) = Some z"
    using p256_agree [OF assms] by blast
  then show ?thesis
    using P256 crypto_okD [OF assms] by (simp add: Let_def p256_sec1_def case_prod_beta)
qed

lemma other_suite_error:
  "s \<noteq> t \<Longrightarrow> \<exists>e. compute_z C (generate C s a) (public_jwk (generate C t b)) = Inl e"
  by (cases s; cases t) (simp_all add: Let_def split: prod.splits)

text \<open>
  The two sides of a key agreement compute the same secret in each cryptosuite, from the
  JWK the other side published; across the two suites both sides get an error.
\<close>
theorem key_agreement:
  assumes "crypto_ok C"
  shows "if s = t
         then \<exists>z. compute_z C (generate C s a) (public_jwk (generate C t b)) = Inr z \<and>
                  compute_z C (generate C t b) (public_jwk (generate C s a)) = Inr z
         else \<exists>e. compute_z C (generate C s a) (public_jwk (generate C t b)) = Inl e"
  using same_suite_agree [OF assms, of s a b] other_suite_error [of s t C a b] by auto

theorem key_agreement_witness:
  "(\<exists>z. compute_z demo_crypto (generate demo_crypto P256 [1]) (public_jwk (generate demo_crypto P256 [2])) = Inr z \<and>
        compute_z demo_crypto (generate demo_crypto P256 [2]) (public_jwk (generate demo_crypto P256 [1])) = Inr z) \<and>
   (\<exists>e. compute_z demo_crypto (generate demo_crypto P256 [1]) (public_jwk (generate demo_crypto X25519 [2])) = Inl e)"
  using key_agreement [OF demo_crypto_ok, of P256 P256 "[1]" "[2]"]
    key_agreement [OF demo_crypto_ok, of P256 X25519 "[1]" "[2]"]
  by (simp only: if_True if_False suite.distinct simp_thms)

lemma compute_z_suite:
  "compute_z C (generate C s a) jw = Inr z \<Longrightarrow>
   (s = X25519 \<longrightarrow> kty jw = ''OKP'' \<and> crv jw = ''X25519'' \<and>
      (\<exists>xb. b64url_decode C (jx jw) = Some xb \<and> length xb = 32)) \<and>
   (s = P256 \<longrightarrow> kty jw = ''EC'' \<and> crv jw = ''P-256'' \<and> jy jw \<noteq> None)"
  by (cases s) (auto simp: Let_def split: if_splits option.splits prod.splits)

declare compute_z.simps [simp del] generate.simps [simp del] suite_from_id.simps [simp del]

end
