(* ===== verification/Kdf.thy ===== *)
theory Kdf
  imports Crates
begin

text \<open>
  The one-step key derivation of NIST SP 800-56C and the split of its 320 bytes into the named
  EAP-NOOB keys (crates/pair-pairing/src/kdf.rs). The loop is an \<open>option\<close>-valued partial
  function: \<open>None\<close> is "does not end".
\<close>

definition EAPNOOB_OUTPUT_LEN :: nat where "EAPNOOB_OUTPUT_LEN = 320"

definition ALGORITHM_ID :: bytes where "ALGORITHM_ID = str_bytes ''EAP-NOOB''"

record derived_keys =
  msk :: bytes
  emsk :: bytes
  amsk :: bytes
  method_id :: bytes
  kms :: bytes
  kmp :: bytes
  kz :: bytes

definition eapnoob_fixed_info :: "bytes \<Rightarrow> bytes \<Rightarrow> bytes \<Rightarrow> bytes" where
  "eapnoob_fixed_info np ns noob =
     ALGORITHM_ID @ np @ ns @ [word_of_nat (length noob)] @ noob"

text \<open>One block: the hash of the big-endian counter, \<open>z\<close> and the fixed info.\<close>

definition kdf_block :: "crypto \<Rightarrow> bytes \<Rightarrow> bytes \<Rightarrow> 32 word \<Rightarrow> bytes" where
  "kdf_block C z fi counter = sha256 C (be_bytes 4 (unat counter) @ z @ fi)"

partial_function (option) kdf_loop ::
  "crypto \<Rightarrow> bytes \<Rightarrow> bytes \<Rightarrow> nat \<Rightarrow> 32 word \<Rightarrow> bytes \<Rightarrow> bytes option" where
  "kdf_loop C z fi out_len counter out =
     (if length out < out_len
      then kdf_loop C z fi out_len (counter + 1) (out @ kdf_block C z fi counter)
      else Some out)"

definition one_step_kdf_sha256 :: "crypto \<Rightarrow> bytes \<Rightarrow> bytes \<Rightarrow> nat \<Rightarrow> bytes option" where
  "one_step_kdf_sha256 C z fi out_len =
     map_option (take out_len) (kdf_loop C z fi out_len 1 [])"

text \<open>\<open>DerivedKeys::from_output\<close>: \<open>None\<close> is the \<open>kdf output too short\<close> error.\<close>

definition from_output :: "bytes \<Rightarrow> derived_keys option" where
  "from_output out =
     (if EAPNOOB_OUTPUT_LEN \<le> length out
      then Some \<lparr>msk = take 64 out,
                 emsk = take 64 (drop 64 out),
                 amsk = take 64 (drop 128 out),
                 method_id = take 32 (drop 192 out),
                 kms = take 32 (drop 224 out),
                 kmp = take 32 (drop 256 out),
                 kz = take 32 (drop 288 out)\<rparr>
      else None)"

definition derive_completion ::
  "crypto \<Rightarrow> bytes \<Rightarrow> bytes \<Rightarrow> bytes \<Rightarrow> bytes \<Rightarrow> derived_keys exec" where
  "derive_completion C z np ns noob =
     (case one_step_kdf_sha256 C z (eapnoob_fixed_info np ns noob) EAPNOOB_OUTPUT_LEN of
        None \<Rightarrow> Diverged
      | Some out \<Rightarrow>
          (case from_output out of None \<Rightarrow> Panicked | Some k \<Rightarrow> Returned k))"

section \<open>The loop\<close>

text \<open>The blocks for counters \<open>c, c + 1, \<dots>\<close>.\<close>

definition kdf_blocks :: "crypto \<Rightarrow> bytes \<Rightarrow> bytes \<Rightarrow> 32 word \<Rightarrow> nat \<Rightarrow> bytes" where
  "kdf_blocks C z fi c n = concat (map (\<lambda>i. kdf_block C z fi (c + word_of_nat i)) [0..<n])"

lemma kdf_blocks_0 [simp]: "kdf_blocks C z fi c 0 = []"
  by (simp add: kdf_blocks_def)

lemma kdf_blocks_Suc:
  "kdf_blocks C z fi c (Suc n) = kdf_block C z fi c @ kdf_blocks C z fi (c + 1) n"
proof -
  have "map (\<lambda>i. kdf_block C z fi (c + word_of_nat i)) [0..<Suc n] =
        kdf_block C z fi c # map (\<lambda>i. kdf_block C z fi (c + 1 + word_of_nat i)) [0..<n]"
    unfolding map_upt_Suc by (simp add: add.assoc)
  then show ?thesis by (simp only: kdf_blocks_def concat.simps)
qed

lemma length_kdf_block: "crypto_ok C \<Longrightarrow> length (kdf_block C z fi c) = 32"
  by (simp add: kdf_block_def crypto_okD)

lemma length_kdf_blocks: "crypto_ok C \<Longrightarrow> length (kdf_blocks C z fi c n) = 32 * n"
  by (induction n arbitrary: c) (simp_all add: kdf_blocks_Suc length_kdf_block)

lemma ceil32_step: "0 < d \<Longrightarrow> (d + 31) div 32 = Suc ((d - 32 + 31) div 32)" for d :: nat
proof (cases "32 \<le> d")
  case True
  then show ?thesis by (simp add: le_div_geq flip: Suc_diff_le)
next
  case False
  moreover assume "0 < d"
  ultimately have "(d + 31) div 32 = 1" by (intro div_nat_eqI) auto
  with False show ?thesis by simp
qed

lemma kdf_loop_blocks:
  assumes "crypto_ok C"
  shows "kdf_loop C z fi n c out =
         Some (out @ kdf_blocks C z fi c ((n - length out + 31) div 32))"
proof (induction "n - length out" arbitrary: c out rule: less_induct)
  case less
  show ?case
  proof (cases "length out < n")
    case True
    let ?out = "out @ kdf_block C z fi c"
    have len: "length ?out = length out + 32" by (simp add: length_kdf_block assms)
    have "(n - length out + 31) div 32 = Suc ((n - length ?out + 31) div 32)"
      using True len ceil32_step [of "n - length out"] by simp
    moreover have "kdf_loop C z fi n (c + 1) ?out =
        Some (?out @ kdf_blocks C z fi (c + 1) ((n - length ?out + 31) div 32))"
      using True len by (intro less) auto
    ultimately show ?thesis
      using True by (simp add: kdf_loop.simps [of C z fi n c out] kdf_blocks_Suc)
  next
    case False
    then show ?thesis by (simp add: kdf_loop.simps [of C z fi n c out])
  qed
qed

text \<open>
  The key derivation ends and returns exactly the requested number of bytes, the prefix of
  the concatenated hash blocks for counters 1, 2, and so on.
\<close>
theorem one_step_kdf_returns:
  assumes "crypto_ok C"
  shows "\<exists>out. one_step_kdf_sha256 C z fi n = Some out \<and> length out = n \<and>
           out = take n (concat (map (\<lambda>i. sha256 C (be_bytes 4 (unat (1 + word_of_nat i :: 32 word)) @ z @ fi))
                                     [0..<(n + 31) div 32]))"
proof -
  have "one_step_kdf_sha256 C z fi n = Some (take n (kdf_blocks C z fi 1 ((n + 31) div 32)))"
    using assms by (simp add: one_step_kdf_sha256_def kdf_loop_blocks)
  moreover have "n \<le> 32 * ((n + 31) div 32)" by arith
  ultimately show ?thesis
    using assms by (simp add: length_kdf_blocks) (simp add: kdf_blocks_def kdf_block_def)
qed

theorem one_step_kdf_returns_witness:
  "\<exists>out. one_step_kdf_sha256 demo_crypto [7] [9] 40 = Some out \<and> length out = 40 \<and>
     out = take 40 (concat (map (\<lambda>i. sha256 demo_crypto (be_bytes 4 (unat (1 + word_of_nat i :: 32 word)) @ [7] @ [9]))
                                [0..<(40 + 31) div 32]))"
  by (rule one_step_kdf_returns) (rule demo_crypto_ok)

section \<open>The split into keys\<close>

lemma from_output_parts:
  assumes "from_output out = Some k"
  shows "msk k @ emsk k @ amsk k @ method_id k @ kms k @ kmp k @ kz k = take 320 out"
    and "length (kms k) = 32" and "length (kmp k) = 32" and "length (kz k) = 32"
    and "length (msk k) = 64" and "length (emsk k) = 64" and "length (amsk k) = 64"
    and "length (method_id k) = 32"
proof -
  have len: "320 \<le> length out"
    and k: "k = \<lparr>msk = take 64 out, emsk = take 64 (drop 64 out), amsk = take 64 (drop 128 out),
       method_id = take 32 (drop 192 out), kms = take 32 (drop 224 out),
       kmp = take 32 (drop 256 out), kz = take 32 (drop 288 out)\<rparr>"
    using assms by (auto simp: from_output_def EAPNOOB_OUTPUT_LEN_def split: if_splits)
  have split: "take (a + b) xs = take a xs @ take b (drop a xs)" for a b and xs :: bytes
    by (rule take_add)
  have "take 320 out = take (64 + (64 + (64 + (32 + (32 + (32 + 32)))))) out" by simp
  also have "\<dots> = msk k @ emsk k @ amsk k @ method_id k @ kms k @ kmp k @ kz k"
    by (simp only: split k derived_keys.simps) (simp add: ac_simps)
  finally show "msk k @ emsk k @ amsk k @ method_id k @ kms k @ kmp k @ kz k = take 320 out"
    by simp
qed (use assms in \<open>auto simp: from_output_def EAPNOOB_OUTPUT_LEN_def split: if_splits\<close>)

lemma derive_completion_cases:
  assumes "crypto_ok C"
  obtains k where "derive_completion C z np ns noob = Returned k" "length (kms k) = 32"
    "length (kmp k) = 32" "length (kz k) = 32"
proof -
  obtain out where out: "one_step_kdf_sha256 C z (eapnoob_fixed_info np ns noob) 320 = Some out"
    "length out = 320"
    using one_step_kdf_sha256_def kdf_loop_blocks [OF assms] length_kdf_blocks [OF assms] by simp
  then obtain k where "from_output out = Some k"
    by (simp add: from_output_def EAPNOOB_OUTPUT_LEN_def)
  with out that from_output_parts show thesis
    by (simp add: derive_completion_def EAPNOOB_OUTPUT_LEN_def)
qed

text \<open>
  Deriving the completion keys never panics and never hangs, and the seven keys laid end
  to end are the 320 bytes that the key derivation produced: no byte is used twice or dropped.
\<close>
theorem derive_completion_total:
  assumes "crypto_ok C"
  shows "\<exists>k out. derive_completion C z np ns noob = Returned k \<and>
           one_step_kdf_sha256 C z (eapnoob_fixed_info np ns noob) 320 = Some out \<and>
           msk k @ emsk k @ amsk k @ method_id k @ kms k @ kmp k @ kz k = out \<and>
           length (kms k) = 32 \<and> length (kmp k) = 32 \<and> length (kz k) = 32"
proof -
  obtain out where out: "one_step_kdf_sha256 C z (eapnoob_fixed_info np ns noob) 320 = Some out"
    "length out = 320"
    using one_step_kdf_sha256_def kdf_loop_blocks [OF assms] length_kdf_blocks [OF assms] by simp
  then obtain k where k: "from_output out = Some k"
    by (simp add: from_output_def EAPNOOB_OUTPUT_LEN_def)
  with out from_output_parts [OF k] show ?thesis
    by (simp add: derive_completion_def EAPNOOB_OUTPUT_LEN_def)
qed

theorem derive_completion_total_witness:
  "\<exists>k out. derive_completion demo_crypto [1] [2] [3] [4] = Returned k \<and>
     one_step_kdf_sha256 demo_crypto [1] (eapnoob_fixed_info [2] [3] [4]) 320 = Some out \<and>
     msk k @ emsk k @ amsk k @ method_id k @ kms k @ kmp k @ kz k = out \<and>
     length (kms k) = 32 \<and> length (kmp k) = 32 \<and> length (kz k) = 32"
  by (rule derive_completion_total) (rule demo_crypto_ok)

text \<open>
  For nonces of fixed sizes the fixed info determines both nonces and the Noob, so different
  transcripts feed the hash different inputs.
\<close>

lemma fixed_info_inj:
  assumes "length np = length np'" and "length ns = length ns'"
    and "eapnoob_fixed_info np ns noob = eapnoob_fixed_info np' ns' noob'"
  shows "np = np' \<and> ns = ns' \<and> noob = noob'"
  using assms by (simp add: eapnoob_fixed_info_def)

end
