(* ===== verification/Mac.thy ===== *)
theory Mac
  imports Crates
begin

text \<open>
  The association array that the confirmation MACs are computed over, the MACs, the Hoob
  fingerprint and the NoobId, and the comparison of two MACs
  (crates/pair-pairing/src/mac.rs).
\<close>

text \<open>\<open>mac_equal\<close>: the lengths, then the accumulated difference of all byte pairs.\<close>

definition mac_equal :: "bytes \<Rightarrow> bytes \<Rightarrow> bool" where
  "mac_equal a b =
     (if length a \<noteq> length b then False
      else foldl (\<lambda>diff (x, y). or diff (xor x y)) 0 (zip a b) = 0)"

record mac_inputs =
  i_vers :: string
  i_verp :: string
  i_peer_id :: string
  i_cryptosuites :: string
  i_dirs :: string
  i_server_info :: string
  i_cryptosuitep :: string
  i_dirp :: string
  i_nai :: string
  i_peer_info :: string
  i_pks :: string
  i_ns :: string
  i_pkp :: string
  i_np :: string
  i_noob :: string

definition default_inputs :: mac_inputs where
  "default_inputs = \<lparr>i_vers = [], i_verp = [], i_peer_id = [], i_cryptosuites = [], i_dirs = [],
     i_server_info = [], i_cryptosuitep = [], i_dirp = [], i_nai = [], i_peer_info = [],
     i_pks = [], i_ns = [], i_pkp = [], i_np = [], i_noob = []\<rparr>"

text \<open>The two characters of an empty JSON string.\<close>

definition quote :: char where "quote = CHR 0x22"

definition el :: "string \<Rightarrow> string" where
  "el s = (if s = [] then [quote, quote] else s)"

definition noob_parts :: "string \<Rightarrow> mac_inputs \<Rightarrow> string list" where
  "noob_parts lead m =
     [lead,
      el (i_vers m),
      el (i_verp m),
      el (i_peer_id m),
      el (i_cryptosuites m),
      el (i_dirs m),
      el (i_server_info m),
      el (i_cryptosuitep m),
      el (i_dirp m),
      el (i_nai m),
      el (i_peer_info m),
      ''0'',
      el (i_pks m),
      el (i_ns m),
      el (i_pkp m),
      el (i_np m),
      el (i_noob m)]"

text \<open>The loop over the enumerated parts: a comma before every part but the first.\<close>

fun push_parts :: "nat \<Rightarrow> string list \<Rightarrow> string" where
  "push_parts i [] = []"
| "push_parts i (p # ps) = (if 0 < i then '','' else []) @ p @ push_parts (Suc i) ps"

definition noob_array :: "string \<Rightarrow> mac_inputs \<Rightarrow> bytes" where
  "noob_array lead m = str_bytes (''['' @ push_parts 0 (noob_parts lead m) @ '']'')"

definition compute_mac :: "crypto \<Rightarrow> bytes \<Rightarrow> int \<Rightarrow> mac_inputs \<Rightarrow> bytes" where
  "compute_mac C key lead m = hmac_sha256 C key (noob_array (int_str lead) m)"

definition compute_hoob :: "crypto \<Rightarrow> int \<Rightarrow> mac_inputs \<Rightarrow> bytes" where
  "compute_hoob C dir m = take 16 (sha256 C (noob_array (int_str dir) m))"

definition compute_noob_id :: "crypto \<Rightarrow> string \<Rightarrow> bytes" where
  "compute_noob_id C noob_json =
     take 16 (sha256 C (str_bytes (''['' @ [quote] @ ''NoobId'' @ [quote] @ '','' @ noob_json @ '']'')))"

section \<open>Comparing MACs\<close>

lemma or_byte_eq_0 [simp]: "or a b = 0 \<longleftrightarrow> a = 0 \<and> b = (0 :: byte)"
  by (auto simp: bit_eq_iff bit_or_iff)

lemma xor_byte_eq_0 [simp]: "xor a b = 0 \<longleftrightarrow> a = (b :: byte)"
  by (auto simp: bit_eq_iff bit_xor_iff)

lemma diff_fold:
  "length a = length b \<Longrightarrow>
   foldl (\<lambda>diff (x, y). or diff (xor x y)) d (zip a b) = 0 \<longleftrightarrow> d = 0 \<and> a = (b :: bytes)"
  by (induction a b arbitrary: d rule: list_induct2) auto

text \<open>
  The constant-time comparison accepts exactly the equal MACs: the accumulated difference
  is zero only when every byte agrees, and different lengths are rejected.
\<close>
lemma mac_equal_iff [simp]: "mac_equal a b \<longleftrightarrow> a = b"
  by (auto simp: mac_equal_def diff_fold)

section \<open>The array determines its elements\<close>

text \<open>
  A scanner for JSON fragments: bracket depth, inside a string, after a backslash. It fails
  at a comma or a closing bracket outside every string and bracket, which cannot occur inside
  one JSON value.
\<close>

fun scan :: "nat \<times> bool \<times> bool \<Rightarrow> string \<Rightarrow> (nat \<times> bool \<times> bool) option" where
  "scan st [] = Some st"
| "scan (d, True, True) (c # cs) = scan (d, True, False) cs"
| "scan (d, True, False) (c # cs) =
     (if c = CHR 0x5C then scan (d, True, True) cs
      else if c = quote then scan (d, False, False) cs
      else scan (d, True, False) cs)"
| "scan (d, False, e) (c # cs) =
     (if c = quote then scan (d, True, False) cs
      else if c = CHR ''['' \<or> c = CHR ''{'' then scan (Suc d, False, False) cs
      else if c = CHR '']'' \<or> c = CHR ''}'' then
        (if d = 0 then None else scan (d - 1, False, False) cs)
      else if c = CHR '','' \<and> d = 0 then None
      else scan (d, False, False) cs)"

definition json_frag :: "string \<Rightarrow> bool" where
  "json_frag s \<longleftrightarrow> s \<noteq> [] \<and> scan (0, False, False) s = Some (0, False, False)"

lemma scan_append:
  "scan st (s @ t) = (case scan st s of None \<Rightarrow> None | Some st' \<Rightarrow> scan st' t)"
  by (induction st s rule: scan.induct) auto

lemma json_frag_scan: "json_frag s \<Longrightarrow> scan (0, False, False) (s @ t) = scan (0, False, False) t"
  by (simp add: json_frag_def scan_append)

text \<open>A delimiter after a fragment: a comma or a closing bracket.\<close>

definition delim :: "char \<Rightarrow> bool" where
  "delim c \<longleftrightarrow> c = CHR '','' \<or> c = CHR '']''"

lemma scan_delim: "delim c \<Longrightarrow> scan (0, False, False) (c # t) = None"
  by (auto simp: delim_def quote_def)

lemma frag_prefix_eq:
  assumes "json_frag s" "json_frag t" "delim c" "delim d" "s @ c # x = t @ d # y"
    and "length s \<le> length t"
  shows "s = t"
proof (rule ccontr)
  assume "s \<noteq> t"
  from assms(5,6) obtain z where t: "t = s @ z"
    by (metis append_eq_append_conv_if append_take_drop_id)
  with \<open>s \<noteq> t\<close> assms(5) obtain z' where "z = c # z'"
    by (cases z) auto
  with t have "scan (0, False, False) t = None"
    using json_frag_scan [OF assms(1)] scan_delim [OF assms(3)] by simp
  with assms(2) show False by (simp add: json_frag_def)
qed

lemma frag_unique:
  assumes "json_frag s" "json_frag t" "delim c" "delim d" "s @ c # x = t @ d # y"
  shows "s = t \<and> c = d \<and> x = y"
proof -
  have "s = t"
    using frag_prefix_eq [OF assms] frag_prefix_eq [OF assms(2,1,4,3) assms(5) [symmetric]]
    by (metis nat_le_linear)
  with assms(5) show ?thesis by simp
qed

lemma push_parts_frags:
  "length ps = length qs \<Longrightarrow> list_all json_frag ps \<Longrightarrow> list_all json_frag qs \<Longrightarrow>
   push_parts (Suc i) ps @ '']'' = push_parts (Suc j) qs @ '']'' \<Longrightarrow> ps = qs"
proof (induction ps qs arbitrary: i j rule: list_induct2)
  case (Cons p ps q qs)
  have tail: "\<exists>c t. delim c \<and> push_parts (Suc k) rs @ '']'' = c # t" for k rs
    by (cases rs) (auto simp: delim_def)
  obtain c t d u where
    c: "delim c" "push_parts (Suc (Suc i)) ps @ '']'' = c # t" and
    d: "delim d" "push_parts (Suc (Suc j)) qs @ '']'' = d # u"
    using tail by metis
  with Cons.prems have "p @ c # t = q @ d # u" by simp
  with Cons.prems c(1) d(1) have "p = q" "c # t = d # u"
    using frag_unique [of p q c d t u] by simp_all
  with c(2) d(2) have "ps = qs"
    using Cons.prems by (intro Cons.IH [of "Suc i" "Suc j"]) simp_all
  with \<open>p = q\<close> show ?case by simp
qed simp

text \<open>Every field is absent or one JSON fragment.\<close>

definition inputs_wf :: "mac_inputs \<Rightarrow> bool" where
  "inputs_wf m \<longleftrightarrow> list_all (\<lambda>s. s = [] \<or> json_frag s)
     [i_vers m, i_verp m, i_peer_id m, i_cryptosuites m, i_dirs m, i_server_info m,
      i_cryptosuitep m, i_dirp m, i_nai m, i_peer_info m, i_pks m, i_ns m, i_pkp m, i_np m,
      i_noob m]"

lemma json_frag_empty_string: "json_frag [quote, quote]"
  by (simp add: json_frag_def quote_def)

lemma json_frag_el: "s = [] \<or> json_frag s \<Longrightarrow> json_frag (el s)"
  by (auto simp: el_def json_frag_empty_string)

lemma scan_plain:
  "\<forall>c \<in> set s. is_digit c \<or> c = CHR ''-'' \<Longrightarrow> scan (0, False, False) s = Some (0, False, False)"
proof (induction s)
  case (Cons c s)
  then have "c \<noteq> quote" "c \<noteq> CHR ''[''" "c \<noteq> CHR ''{''" "c \<noteq> CHR '']''" "c \<noteq> CHR ''}''"
    "c \<noteq> CHR '',''"
    by (auto simp: quote_def is_digit_def)
  with Cons show ?case by simp
qed simp

lemma json_frag_int_str: "json_frag (int_str i)"
  using scan_plain [of "int_str i"] int_str_chars by (simp add: json_frag_def)

lemma json_frag_zero: "json_frag ''0''"
  by (simp add: json_frag_def quote_def)

lemma noob_parts_frags:
  "inputs_wf m \<Longrightarrow> json_frag lead \<Longrightarrow> list_all json_frag (noob_parts lead m)"
  by (simp add: noob_parts_def inputs_wf_def json_frag_el json_frag_zero)

lemma noob_parts_eq:
  assumes "inputs_wf m" "inputs_wf n" "json_frag l" "json_frag k"
    and "noob_array l m = noob_array k n"
  shows "noob_parts l m = noob_parts k n"
proof -
  have "push_parts (Suc 0) (noob_parts l m) @ '']'' = push_parts (Suc 0) (noob_parts k n) @ '']''"
    using assms(5) by (simp add: noob_array_def noob_parts_def)
  then show ?thesis
    by (intro push_parts_frags noob_parts_frags assms) (simp_all add: noob_parts_def)
qed

text \<open>A field that is absent reads the same as an empty JSON string.\<close>

definition norm_inputs :: "mac_inputs \<Rightarrow> string list" where
  "norm_inputs m = map el
     [i_vers m, i_verp m, i_peer_id m, i_cryptosuites m, i_dirs m, i_server_info m,
      i_cryptosuitep m, i_dirp m, i_nai m, i_peer_info m, i_pks m, i_ns m, i_pkp m, i_np m,
      i_noob m]"

text \<open>
  The association array binds every field of the exchange: when each field is absent or
  one JSON value, two arrays are equal exactly when their leading numbers and all fifteen
  fields agree (an absent field and an empty string being the same). No part of one field can
  be moved into its neighbour without changing the bytes under the MAC.
\<close>
theorem noob_array_binds:
  assumes "inputs_wf m" and "inputs_wf n"
  shows "noob_array (int_str i) m = noob_array (int_str j) n
         \<longleftrightarrow> i = j \<and> norm_inputs m = norm_inputs n"
proof
  assume "noob_array (int_str i) m = noob_array (int_str j) n"
  then have "noob_parts (int_str i) m = noob_parts (int_str j) n"
    by (intro noob_parts_eq assms json_frag_int_str)
  then show "i = j \<and> norm_inputs m = norm_inputs n"
    by (simp add: noob_parts_def norm_inputs_def)
next
  assume "i = j \<and> norm_inputs m = norm_inputs n"
  then show "noob_array (int_str i) m = noob_array (int_str j) n"
    by (simp add: noob_array_def noob_parts_def norm_inputs_def)
qed

theorem noob_array_binds_witness:
  "noob_array (int_str 2) (default_inputs\<lparr>i_vers := ''[1,2]''\<rparr>)
   = noob_array (int_str 2) (default_inputs\<lparr>i_vers := ''[1]'', i_verp := ''2''\<rparr>)
   \<longleftrightarrow> (2 :: int) = 2 \<and> norm_inputs (default_inputs\<lparr>i_vers := ''[1,2]''\<rparr>)
        = norm_inputs (default_inputs\<lparr>i_vers := ''[1]'', i_verp := ''2''\<rparr>)"
  by (rule noob_array_binds)
     (simp_all add: inputs_wf_def default_inputs_def json_frag_def quote_def)

lemma length_compute_noob_id: "crypto_ok C \<Longrightarrow> length (compute_noob_id C s) = 16"
  by (simp add: compute_noob_id_def crypto_okD)

lemma length_compute_mac: "crypto_ok C \<Longrightarrow> length (compute_mac C k l m) = 32"
  by (simp add: compute_mac_def crypto_okD)

end
