(* ===== verification/Wire.thy ===== *)
theory Wire
  imports Suite Kdf Mac
begin

text \<open>
  What the EAP-NOOB server and peer share (first part of crates/pair-pairing/src/machine.rs):
  the error codes, the association state, the outcome of one message, the wire message with
  its verbatim JSON fields, and the accumulated method state. serde_json is a record of
  functions, its documented behaviour the predicate \<open>json_ok\<close>.
\<close>

section \<open>Error codes, states, outcomes\<close>

definition INVALID_DATA :: int where "INVALID_DATA = 1003"
definition UNEXPECTED_PEER_ID :: int where "UNEXPECTED_PEER_ID = 2001"
definition STATE_MISMATCH :: int where "STATE_MISMATCH = 2002"
definition UNRECOGNIZED_OOB_MSG_ID :: int where "UNRECOGNIZED_OOB_MSG_ID = 2003"
definition UNSUPPORTED_VERSION :: int where "UNSUPPORTED_VERSION = 3001"
definition UNSUPPORTED_CRYPTOSUITE :: int where "UNSUPPORTED_CRYPTOSUITE = 3002"
definition NO_MUTUAL_OOB :: int where "NO_MUTUAL_OOB = 3003"
definition HMAC_VERIFICATION_FAILED :: int where "HMAC_VERIFICATION_FAILED = 4001"

definition is_wrong_pin_code :: "int \<Rightarrow> bool" where
  "is_wrong_pin_code code \<longleftrightarrow> code = UNRECOGNIZED_OOB_MSG_ID \<or> code = HMAC_VERIFICATION_FAILED"

datatype state = Unregistered | Waiting | OobReceived | Reconnecting | Registered

fun state_num :: "state \<Rightarrow> int" where
  "state_num Unregistered = 0"
| "state_num Waiting = 1"
| "state_num OobReceived = 2"
| "state_num Reconnecting = 3"
| "state_num Registered = 4"

lemma state_num_inject [simp]: "state_num s = state_num t \<longleftrightarrow> s = t"
  by (cases s; cases t) simp_all

record outcome =
  o_send :: "bytes option"
  o_done :: bool
  o_success :: bool
  o_error :: "string option"
  o_error_code :: "int option"

definition default_outcome :: outcome where
  "default_outcome = \<lparr>o_send = None, o_done = False, o_success = False, o_error = None,
                      o_error_code = None\<rparr>"

record association =
  a_peer_id :: string
  a_nai :: string
  a_cryptosuitep :: "8 word"
  a_kz :: bytes

definition DEFAULT_NAI :: string where "DEFAULT_NAI = ''noob@eap-noob.arpa''"

section \<open>The wire message\<close>

text \<open>A raw field is the verbatim JSON text of its value.\<close>

record wire =
  w_type :: "int option"
  w_peer_state :: "int option"
  w_peer_id :: "string option"
  w_nai :: "string option"
  w_new_nai :: "string option"
  w_vers :: "string option"
  w_verp :: "string option"
  w_cryptosuites :: "string option"
  w_cryptosuitep :: "string option"
  w_dirs :: "string option"
  w_dirp :: "string option"
  w_server_info :: "string option"
  w_peer_info :: "string option"
  w_pks :: "string option"
  w_pkp :: "string option"
  w_ns :: "string option"
  w_np :: "string option"
  w_sleep_time :: "int option"
  w_noob_id :: "string option"
  w_macs :: "string option"
  w_macp :: "string option"
  w_error_code :: "int option"
  w_error_info :: "string option"
  w_eap :: "string option"

definition empty_wire :: wire where
  "empty_wire = \<lparr>w_type = None,
     w_peer_state = None,
     w_peer_id = None,
     w_nai = None,
     w_new_nai = None,
     w_vers = None,
     w_verp = None,
     w_cryptosuites = None,
     w_cryptosuitep = None,
     w_dirs = None,
     w_dirp = None,
     w_server_info = None,
     w_peer_info = None,
     w_pks = None,
     w_pkp = None,
     w_ns = None,
     w_np = None,
     w_sleep_time = None,
     w_noob_id = None,
     w_macs = None,
     w_macp = None,
     w_error_code = None,
     w_error_info = None,
     w_eap = None\<rparr>"

lemma empty_wire_simps [simp]:
  "w_type empty_wire = None"
  "w_peer_state empty_wire = None"
  "w_peer_id empty_wire = None"
  "w_nai empty_wire = None"
  "w_new_nai empty_wire = None"
  "w_vers empty_wire = None"
  "w_verp empty_wire = None"
  "w_cryptosuites empty_wire = None"
  "w_cryptosuitep empty_wire = None"
  "w_dirs empty_wire = None"
  "w_dirp empty_wire = None"
  "w_server_info empty_wire = None"
  "w_peer_info empty_wire = None"
  "w_pks empty_wire = None"
  "w_pkp empty_wire = None"
  "w_ns empty_wire = None"
  "w_np empty_wire = None"
  "w_sleep_time empty_wire = None"
  "w_noob_id empty_wire = None"
  "w_macs empty_wire = None"
  "w_macp empty_wire = None"
  "w_error_code empty_wire = None"
  "w_error_info empty_wire = None"
  "w_eap empty_wire = None"
  by (simp_all add: empty_wire_def)

definition raw_fields :: "wire \<Rightarrow> string option list" where
  "raw_fields w =
     [w_peer_id w,
      w_nai w,
      w_new_nai w,
      w_vers w,
      w_verp w,
      w_cryptosuites w,
      w_cryptosuitep w,
      w_dirs w,
      w_dirp w,
      w_server_info w,
      w_peer_info w,
      w_pks w,
      w_pkp w,
      w_ns w,
      w_np w,
      w_noob_id w,
      w_macs w,
      w_macp w]"

definition int_fields :: "wire \<Rightarrow> int option list" where
  "int_fields w = [w_type w, w_peer_state w, w_sleep_time w, w_error_code w]"

section \<open>serde\_json\<close>

record json =
  js_raw :: "string \<Rightarrow> string option" \<comment> \<open>\<open>RawValue::from_string\<close>\<close>
  js_str :: "string \<Rightarrow> string" \<comment> \<open>a string as JSON\<close>
  js_str_of :: "string \<Rightarrow> string option"
  js_int_of :: "string \<Rightarrow> int option" \<comment> \<open>\<open>from_str::<i64>\<close>\<close>
  js_ints :: "int list \<Rightarrow> string"
  js_ints_of :: "string \<Rightarrow> int list option"
  js_jwk :: "jwk \<Rightarrow> string"
  js_jwk_of :: "string \<Rightarrow> jwk option"
  wire_to :: "wire \<Rightarrow> bytes option" \<comment> \<open>\<open>to_vec\<close>\<close>
  wire_of :: "bytes \<Rightarrow> wire option" \<comment> \<open>\<open>from_slice\<close>\<close>

record env =
  cr :: crypto
  js :: json

text \<open>
  A raw field that crosses the wire unchanged: one JSON value without surrounding white space,
  and not \<open>null\<close>, which reads as an absent field.
\<close>

definition raw_ok :: "json \<Rightarrow> string \<Rightarrow> bool" where
  "raw_ok J r \<longleftrightarrow> js_raw J r = Some r \<and> r \<noteq> ''null''"

definition in_i64 :: "int \<Rightarrow> bool" where
  "in_i64 i \<longleftrightarrow> - (2 ^ 63) \<le> i \<and> i < 2 ^ 63"

definition wire_ok :: "json \<Rightarrow> wire \<Rightarrow> bool" where
  "wire_ok J w \<longleftrightarrow>
     list_all (\<lambda>r. case r of None \<Rightarrow> True | Some t \<Rightarrow> raw_ok J t) (raw_fields w) \<and>
     list_all (\<lambda>i. case i of None \<Rightarrow> True | Some n \<Rightarrow> in_i64 n) (int_fields w)"

definition json_ok :: "json \<Rightarrow> bool" where
  "json_ok J \<longleftrightarrow>
     (\<forall>s r. js_raw J s = Some r \<longrightarrow> json_frag r) \<and>
     (\<forall>s. js_str_of J (js_str J s) = Some s \<and> raw_ok J (js_str J s)) \<and>
     (\<forall>i. in_i64 i \<longrightarrow> js_int_of J (int_str i) = Some i \<and> raw_ok J (int_str i)) \<and>
     (\<forall>is. list_all in_i64 is \<longrightarrow>
        js_ints_of J (js_ints J is) = Some is \<and> raw_ok J (js_ints J is)) \<and>
     (\<forall>k. js_jwk_of J (js_jwk J k) = Some k \<and> raw_ok J (js_jwk J k)) \<and>
     (\<forall>w. wire_ok J w \<longrightarrow> (\<exists>b. wire_to J w = Some b \<and> wire_of J b = Some w)) \<and>
     (\<forall>b w. wire_of J b = Some w \<longrightarrow> wire_ok J w)"

lemma json_okD [codec_laws]:
  assumes "json_ok J"
  shows "js_str_of J (js_str J s) = Some s" and "raw_ok J (js_str J s)"
    and "in_i64 i \<Longrightarrow> js_int_of J (int_str i) = Some i" and "in_i64 i \<Longrightarrow> raw_ok J (int_str i)"
    and "list_all in_i64 is \<Longrightarrow> js_ints_of J (js_ints J is) = Some is"
    and "list_all in_i64 is \<Longrightarrow> raw_ok J (js_ints J is)"
    and "js_jwk_of J (js_jwk J k) = Some k" and "raw_ok J (js_jwk J k)"
  using assms by (simp_all add: json_ok_def)

lemma raw_ok_frag: "json_ok J \<Longrightarrow> raw_ok J r \<Longrightarrow> json_frag r"
  by (auto simp: json_ok_def raw_ok_def)

lemma raw_ok_raw [simp]: "raw_ok J r \<Longrightarrow> js_raw J r = Some r"
  by (simp add: raw_ok_def)

lemma wire_roundtrip:
  "json_ok J \<Longrightarrow> wire_ok J w \<Longrightarrow> \<exists>b. wire_to J w = Some b \<and> wire_of J b = Some w"
  by (simp add: json_ok_def)

lemma wire_of_ok: "json_ok J \<Longrightarrow> wire_of J b = Some w \<Longrightarrow> wire_ok J w"
  by (auto simp: json_ok_def)

lemma js_str_not_Nil: "json_ok J \<Longrightarrow> js_str J s \<noteq> []"
  using raw_ok_frag json_okD(2) by (metis json_frag_def)

section \<open>Helpers of the machines\<close>

text \<open>Sequencing of steps that may panic, and \<open>raw\<close>: the \<open>expect\<close> on invalid JSON.\<close>

fun ebind :: "'a exec \<Rightarrow> ('a \<Rightarrow> 'b exec) \<Rightarrow> 'b exec" where
  "ebind (Returned a) f = f a"
| "ebind Panicked f = Panicked"
| "ebind Diverged f = Diverged"

definition raw :: "env \<Rightarrow> string \<Rightarrow> string exec" where
  "raw E s = (case js_raw (js E) s of Some r \<Rightarrow> Returned r | None \<Rightarrow> Panicked)"

lemma raw_ok_Returned [simp]: "raw_ok (js E) r \<Longrightarrow> raw E r = Returned r"
  by (simp add: raw_def)

definition get_raw :: "string option \<Rightarrow> string" where
  "get_raw r = (case r of Some v \<Rightarrow> v | None \<Rightarrow> [])"

definition parse_str :: "env \<Rightarrow> string option \<Rightarrow> string option" where
  "parse_str E r = Option.bind r (js_str_of (js E))"

definition parse_int :: "env \<Rightarrow> string option \<Rightarrow> int option" where
  "parse_int E r = Option.bind r (js_int_of (js E))"

definition parse_ints :: "env \<Rightarrow> string option \<Rightarrow> int list option" where
  "parse_ints E r = Option.bind r (js_ints_of (js E))"

abbreviation b64 :: "env \<Rightarrow> bytes \<Rightarrow> string" where
  "b64 E \<equiv> b64url_encode (cr E)"

abbreviation unb64 :: "env \<Rightarrow> string \<Rightarrow> bytes option" where
  "unb64 E \<equiv> b64url_decode (cr E)"

abbreviation jstr :: "env \<Rightarrow> string \<Rightarrow> string" where
  "jstr E \<equiv> js_str (js E)"

text \<open>The bytes a base64url JSON string stands for; nothing when it is absent or malformed.\<close>

definition parse_b64 :: "env \<Rightarrow> string option \<Rightarrow> bytes option" where
  "parse_b64 E r = Option.bind (parse_str E r) (unb64 E)"

text \<open>\<open>serde_json::to_vec(..).unwrap_or_default()\<close>\<close>

definition wire_bytes :: "env \<Rightarrow> wire \<Rightarrow> bytes" where
  "wire_bytes E w = (case wire_to (js E) w of Some b \<Rightarrow> b | None \<Rightarrow> [])"

definition err_bytes :: "env \<Rightarrow> int \<Rightarrow> string \<Rightarrow> bytes" where
  "err_bytes E code info =
     wire_bytes E (empty_wire\<lparr>w_type := Some 0, w_error_code := Some code,
                              w_error_info := Some info\<rparr>)"

definition result_bytes :: "env \<Rightarrow> string \<Rightarrow> bytes" where
  "result_bytes E kind = wire_bytes E (empty_wire\<lparr>w_eap := Some kind\<rparr>)"

definition ensure_obj :: "string \<Rightarrow> string" where
  "ensure_obj s = (if s = [] then ''{}'' else s)"

fun best_version_from :: "int option \<Rightarrow> int list \<Rightarrow> int list \<Rightarrow> int option" where
  "best_version_from best [] peer = best"
| "best_version_from best (v # vs) peer =
     (if v \<in> set peer \<and> (case best of Some b \<Rightarrow> b \<le> v | None \<Rightarrow> True)
      then best_version_from (Some v) vs peer
      else best_version_from best vs peer)"

definition best_version :: "int list \<Rightarrow> int list \<Rightarrow> int option" where
  "best_version server peer = best_version_from None server peer"

text \<open>\<open>as u8\<close> keeps the low eight bits.\<close>

definition as_u8 :: "int \<Rightarrow> 8 word" where
  "as_u8 i = word_of_int i"

definition first_supported :: "int list \<Rightarrow> int list \<Rightarrow> int option" where
  "first_supported server peer =
     find (\<lambda>c. c \<in> set peer \<and> suite_from_id (as_u8 c) \<noteq> None) server"

definition choose_dir :: "int \<Rightarrow> int \<Rightarrow> int option" where
  "choose_dir server_dirs prefer =
     (if server_dirs = 1 then Some 1
      else if server_dirs = 2 then Some 2
      else if server_dirs = 3 then Some (if prefer = 1 \<or> prefer = 2 then prefer else 2)
      else None)"

definition peer_error_msg :: "int \<Rightarrow> string option \<Rightarrow> string" where
  "peer_error_msg code info =
     (case info of
        Some s \<Rightarrow> if s \<noteq> [] then ''peer error '' @ int_str code @ '': '' @ s
                  else ''peer error '' @ int_str code
      | None \<Rightarrow> ''peer error '' @ int_str code)"

section \<open>The method state\<close>

record method_st =
  m_suite :: "suite option"
  m_keypair :: "key_pair option"
  m_peer_id :: string
  m_nai :: string
  m_z :: bytes
  m_ns :: bytes
  m_np :: bytes
  m_noob :: bytes
  m_noob_b64_json :: string
  m_noob_id :: bytes
  m_keym :: "derived_keys option"
  m_inp :: mac_inputs

definition default_method :: method_st where
  "default_method = \<lparr>m_suite = None, m_keypair = None, m_peer_id = [], m_nai = [], m_z = [],
     m_ns = [], m_np = [], m_noob = [], m_noob_b64_json = [], m_noob_id = replicate 16 0,
     m_keym = None, m_inp = default_inputs\<rparr>"

definition set_noob :: "env \<Rightarrow> bytes \<Rightarrow> method_st \<Rightarrow> method_st" where
  "set_noob E noob m =
     (let j = jstr E (b64 E noob)
      in m\<lparr>m_noob := noob, m_noob_b64_json := j,
           m_inp := (m_inp m)\<lparr>i_noob := j\<rparr>,
           m_noob_id := compute_noob_id (cr E) j\<rparr>)"

definition derive :: "env \<Rightarrow> method_st \<Rightarrow> method_st exec" where
  "derive E m =
     (case derive_completion (cr E) (m_z m) (m_np m) (m_ns m) (m_noob m) of
        Returned k \<Rightarrow> Returned (m\<lparr>m_keym := Some k\<rparr>)
      | Panicked \<Rightarrow> Panicked
      | Diverged \<Rightarrow> Diverged)"

definition method_hoob :: "env \<Rightarrow> method_st \<Rightarrow> int \<Rightarrow> bytes" where
  "method_hoob E m dir = compute_hoob (cr E) dir (m_inp m)"

text \<open>The random draws that processing one message may make.\<close>

record entropy =
  ent_id :: bytes \<comment> \<open>16 bytes, the PeerId\<close>
  ent_key :: bytes \<comment> \<open>the key pair\<close>
  ent_nonce :: bytes \<comment> \<open>32 bytes, the nonce\<close>

definition new_peer_id :: "env \<Rightarrow> entropy \<Rightarrow> string" where
  "new_peer_id E rnd = b64 E (ent_id rnd)"

text \<open>The outcomes that server and peer build in the same way.\<close>

definition send_outcome :: "env \<Rightarrow> wire \<Rightarrow> outcome" where
  "send_outcome E w = default_outcome\<lparr>o_send := Some (wire_bytes E w)\<rparr>"

definition fail_code :: "env \<Rightarrow> int \<Rightarrow> string \<Rightarrow> outcome" where
  "fail_code E code info =
     default_outcome\<lparr>o_send := Some (err_bytes E code info), o_done := True,
       o_error := Some info, o_error_code := Some code\<rparr>"

definition fail :: "env \<Rightarrow> string \<Rightarrow> outcome" where
  "fail E info = fail_code E INVALID_DATA info"

definition peer_error_outcome :: "int \<Rightarrow> string option \<Rightarrow> outcome" where
  "peer_error_outcome code info =
     default_outcome\<lparr>o_done := True, o_error := Some (peer_error_msg code info),
       o_error_code := Some code\<rparr>"

section \<open>Lemmas\<close>

lemma fail_simps [simp]:
  "o_done (fail_code E c i)" "\<not> o_success (fail_code E c i)"
  "o_error (fail_code E c i) = Some i" "o_error_code (fail_code E c i) = Some c"
  "o_done (fail E i)" "\<not> o_success (fail E i)"
  "o_error (fail E i) = Some i" "o_error_code (fail E i) = Some INVALID_DATA"
  by (simp_all add: fail_def fail_code_def default_outcome_def)

lemma send_simps [simp]:
  "o_send (send_outcome E w) = Some (wire_bytes E w)" "\<not> o_done (send_outcome E w)"
  "\<not> o_success (send_outcome E w)" "o_error (send_outcome E w) = None"
  "o_error_code (send_outcome E w) = None"
  by (simp_all add: send_outcome_def default_outcome_def)

lemma peer_error_simps [simp]:
  "o_done (peer_error_outcome c i)" "\<not> o_success (peer_error_outcome c i)"
  "o_error (peer_error_outcome c i) = Some (peer_error_msg c i)"
  "o_error_code (peer_error_outcome c i) = Some c" "o_send (peer_error_outcome c i) = None"
  by (simp_all add: peer_error_outcome_def default_outcome_def)

lemma derive_returns:
  assumes "crypto_ok (cr E)"
  obtains k where "derive E m = Returned (m\<lparr>m_keym := Some k\<rparr>)"
    "derive_completion (cr E) (m_z m) (m_np m) (m_ns m) (m_noob m) = Returned k"
    "length (kz k) = 32"
proof -
  obtain k where k: "derive_completion (cr E) (m_z m) (m_np m) (m_ns m) (m_noob m) = Returned k"
    "length (kz k) = 32"
    using assms by (rule derive_completion_cases)
  then have "derive E m = Returned (m\<lparr>m_keym := Some k\<rparr>)" by (simp add: derive_def)
  with k show thesis by (intro that)
qed

lemma parse_str_simps [simp]:
  "parse_str E None = None" "parse_str E (Some r) = js_str_of (js E) r"
  by (simp_all add: parse_str_def)

lemma parse_b64_jstr [simp]:
  "json_ok (js E) \<Longrightarrow> crypto_ok (cr E) \<Longrightarrow> parse_b64 E (Some (jstr E (b64 E x))) = Some x"
  by (simp add: parse_b64_def json_okD crypto_okD)

text \<open>The Noob, its JSON form and its NoobId belong together.\<close>

definition noob_ok :: "env \<Rightarrow> method_st \<Rightarrow> bool" where
  "noob_ok E m \<longleftrightarrow>
     (if m_noob m = [] then m_noob_id m = replicate 16 0
      else length (m_noob m) = 16 \<and>
           m_noob_b64_json m = jstr E (b64 E (m_noob m)) \<and>
           i_noob (m_inp m) = m_noob_b64_json m \<and>
           m_noob_id m = compute_noob_id (cr E) (m_noob_b64_json m))"

definition keym_ok :: "method_st \<Rightarrow> bool" where
  "keym_ok m \<longleftrightarrow> (\<forall>k. m_keym m = Some k \<longrightarrow> length (kz k) = 32)"

lemma derive_fields:
  "derive E m = Returned m' \<Longrightarrow>
   \<exists>k. m' = m\<lparr>m_keym := Some k\<rparr> \<and>
       derive_completion (cr E) (m_z m) (m_np m) (m_ns m) (m_noob m) = Returned k"
  by (auto simp: derive_def split: exec.splits)

lemma derive_total:
  assumes "crypto_ok (cr E)"
  shows "\<exists>k. derive E m = Returned (m\<lparr>m_keym := Some k\<rparr>) \<and> length (kz k) = 32 \<and>
             derive_completion (cr E) (m_z m) (m_np m) (m_ns m) (m_noob m) = Returned k"
  using derive_returns [OF assms] by metis

lemma set_noob_ok: "length noob = 16 \<Longrightarrow> noob_ok E (set_noob E noob m)"
  by (auto simp: noob_ok_def set_noob_def Let_def)

lemma ebind_send [simp]: "ebind (raw E a) f = Returned b \<longleftrightarrow> (\<exists>r. js_raw (js E) a = Some r \<and> f r = Returned b)"
  by (simp add: raw_def split: option.splits)

lemma ebind_raw_Diverged [simp]:
  "ebind (raw E a) f = Diverged \<longleftrightarrow> (\<exists>r. js_raw (js E) a = Some r \<and> f r = Diverged)"
  by (simp add: raw_def split: option.splits)

fun succeeded :: "outcome exec \<Rightarrow> bool" where
  "succeeded (Returned out) = o_success out"
| "succeeded Panicked = False"
| "succeeded Diverged = False"

lemma returns_not: "returns r \<Longrightarrow> r \<noteq> Panicked \<and> r \<noteq> Diverged"
  by (cases r) auto

lemma wire_of_bytes: "json_ok (js E) \<Longrightarrow> wire_ok (js E) w \<Longrightarrow> wire_of (js E) (wire_bytes E w) = Some w"
  using wire_roundtrip [of "js E" w] by (auto simp: wire_bytes_def)

lemma best_version_from_spec:
  "best_version_from best vs peer = r \<Longrightarrow>
   (case best of Some b \<Rightarrow> b \<in> set peer | None \<Rightarrow> True) \<Longrightarrow>
   (case r of
      None \<Rightarrow> best = None \<and> set vs \<inter> set peer = {}
    | Some v \<Rightarrow> v \<in> set peer \<and> (v \<in> set vs \<or> best = Some v) \<and>
        (\<forall>u \<in> set vs \<inter> set peer. u \<le> v) \<and> (\<forall>b. best = Some b \<longrightarrow> b \<le> v))"
proof (induction vs arbitrary: best)
  case Nil
  then show ?case by (auto split: option.splits)
next
  case (Cons u vs)
  show ?case
  proof (cases "u \<in> set peer \<and> (case best of Some b \<Rightarrow> b \<le> u | None \<Rightarrow> True)")
    case True
    then have "best_version_from (Some u) vs peer = r" using Cons.prems by simp
    from Cons.IH [OF this] True show ?thesis by (auto split: option.splits)
  next
    case False
    then have "best_version_from best vs peer = r" using Cons.prems by auto
    from Cons.IH [OF this Cons.prems(2)] False show ?thesis by (auto split: option.splits)
  qed
qed

text \<open>
  Version negotiation picks the largest version that both sides list, whatever the order
  and repetitions of the lists, and fails exactly when they have none in common.
\<close>
theorem best_version_greatest:
  "case best_version server peer of
     None \<Rightarrow> set server \<inter> set peer = {}
   | Some v \<Rightarrow> v \<in> set server \<inter> set peer \<and> v = Max (set server \<inter> set peer)"
proof -
  have "v = Max S" if "v \<in> S" "\<forall>u \<in> S. u \<le> v" "finite S" for v :: int and S
    using that by (metis Max_eqI)
  then show ?thesis
    using best_version_from_spec [of None server peer "best_version server peer"]
    by (auto simp: best_version_def split: option.splits)
qed

end
