(* ===== verification/Demo_Json.thy ===== *)
theory Demo_Json
  imports Wire
begin

text \<open>
  A concrete stand-in for serde_json that satisfies \<open>json_ok\<close>, for the witnesses: strings are
  quoted with backslash escapes, structured values travel inside a string, and a wire message
  is the sequence of its 24 optional fields.
\<close>

section \<open>A prefix code for strings\<close>

fun enc_s :: "string \<Rightarrow> string" where
  "enc_s [] = [CHR 0x00]"
| "enc_s (c # s) = CHR 0x01 # c # enc_s s"

fun dec_s :: "string \<Rightarrow> (string \<times> string) option" where
  "dec_s (a # b # r) =
     (if a = CHR 0x00 then Some ([], b # r)
      else map_option (\<lambda>(s, t). (b # s, t)) (dec_s r))"
| "dec_s [a] = (if a = CHR 0x00 then Some ([], []) else None)"
| "dec_s [] = None"

lemma dec_enc_s [simp]: "dec_s (enc_s s @ r) = Some (s, r)"
  by (induction s) (cases r; simp)+

fun enc_o :: "string option \<Rightarrow> string" where
  "enc_o None = [CHR 0x00]"
| "enc_o (Some s) = CHR 0x01 # enc_s s"

fun dec_o :: "string \<Rightarrow> (string option \<times> string) option" where
  "dec_o [] = None"
| "dec_o (a # r) = (if a = CHR 0x00 then Some (None, r)
                    else map_option (\<lambda>(s, t). (Some s, t)) (dec_s r))"

lemma dec_enc_o [simp]: "dec_o (enc_o x @ r) = Some (x, r)"
  by (cases x) simp_all

definition enc_os :: "string option list \<Rightarrow> string" where
  "enc_os xs = concat (map enc_o xs)"

primrec dec_os :: "nat \<Rightarrow> string \<Rightarrow> string option list option" where
  "dec_os 0 s = (if s = [] then Some [] else None)"
| "dec_os (Suc n) s =
     (case dec_o s of None \<Rightarrow> None | Some (x, r) \<Rightarrow> map_option (Cons x) (dec_os n r))"

lemma dec_enc_os [simp]: "dec_os (length xs) (enc_os xs) = Some xs"
  by (induction xs) (simp_all add: enc_os_def)

lemma dec_os_length: "dec_os n s = Some xs \<Longrightarrow> length xs = n"
  by (induction n arbitrary: s xs) (auto split: if_splits option.splits)

section \<open>Values\<close>

definition int_dec :: "string \<Rightarrow> int option" where
  "int_dec s =
     (case s of [] \<Rightarrow> None
      | c # r \<Rightarrow> if c = CHR ''-'' then map_option (\<lambda>n. - int n) (dec_val 0 r)
                 else map_option int (dec_val 0 s))"

lemma int_dec_int_str [simp]: "int_dec (int_str i) = Some i"
proof (cases "i < 0")
  case True
  then show ?thesis by (simp add: int_dec_def int_str_def dec_val_nat_str)
next
  case False
  obtain c r where cr: "nat_str (nat i) = c # r" by (cases "nat_str (nat i)") auto
  then have "c \<noteq> CHR ''-''" using nat_str_no_sign(1) by metis
  with False cr have "int_dec (int_str i) = map_option int (dec_val 0 (nat_str (nat i)))"
    by (simp only: int_dec_def int_str_def if_False list.case)
  with False show ?thesis by (simp add: dec_val_nat_str)
qed

definition demo_str :: "string \<Rightarrow> string" where
  "demo_str s = quote # concat (map (\<lambda>c. [CHR 0x5C, c]) s) @ [quote]"

fun demo_unescape :: "string \<Rightarrow> string option" where
  "demo_unescape (a # b # r) = (if a = CHR 0x5C then map_option (Cons b) (demo_unescape r) else None)"
| "demo_unescape [a] = (if a = quote then Some [] else None)"
| "demo_unescape [] = None"

definition demo_str_of :: "string \<Rightarrow> string option" where
  "demo_str_of s = (case s of [] \<Rightarrow> None | a # r \<Rightarrow> if a = quote then demo_unescape r else None)"

lemma demo_unescape_esc: "demo_unescape (concat (map (\<lambda>c. [CHR 0x5C, c]) s) @ [quote]) = Some s"
  by (induction s) simp_all

lemma demo_str_of_str [simp]: "demo_str_of (demo_str s) = Some s"
  by (simp add: demo_str_of_def demo_str_def demo_unescape_esc)

lemma scan_escaped: "scan (0, True, False) (concat (map (\<lambda>c. [CHR 0x5C, c]) s) @ [quote]) = Some (0, False, False)"
  by (induction s) (simp_all add: quote_def)

lemma demo_str_frag [simp]: "json_frag (demo_str s)"
  using scan_escaped by (simp add: json_frag_def demo_str_def)

lemma demo_str_not_null [simp]: "demo_str s \<noteq> ''null''"
  by (simp add: demo_str_def quote_def)

lemma int_str_not_null [simp]: "int_str i \<noteq> ''null''"
proof
  assume "int_str i = ''null''"
  then have "CHR ''n'' \<in> set (int_str i)" by simp
  from int_str_chars [OF this] show False by (simp add: is_digit_def)
qed

definition demo_raw :: "string \<Rightarrow> string option" where
  "demo_raw s = (if json_frag s then Some s else None)"

definition demo_ints :: "int list \<Rightarrow> string" where
  "demo_ints is = demo_str (enc_os (map (Some \<circ> int_str) is @ [None]))"

fun dec_ints :: "nat \<Rightarrow> string \<Rightarrow> int list option" where
  "dec_ints 0 s = None"
| "dec_ints (Suc n) s =
     (case dec_o s of
        None \<Rightarrow> None
      | Some (None, r) \<Rightarrow> Some []
      | Some (Some t, r) \<Rightarrow>
          (case int_dec t of None \<Rightarrow> None | Some i \<Rightarrow> map_option (Cons i) (dec_ints n r)))"

definition demo_ints_of :: "string \<Rightarrow> int list option" where
  "demo_ints_of s = Option.bind (demo_str_of s) (\<lambda>t. dec_ints (length t) t)"

lemma dec_ints_enc:
  "length is < n \<Longrightarrow> dec_ints n (enc_os (map (Some \<circ> int_str) is @ [None])) = Some is"
proof (induction "is" arbitrary: n)
  case Nil
  then show ?case by (cases n) (simp_all add: enc_os_def)
next
  case (Cons i "is")
  then obtain m where m: "n = Suc m" "length is < m" by (cases n) auto
  have "dec_o (enc_os (map (Some \<circ> int_str) (i # is) @ [None])) =
        Some (Some (int_str i), enc_os (map (Some \<circ> int_str) is @ [None]))"
    using dec_enc_o [of "Some (int_str i)"] by (simp add: enc_os_def)
  with m Cons.IH [OF m(2)] show ?case
    by (simp only: dec_ints.simps option.case prod.case int_dec_int_str option.map)
qed

lemma length_enc_os: "length xs \<le> length (enc_os xs)"
proof (induction xs)
  case (Cons x xs)
  have "1 \<le> length (enc_o x)" by (cases x) auto
  with Cons show ?case by (simp add: enc_os_def)
qed (simp add: enc_os_def)

lemma demo_ints_of_ints [simp]: "demo_ints_of (demo_ints is) = Some is"
  using length_enc_os [of "map (Some \<circ> int_str) is @ [None]"]
  by (simp add: demo_ints_of_def demo_ints_def dec_ints_enc)

definition demo_jwk :: "jwk \<Rightarrow> string" where
  "demo_jwk k = demo_str (enc_os [Some (kty k), Some (crv k), Some (jx k), jy k])"

definition demo_jwk_of :: "string \<Rightarrow> jwk option" where
  "demo_jwk_of s =
     (case Option.bind (demo_str_of s) (dec_os 4) of
        Some [Some a, Some b, Some c, d] \<Rightarrow> Some \<lparr>kty = a, crv = b, jx = c, jy = d\<rparr>
      | _ \<Rightarrow> None)"

lemma demo_jwk_of_jwk [simp]: "demo_jwk_of (demo_jwk k) = Some k"
proof -
  have "dec_os 4 (enc_os [Some (kty k), Some (crv k), Some (jx k), jy k]) =
        Some [Some (kty k), Some (crv k), Some (jx k), jy k]"
    using dec_enc_os [of "[Some (kty k), Some (crv k), Some (jx k), jy k]"]
    by (simp only: list.size One_nat_def) (simp add: numeral_eq_Suc)
  then show ?thesis by (simp add: demo_jwk_of_def demo_jwk_def)
qed

section \<open>Wire messages\<close>

definition wire_list :: "wire \<Rightarrow> string option list" where
  "wire_list w =
     [map_option int_str (w_type w),
      map_option int_str (w_peer_state w),
      w_peer_id w,
      w_nai w,
      w_new_nai w,
      w_vers w,
      w_verp w,
      w_cryptosuites w,
      w_cryptosuitep w,
      w_dirs w,
      w_dirp w,
      w_server_info w,
      w_peer_info w,
      w_pks w,
      w_pkp w,
      w_ns w,
      w_np w,
      map_option int_str (w_sleep_time w),
      w_noob_id w,
      w_macs w,
      w_macp w,
      map_option int_str (w_error_code w),
      w_error_info w,
      w_eap w]"

definition list_wire :: "string option list \<Rightarrow> wire" where
  "list_wire xs =
     \<lparr>w_type = Option.bind (xs ! 0) int_dec,
        w_peer_state = Option.bind (xs ! 1) int_dec,
        w_peer_id = xs ! 2,
        w_nai = xs ! 3,
        w_new_nai = xs ! 4,
        w_vers = xs ! 5,
        w_verp = xs ! 6,
        w_cryptosuites = xs ! 7,
        w_cryptosuitep = xs ! 8,
        w_dirs = xs ! 9,
        w_dirp = xs ! 10,
        w_server_info = xs ! 11,
        w_peer_info = xs ! 12,
        w_pks = xs ! 13,
        w_pkp = xs ! 14,
        w_ns = xs ! 15,
        w_np = xs ! 16,
        w_sleep_time = Option.bind (xs ! 17) int_dec,
        w_noob_id = xs ! 18,
        w_macs = xs ! 19,
        w_macp = xs ! 20,
        w_error_code = Option.bind (xs ! 21) int_dec,
        w_error_info = xs ! 22,
        w_eap = xs ! 23\<rparr>"

lemma list_wire_list [simp]: "list_wire (wire_list w) = w"
  by (cases w) (simp add: list_wire_def wire_list_def option.map_comp comp_def bind_map_option
      map_option_case split: option.splits)

lemma length_wire_list: "length (wire_list w) = 24"
  by (simp add: wire_list_def)

definition demo_wire_ok :: "wire \<Rightarrow> bool" where
  "demo_wire_ok w \<longleftrightarrow>
     list_all (\<lambda>r. case r of None \<Rightarrow> True | Some t \<Rightarrow> json_frag t \<and> t \<noteq> ''null'') (raw_fields w) \<and>
     list_all (\<lambda>i. case i of None \<Rightarrow> True | Some n \<Rightarrow> in_i64 n) (int_fields w)"

definition demo_wire_of :: "bytes \<Rightarrow> wire option" where
  "demo_wire_of b =
     (case dec_os 24 (demo_chars b) of
        None \<Rightarrow> None
      | Some xs \<Rightarrow> if demo_wire_ok (list_wire xs) then Some (list_wire xs) else None)"

definition demo_json :: json where
  "demo_json = \<lparr>
     js_raw = demo_raw, js_str = demo_str, js_str_of = demo_str_of, js_int_of = int_dec,
     js_ints = demo_ints, js_ints_of = demo_ints_of, js_jwk = demo_jwk, js_jwk_of = demo_jwk_of,
     wire_to = (\<lambda>w. Some (str_bytes (enc_os (wire_list w)))), wire_of = demo_wire_of\<rparr>"

lemma demo_chars_str_bytes [simp]: "demo_chars (str_bytes s) = s"
  by (induction s) (simp_all add: demo_chars_def str_bytes_def unat_of_nat)

lemma demo_raw_ok [simp]: "raw_ok demo_json r \<longleftrightarrow> json_frag r \<and> r \<noteq> ''null''"
  by (simp add: raw_ok_def demo_json_def demo_raw_def)

lemma demo_wire_ok_eq: "wire_ok demo_json w \<longleftrightarrow> demo_wire_ok w"
  unfolding wire_ok_def demo_wire_ok_def demo_raw_ok ..

lemma demo_wire_roundtrip: "demo_wire_ok w \<Longrightarrow> demo_wire_of (str_bytes (enc_os (wire_list w))) = Some w"
  using dec_enc_os [of "wire_list w"] by (simp add: demo_wire_of_def length_wire_list)

lemma demo_json_ok: "json_ok demo_json"
proof -
  have parts: "js_raw demo_json = demo_raw" "js_str demo_json = demo_str"
    "js_str_of demo_json = demo_str_of" "js_int_of demo_json = int_dec"
    "js_ints demo_json = demo_ints" "js_ints_of demo_json = demo_ints_of"
    "js_jwk demo_json = demo_jwk" "js_jwk_of demo_json = demo_jwk_of"
    "wire_to demo_json = (\<lambda>w. Some (str_bytes (enc_os (wire_list w))))"
    "wire_of demo_json = demo_wire_of"
    by (simp_all add: demo_json_def)
  have "json_frag (demo_ints is)" "demo_ints is \<noteq> ''null''" for "is"
    by (simp_all add: demo_ints_def)
  moreover have "json_frag (demo_jwk k)" "demo_jwk k \<noteq> ''null''" for k
    by (simp_all add: demo_jwk_def)
  moreover have "demo_wire_of b = Some w \<Longrightarrow> demo_wire_ok w" for b w
    by (auto simp: demo_wire_of_def split: option.splits if_splits)
  ultimately show ?thesis
    unfolding json_ok_def demo_wire_ok_eq demo_raw_ok parts
    by (auto simp: demo_raw_def json_frag_int_str demo_wire_roundtrip)
qed

definition demo_env :: env where
  "demo_env = \<lparr>cr = demo_crypto, js = demo_json\<rparr>"

lemma demo_env_ok [simp]: "json_ok (js demo_env)" "crypto_ok (cr demo_env)"
  by (simp_all add: demo_env_def demo_json_ok demo_crypto_ok)

lemma demo_env_simps [simp]: "cr demo_env = demo_crypto" "js demo_env = demo_json"
  by (simp_all add: demo_env_def)

lemma braces_raw_ok: "raw_ok demo_json ''{}''"
  by (simp add: json_frag_def quote_def)

lemma braces_raw_env: "raw_ok (js demo_env) ''{}''"
  using braces_raw_ok by (simp add: demo_env_def)

end
