(* ===== verification/Server.thy ===== *)
theory Server
  imports Demo_Json Pin_Noob
begin

text \<open>
  The EAP-NOOB server state machine (\<open>impl Server\<close>, crates/pair-pairing/src/machine.rs). Each
  handler takes the state and returns the new state with the outcome, so the mutations made
  before a panic are visible.
\<close>

record server =
  s_versions :: "int list"
  s_cryptosuites :: "int list"
  s_dirs :: int
  s_state :: state
  s_m :: method_st
  s_peer_state :: int
  s_csp :: int
  s_dirp :: int
  s_server_info :: string
  s_assoc :: "association option"

definition server_new :: server where
  "server_new = \<lparr>s_versions = [1], s_cryptosuites = [2, 1], s_dirs = 3,
     s_state = Unregistered, s_m = default_method, s_peer_state = 0, s_csp = 0, s_dirp = 0,
     s_server_info = ''{}'', s_assoc = None\<rparr>"

definition with_server_info :: "server \<Rightarrow> string \<Rightarrow> server" where
  "with_server_info s info = s\<lparr>s_server_info := info, s_dirs := 2\<rparr>"

definition server_peer_info :: "server \<Rightarrow> string" where
  "server_peer_info s = i_peer_info (m_inp (s_m s))"

definition srv_start :: "env \<Rightarrow> server \<Rightarrow> bytes" where
  "srv_start E s = wire_bytes E (empty_wire\<lparr>w_type := Some 1\<rparr>)"

definition srv_done_failure :: "env \<Rightarrow> outcome" where
  "srv_done_failure E =
     default_outcome\<lparr>o_send := Some (result_bytes E ''failure''), o_done := True\<rparr>"

definition check_peer_id :: "env \<Rightarrow> server \<Rightarrow> wire \<Rightarrow> bool" where
  "check_peer_id E s wm =
     (if m_peer_id (s_m s) = [] then True
      else parse_str E (w_peer_id wm) = Some (m_peer_id (s_m s)))"

section \<open>Messages the server sends\<close>

definition build_negotiation :: "env \<Rightarrow> entropy \<Rightarrow> server \<Rightarrow> server \<times> outcome exec" where
  "build_negotiation E rnd s =
     (let peer_id = new_peer_id E rnd;
          vers = js_ints (js E) (s_versions s);
          cs = js_ints (js E) (s_cryptosuites s);
          dirs = int_str (s_dirs s);
          info = s_server_info s;
          inp = (m_inp (s_m s))\<lparr>i_vers := vers, i_peer_id := jstr E peer_id,
                   i_cryptosuites := cs, i_dirs := dirs, i_server_info := info\<rparr>
      in (s\<lparr>s_m := (s_m s)\<lparr>m_peer_id := peer_id, m_inp := inp\<rparr>\<rparr>,
          ebind (raw E vers) (\<lambda>rvers.
          ebind (raw E (jstr E peer_id)) (\<lambda>rid.
          ebind (raw E cs) (\<lambda>rcs.
          ebind (raw E dirs) (\<lambda>rdirs.
          ebind (raw E info) (\<lambda>rinfo.
            Returned (send_outcome E
              (empty_wire\<lparr>w_type := Some 2, w_vers := Some rvers, w_peer_id := Some rid,
                 w_cryptosuites := Some rcs, w_dirs := Some rdirs,
                 w_server_info := Some rinfo\<rparr>)))))))))"

definition build_key_exchange :: "env \<Rightarrow> entropy \<Rightarrow> server \<Rightarrow> server \<times> outcome exec" where
  "build_key_exchange E rnd s =
     (case m_suite (s_m s) of
        None \<Rightarrow> (s, Panicked)
      | Some suite \<Rightarrow>
          (let kp = generate (cr E) suite (ent_key rnd);
               pks = js_jwk (js E) (public_jwk kp);
               ns = ent_nonce rnd;
               ns_json = jstr E (b64 E ns);
               inp = (m_inp (s_m s))\<lparr>i_pks := pks, i_ns := ns_json\<rparr>;
               s' = s\<lparr>s_m := (s_m s)\<lparr>m_keypair := Some kp, m_ns := ns, m_inp := inp\<rparr>\<rparr>
           in (s',
               ebind (raw E (jstr E (m_peer_id (s_m s)))) (\<lambda>rid.
               ebind (raw E pks) (\<lambda>rpks.
               ebind (raw E ns_json) (\<lambda>rns.
                 Returned (send_outcome E
                   (empty_wire\<lparr>w_type := Some 3, w_peer_id := Some rid, w_pks := Some rpks,
                      w_ns := Some rns\<rparr>))))))))"

text \<open>Types 4 and 5 carry the PeerId only.\<close>

definition peer_id_message :: "env \<Rightarrow> int \<Rightarrow> server \<Rightarrow> outcome exec" where
  "peer_id_message E t s =
     ebind (raw E (jstr E (m_peer_id (s_m s)))) (\<lambda>rid.
       Returned (send_outcome E (empty_wire\<lparr>w_type := Some t, w_peer_id := Some rid\<rparr>)))"

definition build_waiting :: "env \<Rightarrow> server \<Rightarrow> server \<times> outcome exec" where
  "build_waiting E s = (s, peer_id_message E 4 s)"

definition build_completion :: "env \<Rightarrow> server \<Rightarrow> server \<times> outcome exec" where
  "build_completion E s =
     (case derive E (s_m s) of
        Panicked \<Rightarrow> (s, Panicked)
      | Diverged \<Rightarrow> (s, Diverged)
      | Returned m \<Rightarrow>
          (case m_keym m of
             None \<Rightarrow> (s\<lparr>s_m := m\<rparr>, Panicked)
           | Some k \<Rightarrow>
               (let macs = compute_mac (cr E) (kms k) 2 (m_inp m)
                in (s\<lparr>s_m := m\<rparr>,
                    ebind (raw E (jstr E (m_peer_id m))) (\<lambda>rid.
                    ebind (raw E (jstr E (b64 E (m_noob_id m)))) (\<lambda>rnoob.
                    ebind (raw E (jstr E (b64 E macs))) (\<lambda>rmacs.
                      Returned (send_outcome E
                        (empty_wire\<lparr>w_type := Some 6, w_peer_id := Some rid,
                           w_noob_id := Some rnoob, w_macs := Some rmacs\<rparr>)))))))))"

definition start_completion :: "env \<Rightarrow> server \<Rightarrow> server \<times> outcome exec" where
  "start_completion E s =
     (if m_noob (s_m s) = [] then (s, Returned (fail E ''no OOB processed''))
      else if s_peer_state s = 2 then (s, peer_id_message E 5 s)
      else build_completion E s)"

section \<open>Messages the server receives\<close>

definition srv_on_discovery :: "env \<Rightarrow> entropy \<Rightarrow> server \<Rightarrow> wire \<Rightarrow> server \<times> outcome exec" where
  "srv_on_discovery E rnd s wm =
     (let ps = (case w_peer_state wm of Some p \<Rightarrow> p | None \<Rightarrow> 0);
          nai = (case parse_str E (w_nai wm) of Some n \<Rightarrow> n | None \<Rightarrow> m_nai (s_m s));
          nai' = (if nai = [] then DEFAULT_NAI else nai);
          s' = s\<lparr>s_peer_state := ps, s_m := (s_m s)\<lparr>m_nai := nai'\<rparr>\<rparr>;
          ss = state_num (s_state s)
      in if (ss = 2 \<and> (ps = 1 \<or> ps = 2)) \<or> (ps = 2 \<and> (ss = 1 \<or> ss = 2))
         then start_completion E s'
         else if ss = 1 \<and> ps = 1 then build_waiting E s'
         else if ss = 0 \<or> ps = 0 then build_negotiation E rnd s'
         else (s', Returned (fail E ''state mismatch'')))"

definition srv_on_negotiation :: "env \<Rightarrow> entropy \<Rightarrow> server \<Rightarrow> wire \<Rightarrow> server \<times> outcome exec" where
  "srv_on_negotiation E rnd s wm =
     (if \<not> check_peer_id E s wm then (s, Returned (fail E ''PeerId mismatch''))
      else
        let verp = (case parse_int E (w_verp wm) of Some v \<Rightarrow> v | None \<Rightarrow> - 1) in
        if verp \<notin> set (s_versions s) then (s, Returned (fail E ''unsupported version''))
        else
          let csp = (case parse_int E (w_cryptosuitep wm) of Some v \<Rightarrow> v | None \<Rightarrow> - 1) in
          if csp \<notin> set (s_cryptosuites s) \<or> suite_from_id (as_u8 csp) = None
          then (s, Returned (fail E ''unsupported cryptosuite''))
          else
            let dirp = (case parse_int E (w_dirp wm) of Some v \<Rightarrow> v | None \<Rightarrow> - 1) in
            if and dirp (s_dirs s) = 0 \<or> \<not> (1 \<le> dirp \<and> dirp \<le> 3)
            then (s, Returned (fail E ''no mutual OOB direction''))
            else
              let inp = (m_inp (s_m s))\<lparr>i_verp := get_raw (w_verp wm),
                          i_cryptosuitep := get_raw (w_cryptosuitep wm),
                          i_dirp := get_raw (w_dirp wm),
                          i_peer_info := ensure_obj (get_raw (w_peer_info wm)),
                          i_nai := jstr E (m_nai (s_m s))\<rparr>
              in build_key_exchange E rnd
                   (s\<lparr>s_m := (s_m s)\<lparr>m_suite := suite_from_id (as_u8 csp), m_inp := inp\<rparr>,
                      s_csp := csp, s_dirp := dirp\<rparr>))"

definition srv_on_key_exchange :: "env \<Rightarrow> server \<Rightarrow> wire \<Rightarrow> server \<times> outcome exec" where
  "srv_on_key_exchange E s wm =
     (if \<not> check_peer_id E s wm then (s, Returned (fail E ''PeerId mismatch''))
      else (case js_jwk_of (js E) (get_raw (w_pkp wm)) of
          None \<Rightarrow> (s, Returned (fail E ''bad PKp''))
        | Some jwk \<Rightarrow>
            (case m_keypair (s_m s) of
               None \<Rightarrow> (s, Panicked)
             | Some kp \<Rightarrow>
                 (case compute_z (cr E) kp jwk of
                    Inl _ \<Rightarrow> (s, Returned (fail E ''ECDHE failure''))
                  | Inr z \<Rightarrow>
                      (case parse_str E (w_np wm) of
                         None \<Rightarrow> (s, Returned (fail E ''bad Np''))
                       | Some np_b64 \<Rightarrow>
                           (case unb64 E np_b64 of
                              None \<Rightarrow> (s, Returned (fail E ''bad Np encoding''))
                            | Some np \<Rightarrow>
                                (s\<lparr>s_m := (s_m s)\<lparr>m_np := np, m_z := z,
                                     m_inp := (m_inp (s_m s))\<lparr>i_pkp := get_raw (w_pkp wm),
                                                i_np := get_raw (w_np wm)\<rparr>\<rparr>,
                                   s_state := Waiting\<rparr>,
                                 Returned (srv_done_failure E))))))))"

definition srv_on_noob_id :: "env \<Rightarrow> server \<Rightarrow> wire \<Rightarrow> server \<times> outcome exec" where
  "srv_on_noob_id E s wm =
     (if \<not> check_peer_id E s wm then (s, Returned (fail E ''PeerId mismatch''))
      else
        let got = (case parse_b64 E (w_noob_id wm) of Some b \<Rightarrow> b | None \<Rightarrow> []) in
        if got \<noteq> m_noob_id (s_m s)
        then (s, Returned (fail_code E UNRECOGNIZED_OOB_MSG_ID ''unrecognized NoobId''))
        else build_completion E s)"

definition srv_finish :: "server \<Rightarrow> derived_keys \<Rightarrow> association" where
  "srv_finish s k = \<lparr>a_peer_id = m_peer_id (s_m s), a_nai = m_nai (s_m s),
                     a_cryptosuitep = as_u8 (s_csp s), a_kz = kz k\<rparr>"

definition srv_on_completion :: "env \<Rightarrow> server \<Rightarrow> wire \<Rightarrow> server \<times> outcome exec" where
  "srv_on_completion E s wm =
     (if \<not> check_peer_id E s wm then (s, Returned (fail E ''PeerId mismatch''))
      else
        let macp = (case parse_b64 E (w_macp wm) of Some b \<Rightarrow> b | None \<Rightarrow> []) in
        (case m_keym (s_m s) of
           None \<Rightarrow> (s, Panicked)
         | Some k \<Rightarrow>
             (let expected = compute_mac (cr E) (kmp k) 1 (m_inp (s_m s))
              in if \<not> mac_equal macp expected
                 then (s, Returned (fail_code E HMAC_VERIFICATION_FAILED ''MACp verification failed''))
                 else (s\<lparr>s_assoc := Some (srv_finish s k), s_state := Registered\<rparr>,
                       Returned (default_outcome\<lparr>o_send := Some (result_bytes E ''success''),
                                   o_done := True, o_success := True\<rparr>)))))"

definition srv_dispatch :: "env \<Rightarrow> entropy \<Rightarrow> server \<Rightarrow> wire \<Rightarrow> server \<times> outcome exec" where
  "srv_dispatch E rnd s wm =
     (if w_type wm = Some 1 then srv_on_discovery E rnd s wm
      else if w_type wm = Some 2 then srv_on_negotiation E rnd s wm
      else if w_type wm = Some 3 then srv_on_key_exchange E s wm
      else if w_type wm = Some 4 then (s, Returned (srv_done_failure E))
      else if w_type wm = Some 5 then srv_on_noob_id E s wm
      else if w_type wm = Some 6 then srv_on_completion E s wm
      else (s, Returned (fail E ''unexpected type'')))"

definition srv_receive :: "env \<Rightarrow> entropy \<Rightarrow> server \<Rightarrow> bytes \<Rightarrow> server \<times> outcome exec" where
  "srv_receive E rnd s input =
     (case wire_of (js E) input of
        None \<Rightarrow> (s, Returned (fail E ''malformed JSON''))
      | Some wm \<Rightarrow>
          (case w_error_code wm of
             Some code \<Rightarrow> (s, Returned (peer_error_outcome code (w_error_info wm)))
           | None \<Rightarrow> srv_dispatch E rnd s wm))"

text \<open>
  \<open>oob_output_with\<close>: \<open>Inl\<close> is the error of the failed check. The fingerprint it computes is
  dropped.
\<close>

definition oob_output_with :: "env \<Rightarrow> server \<Rightarrow> bytes \<Rightarrow> string + server" where
  "oob_output_with E s noob =
     (if s_state s \<noteq> Waiting then Inl ''OOB requires Waiting state''
      else if \<not> (s_dirp s = 2 \<or> s_dirp s = 3) then Inl ''server-to-peer OOB not negotiated''
      else if length noob \<noteq> 16 then Inl ''Noob must be 16 bytes''
      else Inr (s\<lparr>s_m := set_noob E noob (s_m s)\<rparr>))"


section \<open>Reachable states\<close>

text \<open>
  What a server goes through: any bytes from the network, whatever the random draws, and the
  out-of-band value at any moment. A panic keeps the mutations made before it.
\<close>

inductive srv_step :: "env \<Rightarrow> server \<Rightarrow> server \<Rightarrow> bool" for E where
  message: "srv_step E s (fst (srv_receive E rnd s input))"
| oob: "oob_output_with E s noob = Inr s' \<Longrightarrow> srv_step E s s'"

inductive_cases srv_step_cases: "srv_step E s s'"

inductive srv_reach :: "env \<Rightarrow> server \<Rightarrow> server \<Rightarrow> bool" for E s0 where
  start: "srv_reach E s0 s0"
| step: "srv_reach E s0 s \<Longrightarrow> srv_step E s s' \<Longrightarrow> srv_reach E s0 s'"

definition srv_wf :: "env \<Rightarrow> server \<Rightarrow> bool" where
  "srv_wf E s \<longleftrightarrow> s_versions s = [1] \<and> s_cryptosuites s = [2, 1] \<and> in_i64 (s_dirs s) \<and>
                raw_ok (js E) (s_server_info s)"

definition srv_inv :: "env \<Rightarrow> server \<Rightarrow> bool" where
  "srv_inv E s \<longleftrightarrow>
     srv_wf E s \<and> noob_ok E (s_m s) \<and> keym_ok (s_m s) \<and>
     s_state s \<in> {Unregistered, Waiting, Registered} \<and>
     (m_keypair (s_m s) \<noteq> None \<longrightarrow> m_suite (s_m s) \<noteq> None) \<and>
     (s_state s = Waiting \<longrightarrow> m_keypair (s_m s) \<noteq> None) \<and>
     (s_state s = Registered \<longrightarrow> (\<exists>a. s_assoc s = Some a \<and> length (a_kz a) = 32))"

lemmas srv_inv_defs = srv_inv_def srv_wf_def noob_ok_def keym_ok_def

lemma build_negotiation_inv:
  "srv_inv E s \<Longrightarrow> srv_inv E (fst (build_negotiation E rnd s))"
  by (auto simp: build_negotiation_def srv_inv_defs Let_def)

lemma build_key_exchange_inv:
  "srv_inv E s \<Longrightarrow> srv_inv E (fst (build_key_exchange E rnd s))"
  by (auto simp: build_key_exchange_def srv_inv_defs Let_def split: option.splits)

lemma build_completion_fst:
  assumes "crypto_ok (cr E)"
  shows "\<exists>k. fst (build_completion E s) = s\<lparr>s_m := (s_m s)\<lparr>m_keym := Some k\<rparr>\<rparr> \<and>
             length (kz k) = 32 \<and>
             derive_completion (cr E) (m_z (s_m s)) (m_np (s_m s)) (m_ns (s_m s)) (m_noob (s_m s))
               = Returned k"
  using derive_total [OF assms, of "s_m s"] by (auto simp: build_completion_def Let_def)

lemma build_completion_inv:
  "crypto_ok (cr E) \<Longrightarrow> srv_inv E s \<Longrightarrow> srv_inv E (fst (build_completion E s))"
  using build_completion_fst [of E s] by (auto simp: srv_inv_defs)

lemma srv_on_discovery_inv:
  assumes "crypto_ok (cr E)" "srv_inv E s"
  shows "srv_inv E (fst (srv_on_discovery E rnd s wm))"
proof -
  define s' where "s' = s\<lparr>s_peer_state := (case w_peer_state wm of Some p \<Rightarrow> p | None \<Rightarrow> 0),
     s_m := (s_m s)\<lparr>m_nai := (let nai = (case parse_str E (w_nai wm) of Some n \<Rightarrow> n | None \<Rightarrow> m_nai (s_m s))
                              in if nai = [] then DEFAULT_NAI else nai)\<rparr>\<rparr>"
  have inv: "srv_inv E s'" using assms by (auto simp: s'_def srv_inv_defs)
  have "fst (srv_on_discovery E rnd s wm) \<in>
          {s', fst (build_completion E s'), fst (build_negotiation E rnd s')}"
    by (auto simp: srv_on_discovery_def s'_def Let_def start_completion_def build_waiting_def)
  with inv show ?thesis
    using build_completion_inv [OF assms(1) inv] build_negotiation_inv [OF inv] by auto
qed

lemma srv_on_negotiation_inv:
  assumes "srv_inv E s"
  shows "srv_inv E (fst (srv_on_negotiation E rnd s wm))"
proof -
  have "srv_inv E (s\<lparr>s_m := (s_m s)\<lparr>m_suite := Some su, m_inp := inp\<rparr>, s_csp := c, s_dirp := d\<rparr>)"
    if "i_noob inp = i_noob (m_inp (s_m s))" for su inp c d
    using assms that by (auto simp: srv_inv_defs)
  note this [THEN build_key_exchange_inv]
  with assms show ?thesis
    by (auto simp: srv_on_negotiation_def Let_def)
qed

lemma srv_on_key_exchange_inv:
  "srv_inv E s \<Longrightarrow> srv_inv E (fst (srv_on_key_exchange E s wm))"
  by (auto simp: srv_on_key_exchange_def srv_inv_defs Let_def split: option.splits sum.splits)


lemma srv_on_completion_inv:
  "srv_inv E s \<Longrightarrow> srv_inv E (fst (srv_on_completion E s wm))"
  by (auto simp: srv_on_completion_def srv_inv_defs Let_def srv_finish_def split: option.splits)

lemma srv_on_noob_id_inv:
  "crypto_ok (cr E) \<Longrightarrow> srv_inv E s \<Longrightarrow> srv_inv E (fst (srv_on_noob_id E s wm))"
  by (simp add: srv_on_noob_id_def Let_def build_completion_inv)

lemma srv_receive_inv:
  assumes "crypto_ok (cr E)" "srv_inv E s"
  shows "srv_inv E (fst (srv_receive E rnd s input))"
  using assms srv_on_discovery_inv [OF assms] srv_on_negotiation_inv [OF assms(2)]
    srv_on_key_exchange_inv [OF assms(2)] srv_on_noob_id_inv [OF assms]
    srv_on_completion_inv [OF assms(2)]
  by (simp add: srv_receive_def srv_dispatch_def split: option.splits)

lemma oob_output_inv:
  "srv_inv E s \<Longrightarrow> oob_output_with E s noob = Inr s' \<Longrightarrow> srv_inv E s'"
  using set_noob_ok [of noob E "s_m s"]
  by (auto simp: oob_output_with_def srv_inv_def srv_wf_def keym_ok_def set_noob_def Let_def
           split: if_splits)

lemma srv_step_inv:
  "srv_step E s s' \<Longrightarrow> crypto_ok (cr E) \<Longrightarrow> srv_inv E s \<Longrightarrow> srv_inv E s'"
  by (auto elim!: srv_step_cases intro: srv_receive_inv oob_output_inv)

text \<open>
  C11: whatever bytes arrive, in any order, and whenever the out-of-band value is set, a server
  built with a well-formed ServerInfo stays in one of three states, has a key pair and its
  suite when it is Waiting, keeps its Noob, the Noob's JSON form and its NoobId
  consistent, and holds a 32-byte association key once Registered.
\<close>
theorem srv_reach_inv:
  assumes "crypto_ok (cr E)" "raw_ok (js E) info"
    and "srv_reach E (with_server_info server_new info) s"
  shows "srv_inv E s"
  using assms(3)
proof induction
  case start
  show ?case
    using assms(2) by (simp add: srv_inv_defs with_server_info_def server_new_def default_method_def
        in_i64_def)
next
  case (step s s')
  then show ?case using srv_step_inv assms(1) by blast
qed

theorem srv_reach_inv_witness:
  "srv_inv demo_env (fst (srv_receive demo_env \<lparr>ent_id = [1], ent_key = [2], ent_nonce = [3]\<rparr>
     (with_server_info server_new ''{}'') [9]))"
  by (rule srv_reach_inv [of demo_env "''{}''"])
     (simp_all add: braces_raw_ok demo_crypto_ok srv_reach.step [OF srv_reach.start srv_step.message]
        del: demo_raw_ok)

section \<open>When the server accepts\<close>

definition macp_accepted :: "env \<Rightarrow> server \<Rightarrow> wire \<Rightarrow> derived_keys \<Rightarrow> bool" where
  "macp_accepted E s wm k \<longleftrightarrow>
     w_error_code wm = None \<and> w_type wm = Some 6 \<and> check_peer_id E s wm \<and>
     m_keym (s_m s) = Some k \<and>
     (case parse_b64 E (w_macp wm) of Some b \<Rightarrow> b | None \<Rightarrow> []) =
        compute_mac (cr E) (kmp k) 1 (m_inp (s_m s))"


text \<open>Handlers that neither accept nor touch the association.\<close>

definition quiet :: "server \<Rightarrow> server \<times> outcome exec \<Rightarrow> bool" where
  "quiet s res \<longleftrightarrow>
     s_assoc (fst res) = s_assoc s \<and> s_state (fst res) \<in> {s_state s, Waiting} \<and>
     (\<forall>out. snd res = Returned out \<longrightarrow> \<not> o_success out)"

lemma quiet_build_negotiation: "quiet s (build_negotiation E rnd s)"
  by (auto simp: quiet_def build_negotiation_def Let_def)

lemma quiet_build_key_exchange: "quiet s (build_key_exchange E rnd s)"
  by (auto simp: quiet_def build_key_exchange_def Let_def split: option.splits)

lemma quiet_build_completion: "quiet s (build_completion E s)"
  by (auto simp: quiet_def build_completion_def Let_def dest!: derive_fields
           split: option.splits exec.splits)

lemma quiet_same: "\<forall>out. r = Returned out \<longrightarrow> \<not> o_success out \<Longrightarrow> quiet s (s, r)"
  by (simp add: quiet_def)

lemma quiet_via:
  "quiet s' res \<Longrightarrow> s_assoc s' = s_assoc s \<Longrightarrow> s_state s' = s_state s \<Longrightarrow> quiet s res"
  by (simp add: quiet_def)

lemma quiet_fail:
  "s_assoc s' = s_assoc s \<Longrightarrow> s_state s' = s_state s \<Longrightarrow> quiet s (s', Returned (fail E i))"
  by (simp add: quiet_def)

lemma quiet_start_completion: "quiet s (start_completion E s)"
  by (auto simp: start_completion_def peer_id_message_def quiet_build_completion intro!: quiet_same)

lemma quiet_build_waiting: "quiet s (build_waiting E s)"
  by (auto simp: build_waiting_def peer_id_message_def intro!: quiet_same)

lemma quiet_discovery: "quiet s (srv_on_discovery E rnd s wm)"
  unfolding srv_on_discovery_def Let_def
  by (auto intro!: quiet_via [OF quiet_start_completion] quiet_via [OF quiet_build_waiting]
        quiet_via [OF quiet_build_negotiation] quiet_fail)

lemma quiet_negotiation: "quiet s (srv_on_negotiation E rnd s wm)"
  unfolding srv_on_negotiation_def Let_def
  by (auto intro!: quiet_via [OF quiet_build_key_exchange] quiet_same)

lemma quiet_key_exchange: "quiet s (srv_on_key_exchange E s wm)"
  by (auto simp: srv_on_key_exchange_def Let_def quiet_def srv_done_failure_def default_outcome_def
           split: option.splits sum.splits)

lemma quiet_noob_id: "quiet s (srv_on_noob_id E s wm)"
  by (auto simp: srv_on_noob_id_def Let_def quiet_build_completion intro!: quiet_same)

lemma quiet_other: "w_type wm \<noteq> Some 6 \<Longrightarrow> quiet s (srv_dispatch E rnd s wm)"
  by (auto simp: srv_dispatch_def quiet_discovery quiet_negotiation quiet_key_exchange
        quiet_noob_id srv_done_failure_def default_outcome_def intro!: quiet_same)


lemma quiet_alt:
  "quiet s res \<longleftrightarrow>
     s_assoc (fst res) = s_assoc s \<and> s_state (fst res) \<in> {s_state s, Waiting} \<and>
     \<not> succeeded (snd res)"
  by (cases "snd res") (auto simp: quiet_def)

lemma srv_completion_accepts:
  assumes "w_type wm = Some 6" "w_error_code wm = None"
  shows "macp_accepted E s wm k \<Longrightarrow> succeeded (snd (srv_on_completion E s wm)) \<and>
           fst (srv_on_completion E s wm) =
             s\<lparr>s_assoc := Some (srv_finish s k), s_state := Registered\<rparr>"
    and "\<not> (\<exists>k. macp_accepted E s wm k) \<Longrightarrow> quiet s (srv_on_completion E s wm)"
  using assms
  by (auto simp: srv_on_completion_def macp_accepted_def Let_def quiet_def default_outcome_def
           split: option.splits)

lemma srv_receive_accepted:
  assumes "wire_of (js E) input = Some wm" "macp_accepted E s wm k"
  shows "succeeded (snd (srv_receive E rnd s input)) \<and>
    fst (srv_receive E rnd s input) = s\<lparr>s_assoc := Some (srv_finish s k), s_state := Registered\<rparr>"
proof -
  have wm: "w_error_code wm = None" "w_type wm = Some 6" using assms(2) by (auto simp: macp_accepted_def)
  with assms(1) have "srv_receive E rnd s input = srv_on_completion E s wm"
    by (simp add: srv_receive_def srv_dispatch_def)
  with srv_completion_accepts(1) [OF wm(2,1) assms(2)] show ?thesis by simp
qed

lemma srv_receive_quiet:
  assumes "\<nexists>wm k. wire_of (js E) input = Some wm \<and> macp_accepted E s wm k"
  shows "quiet s (srv_receive E rnd s input)"
proof (cases "wire_of (js E) input")
  case None
  then show ?thesis by (simp add: srv_receive_def quiet_same)
next
  case (Some wm)
  show ?thesis
  proof (cases "w_error_code wm = None \<and> w_type wm = Some 6")
    case True
    with Some have "srv_receive E rnd s input = srv_on_completion E s wm"
      by (simp add: srv_receive_def srv_dispatch_def)
    with True Some assms srv_completion_accepts(2) [of wm E s] show ?thesis by simp
  next
    case False
    with Some show ?thesis
      by (auto simp: srv_receive_def intro!: quiet_same quiet_other split: option.split)
  qed
qed

text \<open>
  C4: the server reports success, and enters Registered, exactly on a Completion message
  that carries its PeerId and, under the key derived from the key exchange, the nonces and
  the Noob, the right MAC of all the fields exchanged; it then stores that derivation's
  association key. On any other message it neither succeeds nor changes its association, and
  its state stays or becomes Waiting.
\<close>
theorem srv_success_iff:
  "case srv_receive E rnd s input of
     (s', r) \<Rightarrow>
       if \<exists>wm k. wire_of (js E) input = Some wm \<and> macp_accepted E s wm k
       then succeeded r \<and>
            (\<exists>wm k. wire_of (js E) input = Some wm \<and> macp_accepted E s wm k \<and>
               s' = s\<lparr>s_assoc := Some (srv_finish s k), s_state := Registered\<rparr>)
       else \<not> succeeded r \<and> s_assoc s' = s_assoc s \<and> s_state s' \<in> {s_state s, Waiting}"
  using srv_receive_accepted [of E input _ s _ rnd] srv_receive_quiet [of E input s rnd]
  by (auto simp: case_prod_beta quiet_alt)

section \<open>Panics and errors\<close>

lemma peer_id_message_returns [simp]:
  "json_ok (js E) \<Longrightarrow> returns (peer_id_message E t s)"
  by (simp add: peer_id_message_def json_okD)

lemma build_negotiation_returns:
  "json_ok (js E) \<Longrightarrow> srv_wf E s \<Longrightarrow> returns (snd (build_negotiation E rnd s))"
  by (simp add: build_negotiation_def Let_def srv_wf_def json_okD in_i64_def)

lemma build_key_exchange_returns:
  "json_ok (js E) \<Longrightarrow> m_suite (s_m s) \<noteq> None \<Longrightarrow> returns (snd (build_key_exchange E rnd s))"
  by (auto simp: build_key_exchange_def Let_def json_okD)

lemma build_completion_returns:
  "json_ok (js E) \<Longrightarrow> crypto_ok (cr E) \<Longrightarrow> returns (snd (build_completion E s))"
  using derive_total [of E "s_m s"] by (auto simp: build_completion_def Let_def json_okD)

definition srv_unwraps_none :: "env \<Rightarrow> server \<Rightarrow> wire \<Rightarrow> bool" where
  "srv_unwraps_none E s wm \<longleftrightarrow>
     w_error_code wm = None \<and> check_peer_id E s wm \<and>
     (w_type wm = Some 3 \<and> js_jwk_of (js E) (get_raw (w_pkp wm)) \<noteq> None \<and> m_keypair (s_m s) = None \<or>
      w_type wm = Some 6 \<and> m_keym (s_m s) = None)"


lemma srv_on_discovery_returns:
  assumes "json_ok (js E)" "crypto_ok (cr E)" "srv_wf E s"
  shows "returns (snd (srv_on_discovery E rnd s wm))"
proof -
  have "srv_wf E (s\<lparr>s_peer_state := ps, s_m := m\<rparr>)" for ps m
    using assms(3) by (simp add: srv_wf_def)
  then show ?thesis
    using assms
    by (auto simp: srv_on_discovery_def Let_def start_completion_def build_waiting_def
        build_completion_returns intro!: build_negotiation_returns)
qed

lemma srv_on_negotiation_returns:
  assumes "json_ok (js E)"
  shows "returns (snd (srv_on_negotiation E rnd s wm))"
  using assms by (auto simp: srv_on_negotiation_def Let_def intro!: build_key_exchange_returns)

lemma srv_on_noob_id_returns:
  "json_ok (js E) \<Longrightarrow> crypto_ok (cr E) \<Longrightarrow> returns (snd (srv_on_noob_id E s wm))"
  by (simp add: srv_on_noob_id_def Let_def build_completion_returns)

lemma srv_on_key_exchange_panics:
  "check_peer_id E s wm \<Longrightarrow> js_jwk_of (js E) (get_raw (w_pkp wm)) \<noteq> None \<Longrightarrow>
     m_keypair (s_m s) = None \<Longrightarrow> snd (srv_on_key_exchange E s wm) = Panicked"
  "\<not> check_peer_id E s wm \<or> js_jwk_of (js E) (get_raw (w_pkp wm)) = None \<or>
     m_keypair (s_m s) \<noteq> None \<Longrightarrow> returns (snd (srv_on_key_exchange E s wm))"
  by (auto simp: srv_on_key_exchange_def Let_def split: option.splits sum.splits)

lemma srv_on_completion_panics:
  "check_peer_id E s wm \<Longrightarrow> m_keym (s_m s) = None \<Longrightarrow> snd (srv_on_completion E s wm) = Panicked"
  "\<not> check_peer_id E s wm \<or> m_keym (s_m s) \<noteq> None \<Longrightarrow> returns (snd (srv_on_completion E s wm))"
  by (auto simp: srv_on_completion_def Let_def split: option.splits)

text \<open>
  C38: processing a message always ends, and panics in exactly two cases: a key-exchange
  message with a readable key before any negotiation gave the server a key pair, and a
  Completion message before the completion keys were derived. Neither needs authentication.
\<close>
theorem srv_receive_panics_iff:
  assumes "json_ok (js E)" "crypto_ok (cr E)" "srv_wf E s"
  shows "if \<exists>wm. wire_of (js E) input = Some wm \<and> srv_unwraps_none E s wm
         then snd (srv_receive E rnd s input) = Panicked
         else returns (snd (srv_receive E rnd s input))"
proof (cases "\<exists>wm. wire_of (js E) input = Some wm \<and> w_error_code wm = None")
  case True
  then obtain wm where wm: "wire_of (js E) input = Some wm" "w_error_code wm = None" by blast
  then have eq: "srv_receive E rnd s input = srv_dispatch E rnd s wm"
    by (simp add: srv_receive_def)
  show ?thesis
    using wm srv_on_discovery_returns [OF assms, of rnd wm] srv_on_negotiation_returns [OF assms(1), of rnd s wm]
      srv_on_noob_id_returns [OF assms(1,2), of s wm] srv_on_key_exchange_panics [of E s wm]
      srv_on_completion_panics [of E s wm]
    unfolding eq by (auto simp: srv_dispatch_def srv_unwraps_none_def)
next
  case False
  then show ?thesis
    by (auto simp: srv_receive_def srv_unwraps_none_def split: option.splits)
qed


text \<open>A message that crosses the wire as the wire record \<open>w\<close>.\<close>

lemma srv_receive_wire:
  assumes "json_ok (js E)" "wire_ok (js E) w" "w_error_code w = None"
  obtains b where "wire_to (js E) w = Some b" "wire_of (js E) b = Some w"
    "\<And>rnd s. srv_receive E rnd s b = srv_dispatch E rnd s w"
proof -
  from wire_roundtrip [OF assms(1,2)] obtain b
    where b: "wire_to (js E) w = Some b" "wire_of (js E) b = Some w" by blast
  with assms(3) have "\<And>rnd s. srv_receive E rnd s b = srv_dispatch E rnd s w"
    by (simp add: srv_receive_def)
  with b show thesis by (rule that)
qed

lemma srv_wf_new: "raw_ok (js E) info \<Longrightarrow> srv_wf E (with_server_info server_new info)"
  by (simp add: srv_wf_def with_server_info_def server_new_def in_i64_def)

theorem srv_receive_panics_iff_witness:
  "\<exists>b. snd (srv_receive demo_env \<lparr>ent_id = [1], ent_key = [2], ent_nonce = [3]\<rparr>
      (with_server_info server_new ''{}'') b) = Panicked"
proof -
  let ?w = "empty_wire\<lparr>w_type := Some 6\<rparr>"
  have "wire_ok (js demo_env) ?w"
    by (simp add: wire_ok_def raw_fields_def int_fields_def in_i64_def)
  then obtain b where b: "wire_of (js demo_env) b = Some ?w"
    using wire_roundtrip [OF demo_env_ok(1)] by blast
  have "srv_unwraps_none demo_env (with_server_info server_new ''{}'') ?w"
    by (simp add: srv_unwraps_none_def check_peer_id_def with_server_info_def server_new_def
        default_method_def)
  moreover have "srv_wf demo_env (with_server_info server_new ''{}'')"
    by (rule srv_wf_new) (simp only: demo_env_simps braces_raw_ok)
  ultimately show ?thesis
    using srv_receive_panics_iff [OF demo_env_ok, of _ b] b by (metis option.inject)
qed

text \<open>The error codes of the server's own failures, and that wrong-PIN failures change nothing.\<close>

definition codes_ok :: "server \<Rightarrow> server \<times> outcome exec \<Rightarrow> bool" where
  "codes_ok s res \<longleftrightarrow>
     (\<forall>out c. snd res = Returned out \<longrightarrow> o_error_code out = Some c \<longrightarrow>
        c = INVALID_DATA \<or> is_wrong_pin_code c \<and> fst res = s)"

lemma no_code:
  "snd (build_negotiation E rnd s) = Returned out \<Longrightarrow> o_error_code out = None"
  "snd (build_key_exchange E rnd s) = Returned out \<Longrightarrow> o_error_code out = None"
  "snd (build_completion E s) = Returned out \<Longrightarrow> o_error_code out = None"
  "peer_id_message E t s = Returned out \<Longrightarrow> o_error_code out = None"
  by (auto simp: build_negotiation_def build_key_exchange_def build_completion_def
        peer_id_message_def Let_def split: option.splits exec.splits)

lemma codes_ok_quiet:
  "codes_ok s (build_negotiation E rnd s')" "codes_ok s (build_key_exchange E rnd s')"
  "codes_ok s (build_completion E s')" "codes_ok s (s', peer_id_message E t s'')"
  "codes_ok s (s', Returned (fail E i))" "codes_ok s (s, Returned (fail_code E UNRECOGNIZED_OOB_MSG_ID i))"
  "codes_ok s (s, Returned (fail_code E HMAC_VERIFICATION_FAILED i))" "codes_ok s (s', Panicked)"
  by (auto simp: codes_ok_def is_wrong_pin_code_def dest: no_code)

lemma codes_ok_discovery: "codes_ok s (srv_on_discovery E rnd s wm)"
  by (simp add: srv_on_discovery_def Let_def start_completion_def build_waiting_def codes_ok_quiet)

lemma codes_ok_negotiation: "codes_ok s (srv_on_negotiation E rnd s wm)"
  by (simp add: srv_on_negotiation_def Let_def codes_ok_quiet)

lemma codes_ok_key_exchange: "codes_ok s (srv_on_key_exchange E s wm)"
  by (auto simp: codes_ok_def srv_on_key_exchange_def Let_def srv_done_failure_def
        default_outcome_def split: option.splits sum.splits)

lemma codes_ok_noob_id: "codes_ok s (srv_on_noob_id E s wm)"
  by (simp add: srv_on_noob_id_def Let_def codes_ok_quiet)

lemma codes_ok_completion: "codes_ok s (srv_on_completion E s wm)"
  by (auto simp: codes_ok_def srv_on_completion_def Let_def is_wrong_pin_code_def
        default_outcome_def split: option.splits)

lemma codes_ok_dispatch: "codes_ok s (srv_dispatch E rnd s wm)"
  using codes_ok_discovery codes_ok_negotiation codes_ok_key_exchange codes_ok_noob_id
    codes_ok_completion
  by (auto simp: srv_dispatch_def codes_ok_def srv_done_failure_def default_outcome_def)

text \<open>
  The error codes the server sends are three: 1003 for every malformed or unexpected
  message, 2003 for a NoobId and 4001 for a MAC that does not match; any other code it
  reports is the one its peer sent. On either wrong-PIN code the server has not changed at
  all: nothing counts failed attempts.
\<close>
theorem srv_error_codes:
  assumes "srv_receive E rnd s input = (s', Returned out)" "o_error_code out = Some c"
  shows "c \<in> {1003, 2003, 4001} \<and> (c \<noteq> 1003 \<longrightarrow> s' = s) \<or>
         (\<exists>wm. wire_of (js E) input = Some wm \<and> w_error_code wm = Some c \<and>
            o_send out = None \<and> s' = s)"
  using assms codes_ok_dispatch [of s E rnd "the (wire_of (js E) input)"]
  by (auto simp: srv_receive_def codes_ok_def is_wrong_pin_code_def INVALID_DATA_def
        UNRECOGNIZED_OOB_MSG_ID_def HMAC_VERIFICATION_FAILED_def split: option.splits)

theorem srv_error_codes_witness:
  "o_error_code (fail demo_env ''malformed JSON'') = Some 1003 \<and>
   (1003 \<in> {1003, 2003, 4001 :: int} \<or>
    (\<exists>wm. wire_of (js demo_env) [] = Some wm \<and> w_error_code wm = Some 1003))"
proof -
  have "wire_of demo_json [] = None"
    by (simp add: demo_json_def demo_wire_of_def demo_chars_def numeral_eq_Suc)
  then have r: "srv_receive demo_env \<lparr>ent_id = [], ent_key = [], ent_nonce = []\<rparr> server_new [] =
      (server_new, Returned (fail demo_env ''malformed JSON''))"
    by (simp add: srv_receive_def)
  have c: "o_error_code (fail demo_env ''malformed JSON'') = Some 1003"
    by (simp add: INVALID_DATA_def)
  from srv_error_codes [OF r c] c show ?thesis by auto
qed

section \<open>Two weaknesses\<close>

text \<open>
  The NoobId message that names the 16 zero bytes, and the Completion message whose MAC is
  keyed with what an empty secret, empty nonces and an empty Noob derive.
\<close>

definition zero_noob_id_msg :: "env \<Rightarrow> wire" where
  "zero_noob_id_msg E =
     empty_wire\<lparr>w_type := Some 5, w_noob_id := Some (jstr E (b64 E (replicate 16 0)))\<rparr>"

definition forged_completion :: "env \<Rightarrow> derived_keys \<Rightarrow> wire" where
  "forged_completion E k =
     empty_wire\<lparr>w_type := Some 6,
       w_macp := Some (jstr E (b64 E (compute_mac (cr E) (kmp k) 1 default_inputs)))\<rparr>"

lemma wire_ok_simple:
  "json_ok (js E) \<Longrightarrow> wire_ok (js E) (zero_noob_id_msg E)"
  "json_ok (js E) \<Longrightarrow> wire_ok (js E) (forged_completion E k)"
  by (simp_all add: wire_ok_def raw_fields_def int_fields_def in_i64_def
      zero_noob_id_msg_def forged_completion_def json_okD)

text \<open>
  C27: a server that has met nobody registers a sender who knows no secret. Its NoobId is
  sixteen zero bytes until an out-of-band value is set, so two messages that anyone can
  compute make it derive its keys from empty inputs and then accept their MAC, without a key
  exchange and without a PIN.
\<close>
theorem fresh_server_registers_anyone:
  assumes "json_ok (js E)" "crypto_ok (cr E)"
  shows "\<exists>b1 b2 k.
    derive_completion (cr E) [] [] [] [] = Returned k \<and>
    wire_to (js E) (zero_noob_id_msg E) = Some b1 \<and>
    wire_to (js E) (forged_completion E k) = Some b2 \<and>
    (let s1 = fst (srv_receive E rnd1 (with_server_info server_new info) b1);
         s2 = fst (srv_receive E rnd2 s1 b2)
     in s_state s2 = Registered \<and> map_option a_kz (s_assoc s2) = Some (kz k))"
proof -
  let ?s = "with_server_info server_new info"
  have m: "m_peer_id (s_m ?s) = []" "m_noob_id (s_m ?s) = replicate 16 0" "m_z (s_m ?s) = []"
    "m_np (s_m ?s) = []" "m_ns (s_m ?s) = []" "m_noob (s_m ?s) = []" "m_inp (s_m ?s) = default_inputs"
    by (simp_all add: with_server_info_def server_new_def default_method_def)
  obtain b1 where b1: "wire_to (js E) (zero_noob_id_msg E) = Some b1"
    "\<And>rnd s. srv_receive E rnd s b1 = srv_dispatch E rnd s (zero_noob_id_msg E)"
    by (rule srv_receive_wire [OF assms(1) wire_ok_simple(1) [OF assms(1)]])
       (simp_all add: zero_noob_id_msg_def)
  obtain k where k: "fst (build_completion E ?s) = ?s\<lparr>s_m := (s_m ?s)\<lparr>m_keym := Some k\<rparr>\<rparr>"
    "derive_completion (cr E) [] [] [] [] = Returned k"
    using build_completion_fst [OF assms(2), of ?s] m by auto
  have s1: "fst (srv_receive E rnd1 ?s b1) = ?s\<lparr>s_m := (s_m ?s)\<lparr>m_keym := Some k\<rparr>\<rparr>"
    using k(1) m assms
    by (simp add: b1(2) srv_dispatch_def srv_on_noob_id_def check_peer_id_def zero_noob_id_msg_def)
  obtain b2 where b2: "wire_to (js E) (forged_completion E k) = Some b2"
    "\<And>rnd s. srv_receive E rnd s b2 = srv_dispatch E rnd s (forged_completion E k)"
    by (rule srv_receive_wire [OF assms(1) wire_ok_simple(2) [OF assms(1), of k]])
       (simp_all add: forged_completion_def)
  have "fst (srv_receive E rnd2 (?s\<lparr>s_m := (s_m ?s)\<lparr>m_keym := Some k\<rparr>\<rparr>) b2) =
      ?s\<lparr>s_m := (s_m ?s)\<lparr>m_keym := Some k\<rparr>,
         s_assoc := Some (srv_finish (?s\<lparr>s_m := (s_m ?s)\<lparr>m_keym := Some k\<rparr>\<rparr>) k),
         s_state := Registered\<rparr>"
    using m assms
    by (simp add: b2(2) srv_dispatch_def srv_on_completion_def check_peer_id_def
        forged_completion_def Let_def)
  with b1(1) b2(1) k(2) s1 show ?thesis
    by (intro exI [of _ b1] exI [of _ b2] exI [of _ k]) (simp add: srv_finish_def Let_def)
qed

theorem fresh_server_registers_anyone_witness:
  "\<exists>b1 b2. s_state (fst (srv_receive demo_env \<lparr>ent_id = [], ent_key = [], ent_nonce = []\<rparr>
       (fst (srv_receive demo_env \<lparr>ent_id = [], ent_key = [], ent_nonce = []\<rparr>
          (with_server_info server_new ''{}'') b1)) b2)) = Registered"
  using fresh_server_registers_anyone [OF demo_env_ok, where info = "''{}''"
      and ?rnd1.0 = "\<lparr>ent_id = [], ent_key = [], ent_nonce = []\<rparr>"
      and ?rnd2.0 = "\<lparr>ent_id = [], ent_key = [], ent_nonce = []\<rparr>"]
  unfolding Let_def by blast

text \<open>The NoobId message with which a guesser tries the PIN \<open>g\<close>.\<close>

definition noob_id_guess :: "env \<Rightarrow> server \<Rightarrow> string \<Rightarrow> wire" where
  "noob_id_guess E s g =
     empty_wire\<lparr>w_type := Some 5, w_peer_id := Some (jstr E (m_peer_id (s_m s))),
       w_noob_id := Some (jstr E (b64 E (compute_noob_id (cr E) (jstr E (b64 E (noob_from_pin g))))))\<rparr>"

text \<open>
  An inviter that waits for its PIN tells anyone who asks whether a guess is right, as
  often as they ask: a guess whose NoobId differs gets the wrong-PIN code and leaves the
  server exactly as it was, the right one gets the server's Completion message.
\<close>
theorem srv_pin_oracle:
  assumes "json_ok (js E)" "crypto_ok (cr E)"
    and "oob_output_with E s0 (noob_from_pin pin) = Inr s"
  shows "\<exists>b. wire_to (js E) (noob_id_guess E s g) = Some b \<and>
    (if compute_noob_id (cr E) (jstr E (b64 E (noob_from_pin g))) =
        compute_noob_id (cr E) (jstr E (b64 E (noob_from_pin pin)))
     then (\<exists>out. snd (srv_receive E rnd s b) = Returned out \<and> o_error_code out = None \<and> \<not> o_done out)
     else srv_receive E rnd s b =
            (s, Returned (fail_code E UNRECOGNIZED_OOB_MSG_ID ''unrecognized NoobId'')))"
proof -
  have "wire_ok (js E) (noob_id_guess E s g)"
    using assms(1) by (simp add: wire_ok_def raw_fields_def int_fields_def empty_wire_def
        in_i64_def noob_id_guess_def json_okD)
  then obtain b where b: "wire_to (js E) (noob_id_guess E s g) = Some b"
    "\<And>rnd s'. srv_receive E rnd s' b = srv_dispatch E rnd s' (noob_id_guess E s g)"
    by (rule srv_receive_wire [OF assms(1)]) (simp_all add: noob_id_guess_def)
  have id: "m_noob_id (s_m s) = compute_noob_id (cr E) (jstr E (b64 E (noob_from_pin pin)))"
    using assms(3) by (auto simp: oob_output_with_def set_noob_def Let_def split: if_splits)
  have rec: "srv_receive E rnd s b =
      (if compute_noob_id (cr E) (jstr E (b64 E (noob_from_pin g))) = m_noob_id (s_m s)
       then build_completion E s
       else (s, Returned (fail_code E UNRECOGNIZED_OOB_MSG_ID ''unrecognized NoobId'')))"
    using assms(1,2)
    by (simp add: b(2) srv_dispatch_def srv_on_noob_id_def check_peer_id_def noob_id_guess_def json_okD)
  have "\<exists>out. snd (build_completion E s) = Returned out \<and> o_error_code out = None \<and> \<not> o_done out"
    using derive_total [OF assms(2), of "s_m s"] assms(1)
    by (auto simp: build_completion_def Let_def json_okD)
  with b(1) rec id show ?thesis by auto
qed

theorem srv_pin_oracle_witness:
  "\<exists>s b r. snd (srv_receive demo_env \<lparr>ent_id = [], ent_key = [], ent_nonce = []\<rparr> s b) = Returned r \<and>
     \<not> o_done r"
proof -
  let ?s0 = "(with_server_info server_new ''{}'')\<lparr>s_state := Waiting, s_dirp := 2\<rparr>"
  obtain s where "oob_output_with demo_env ?s0 (noob_from_pin ''000001'') = Inr s"
    using length_noob_from_pin by (simp add: oob_output_with_def)
  from srv_pin_oracle [OF demo_env_ok this, where g = "''000001''"
      and rnd = "\<lparr>ent_id = [], ent_key = [], ent_nonce = []\<rparr>"]
  show ?thesis by auto
qed

end
