(* ===== verification/Peer.thy ===== *)
theory Peer
  imports Demo_Json Pin_Noob
begin

text \<open>
  The EAP-NOOB peer state machine (\<open>impl Peer\<close>, crates/pair-pairing/src/machine.rs), in the
  same form as the server.
\<close>

record peer =
  p_versions :: "int list"
  p_cryptosuites :: "int list"
  p_prefer_dir :: int
  p_state :: state
  p_m :: method_st
  p_csp :: int
  p_dirp :: int
  p_peer_info :: string
  p_assoc :: "association option"

definition peer_new :: peer where
  "peer_new = \<lparr>p_versions = [1], p_cryptosuites = [1, 2], p_prefer_dir = 2,
     p_state = Unregistered, p_m = default_method\<lparr>m_nai := DEFAULT_NAI\<rparr>, p_csp = 0,
     p_dirp = 0, p_peer_info = ''{}'', p_assoc = None\<rparr>"

definition with_peer_info :: "peer \<Rightarrow> string \<Rightarrow> peer" where
  "with_peer_info p info = p\<lparr>p_peer_info := info\<rparr>"

definition peer_server_info :: "peer \<Rightarrow> string" where
  "peer_server_info p = i_server_info (m_inp (p_m p))"

definition peer_on_result :: "peer \<Rightarrow> string \<Rightarrow> peer \<times> outcome exec" where
  "peer_on_result p eap =
     (if eap = ''success'' then
        (p\<lparr>p_assoc := Some \<lparr>a_peer_id = m_peer_id (p_m p), a_nai = m_nai (p_m p),
                             a_cryptosuitep = as_u8 (p_csp p),
                             a_kz = (case m_keym (p_m p) of Some k \<Rightarrow> kz k
                                     | None \<Rightarrow> replicate 32 0)\<rparr>,
           p_state := Registered\<rparr>,
         Returned (default_outcome\<lparr>o_done := True, o_success := True\<rparr>))
      else (p, Returned (default_outcome\<lparr>o_done := True\<rparr>)))"

definition peer_on_discovery :: "env \<Rightarrow> peer \<Rightarrow> peer \<times> outcome exec" where
  "peer_on_discovery E p =
     (p, ebind (raw E (jstr E (m_nai (p_m p)))) (\<lambda>rnai.
           let w = empty_wire\<lparr>w_type := Some 1, w_peer_state := Some (state_num (p_state p)),
                              w_nai := Some rnai\<rparr>
           in if p_state p \<noteq> Unregistered \<and> m_peer_id (p_m p) \<noteq> []
              then ebind (raw E (jstr E (m_peer_id (p_m p)))) (\<lambda>rid.
                     Returned (send_outcome E (w\<lparr>w_peer_id := Some rid\<rparr>)))
              else Returned (send_outcome E w)))"

text \<open>What a successful negotiation stores, and the Type 2 response it sends.\<close>

definition peer_negotiated ::
  "env \<Rightarrow> peer \<Rightarrow> wire \<Rightarrow> string \<Rightarrow> int \<Rightarrow> int \<Rightarrow> int \<Rightarrow> peer" where
  "peer_negotiated E p wm peer_id verp csp dirp =
     (let nai = (case parse_str E (w_new_nai wm) of Some n \<Rightarrow> n | None \<Rightarrow> m_nai (p_m p))
      in p\<lparr>p_m := (p_m p)\<lparr>m_peer_id := peer_id, m_suite := suite_from_id (as_u8 csp),
              m_nai := nai,
              m_inp := (m_inp (p_m p))\<lparr>
                i_vers := get_raw (w_vers wm),
                i_peer_id := get_raw (w_peer_id wm),
                i_cryptosuites := get_raw (w_cryptosuites wm),
                i_dirs := get_raw (w_dirs wm),
                i_server_info := ensure_obj (get_raw (w_server_info wm)),
                i_verp := int_str verp,
                i_cryptosuitep := int_str csp,
                i_dirp := int_str dirp,
                i_peer_info := p_peer_info p,
                i_nai := jstr E nai\<rparr>\<rparr>,
           p_csp := csp, p_dirp := dirp\<rparr>)"

definition peer_negotiation_reply ::
  "env \<Rightarrow> peer \<Rightarrow> string \<Rightarrow> int \<Rightarrow> int \<Rightarrow> int \<Rightarrow> outcome exec" where
  "peer_negotiation_reply E p peer_id verp csp dirp =
     ebind (raw E (int_str verp)) (\<lambda>rverp.
     ebind (raw E (jstr E peer_id)) (\<lambda>rid.
     ebind (raw E (int_str csp)) (\<lambda>rcsp.
     ebind (raw E (int_str dirp)) (\<lambda>rdirp.
     ebind (raw E (p_peer_info p)) (\<lambda>rinfo.
       Returned (send_outcome E
         (empty_wire\<lparr>w_type := Some 2, w_verp := Some rverp, w_peer_id := Some rid,
            w_cryptosuitep := Some rcsp, w_dirp := Some rdirp,
            w_peer_info := Some rinfo\<rparr>)))))))"

definition peer_on_negotiation :: "env \<Rightarrow> peer \<Rightarrow> wire \<Rightarrow> peer \<times> outcome exec" where
  "peer_on_negotiation E p wm =
     (case parse_str E (w_peer_id wm) of
        None \<Rightarrow> (p, Returned (fail E ''bad PeerId''))
      | Some peer_id \<Rightarrow>
          let p1 = p\<lparr>p_m := (p_m p)\<lparr>m_peer_id := peer_id\<rparr>\<rparr>;
              svers = (case parse_ints E (w_vers wm) of Some v \<Rightarrow> v | None \<Rightarrow> [])
          in (case best_version svers (p_versions p) of
                None \<Rightarrow> (p1, Returned (fail E ''no common version''))
              | Some verp \<Rightarrow>
                  let scs = (case parse_ints E (w_cryptosuites wm) of Some v \<Rightarrow> v | None \<Rightarrow> [])
                  in (case first_supported scs (p_cryptosuites p) of
                        None \<Rightarrow> (p1, Returned (fail E ''no common cryptosuite''))
                      | Some csp \<Rightarrow>
                          let sdirs = (case parse_int E (w_dirs wm) of Some v \<Rightarrow> v | None \<Rightarrow> - 1)
                          in (case choose_dir sdirs (p_prefer_dir p) of
                                None \<Rightarrow> (p1, Returned (fail E ''no mutual OOB direction''))
                              | Some dirp \<Rightarrow>
                                  (peer_negotiated E p wm peer_id verp csp dirp,
                                   peer_negotiation_reply E p peer_id verp csp dirp)))))"

definition peer_keyed ::
  "env \<Rightarrow> entropy \<Rightarrow> peer \<Rightarrow> wire \<Rightarrow> key_pair \<Rightarrow> bytes \<Rightarrow> bytes \<Rightarrow> peer" where
  "peer_keyed E rnd p wm kp z ns =
     p\<lparr>p_m := (p_m p)\<lparr>m_keypair := Some kp, m_z := z, m_ns := ns, m_np := ent_nonce rnd,
          m_inp := (m_inp (p_m p))\<lparr>i_pks := get_raw (w_pks wm), i_ns := get_raw (w_ns wm),
                     i_pkp := js_jwk (js E) (public_jwk kp),
                     i_np := jstr E (b64 E (ent_nonce rnd))\<rparr>\<rparr>\<rparr>"

definition peer_key_reply :: "env \<Rightarrow> entropy \<Rightarrow> peer \<Rightarrow> key_pair \<Rightarrow> outcome exec" where
  "peer_key_reply E rnd p kp =
     ebind (raw E (jstr E (m_peer_id (p_m p)))) (\<lambda>rid.
     ebind (raw E (js_jwk (js E) (public_jwk kp))) (\<lambda>rpkp.
     ebind (raw E (jstr E (b64 E (ent_nonce rnd)))) (\<lambda>rnp.
       Returned (send_outcome E
         (empty_wire\<lparr>w_type := Some 3, w_peer_id := Some rid, w_pkp := Some rpkp,
            w_np := Some rnp\<rparr>)))))"

text \<open>The state becomes Waiting only once the reply is built.\<close>

definition peer_on_key_exchange ::
  "env \<Rightarrow> entropy \<Rightarrow> peer \<Rightarrow> wire \<Rightarrow> peer \<times> outcome exec" where
  "peer_on_key_exchange E rnd p wm =
     (case js_jwk_of (js E) (get_raw (w_pks wm)) of
        None \<Rightarrow> (p, Returned (fail E ''bad PKs''))
      | Some jwk \<Rightarrow>
          (case parse_b64 E (w_ns wm) of
             None \<Rightarrow> (p, Returned (fail E ''bad Ns''))
           | Some ns \<Rightarrow>
               (case m_suite (p_m p) of
                  None \<Rightarrow> (p, Panicked)
                | Some suite \<Rightarrow>
                    let kp = generate (cr E) suite (ent_key rnd)
                    in (case compute_z (cr E) kp jwk of
                          Inl _ \<Rightarrow> (p, Returned (fail E ''ECDHE failure''))
                        | Inr z \<Rightarrow>
                            let p1 = peer_keyed E rnd p wm kp z ns
                            in (case peer_key_reply E rnd p kp of
                                  Returned out \<Rightarrow> (p1\<lparr>p_state := Waiting\<rparr>, Returned out)
                                | Panicked \<Rightarrow> (p1, Panicked)
                                | Diverged \<Rightarrow> (p1, Diverged))))))"

definition peer_on_waiting :: "env \<Rightarrow> peer \<Rightarrow> peer \<times> outcome exec" where
  "peer_on_waiting E p =
     (p, ebind (raw E (jstr E (m_peer_id (p_m p)))) (\<lambda>rid.
           Returned (send_outcome E (empty_wire\<lparr>w_type := Some 4, w_peer_id := Some rid\<rparr>))))"

definition peer_on_noob_id :: "env \<Rightarrow> peer \<Rightarrow> peer \<times> outcome exec" where
  "peer_on_noob_id E p =
     (if m_noob (p_m p) = [] then (p, Returned (fail E ''no OOB received''))
      else (p, ebind (raw E (jstr E (m_peer_id (p_m p)))) (\<lambda>rid.
               ebind (raw E (jstr E (b64 E (m_noob_id (p_m p))))) (\<lambda>rnoob.
                 Returned (send_outcome E
                   (empty_wire\<lparr>w_type := Some 5, w_peer_id := Some rid,
                      w_noob_id := Some rnoob\<rparr>))))))"

definition peer_on_completion :: "env \<Rightarrow> peer \<Rightarrow> wire \<Rightarrow> peer \<times> outcome exec" where
  "peer_on_completion E p wm =
     (if m_noob (p_m p) = [] then (p, Returned (fail E ''no OOB processed''))
      else
        let got = (case parse_b64 E (w_noob_id wm) of Some b \<Rightarrow> b | None \<Rightarrow> []) in
        if got \<noteq> m_noob_id (p_m p)
        then (p, Returned (fail_code E UNRECOGNIZED_OOB_MSG_ID ''unrecognized NoobId''))
        else
          let macs = (case parse_b64 E (w_macs wm) of Some b \<Rightarrow> b | None \<Rightarrow> []) in
          (case derive E (p_m p) of
             Panicked \<Rightarrow> (p, Panicked)
           | Diverged \<Rightarrow> (p, Diverged)
           | Returned m \<Rightarrow>
               let p1 = p\<lparr>p_m := m\<rparr> in
               (case m_keym m of
                  None \<Rightarrow> (p1, Panicked)
                | Some k \<Rightarrow>
                    if \<not> mac_equal macs (compute_mac (cr E) (kms k) 2 (m_inp m))
                    then (p1, Returned (fail_code E HMAC_VERIFICATION_FAILED
                                          ''MACs verification failed''))
                    else
                      let macp = compute_mac (cr E) (kmp k) 1 (m_inp m)
                      in (p1, ebind (raw E (jstr E (m_peer_id m))) (\<lambda>rid.
                              ebind (raw E (jstr E (b64 E macp))) (\<lambda>rmacp.
                                Returned (send_outcome E
                                  (empty_wire\<lparr>w_type := Some 6, w_peer_id := Some rid,
                                     w_macp := Some rmacp\<rparr>))))))))"

definition peer_dispatch :: "env \<Rightarrow> entropy \<Rightarrow> peer \<Rightarrow> wire \<Rightarrow> peer \<times> outcome exec" where
  "peer_dispatch E rnd p wm =
     (if w_type wm = Some 1 then peer_on_discovery E p
      else if w_type wm = Some 2 then peer_on_negotiation E p wm
      else if w_type wm = Some 3 then peer_on_key_exchange E rnd p wm
      else if w_type wm = Some 4 then peer_on_waiting E p
      else if w_type wm = Some 5 then peer_on_noob_id E p
      else if w_type wm = Some 6 then peer_on_completion E p wm
      else (p, Returned (fail E ''unexpected type'')))"

definition peer_receive :: "env \<Rightarrow> entropy \<Rightarrow> peer \<Rightarrow> bytes \<Rightarrow> peer \<times> outcome exec" where
  "peer_receive E rnd p input =
     (case wire_of (js E) input of
        None \<Rightarrow> (p, Returned (fail E ''malformed JSON''))
      | Some wm \<Rightarrow>
          (case w_eap wm of
             Some eap \<Rightarrow> peer_on_result p eap
           | None \<Rightarrow>
               (case w_error_code wm of
                  Some code \<Rightarrow> (p, Returned (peer_error_outcome code (w_error_info wm)))
                | None \<Rightarrow> peer_dispatch E rnd p wm)))"

definition oob_input_noob :: "env \<Rightarrow> peer \<Rightarrow> bytes \<Rightarrow> string + peer" where
  "oob_input_noob E p noob =
     (if p_state p \<noteq> Waiting then Inl ''OOB requires Waiting state''
      else if \<not> (p_dirp p = 2 \<or> p_dirp p = 3) then Inl ''server-to-peer OOB not negotiated''
      else if length noob \<noteq> 16 then Inl ''Noob must be 16 bytes''
      else Inr (p\<lparr>p_m := set_noob E noob (p_m p), p_state := OobReceived\<rparr>))"


section \<open>Reachable states\<close>

inductive peer_step :: "env \<Rightarrow> peer \<Rightarrow> peer \<Rightarrow> bool" for E where
  message: "peer_step E p (fst (peer_receive E rnd p input))"
| oob: "oob_input_noob E p noob = Inr p' \<Longrightarrow> peer_step E p p'"

inductive_cases peer_step_cases: "peer_step E p p'"

inductive peer_reach :: "env \<Rightarrow> peer \<Rightarrow> peer \<Rightarrow> bool" for E p0 where
  start: "peer_reach E p0 p0"
| step: "peer_reach E p0 p \<Longrightarrow> peer_step E p p' \<Longrightarrow> peer_reach E p0 p'"

definition peer_wf :: "env \<Rightarrow> peer \<Rightarrow> bool" where
  "peer_wf E p \<longleftrightarrow> p_versions p = [1] \<and> p_cryptosuites p = [1, 2] \<and> p_prefer_dir p = 2 \<and>
                 raw_ok (js E) (p_peer_info p)"

definition peer_inv :: "env \<Rightarrow> peer \<Rightarrow> bool" where
  "peer_inv E p \<longleftrightarrow>
     peer_wf E p \<and> noob_ok E (p_m p) \<and> keym_ok (p_m p) \<and>
     p_state p \<in> {Unregistered, Waiting, OobReceived, Registered} \<and>
     p_dirp p \<in> {0, 1, 2} \<and>
     (p_state p \<in> {Waiting, OobReceived} \<longrightarrow> m_keypair (p_m p) \<noteq> None \<and> m_suite (p_m p) \<noteq> None) \<and>
     (m_suite (p_m p) \<noteq> None \<longrightarrow> suite_from_id (as_u8 (p_csp p)) = m_suite (p_m p)) \<and>
     (p_state p = OobReceived \<longrightarrow> m_noob (p_m p) \<noteq> []) \<and>
     (p_state p = Registered \<longrightarrow> (\<exists>a. p_assoc p = Some a \<and> length (a_kz a) = 32))"

lemmas peer_inv_defs = peer_inv_def peer_wf_def noob_ok_def keym_ok_def

lemma first_supported_Some:
  "first_supported scs pcs = Some c \<Longrightarrow>
   c \<in> set scs \<and> c \<in> set pcs \<and> suite_from_id (as_u8 c) \<noteq> None"
  by (auto simp: first_supported_def find_Some_iff)

lemma choose_dir_Some: "choose_dir d 2 = Some r \<Longrightarrow> r = 1 \<or> r = 2"
  by (auto simp: choose_dir_def split: if_splits)

text \<open>The states a negotiation, a key exchange and a Completion message can leave.\<close>

lemma peer_negotiated_fields [simp]:
  "p_versions (peer_negotiated E p wm pid v c d) = p_versions p"
  "p_cryptosuites (peer_negotiated E p wm pid v c d) = p_cryptosuites p"
  "p_prefer_dir (peer_negotiated E p wm pid v c d) = p_prefer_dir p"
  "p_state (peer_negotiated E p wm pid v c d) = p_state p"
  "p_peer_info (peer_negotiated E p wm pid v c d) = p_peer_info p"
  "p_assoc (peer_negotiated E p wm pid v c d) = p_assoc p"
  "p_csp (peer_negotiated E p wm pid v c d) = c"
  "p_dirp (peer_negotiated E p wm pid v c d) = d"
  "m_suite (p_m (peer_negotiated E p wm pid v c d)) = suite_from_id (as_u8 c)"
  "m_keypair (p_m (peer_negotiated E p wm pid v c d)) = m_keypair (p_m p)"
  "m_keym (p_m (peer_negotiated E p wm pid v c d)) = m_keym (p_m p)"
  "noob_ok E (p_m (peer_negotiated E p wm pid v c d)) = noob_ok E (p_m p)"
  "m_noob (p_m (peer_negotiated E p wm pid v c d)) = m_noob (p_m p)"
  by (simp_all add: peer_negotiated_def Let_def noob_ok_def)

lemma peer_keyed_fields [simp]:
  "p_versions (peer_keyed E rnd p wm kp z ns) = p_versions p"
  "p_cryptosuites (peer_keyed E rnd p wm kp z ns) = p_cryptosuites p"
  "p_prefer_dir (peer_keyed E rnd p wm kp z ns) = p_prefer_dir p"
  "p_state (peer_keyed E rnd p wm kp z ns) = p_state p"
  "p_peer_info (peer_keyed E rnd p wm kp z ns) = p_peer_info p"
  "p_assoc (peer_keyed E rnd p wm kp z ns) = p_assoc p"
  "p_csp (peer_keyed E rnd p wm kp z ns) = p_csp p"
  "p_dirp (peer_keyed E rnd p wm kp z ns) = p_dirp p"
  "m_suite (p_m (peer_keyed E rnd p wm kp z ns)) = m_suite (p_m p)"
  "m_keypair (p_m (peer_keyed E rnd p wm kp z ns)) = Some kp"
  "m_keym (p_m (peer_keyed E rnd p wm kp z ns)) = m_keym (p_m p)"
  "noob_ok E (p_m (peer_keyed E rnd p wm kp z ns)) = noob_ok E (p_m p)"
  "m_noob (p_m (peer_keyed E rnd p wm kp z ns)) = m_noob (p_m p)"
  by (simp_all add: peer_keyed_def noob_ok_def)

lemma peer_on_completion_fst:
  assumes "crypto_ok (cr E)"
  obtains (same) "fst (peer_on_completion E p wm) = p"
  | (derived) k where "fst (peer_on_completion E p wm) = p\<lparr>p_m := (p_m p)\<lparr>m_keym := Some k\<rparr>\<rparr>"
      "length (kz k) = 32"
proof -
  obtain k where k: "derive E (p_m p) = Returned ((p_m p)\<lparr>m_keym := Some k\<rparr>)" "length (kz k) = 32"
    using derive_total [OF assms] by blast
  have "fst (peer_on_completion E p wm) = p \<or>
        fst (peer_on_completion E p wm) = p\<lparr>p_m := (p_m p)\<lparr>m_keym := Some k\<rparr>\<rparr>"
    using k(1) by (simp add: peer_on_completion_def Let_def)
  then show thesis using same derived k(2) by blast
qed

lemma peer_on_negotiation_cases:
  obtains (no_id) "peer_on_negotiation E p wm = (p, Returned (fail E ''bad PeerId''))"
      "parse_str E (w_peer_id wm) = None"
  | (failed) pid reason where
      "peer_on_negotiation E p wm = (p\<lparr>p_m := (p_m p)\<lparr>m_peer_id := pid\<rparr>\<rparr>, Returned (fail E reason))"
  | (chosen) pid v c d where
      "peer_on_negotiation E p wm =
         (peer_negotiated E p wm pid v c d, peer_negotiation_reply E p pid v c d)"
      "parse_str E (w_peer_id wm) = Some pid"
      "best_version (case parse_ints E (w_vers wm) of Some v \<Rightarrow> v | None \<Rightarrow> []) (p_versions p) = Some v"
      "first_supported (case parse_ints E (w_cryptosuites wm) of Some v \<Rightarrow> v | None \<Rightarrow> [])
         (p_cryptosuites p) = Some c"
      "choose_dir (case parse_int E (w_dirs wm) of Some v \<Rightarrow> v | None \<Rightarrow> - 1) (p_prefer_dir p) = Some d"
proof (cases "parse_str E (w_peer_id wm)")
  case None
  then show thesis by (intro no_id) (simp_all add: peer_on_negotiation_def)
next
  case (Some pid)
  let ?v = "best_version (case parse_ints E (w_vers wm) of Some v \<Rightarrow> v | None \<Rightarrow> []) (p_versions p)"
  let ?c = "first_supported (case parse_ints E (w_cryptosuites wm) of Some v \<Rightarrow> v | None \<Rightarrow> [])
              (p_cryptosuites p)"
  let ?d = "choose_dir (case parse_int E (w_dirs wm) of Some v \<Rightarrow> v | None \<Rightarrow> - 1) (p_prefer_dir p)"
  have eq: "peer_on_negotiation E p wm =
    (let p1 = p\<lparr>p_m := (p_m p)\<lparr>m_peer_id := pid\<rparr>\<rparr>
     in case ?v of
          None \<Rightarrow> (p1, Returned (fail E ''no common version''))
        | Some v \<Rightarrow>
            (case ?c of
               None \<Rightarrow> (p1, Returned (fail E ''no common cryptosuite''))
             | Some c \<Rightarrow>
                 (case ?d of
                    None \<Rightarrow> (p1, Returned (fail E ''no mutual OOB direction''))
                  | Some d \<Rightarrow>
                      (peer_negotiated E p wm pid v c d, peer_negotiation_reply E p pid v c d))))"
    unfolding peer_on_negotiation_def Some Let_def option.case ..
  show thesis
  proof (cases "?v = None \<or> ?c = None \<or> ?d = None")
    case True
    with eq have "\<exists>reason. peer_on_negotiation E p wm =
        (p\<lparr>p_m := (p_m p)\<lparr>m_peer_id := pid\<rparr>\<rparr>, Returned (fail E reason))"
      by (cases ?v; cases ?c; cases ?d) (auto simp: Let_def)
    then show thesis using failed by blast
  next
    case False
    then obtain v c d where "?v = Some v" "?c = Some c" "?d = Some d" by auto
    with eq Some show thesis by (intro chosen) (simp_all add: Let_def)
  qed
qed

lemma peer_on_negotiation_inv:
  assumes "peer_inv E p"
  shows "peer_inv E (fst (peer_on_negotiation E p wm))"
proof (cases rule: peer_on_negotiation_cases [of E p wm])
  case no_id
  then show ?thesis using assms by simp
next
  case (failed pid reason)
  then show ?thesis using assms by (simp add: peer_inv_defs)
next
  case (chosen pid v c d)
  have "d = 1 \<or> d = 2"
    using assms chosen(5) choose_dir_Some by (auto simp: peer_inv_def peer_wf_def)
  with chosen(1) first_supported_Some [OF chosen(4)] assms show ?thesis
    by (auto simp: peer_inv_def peer_wf_def keym_ok_def)
qed

lemma peer_on_key_exchange_inv:
  assumes "peer_inv E p"
  shows "peer_inv E (fst (peer_on_key_exchange E rnd p wm))"
proof -
  have "peer_inv E (peer_keyed E rnd p wm kp z ns)"
    "peer_inv E ((peer_keyed E rnd p wm kp z ns)\<lparr>p_state := Waiting\<rparr>)"
    if "m_suite (p_m p) = Some su" for su kp z ns
    using assms that by (auto simp: peer_inv_def peer_wf_def keym_ok_def)
  then show ?thesis
    using assms
    by (simp add: peer_on_key_exchange_def Let_def split: option.split sum.split exec.split)
qed

lemma peer_on_completion_inv:
  assumes "crypto_ok (cr E)" "peer_inv E p"
  shows "peer_inv E (fst (peer_on_completion E p wm))"
  using assms(2)
  by (cases rule: peer_on_completion_fst [OF assms(1), of p wm]) (simp_all add: peer_inv_defs)

lemma peer_on_result_inv: "peer_inv E p \<Longrightarrow> peer_inv E (fst (peer_on_result p eap))"
  by (cases "m_keym (p_m p)") (simp_all add: peer_on_result_def peer_inv_defs)

lemma peer_receive_inv:
  assumes "crypto_ok (cr E)" "peer_inv E p"
  shows "peer_inv E (fst (peer_receive E rnd p input))"
  using assms peer_on_negotiation_inv [OF assms(2)] peer_on_key_exchange_inv [OF assms(2)]
    peer_on_completion_inv [OF assms] peer_on_result_inv [OF assms(2)]
  by (simp add: peer_receive_def peer_dispatch_def peer_on_discovery_def peer_on_waiting_def
      peer_on_noob_id_def split: option.splits)

lemma oob_input_inv:
  "peer_inv E p \<Longrightarrow> oob_input_noob E p noob = Inr p' \<Longrightarrow> peer_inv E p'"
  using set_noob_ok [of noob E "p_m p"]
  by (auto simp: oob_input_noob_def peer_inv_def peer_wf_def keym_ok_def set_noob_def Let_def
           split: if_splits)

lemma peer_step_inv:
  "peer_step E p p' \<Longrightarrow> crypto_ok (cr E) \<Longrightarrow> peer_inv E p \<Longrightarrow> peer_inv E p'"
  by (auto elim!: peer_step_cases intro: peer_receive_inv oob_input_inv)

text \<open>
  C12: whatever bytes arrive, in any order, and whenever the PIN is fed, a peer built with a
  well-formed PeerInfo is in one of four states, has negotiated the suite of its key pair
  while it waits, has a Noob once it is OobReceived, keeps that Noob, its JSON form and its
  NoobId consistent, chooses one of the two one-way OOB directions, and holds a 32-byte
  association key once Registered.
\<close>
theorem peer_reach_inv:
  assumes "crypto_ok (cr E)" "raw_ok (js E) info"
    and "peer_reach E (with_peer_info peer_new info) p"
  shows "peer_inv E p"
  using assms(3)
proof induction
  case start
  show ?case
    using assms(2) by (simp add: peer_inv_defs with_peer_info_def peer_new_def default_method_def)
next
  case (step p p')
  then show ?case using peer_step_inv assms(1) by blast
qed

theorem peer_reach_inv_witness:
  "peer_inv demo_env (fst (peer_receive demo_env \<lparr>ent_id = [1], ent_key = [2], ent_nonce = [3]\<rparr>
     (with_peer_info peer_new ''{}'') [9]))"
  by (rule peer_reach_inv [of demo_env "''{}''"])
     (simp_all add: braces_raw_ok demo_crypto_ok peer_reach.step [OF peer_reach.start peer_step.message]
        del: demo_raw_ok)

section \<open>What the peer accepts\<close>

text \<open>Every handler but the terminating result leaves the association and reports no success.\<close>

lemma reply_not_success [simp]:
  "\<not> succeeded (peer_negotiation_reply E p pid v c d)" "\<not> succeeded (peer_key_reply E rnd p kp)"
  by (auto simp: peer_negotiation_reply_def peer_key_reply_def raw_def split: option.split)

lemma ebind_not_success:
  "(\<And>r. \<not> succeeded (f r)) \<Longrightarrow> \<not> succeeded (ebind x f)"
  by (cases x) simp_all

lemma peer_negotiation_quiet:
  "\<not> succeeded (snd (peer_on_negotiation E p wm)) \<and>
   p_assoc (fst (peer_on_negotiation E p wm)) = p_assoc p \<and>
   p_state (fst (peer_on_negotiation E p wm)) = p_state p"
  by (cases rule: peer_on_negotiation_cases [of E p wm]) simp_all

lemma peer_key_exchange_quiet:
  "\<not> succeeded (snd (peer_on_key_exchange E rnd p wm)) \<and>
   p_assoc (fst (peer_on_key_exchange E rnd p wm)) = p_assoc p \<and>
   p_state (fst (peer_on_key_exchange E rnd p wm)) \<in> {p_state p, Waiting}"
  by (auto simp: peer_on_key_exchange_def Let_def split: option.split sum.split exec.split)
     (metis reply_not_success(2) succeeded.simps(1))

lemma peer_completion_quiet:
  "\<not> succeeded (snd (peer_on_completion E p wm)) \<and>
   p_assoc (fst (peer_on_completion E p wm)) = p_assoc p \<and>
   p_state (fst (peer_on_completion E p wm)) = p_state p"
  by (auto simp: peer_on_completion_def Let_def intro!: ebind_not_success
        split: option.split exec.split)

lemma peer_dispatch_quiet:
  "\<not> succeeded (snd (peer_dispatch E rnd p wm)) \<and>
   p_assoc (fst (peer_dispatch E rnd p wm)) = p_assoc p \<and>
   p_state (fst (peer_dispatch E rnd p wm)) \<in> {p_state p, Waiting}"
  using peer_negotiation_quiet [of E p wm] peer_key_exchange_quiet [of E rnd p wm]
    peer_completion_quiet [of E p wm]
  by (simp add: peer_dispatch_def peer_on_discovery_def peer_on_waiting_def peer_on_noob_id_def
        Let_def ebind_not_success)

text \<open>
  C5: the peer becomes Registered and reports success exactly when a message says
  \<open>success\<close>, in whatever state it is and whoever sent it: no MAC is asked for, and where it
  has derived no keys it stores 32 zero bytes as the association key. No other message
  makes it succeed or touches its association.
\<close>
theorem peer_success_iff:
  "case peer_receive E rnd p input of
     (p', r) \<Rightarrow>
       if map_option w_eap (wire_of (js E) input) = Some (Some ''success'')
       then succeeded r \<and> p_state p' = Registered \<and> p_m p' = p_m p \<and>
            map_option a_kz (p_assoc p') =
              Some (case m_keym (p_m p) of Some k \<Rightarrow> kz k | None \<Rightarrow> replicate 32 0)
       else \<not> succeeded r \<and> p_assoc p' = p_assoc p \<and> p_state p' \<in> {p_state p, Waiting}"
proof (cases "wire_of (js E) input")
  case None
  then show ?thesis by (simp add: peer_receive_def)
next
  case (Some wm)
  show ?thesis
  proof (cases "w_eap wm")
    case None
    with Some show ?thesis
      using peer_dispatch_quiet [of E rnd p wm]
      by (cases "w_error_code wm") (auto simp: peer_receive_def case_prod_beta)
  next
    case (Some eap)
    with \<open>wire_of (js E) input = Some wm\<close> show ?thesis
      by (simp add: peer_receive_def peer_on_result_def default_outcome_def)
  qed
qed

section \<open>The Completion message\<close>

definition macs_accepted :: "env \<Rightarrow> peer \<Rightarrow> wire \<Rightarrow> derived_keys \<Rightarrow> bool" where
  "macs_accepted E p wm k \<longleftrightarrow>
     m_noob (p_m p) \<noteq> [] \<and>
     (case parse_b64 E (w_noob_id wm) of Some b \<Rightarrow> b | None \<Rightarrow> []) = m_noob_id (p_m p) \<and>
     derive_completion (cr E) (m_z (p_m p)) (m_np (p_m p)) (m_ns (p_m p)) (m_noob (p_m p)) = Returned k \<and>
     (case parse_b64 E (w_macs wm) of Some b \<Rightarrow> b | None \<Rightarrow> []) =
        compute_mac (cr E) (kms k) 2 (m_inp (p_m p))"

text \<open>
  The peer answers a Completion message with its own MAC exactly when a PIN was fed, the
  NoobId is that of its Noob and the MAC is right, under the key derived from the key
  exchange, the nonces and the Noob, for all the fields it saw; its MAC is then over the same
  fields. Otherwise it reports 1003, 2003 or 4001 for the first check that fails.
\<close>
theorem peer_completion_iff:
  assumes "json_ok (js E)" "crypto_ok (cr E)"
  shows "\<exists>out. snd (peer_on_completion E p wm) = Returned out \<and>
    (if \<exists>k. macs_accepted E p wm k
     then o_error_code out = None \<and> \<not> o_done out \<and>
       (\<exists>k. macs_accepted E p wm k \<and>
         o_send out = Some (wire_bytes E (empty_wire\<lparr>w_type := Some 6,
           w_peer_id := Some (jstr E (m_peer_id (p_m p))),
           w_macp := Some (jstr E (b64 E (compute_mac (cr E) (kmp k) 1 (m_inp (p_m p)))))\<rparr>)))
     else o_done out \<and> o_error_code out = Some
       (if m_noob (p_m p) = [] then 1003
        else if (case parse_b64 E (w_noob_id wm) of Some b \<Rightarrow> b | None \<Rightarrow> []) \<noteq> m_noob_id (p_m p)
        then 2003 else 4001))"
proof -
  obtain k where k: "derive E (p_m p) = Returned ((p_m p)\<lparr>m_keym := Some k\<rparr>)"
    "derive_completion (cr E) (m_z (p_m p)) (m_np (p_m p)) (m_ns (p_m p)) (m_noob (p_m p)) = Returned k"
    using derive_total [OF assms(2)] by blast
  then have acc: "macs_accepted E p wm k' \<longleftrightarrow> macs_accepted E p wm k \<and> k' = k" for k'
    by (auto simp: macs_accepted_def)
  show ?thesis
  proof (cases "macs_accepted E p wm k")
    case True
    with acc have "\<exists>k'. macs_accepted E p wm k'" by blast
    with True k show ?thesis
      using json_okD(2) [OF assms(1)]
      by (auto simp: peer_on_completion_def Let_def macs_accepted_def)
  next
    case False
    with acc have "\<nexists>k'. macs_accepted E p wm k'" by blast
    with False k show ?thesis
      by (auto simp: peer_on_completion_def Let_def macs_accepted_def INVALID_DATA_def
          UNRECOGNIZED_OOB_MSG_ID_def HMAC_VERIFICATION_FAILED_def)
  qed
qed

theorem peer_completion_iff_witness:
  "\<exists>out. snd (peer_on_completion demo_env peer_new empty_wire) = Returned out \<and> o_error_code out = Some 1003"
  using peer_completion_iff [OF demo_env_ok, of peer_new empty_wire]
  by (auto simp: macs_accepted_def peer_new_def default_method_def)

section \<open>Panics\<close>

definition peer_unwraps_none :: "env \<Rightarrow> peer \<Rightarrow> wire \<Rightarrow> bool" where
  "peer_unwraps_none E p wm \<longleftrightarrow>
     w_eap wm = None \<and> w_error_code wm = None \<and> w_type wm = Some 3 \<and>
     js_jwk_of (js E) (get_raw (w_pks wm)) \<noteq> None \<and> parse_b64 E (w_ns wm) \<noteq> None \<and>
     m_suite (p_m p) = None"

lemma peer_on_negotiation_returns:
  assumes "json_ok (js E)" "peer_wf E p"
  shows "returns (snd (peer_on_negotiation E p wm))"
proof (cases rule: peer_on_negotiation_cases [of E p wm])
  case (chosen pid v c d)
  have "v = 1"
    using chosen(3) assms(2) best_version_from_spec [of None _ "[1]" "Some v"]
    by (simp add: peer_wf_def best_version_def)
  moreover have "c = 1 \<or> c = 2"
    using first_supported_Some [OF chosen(4)] assms(2) by (simp add: peer_wf_def)
  moreover have "d = 1 \<or> d = 2"
    using chosen(5) assms(2) choose_dir_Some by (simp add: peer_wf_def)
  ultimately have "in_i64 v" "in_i64 c" "in_i64 d" by (auto simp: in_i64_def)
  with chosen(1) assms show ?thesis
    by (simp add: peer_negotiation_reply_def json_okD peer_wf_def)
qed simp_all

lemma peer_completion_returns:
  assumes "json_ok (js E)" "crypto_ok (cr E)"
  shows "returns (snd (peer_on_completion E p wm))"
  using derive_total [OF assms(2), of "p_m p"] json_okD(2) [OF assms(1)]
  by (auto simp: peer_on_completion_def Let_def)

lemma peer_key_reply_returns: "json_ok (js E) \<Longrightarrow> returns (peer_key_reply E rnd p kp)"
  by (simp add: peer_key_reply_def json_okD)

lemma peer_on_key_exchange_panics:
  assumes "json_ok (js E)"
  shows "if js_jwk_of (js E) (get_raw (w_pks wm)) \<noteq> None \<and> parse_b64 E (w_ns wm) \<noteq> None \<and>
            m_suite (p_m p) = None
         then snd (peer_on_key_exchange E rnd p wm) = Panicked
         else returns (snd (peer_on_key_exchange E rnd p wm))"
  using peer_key_reply_returns [OF assms, of rnd p]
  by (auto simp: peer_on_key_exchange_def Let_def split: option.splits sum.splits exec.splits)
     (metis returns_not)+

text \<open>
  C39: processing a message always ends, and panics in exactly one case: a key-exchange
  message with a readable key and nonce before any negotiation chose a suite.
\<close>
theorem peer_receive_panics_iff:
  assumes "json_ok (js E)" "crypto_ok (cr E)" "peer_wf E p"
  shows "if \<exists>wm. wire_of (js E) input = Some wm \<and> peer_unwraps_none E p wm
         then snd (peer_receive E rnd p input) = Panicked
         else returns (snd (peer_receive E rnd p input))"
proof (cases "\<exists>wm. wire_of (js E) input = Some wm \<and> w_eap wm = None \<and> w_error_code wm = None")
  case True
  then obtain wm where wm: "wire_of (js E) input = Some wm" "w_eap wm = None" "w_error_code wm = None"
    by blast
  then have eq: "peer_receive E rnd p input = peer_dispatch E rnd p wm"
    by (simp add: peer_receive_def)
  have "returns (snd (peer_on_completion E p wm))"
    by (rule peer_completion_returns [OF assms(1,2)])
  then show ?thesis
    using wm peer_on_negotiation_returns [OF assms(1,3), of wm]
      peer_on_key_exchange_panics [OF assms(1), of wm p rnd] assms(1)
    unfolding eq
    by (auto simp: peer_dispatch_def peer_unwraps_none_def peer_on_discovery_def
        peer_on_waiting_def peer_on_noob_id_def Let_def json_okD)
next
  case False
  then show ?thesis
    by (auto simp: peer_receive_def peer_unwraps_none_def peer_on_result_def split: option.splits)
qed

text \<open>A key-exchange message for a peer that has negotiated nothing.\<close>

theorem peer_receive_panics_iff_witness:
  "\<exists>b. snd (peer_receive demo_env \<lparr>ent_id = [1], ent_key = [2], ent_nonce = [3]\<rparr>
     (with_peer_info peer_new ''{}'') b) = Panicked"
proof -
  let ?w = "empty_wire\<lparr>w_type := Some 3, w_pks := Some (js_jwk demo_json \<lparr>kty = [], crv = [], jx = [], jy = None\<rparr>),
      w_ns := Some (jstr demo_env (b64 demo_env [1]))\<rparr>"
  have "wire_ok (js demo_env) ?w"
    using json_okD [OF demo_env_ok(1)]
    by (simp add: wire_ok_def raw_fields_def int_fields_def in_i64_def)
  then have b: "wire_of (js demo_env) (wire_bytes demo_env ?w) = Some ?w"
    by (rule wire_of_bytes [OF demo_env_ok(1)])
  have "peer_unwraps_none demo_env (with_peer_info peer_new ''{}'') ?w"
    using json_okD(7) [OF demo_env_ok(1)] parse_b64_jstr [OF demo_env_ok, of "[1]"]
    by (simp add: peer_unwraps_none_def get_raw_def with_peer_info_def peer_new_def default_method_def)
  moreover have "peer_wf demo_env (with_peer_info peer_new ''{}'')"
    using braces_raw_ok by (simp add: peer_wf_def with_peer_info_def peer_new_def)
  ultimately show ?thesis
    using peer_receive_panics_iff [OF demo_env_ok, of _ "wire_bytes demo_env ?w"] b
    by (metis option.inject)
qed

end
