(* ===== verification/Handshake.thy ===== *)
theory Handshake
  imports Server Peer
begin

text \<open>
  The two machines against each other: the exchange of messages the test
  \<open>full_handshake_registers_both_sides\<close> of machine.rs runs, for any random draws, any
  ServerInfo and PeerInfo and any out-of-band values.
\<close>

section \<open>Running the machines\<close>

definition sent :: "outcome exec \<Rightarrow> bytes" where
  "sent r = (case r of Returned out \<Rightarrow> (case o_send out of Some b \<Rightarrow> b | None \<Rightarrow> []) | _ \<Rightarrow> [])"

text \<open>One round: the server's bytes to the peer, the peer's answer to the server.\<close>

definition machine_round ::
  "env \<Rightarrow> entropy \<Rightarrow> entropy \<Rightarrow> bytes \<Rightarrow> server \<times> peer \<Rightarrow> (server \<times> peer) \<times> outcome exec" where
  "machine_round E rs rp msg sp =
     (let (p', po) = peer_receive E rp (snd sp) msg;
          (s', so) = srv_receive E rs (fst sp) (sent po)
      in ((s', p'), so))"

text \<open>What the two sides agree on after a key exchange.\<close>

definition synced :: "server \<Rightarrow> peer \<Rightarrow> bool" where
  "synced s p \<longleftrightarrow>
     s_state s = Waiting \<and> p_state p = Waiting \<and>
     m_inp (s_m s) = m_inp (p_m p) \<and> m_z (s_m s) = m_z (p_m p) \<and>
     m_ns (s_m s) = m_ns (p_m p) \<and> m_np (s_m s) = m_np (p_m p) \<and>
     m_peer_id (s_m s) = m_peer_id (p_m p) \<and> s_dirp s = 2 \<and> p_dirp p = 2"

section \<open>The messages of an honest exchange\<close>

definition type1_response :: "env \<Rightarrow> peer \<Rightarrow> wire" where
  "type1_response E p =
     (let w = empty_wire\<lparr>w_type := Some 1, w_peer_state := Some (state_num (p_state p)),
                          w_nai := Some (jstr E (m_nai (p_m p)))\<rparr>
      in if p_state p \<noteq> Unregistered \<and> m_peer_id (p_m p) \<noteq> []
         then w\<lparr>w_peer_id := Some (jstr E (m_peer_id (p_m p)))\<rparr> else w)"

definition type2_request :: "env \<Rightarrow> entropy \<Rightarrow> server \<Rightarrow> wire" where
  "type2_request E rnd s =
     empty_wire\<lparr>w_type := Some 2, w_vers := Some (js_ints (js E) (s_versions s)),
       w_peer_id := Some (jstr E (new_peer_id E rnd)),
       w_cryptosuites := Some (js_ints (js E) (s_cryptosuites s)),
       w_dirs := Some (int_str (s_dirs s)), w_server_info := Some (s_server_info s)\<rparr>"

definition type2_response :: "env \<Rightarrow> peer \<Rightarrow> string \<Rightarrow> int \<Rightarrow> int \<Rightarrow> int \<Rightarrow> wire" where
  "type2_response E p pid v c d =
     empty_wire\<lparr>w_type := Some 2, w_verp := Some (int_str v), w_peer_id := Some (jstr E pid),
       w_cryptosuitep := Some (int_str c), w_dirp := Some (int_str d),
       w_peer_info := Some (p_peer_info p)\<rparr>"

definition type3_request :: "env \<Rightarrow> server \<Rightarrow> key_pair \<Rightarrow> bytes \<Rightarrow> wire" where
  "type3_request E s kp ns =
     empty_wire\<lparr>w_type := Some 3, w_peer_id := Some (jstr E (m_peer_id (s_m s))),
       w_pks := Some (js_jwk (js E) (public_jwk kp)), w_ns := Some (jstr E (b64 E ns))\<rparr>"

definition type3_response :: "env \<Rightarrow> peer \<Rightarrow> key_pair \<Rightarrow> bytes \<Rightarrow> wire" where
  "type3_response E p kp np =
     empty_wire\<lparr>w_type := Some 3, w_peer_id := Some (jstr E (m_peer_id (p_m p))),
       w_pkp := Some (js_jwk (js E) (public_jwk kp)), w_np := Some (jstr E (b64 E np))\<rparr>"

lemmas message_defs = type1_response_def type2_request_def type2_response_def
  type3_request_def type3_response_def

lemma state_num_in_i64 [simp]: "in_i64 (state_num s)"
  by (cases s) (simp_all add: in_i64_def)

lemma small_in_i64 [simp]: "in_i64 0" "in_i64 1" "in_i64 2" "in_i64 3" "in_i64 4" "in_i64 5" "in_i64 6"
  by (simp_all add: in_i64_def)

lemma messages_ok:
  assumes "json_ok (js E)"
  shows "wire_ok (js E) (type1_response E p)"
    and "srv_wf E s \<Longrightarrow> wire_ok (js E) (type2_request E rnd s)"
    and "peer_wf E p \<Longrightarrow> v = 1 \<Longrightarrow> c \<in> {1, 2} \<Longrightarrow> d \<in> {1, 2} \<Longrightarrow>
         wire_ok (js E) (type2_response E p pid v c d)"
    and "wire_ok (js E) (type3_request E s kp ns)"
    and "wire_ok (js E) (type3_response E p kp np)"
  using json_okD [OF assms]
  by (auto simp: wire_ok_def raw_fields_def int_fields_def message_defs Let_def srv_wf_def peer_wf_def)

section \<open>The initial exchange\<close>

lemma peer_discovery:
  assumes "json_ok (js E)"
  shows "peer_on_discovery E p = (p, Returned (send_outcome E (type1_response E p)))"
  by (simp add: peer_on_discovery_def type1_response_def Let_def json_okD [OF assms])

lemma peer_gets_discovery:
  assumes "json_ok (js E)"
  shows "peer_receive E rnd p (srv_start E s) = (p, Returned (send_outcome E (type1_response E p)))"
proof -
  have "wire_ok (js E) (empty_wire\<lparr>w_type := Some 1\<rparr>)"
    by (simp add: wire_ok_def raw_fields_def int_fields_def)
  from wire_of_bytes [OF assms this] show ?thesis
    by (simp add: peer_receive_def srv_start_def peer_dispatch_def peer_discovery [OF assms])
qed

lemma sent_send [simp]: "sent (Returned (send_outcome E w)) = wire_bytes E w"
  by (simp add: sent_def)

lemma srv_receive_bytes:
  "json_ok (js E) \<Longrightarrow> wire_ok (js E) w \<Longrightarrow> w_error_code w = None \<Longrightarrow>
   srv_receive E rnd s (wire_bytes E w) = srv_dispatch E rnd s w"
  by (simp add: srv_receive_def wire_of_bytes)

lemma peer_receive_bytes:
  "json_ok (js E) \<Longrightarrow> wire_ok (js E) w \<Longrightarrow> w_eap w = None \<Longrightarrow> w_error_code w = None \<Longrightarrow>
   peer_receive E rnd p (wire_bytes E w) = peer_dispatch E rnd p w"
  by (simp add: peer_receive_def wire_of_bytes)

text \<open>The state of each side after each of its messages.\<close>

definition server1 :: "env \<Rightarrow> entropy \<Rightarrow> string \<Rightarrow> server" where
  "server1 E rnd sinfo =
     (let s = with_server_info server_new sinfo
      in s\<lparr>s_m := default_method\<lparr>m_nai := DEFAULT_NAI, m_peer_id := new_peer_id E rnd,
             m_inp := default_inputs\<lparr>i_vers := js_ints (js E) [1],
               i_peer_id := jstr E (new_peer_id E rnd), i_cryptosuites := js_ints (js E) [2, 1],
               i_dirs := int_str 2, i_server_info := sinfo\<rparr>\<rparr>\<rparr>)"

definition agreed_inputs :: "env \<Rightarrow> entropy \<Rightarrow> string \<Rightarrow> string \<Rightarrow> mac_inputs" where
  "agreed_inputs E rnd sinfo pinfo =
     default_inputs\<lparr>i_vers := js_ints (js E) [1], i_verp := int_str 1,
       i_peer_id := jstr E (new_peer_id E rnd), i_cryptosuites := js_ints (js E) [2, 1],
       i_dirs := int_str 2, i_server_info := sinfo, i_cryptosuitep := int_str 2,
       i_dirp := int_str 2, i_nai := jstr E DEFAULT_NAI, i_peer_info := pinfo\<rparr>"

definition peer1 :: "env \<Rightarrow> entropy \<Rightarrow> string \<Rightarrow> string \<Rightarrow> peer" where
  "peer1 E rnd sinfo pinfo =
     (with_peer_info peer_new pinfo)\<lparr>
       p_m := default_method\<lparr>m_nai := DEFAULT_NAI, m_peer_id := new_peer_id E rnd,
         m_suite := Some P256, m_inp := agreed_inputs E rnd sinfo pinfo\<rparr>,
       p_csp := 2, p_dirp := 2\<rparr>"

definition server2 :: "env \<Rightarrow> entropy \<Rightarrow> entropy \<Rightarrow> string \<Rightarrow> string \<Rightarrow> server" where
  "server2 E rnd rnd2 sinfo pinfo =
     (let kp = generate (cr E) P256 (ent_key rnd2)
      in (with_server_info server_new sinfo)\<lparr>
            s_m := default_method\<lparr>m_nai := DEFAULT_NAI, m_peer_id := new_peer_id E rnd,
              m_suite := Some P256, m_keypair := Some kp, m_ns := ent_nonce rnd2,
              m_inp := (agreed_inputs E rnd sinfo pinfo)\<lparr>
                i_pks := js_jwk (js E) (public_jwk kp), i_ns := jstr E (b64 E (ent_nonce rnd2))\<rparr>\<rparr>,
            s_csp := 2, s_dirp := 2\<rparr>)"

lemma agreed_choices [simp]:
  "best_version [1] [1] = Some 1" "first_supported [2, 1] [1, 2] = Some 2"
  "choose_dir 2 2 = Some 2" "suite_from_id (as_u8 2) = Some P256" "and (2::int) 2 = 2"
  by (simp_all add: best_version_def first_supported_def choose_dir_def as_u8_def
      suite_from_id.simps)

lemma fresh_fields [simp]:
  "s_state (with_server_info server_new i) = Unregistered" "s_m (with_server_info server_new i) = default_method"
  "p_state (with_peer_info peer_new i) = Unregistered"
  "p_m (with_peer_info peer_new i) = default_method\<lparr>m_nai := DEFAULT_NAI\<rparr>"
  "p_peer_info (with_peer_info peer_new i) = i" "p_versions (with_peer_info peer_new i) = [1]"
  "p_cryptosuites (with_peer_info peer_new i) = [1, 2]" "p_prefer_dir (with_peer_info peer_new i) = 2"
  "s_versions (with_server_info server_new i) = [1]"
  "s_cryptosuites (with_server_info server_new i) = [2, 1]" "s_dirs (with_server_info server_new i) = 2"
  "s_server_info (with_server_info server_new i) = i" "s_peer_state (with_server_info server_new i) = 0"
  by (simp_all add: with_server_info_def server_new_def with_peer_info_def peer_new_def)

lemma default_method_simps [simp]:
  "m_peer_id default_method = []" "m_nai default_method = []" "m_inp default_method = default_inputs"
  "m_suite default_method = None" "m_noob default_method = []" "m_keypair default_method = None"
  by (simp_all add: default_method_def)

lemma round1:
  assumes "json_ok (js E)" "raw_ok (js E) sinfo"
  shows "machine_round E rs rp (srv_start E s) (with_server_info server_new sinfo, with_peer_info peer_new pinfo) =
    ((server1 E rs sinfo, with_peer_info peer_new pinfo),
     Returned (send_outcome E (type2_request E rs (with_server_info server_new sinfo))))"
proof -
  let ?p = "with_peer_info peer_new pinfo" and ?s = "with_server_info server_new sinfo"
  have w: "type1_response E ?p = empty_wire\<lparr>w_type := Some 1, w_peer_state := Some 0,
      w_nai := Some (jstr E DEFAULT_NAI)\<rparr>"
    by (simp add: type1_response_def)
  have "srv_receive E rs ?s (wire_bytes E (type1_response E ?p)) = srv_on_discovery E rs ?s (type1_response E ?p)"
    by (subst srv_receive_bytes [OF assms(1) messages_ok(1) [OF assms(1)]])
       (simp_all add: w srv_dispatch_def)
  also have "\<dots> = (server1 E rs sinfo, Returned (send_outcome E (type2_request E rs ?s)))"
    using assms by (simp add: srv_on_discovery_def w json_okD build_negotiation_def
        type2_request_def server1_def Let_def DEFAULT_NAI_def)
  finally show ?thesis
    by (simp add: machine_round_def peer_gets_discovery [OF assms(1)])
qed

lemma peer_gets_type2:
  assumes "json_ok (js E)" "raw_ok (js E) sinfo" "raw_ok (js E) pinfo"
  shows "peer_receive E rp (with_peer_info peer_new pinfo)
      (wire_bytes E (type2_request E rs (with_server_info server_new sinfo))) =
    (peer1 E rs sinfo pinfo, Returned (send_outcome E (type2_response E (with_peer_info peer_new pinfo)
        (new_peer_id E rs) 1 2 2)))"
proof -
  let ?w = "type2_request E rs (with_server_info server_new sinfo)"
  have "peer_receive E rp (with_peer_info peer_new pinfo) (wire_bytes E ?w) =
        peer_on_negotiation E (with_peer_info peer_new pinfo) ?w"
    by (subst peer_receive_bytes [OF assms(1) messages_ok(2) [OF assms(1) srv_wf_new [OF assms(2)]]])
       (simp_all add: type2_request_def peer_dispatch_def)
  moreover have "sinfo \<noteq> []"
    using raw_ok_frag [OF assms(1,2)] by (auto simp: json_frag_def)
  ultimately show ?thesis
    using assms by (simp add: peer_on_negotiation_def type2_request_def parse_ints_def parse_int_def
        json_okD Let_def peer_negotiated_def peer_negotiation_reply_def peer1_def agreed_inputs_def
        type2_response_def get_raw_def ensure_obj_def)
qed

lemma server_gets_type2:
  assumes "json_ok (js E)" "raw_ok (js E) pinfo"
  shows "srv_receive E rs2 (server1 E rs sinfo)
      (wire_bytes E (type2_response E (with_peer_info peer_new pinfo) (new_peer_id E rs) 1 2 2)) =
    (server2 E rs rs2 sinfo pinfo,
     Returned (send_outcome E (type3_request E (server1 E rs sinfo)
       (generate (cr E) P256 (ent_key rs2)) (ent_nonce rs2))))"
proof -
  let ?w = "type2_response E (with_peer_info peer_new pinfo) (new_peer_id E rs) 1 2 2"
  have "peer_wf E (with_peer_info peer_new pinfo)" using assms(2) by (simp add: peer_wf_def)
  then have "wire_ok (js E) ?w" by (intro messages_ok(3) assms(1)) simp_all
  from srv_receive_bytes [OF assms(1) this]
  have "srv_receive E rs2 (server1 E rs sinfo) (wire_bytes E ?w) =
        srv_on_negotiation E rs2 (server1 E rs sinfo) ?w"
    by (simp add: type2_response_def srv_dispatch_def)
  moreover have "pinfo \<noteq> []"
    using raw_ok_frag [OF assms] by (auto simp: json_frag_def)
  ultimately show ?thesis
    using assms by (simp add: srv_on_negotiation_def type2_response_def check_peer_id_def server1_def
        Let_def json_okD parse_int_def get_raw_def ensure_obj_def build_key_exchange_def
        server2_def agreed_inputs_def type3_request_def)
qed

definition peer2 :: "env \<Rightarrow> entropy \<Rightarrow> entropy \<Rightarrow> entropy \<Rightarrow> string \<Rightarrow> string \<Rightarrow> bytes \<Rightarrow> peer" where
  "peer2 E rs rs2 rp sinfo pinfo z =
     (let kps = generate (cr E) P256 (ent_key rs2); kp = generate (cr E) P256 (ent_key rp)
      in (peer1 E rs sinfo pinfo)\<lparr>
            p_m := (p_m (peer1 E rs sinfo pinfo))\<lparr>m_keypair := Some kp, m_z := z,
              m_ns := ent_nonce rs2, m_np := ent_nonce rp,
              m_inp := (agreed_inputs E rs sinfo pinfo)\<lparr>
                i_pks := js_jwk (js E) (public_jwk kps), i_ns := jstr E (b64 E (ent_nonce rs2)),
                i_pkp := js_jwk (js E) (public_jwk kp), i_np := jstr E (b64 E (ent_nonce rp))\<rparr>\<rparr>,
            p_state := Waiting\<rparr>)"

lemma peer_gets_type3:
  assumes "json_ok (js E)" "crypto_ok (cr E)"
    and z: "compute_z (cr E) (generate (cr E) P256 (ent_key rp))
              (public_jwk (generate (cr E) P256 (ent_key rs2))) = Inr z"
  shows "peer_receive E rp (peer1 E rs sinfo pinfo)
      (wire_bytes E (type3_request E (server1 E rs sinfo)
         (generate (cr E) P256 (ent_key rs2)) (ent_nonce rs2))) =
    (peer2 E rs rs2 rp sinfo pinfo z,
     Returned (send_outcome E (type3_response E (peer1 E rs sinfo pinfo)
       (generate (cr E) P256 (ent_key rp)) (ent_nonce rp))))"
proof -
  let ?w = "type3_request E (server1 E rs sinfo) (generate (cr E) P256 (ent_key rs2)) (ent_nonce rs2)"
  from peer_receive_bytes [OF assms(1) messages_ok(4) [OF assms(1)]]
  have "peer_receive E rp (peer1 E rs sinfo pinfo) (wire_bytes E ?w) =
        peer_on_key_exchange E rp (peer1 E rs sinfo pinfo) ?w"
    by (simp add: type3_request_def peer_dispatch_def)
  then show ?thesis
    using assms by (simp add: peer_on_key_exchange_def type3_request_def get_raw_def json_okD
        peer1_def peer_keyed_def peer_key_reply_def Let_def peer2_def type3_response_def)
qed

definition server3 :: "env \<Rightarrow> entropy \<Rightarrow> entropy \<Rightarrow> entropy \<Rightarrow> string \<Rightarrow> string \<Rightarrow> bytes \<Rightarrow> server" where
  "server3 E rs rs2 rp sinfo pinfo z =
     (let s = server2 E rs rs2 sinfo pinfo; kp = generate (cr E) P256 (ent_key rp)
      in s\<lparr>s_m := (s_m s)\<lparr>m_np := ent_nonce rp, m_z := z,
              m_inp := (m_inp (s_m s))\<lparr>i_pkp := js_jwk (js E) (public_jwk kp),
                 i_np := jstr E (b64 E (ent_nonce rp))\<rparr>\<rparr>,
           s_state := Waiting\<rparr>)"

lemma server_gets_type3:
  assumes "json_ok (js E)" "crypto_ok (cr E)"
    and z: "compute_z (cr E) (generate (cr E) P256 (ent_key rs2))
              (public_jwk (generate (cr E) P256 (ent_key rp))) = Inr z"
  shows "srv_receive E rs3 (server2 E rs rs2 sinfo pinfo)
      (wire_bytes E (type3_response E (peer1 E rs sinfo pinfo)
         (generate (cr E) P256 (ent_key rp)) (ent_nonce rp))) =
    (server3 E rs rs2 rp sinfo pinfo z, Returned (srv_done_failure E))"
proof -
  let ?w = "type3_response E (peer1 E rs sinfo pinfo) (generate (cr E) P256 (ent_key rp)) (ent_nonce rp)"
  from srv_receive_bytes [OF assms(1) messages_ok(5) [OF assms(1)]]
  have "srv_receive E rs3 (server2 E rs rs2 sinfo pinfo) (wire_bytes E ?w) =
        srv_on_key_exchange E (server2 E rs rs2 sinfo pinfo) ?w"
    by (simp add: type3_response_def srv_dispatch_def)
  then show ?thesis
    using assms parse_b64_jstr [OF assms(1,2)]
    by (simp add: srv_on_key_exchange_def type3_response_def get_raw_def json_okD crypto_okD
        check_peer_id_def peer1_def server2_def server3_def Let_def)
qed

text \<open>
  The initial exchange: three rounds, the first started by the server, in which the peer draws
  \<open>rp\<close> for its key pair and the server \<open>rs\<close> and \<open>rs2\<close>.
\<close>

definition initial_exchange ::
  "env \<Rightarrow> entropy \<Rightarrow> entropy \<Rightarrow> entropy \<Rightarrow> server \<times> peer \<Rightarrow> (server \<times> peer) \<times> outcome exec" where
  "initial_exchange E rs rs2 rp sp =
     (let (sp1, o1) = machine_round E rs rp (srv_start E (fst sp)) sp;
          (sp2, o2) = machine_round E rs2 rp (sent o1) sp1
      in machine_round E rs2 rp (sent o2) sp2)"

lemma initial_exchange_run:
  assumes "json_ok (js E)" "crypto_ok (cr E)" "raw_ok (js E) sinfo" "raw_ok (js E) pinfo"
  obtains z where
    "initial_exchange E rs rs2 rp (with_server_info server_new sinfo, with_peer_info peer_new pinfo) =
       ((server3 E rs rs2 rp sinfo pinfo z, peer2 E rs rs2 rp sinfo pinfo z), Returned (srv_done_failure E))"
proof -
  obtain z where z:
    "compute_z (cr E) (generate (cr E) P256 (ent_key rs2))
       (public_jwk (generate (cr E) P256 (ent_key rp))) = Inr z"
    "compute_z (cr E) (generate (cr E) P256 (ent_key rp))
       (public_jwk (generate (cr E) P256 (ent_key rs2))) = Inr z"
    using same_suite_agree [OF assms(2)] by blast
  have "machine_round E rs2 rp (wire_bytes E (type2_request E rs (with_server_info server_new sinfo)))
      (server1 E rs sinfo, with_peer_info peer_new pinfo) =
    ((server2 E rs rs2 sinfo pinfo, peer1 E rs sinfo pinfo),
     Returned (send_outcome E (type3_request E (server1 E rs sinfo)
       (generate (cr E) P256 (ent_key rs2)) (ent_nonce rs2))))"
    by (simp add: machine_round_def peer_gets_type2 [OF assms(1,3,4)] server_gets_type2 [OF assms(1,4)])
  moreover have "machine_round E rs2 rp (wire_bytes E (type3_request E (server1 E rs sinfo)
       (generate (cr E) P256 (ent_key rs2)) (ent_nonce rs2))) (server2 E rs rs2 sinfo pinfo, peer1 E rs sinfo pinfo) =
    ((server3 E rs rs2 rp sinfo pinfo z, peer2 E rs rs2 rp sinfo pinfo z), Returned (srv_done_failure E))"
    by (simp add: machine_round_def peer_gets_type3 [OF assms(1,2) z(2)]
        server_gets_type3 [OF assms(1,2) z(1)])
  ultimately show thesis
    by (intro that [of z]) (simp add: initial_exchange_def round1 [OF assms(1,3)])
qed

lemma synced_run: "synced (server3 E rs rs2 rp sinfo pinfo z) (peer2 E rs rs2 rp sinfo pinfo z)"
  by (simp add: synced_def server3_def server2_def peer2_def peer1_def Let_def)

lemma run_infos:
  "server_peer_info (server3 E rs rs2 rp sinfo pinfo z) = pinfo"
  "peer_server_info (peer2 E rs rs2 rp sinfo pinfo z) = sinfo"
  by (simp_all add: server_peer_info_def peer_server_info_def server3_def server2_def
      peer2_def agreed_inputs_def Let_def)

text \<open>
  The initial exchange of a fresh inviter and a fresh joiner succeeds for any random draws
  and any well-formed identities: both end in Waiting, with the same shared secret, nonces,
  PeerId and verbatim fields, each holding the other's identity object.
\<close>
theorem initial_exchange_syncs:
  assumes "json_ok (js E)" "crypto_ok (cr E)" "raw_ok (js E) sinfo" "raw_ok (js E) pinfo"
  shows "case initial_exchange E rs rs2 rp
           (with_server_info server_new sinfo, with_peer_info peer_new pinfo) of
     ((s, p), r) \<Rightarrow> r = Returned (srv_done_failure E) \<and> synced s p \<and>
        server_peer_info s = pinfo \<and> peer_server_info p = sinfo"
proof -
  obtain z where "initial_exchange E rs rs2 rp
      (with_server_info server_new sinfo, with_peer_info peer_new pinfo) =
       ((server3 E rs rs2 rp sinfo pinfo z, peer2 E rs rs2 rp sinfo pinfo z), Returned (srv_done_failure E))"
    using initial_exchange_run [OF assms] by blast
  then show ?thesis
    by (simp add: synced_run run_infos)
qed

theorem initial_exchange_syncs_witness:
  "let rnd = \<lparr>ent_id = [1], ent_key = [2], ent_nonce = [3]\<rparr>
   in synced (fst (fst (initial_exchange demo_env rnd rnd rnd
                (with_server_info server_new ''{}'', with_peer_info peer_new ''{}''))))
             (snd (fst (initial_exchange demo_env rnd rnd rnd
                (with_server_info server_new ''{}'', with_peer_info peer_new ''{}''))))"
  using initial_exchange_syncs [OF demo_env_ok braces_raw_env braces_raw_env]
  by (simp add: Let_def case_prod_beta)

section \<open>The completion exchange\<close>

text \<open>
  The loop that delivers the server's message to the peer and the peer's answer to the server,
  until the peer reports an end; one unit of fuel per round.
\<close>

fun completion_loop ::
  "nat \<Rightarrow> env \<Rightarrow> entropy \<Rightarrow> bytes \<Rightarrow> server \<times> peer \<Rightarrow> (server \<times> peer) \<times> outcome exec option" where
  "completion_loop 0 E rnd msg sp = (sp, None)"
| "completion_loop (Suc n) E rnd msg sp =
     (case peer_receive E rnd (snd sp) msg of
        (p', Returned out) \<Rightarrow>
          if o_done out then ((fst sp, p'), Some (Returned out))
          else (case srv_receive E rnd (fst sp) (sent (Returned out)) of
                  (s', so) \<Rightarrow> completion_loop n E rnd (sent so) (s', p'))
      | (p', r) \<Rightarrow> ((fst sp, p'), Some r))"

definition with_noob :: "env \<Rightarrow> bytes \<Rightarrow> server \<Rightarrow> server" where
  "with_noob E noob s = s\<lparr>s_m := set_noob E noob (s_m s)\<rparr>"

definition peer_with_noob :: "env \<Rightarrow> bytes \<Rightarrow> peer \<Rightarrow> peer" where
  "peer_with_noob E noob p = p\<lparr>p_m := set_noob E noob (p_m p), p_state := OobReceived\<rparr>"

lemma oob_both:
  assumes "synced s p"
  shows "length noob = 16 \<Longrightarrow> oob_output_with E s noob = Inr (with_noob E noob s)"
    and "length noob = 16 \<Longrightarrow> oob_input_noob E p noob = Inr (peer_with_noob E noob p)"
  using assms by (auto simp: synced_def oob_output_with_def oob_input_noob_def with_noob_def
      peer_with_noob_def)

definition type5_request :: "env \<Rightarrow> string \<Rightarrow> wire" where
  "type5_request E pid = empty_wire\<lparr>w_type := Some 5, w_peer_id := Some (jstr E pid)\<rparr>"

definition type5_response :: "env \<Rightarrow> string \<Rightarrow> bytes \<Rightarrow> wire" where
  "type5_response E pid nid =
     empty_wire\<lparr>w_type := Some 5, w_peer_id := Some (jstr E pid), w_noob_id := Some (jstr E (b64 E nid))\<rparr>"

definition type6_request :: "env \<Rightarrow> string \<Rightarrow> bytes \<Rightarrow> bytes \<Rightarrow> wire" where
  "type6_request E pid nid macs =
     empty_wire\<lparr>w_type := Some 6, w_peer_id := Some (jstr E pid), w_noob_id := Some (jstr E (b64 E nid)),
       w_macs := Some (jstr E (b64 E macs))\<rparr>"

definition type6_response :: "env \<Rightarrow> string \<Rightarrow> bytes \<Rightarrow> wire" where
  "type6_response E pid macp =
     empty_wire\<lparr>w_type := Some 6, w_peer_id := Some (jstr E pid), w_macp := Some (jstr E (b64 E macp))\<rparr>"

lemmas completion_defs = type5_request_def type5_response_def type6_request_def type6_response_def

lemma completion_messages_ok:
  assumes "json_ok (js E)"
  shows "wire_ok (js E) (type5_request E pid)" "wire_ok (js E) (type5_response E pid nid)"
    "wire_ok (js E) (type6_request E pid nid macs)" "wire_ok (js E) (type6_response E pid macp)"
  using json_okD [OF assms]
  by (simp_all add: wire_ok_def raw_fields_def int_fields_def completion_defs)

text \<open>The server after it has heard that the peer holds a Noob.\<close>

definition server_heard :: "env \<Rightarrow> server \<Rightarrow> peer \<Rightarrow> server" where
  "server_heard E s p =
     s\<lparr>s_peer_state := 2,
       s_m := (s_m s)\<lparr>m_nai := if m_nai (p_m p) = [] then DEFAULT_NAI else m_nai (p_m p)\<rparr>\<rparr>"

lemma server_gets_oob_received:
  assumes "json_ok (js E)" "s_state s = Waiting" "m_noob (s_m s) \<noteq> []" "p_state p = OobReceived"
  shows "srv_receive E rnd s (wire_bytes E (type1_response E p)) =
    (server_heard E s p, Returned (send_outcome E (type5_request E (m_peer_id (s_m s)))))"
proof -
  let ?w = "type1_response E p"
  have w: "w_type ?w = Some 1" "w_peer_state ?w = Some 2" "w_nai ?w = Some (jstr E (m_nai (p_m p)))"
    "w_error_code ?w = None"
    using assms(4) by (simp_all add: type1_response_def Let_def)
  have "srv_receive E rnd s (wire_bytes E ?w) = srv_on_discovery E rnd s ?w"
    using srv_receive_bytes [OF assms(1) messages_ok(1) [OF assms(1)]] w by (simp add: srv_dispatch_def)
  then show ?thesis
    using assms by (simp add: srv_on_discovery_def w Let_def json_okD start_completion_def
        peer_id_message_def server_heard_def type5_request_def)
qed

lemma peer_gets_type5:
  assumes "json_ok (js E)" "m_noob (p_m p) \<noteq> []"
  shows "peer_receive E rnd p (wire_bytes E (type5_request E pid)) =
    (p, Returned (send_outcome E (type5_response E (m_peer_id (p_m p)) (m_noob_id (p_m p)))))"
  using peer_receive_bytes [OF assms(1) completion_messages_ok(1) [OF assms(1)], of pid rnd p] assms
  by (simp add: type5_request_def peer_dispatch_def peer_on_noob_id_def type5_response_def json_okD)

lemma server_gets_type5:
  assumes "json_ok (js E)" "crypto_ok (cr E)" "m_peer_id (s_m s) = pid"
  shows "srv_receive E rnd s (wire_bytes E (type5_response E pid nid)) =
    (if nid = m_noob_id (s_m s) then build_completion E s
     else (s, Returned (fail_code E UNRECOGNIZED_OOB_MSG_ID ''unrecognized NoobId'')))"
  using srv_receive_bytes [OF assms(1) completion_messages_ok(2) [OF assms(1)], of pid nid rnd s] assms
  by (simp add: type5_response_def srv_dispatch_def srv_on_noob_id_def check_peer_id_def json_okD)

lemma build_completion_eq:
  assumes "json_ok (js E)"
    "derive_completion (cr E) (m_z (s_m s)) (m_np (s_m s)) (m_ns (s_m s)) (m_noob (s_m s)) = Returned k"
  shows "build_completion E s =
    (s\<lparr>s_m := (s_m s)\<lparr>m_keym := Some k\<rparr>\<rparr>,
     Returned (send_outcome E (type6_request E (m_peer_id (s_m s)) (m_noob_id (s_m s))
        (compute_mac (cr E) (kms k) 2 (m_inp (s_m s))))))"
  using assms by (simp add: build_completion_def derive_def Let_def type6_request_def json_okD)

lemma peer_gets_type6:
  assumes "json_ok (js E)" "crypto_ok (cr E)" "m_noob (p_m p) \<noteq> []" "nid = m_noob_id (p_m p)"
    "derive_completion (cr E) (m_z (p_m p)) (m_np (p_m p)) (m_ns (p_m p)) (m_noob (p_m p)) = Returned k"
    "macs = compute_mac (cr E) (kms k) 2 (m_inp (p_m p))"
  shows "peer_receive E rnd p (wire_bytes E (type6_request E pid nid macs)) =
    (p\<lparr>p_m := (p_m p)\<lparr>m_keym := Some k\<rparr>\<rparr>,
     Returned (send_outcome E (type6_response E (m_peer_id (p_m p))
        (compute_mac (cr E) (kmp k) 1 (m_inp (p_m p))))))"
  using peer_receive_bytes [OF assms(1) completion_messages_ok(3) [OF assms(1)], of pid nid macs rnd p] assms
  by (simp add: type6_request_def peer_dispatch_def peer_on_completion_def derive_def Let_def
      type6_response_def json_okD)

lemma server_gets_type6:
  assumes "json_ok (js E)" "crypto_ok (cr E)" "m_peer_id (s_m s) = pid" "m_keym (s_m s) = Some k"
    "macp = compute_mac (cr E) (kmp k) 1 (m_inp (s_m s))"
  shows "srv_receive E rnd s (wire_bytes E (type6_response E pid macp)) =
    (s\<lparr>s_assoc := Some (srv_finish s k), s_state := Registered\<rparr>,
     Returned (default_outcome\<lparr>o_send := Some (result_bytes E ''success''), o_done := True, o_success := True\<rparr>))"
  using srv_receive_bytes [OF assms(1) completion_messages_ok(4) [OF assms(1)], of pid macp rnd s] assms
  by (simp add: type6_response_def srv_dispatch_def srv_on_completion_def check_peer_id_def json_okD Let_def)

lemma peer_gets_success:
  assumes "json_ok (js E)"
  shows "peer_receive E rnd p (result_bytes E ''success'') = peer_on_result p ''success''"
proof -
  have "wire_ok (js E) (empty_wire\<lparr>w_eap := Some ''success''\<rparr>)"
    by (simp add: wire_ok_def raw_fields_def int_fields_def)
  from wire_of_bytes [OF assms this] show ?thesis by (simp add: peer_receive_def result_bytes_def)
qed

lemma peer_gets_error:
  assumes "json_ok (js E)" "in_i64 c"
  shows "peer_receive E rnd p (err_bytes E c info) = (p, Returned (peer_error_outcome c (Some info)))"
proof -
  have "wire_ok (js E) (empty_wire\<lparr>w_type := Some 0, w_error_code := Some c, w_error_info := Some info\<rparr>)"
    using assms(2) by (simp add: wire_ok_def raw_fields_def int_fields_def)
  from wire_of_bytes [OF assms(1) this] show ?thesis by (simp add: peer_receive_def err_bytes_def)
qed

lemma with_noob_fields [simp]:
  "s_state (with_noob E n s) = s_state s" "m_noob (s_m (with_noob E n s)) = n"
  "m_noob_id (s_m (with_noob E n s)) = compute_noob_id (cr E) (jstr E (b64 E n))"
  "m_peer_id (s_m (with_noob E n s)) = m_peer_id (s_m s)"
  "m_inp (s_m (with_noob E n s)) = (m_inp (s_m s))\<lparr>i_noob := jstr E (b64 E n)\<rparr>"
  "m_z (s_m (with_noob E n s)) = m_z (s_m s)" "m_ns (s_m (with_noob E n s)) = m_ns (s_m s)"
  "m_np (s_m (with_noob E n s)) = m_np (s_m s)" "s_assoc (with_noob E n s) = s_assoc s"
  by (simp_all add: with_noob_def set_noob_def Let_def)

lemma peer_with_noob_fields [simp]:
  "p_state (peer_with_noob E n p) = OobReceived" "m_noob (p_m (peer_with_noob E n p)) = n"
  "m_noob_id (p_m (peer_with_noob E n p)) = compute_noob_id (cr E) (jstr E (b64 E n))"
  "m_peer_id (p_m (peer_with_noob E n p)) = m_peer_id (p_m p)"
  "m_inp (p_m (peer_with_noob E n p)) = (m_inp (p_m p))\<lparr>i_noob := jstr E (b64 E n)\<rparr>"
  "m_z (p_m (peer_with_noob E n p)) = m_z (p_m p)" "m_ns (p_m (peer_with_noob E n p)) = m_ns (p_m p)"
  "m_np (p_m (peer_with_noob E n p)) = m_np (p_m p)" "p_assoc (peer_with_noob E n p) = p_assoc p"
  by (simp_all add: peer_with_noob_def set_noob_def Let_def)

lemma server_heard_fields [simp]:
  "s_state (server_heard E s p) = s_state s" "m_noob (s_m (server_heard E s p)) = m_noob (s_m s)"
  "m_noob_id (s_m (server_heard E s p)) = m_noob_id (s_m s)"
  "m_peer_id (s_m (server_heard E s p)) = m_peer_id (s_m s)"
  "m_inp (s_m (server_heard E s p)) = m_inp (s_m s)" "m_z (s_m (server_heard E s p)) = m_z (s_m s)"
  "m_ns (s_m (server_heard E s p)) = m_ns (s_m s)" "m_np (s_m (server_heard E s p)) = m_np (s_m s)"
  "s_assoc (server_heard E s p) = s_assoc s"
  by (simp_all add: server_heard_def)

lemma sent_out [simp]: "sent (Returned (default_outcome\<lparr>o_send := Some b, o_done := d, o_success := e\<rparr>)) = b"
  by (simp add: sent_def)

lemma sent_fail [simp]: "sent (Returned (fail_code E c i)) = err_bytes E c i"
  by (simp add: sent_def fail_code_def)

text \<open>One step of the loop when the peer answers, and when it reports the end.\<close>

lemma completion_loop_go:
  "peer_receive E rnd p msg = (p', Returned out) \<Longrightarrow> \<not> o_done out \<Longrightarrow>
   srv_receive E rnd s (sent (Returned out)) = (s', so) \<Longrightarrow>
   completion_loop (Suc n) E rnd msg (s, p) = completion_loop n E rnd (sent so) (s', p')"
  by simp

lemma completion_loop_end:
  "peer_receive E rnd p msg = (p', Returned out) \<Longrightarrow> o_done out \<Longrightarrow>
   completion_loop (Suc n) E rnd msg (s, p) = ((s, p'), Some (Returned out))"
  by simp

text \<open>The two rounds before the NoobIds are compared.\<close>

lemma completion_first_rounds:
  assumes "json_ok (js E)" "crypto_ok (cr E)" "synced s p" "length ns = 16" "length np = 16"
  shows "completion_loop (Suc (Suc n)) E rnd (srv_start E s0) (with_noob E ns s, peer_with_noob E np p) =
    (let s1 = server_heard E (with_noob E ns s) (peer_with_noob E np p);
         r = (if compute_noob_id (cr E) (jstr E (b64 E np)) = compute_noob_id (cr E) (jstr E (b64 E ns))
              then build_completion E s1
              else (s1, Returned (fail_code E UNRECOGNIZED_OOB_MSG_ID ''unrecognized NoobId'')))
     in completion_loop n E rnd (sent (snd r)) (fst r, peer_with_noob E np p))"
proof -
  let ?s = "with_noob E ns s" and ?p = "peer_with_noob E np p"
  have ne: "m_noob (s_m ?s) \<noteq> []" "m_noob (p_m ?p) \<noteq> []" and st: "s_state ?s = Waiting"
    and pid: "m_peer_id (s_m ?s) = m_peer_id (p_m ?p)"
    using assms by (auto simp: synced_def)
  have "completion_loop (Suc (Suc n)) E rnd (srv_start E s0) (?s, ?p) =
        completion_loop (Suc n) E rnd (wire_bytes E (type5_request E (m_peer_id (s_m ?s)))) (server_heard E ?s ?p, ?p)"
    using completion_loop_go [OF peer_gets_discovery [OF assms(1)]] server_gets_oob_received [OF assms(1) st ne(1)]
    by (simp del: completion_loop.simps)
  moreover have "srv_receive E rnd (server_heard E ?s ?p)
      (wire_bytes E (type5_response E (m_peer_id (p_m ?p)) (m_noob_id (p_m ?p)))) =
    (if m_noob_id (p_m ?p) = m_noob_id (s_m ?s) then build_completion E (server_heard E ?s ?p)
     else (server_heard E ?s ?p, Returned (fail_code E UNRECOGNIZED_OOB_MSG_ID ''unrecognized NoobId'')))"
    using server_gets_type5 [OF assms(1,2), of "server_heard E ?s ?p"] pid by simp
  ultimately show ?thesis
    using peer_gets_type5 [OF assms(1) ne(2)]
    by (simp add: case_prod_beta Let_def)
qed

text \<open>
  C14: when both sides are fed the same 16-byte value after a key exchange, four rounds
  suffice and both end Registered with the same association key, the one derived from the
  shared secret, the nonces and that value, each still holding the identity object the other
  sent.
\<close>
theorem completion_registers_both:
  assumes "json_ok (js E)" "crypto_ok (cr E)" "synced s p" "length noob = 16"
  shows "case completion_loop (4 + n) E rnd (srv_start E s) (with_noob E noob s, peer_with_noob E noob p) of
     ((s', p'), r) \<Rightarrow>
       (\<exists>k. derive_completion (cr E) (m_z (p_m p)) (m_np (p_m p)) (m_ns (p_m p)) noob = Returned k \<and>
          map_option a_kz (s_assoc s') = Some (kz k) \<and> map_option a_kz (p_assoc p') = Some (kz k)) \<and>
       s_state s' = Registered \<and> p_state p' = Registered \<and>
       map_option succeeded r = Some True \<and>
       server_peer_info s' = server_peer_info s \<and> peer_server_info p' = peer_server_info p"
proof -
  define s1 where "s1 = server_heard E (with_noob E noob s) (peer_with_noob E noob p)"
  let ?p = "peer_with_noob E noob p"
  obtain k where k: "derive_completion (cr E) (m_z (p_m p)) (m_np (p_m p)) (m_ns (p_m p)) noob = Returned k"
    using derive_completion_cases [OF assms(2)] by metis
  have ne: "noob \<noteq> []" using assms(4) by auto
  have s1: "m_inp (s_m s1) = m_inp (p_m ?p)" "m_peer_id (s_m s1) = m_peer_id (p_m ?p)"
    "m_noob_id (s_m s1) = m_noob_id (p_m ?p)"
    "derive_completion (cr E) (m_z (s_m s1)) (m_np (s_m s1)) (m_ns (s_m s1)) (m_noob (s_m s1)) = Returned k"
    using assms(3) k by (simp_all add: s1_def synced_def)
  have four: "4 + n = Suc (Suc (Suc (Suc n)))" by simp
  let ?s2 = "s1\<lparr>s_m := (s_m s1)\<lparr>m_keym := Some k\<rparr>\<rparr>" and ?p2 = "?p\<lparr>p_m := (p_m ?p)\<lparr>m_keym := Some k\<rparr>\<rparr>"
  let ?s3 = "?s2\<lparr>s_assoc := Some (srv_finish ?s2 k), s_state := Registered\<rparr>"
  have "completion_loop (4 + n) E rnd (srv_start E s) (with_noob E noob s, ?p) =
        completion_loop (Suc (Suc n)) E rnd (wire_bytes E (type6_request E (m_peer_id (s_m s1)) (m_noob_id (s_m s1))
           (compute_mac (cr E) (kms k) 2 (m_inp (s_m s1))))) (?s2, ?p)"
    unfolding four
    using completion_first_rounds [OF assms(1-3) assms(4,4), of "Suc (Suc n)" rnd s]
      build_completion_eq [OF assms(1) s1(4)]
    by (simp add: s1_def [symmetric] del: completion_loop.simps)
  also have "\<dots> = completion_loop (Suc n) E rnd (result_bytes E ''success'') (?s3, ?p2)"
  proof (rule trans [OF completion_loop_go])
    show "peer_receive E rnd ?p (wire_bytes E (type6_request E (m_peer_id (s_m s1)) (m_noob_id (s_m s1))
        (compute_mac (cr E) (kms k) 2 (m_inp (s_m s1))))) =
      (?p2, Returned (send_outcome E (type6_response E (m_peer_id (p_m ?p))
        (compute_mac (cr E) (kmp k) 1 (m_inp (p_m ?p))))))"
      by (rule peer_gets_type6 [OF assms(1,2)]) (use ne k s1 in simp_all)
    show "srv_receive E rnd ?s2 (sent (Returned (send_outcome E (type6_response E (m_peer_id (p_m ?p))
        (compute_mac (cr E) (kmp k) 1 (m_inp (p_m ?p))))))) =
      (?s3, Returned (default_outcome\<lparr>o_send := Some (result_bytes E ''success''), o_done := True,
         o_success := True\<rparr>))"
      unfolding sent_send by (rule server_gets_type6 [OF assms(1,2)]) (use s1 in simp_all)
  qed simp_all
  also have "\<dots> = ((?s3, fst (peer_on_result ?p2 ''success'')), Some (snd (peer_on_result ?p2 ''success'')))"
    by (simp add: peer_gets_success [OF assms(1)] peer_on_result_def default_outcome_def)
  finally show ?thesis
    using k assms(3)
    by (simp add: peer_on_result_def default_outcome_def srv_finish_def server_peer_info_def
        peer_server_info_def s1_def synced_def)
qed

text \<open>
  When the two sides hold values with different NoobIds, the server refuses the NoobId
  with code 2003, the peer reports that code, which marks a wrong PIN, and neither side is
  Registered or has gained an association.
\<close>
theorem wrong_noob_registers_nobody:
  assumes "json_ok (js E)" "crypto_ok (cr E)" "synced s p" "length ns = 16" "length np = 16"
    and "compute_noob_id (cr E) (jstr E (b64 E np)) \<noteq> compute_noob_id (cr E) (jstr E (b64 E ns))"
  shows "case completion_loop (3 + n) E rnd (srv_start E s) (with_noob E ns s, peer_with_noob E np p) of
     ((s', p'), r) \<Rightarrow>
       r = Some (Returned (peer_error_outcome UNRECOGNIZED_OOB_MSG_ID (Some ''unrecognized NoobId''))) \<and>
       is_wrong_pin_code UNRECOGNIZED_OOB_MSG_ID \<and>
       s_state s' = Waiting \<and> s_assoc s' = s_assoc s \<and>
       p_state p' = OobReceived \<and> p_assoc p' = p_assoc p"
proof -
  have three: "3 + n = Suc (Suc (Suc n))" by simp
  have "in_i64 UNRECOGNIZED_OOB_MSG_ID" by (simp add: in_i64_def UNRECOGNIZED_OOB_MSG_ID_def)
  then show ?thesis
    unfolding three
    using completion_first_rounds [OF assms(1-5), of "Suc n" rnd s] assms(3,6)
      peer_gets_error [OF assms(1)]
    by (simp add: Let_def is_wrong_pin_code_def synced_def)
qed

section \<open>Witnesses\<close>

definition demo_rnd :: entropy where
  "demo_rnd = \<lparr>ent_id = [1], ent_key = [2], ent_nonce = [3]\<rparr>"

definition demo_server :: server where
  "demo_server = server3 demo_env demo_rnd demo_rnd demo_rnd ''{}'' ''{}'' [0]"

definition demo_peer :: peer where
  "demo_peer = peer2 demo_env demo_rnd demo_rnd demo_rnd ''{}'' ''{}'' [0]"

lemma demo_synced: "synced demo_server demo_peer"
  unfolding demo_server_def demo_peer_def by (rule synced_run)

theorem completion_registers_both_witness:
  "s_state (fst (fst (completion_loop 4 demo_env demo_rnd (srv_start demo_env demo_server)
     (with_noob demo_env (replicate 16 7) demo_server, peer_with_noob demo_env (replicate 16 7) demo_peer))))
   = Registered"
  using completion_registers_both [OF demo_env_ok demo_synced, of "replicate 16 7" 0 demo_rnd]
  by (simp add: case_prod_beta del: completion_loop.simps)

lemma demo_noob_id_last:
  "compute_noob_id demo_crypto (demo_str (s @ [c])) ! 2 = word_of_nat (of_char c)"
proof -
  obtain d where "str_bytes (''['' @ [quote] @ ''NoobId'' @ [quote] @ '','' @ demo_str (s @ [c]) @ '']'') =
      d @ [word_of_nat (of_char c), word_of_nat (of_char quote), word_of_nat (of_char (CHR '']''))]"
    by (simp add: demo_str_def str_bytes_def)
  then show ?thesis
    by (simp add: compute_noob_id_def demo_hash_def del: append_assoc)
qed

lemma demo_noob_ids_differ:
  "compute_noob_id demo_crypto (demo_str (demo_chars (replicate 15 0 @ [1]))) \<noteq>
   compute_noob_id demo_crypto (demo_str (demo_chars (replicate 15 0 @ [2])))"
proof -
  have "demo_chars (d @ [b]) = demo_chars d @ [char_of (unat b)]" for d b
    by (simp add: demo_chars_def)
  then show ?thesis
    using demo_noob_id_last [of "demo_chars (replicate 15 0)"]
    by (auto dest!: arg_cong [where f = "\<lambda>x. x ! 2"])
qed

theorem wrong_noob_registers_nobody_witness:
  "s_state (fst (fst (completion_loop 3 demo_env demo_rnd (srv_start demo_env demo_server)
     (with_noob demo_env (replicate 15 0 @ [2]) demo_server,
      peer_with_noob demo_env (replicate 15 0 @ [1]) demo_peer))))
   = Waiting"
proof -
  have "compute_noob_id (cr demo_env) (jstr demo_env (b64 demo_env (replicate 15 0 @ [1]))) \<noteq>
        compute_noob_id (cr demo_env) (jstr demo_env (b64 demo_env (replicate 15 0 @ [2])))"
    using demo_noob_ids_differ by (simp add: demo_json_def del: append_replicate_commute)
  from wrong_noob_registers_nobody [OF demo_env_ok demo_synced _ _ this, of 0 demo_rnd]
  show ?thesis by (simp add: case_prod_beta del: completion_loop.simps)
qed

end
