(* ===== verification/Pem.thy ===== *)
theory Pem
  imports Prelude
begin

text \<open>
  Certificates in PEM form: the extraction of the first CERTIFICATE block and the small base64
  decoder (\<open>pem_to_der\<close>, \<open>base64_decode\<close>, crates/pair-trust/src/identity.rs; a second copy of
  both is in crates/pair-node/src/trust.rs). The reference encoder is RFC 4648.
\<close>

definition b64_table :: string where
  "b64_table = ''ABCDEFGHIJKLMNOPQRSTUVWXYZabcdefghijklmnopqrstuvwxyz0123456789+/''"

text \<open>The reverse table \<open>rev\<close>: 255 marks the characters that are not in the alphabet.\<close>

definition b64_rev :: "char \<Rightarrow> 8 word" where
  "b64_rev c = (case map_of (zip b64_table [0..<64]) c of Some i \<Rightarrow> word_of_nat i | None \<Rightarrow> 255)"

definition ascii_ws :: "char \<Rightarrow> bool" where
  "ascii_ws c \<longleftrightarrow> c \<in> {CHR 0x20, CHR 0x09, CHR 0x0A, CHR 0x0C, CHR 0x0D}"

text \<open>The loop: the bits read so far in \<open>buf\<close>, of which the last \<open>bits\<close> are not yet used.\<close>

fun base64_loop :: "32 word \<Rightarrow> nat \<Rightarrow> bytes \<Rightarrow> string \<Rightarrow> bytes option" where
  "base64_loop buf bits out [] = Some out"
| "base64_loop buf bits out (c # cs) =
     (if c = CHR ''='' \<or> ascii_ws c then base64_loop buf bits out cs
      else
        let v = b64_rev c in
        if v = 255 then None
        else
          let buf' = or (push_bit 6 buf) (ucast v) in
          if 8 \<le> bits + 6
          then base64_loop buf' (bits + 6 - 8) (out @ [ucast (drop_bit (bits + 6 - 8) buf')]) cs
          else base64_loop buf' (bits + 6) out cs)"

definition base64_decode :: "string \<Rightarrow> bytes option" where
  "base64_decode s = base64_loop 0 0 [] s"

definition BEGIN_CERT :: string where "BEGIN_CERT = ''-----BEGIN CERTIFICATE-----''"
definition END_CERT :: string where "END_CERT = ''-----END CERTIFICATE-----''"

text \<open>The text between the first BEGIN and the next END, each line trimmed.\<close>

fun pem_body :: "bool \<Rightarrow> string list \<Rightarrow> string" where
  "pem_body in_block [] = []"
| "pem_body in_block (line # ls) =
     (if starts_with line BEGIN_CERT then pem_body True ls
      else if starts_with line END_CERT then []
      else (if in_block then trim line else []) @ pem_body in_block ls)"

definition pem_to_der :: "string \<Rightarrow> bytes option" where
  "pem_to_der pem =
     (let b64 = pem_body False (str_lines pem) in if b64 = [] then None else base64_decode b64)"

section \<open>The standard encoding\<close>

definition b64_char :: "8 word \<Rightarrow> char" where
  "b64_char v = b64_table ! unat v"

fun b64_std :: "bytes \<Rightarrow> string" where
  "b64_std [] = []"
| "b64_std [a] =
     [b64_char (drop_bit 2 a), b64_char (push_bit 4 (take_bit 2 a)), CHR ''='', CHR ''='']"
| "b64_std [a, b] =
     [b64_char (drop_bit 2 a), b64_char (or (push_bit 4 (take_bit 2 a)) (drop_bit 4 b)),
      b64_char (push_bit 2 (take_bit 4 b)), CHR ''='']"
| "b64_std (a # b # c # r) =
     [b64_char (drop_bit 2 a), b64_char (or (push_bit 4 (take_bit 2 a)) (drop_bit 4 b)),
      b64_char (or (push_bit 2 (take_bit 4 b)) (drop_bit 6 c)), b64_char (take_bit 6 c)] @ b64_std r"

lemma length_b64_table: "length b64_table = 64"
  by (simp add: b64_table_def)

lemma distinct_b64_table: "distinct b64_table"
  by (simp add: b64_table_def)

lemma b64_table_graphic: "c \<in> set b64_table \<Longrightarrow> graphic c \<and> c \<noteq> CHR ''='' \<and> c \<noteq> CHR ''-'' \<and> \<not> ascii_ws c"
  by (auto simp: b64_table_def graphic_def ascii_ws_def)

lemma b64_char_rev:
  assumes "v < 64"
  shows "b64_rev (b64_char v) = v" "b64_char v \<in> set b64_table"
proof -
  have v: "unat v < 64" using assms by (simp add: word_less_nat_alt)
  then have "map_of (zip b64_table [0..<64]) (b64_table ! unat v) = Some (unat v)"
    using map_of_zip_nth [of b64_table "[0..<64]" "unat v"] length_b64_table distinct_b64_table
    by simp
  then show "b64_rev (b64_char v) = v" by (simp add: b64_rev_def b64_char_def)
  show "b64_char v \<in> set b64_table" using v length_b64_table by (simp add: b64_char_def)
qed

lemma byte_eqI:
  fixes a b :: byte
  assumes "bit a 0 = bit b 0" "bit a 1 = bit b 1" "bit a 2 = bit b 2" "bit a 3 = bit b 3"
    "bit a 4 = bit b 4" "bit a 5 = bit b 5" "bit a 6 = bit b 6" "bit a 7 = bit b 7"
  shows "a = b"
proof (rule bit_word_eqI)
  fix n assume "n < LENGTH(8)"
  then have "n \<in> {0, 1, 2, 3, 4, 5, 6, 7}" by auto
  then show "bit a n = bit b n" using assms by blast
qed

lemma bit_byte_ge: "8 \<le> n \<Longrightarrow> \<not> bit (a :: byte) n"
  by (auto dest: bit_imp_le_length)

lemma sextets:
  fixes a b c :: byte
  shows "drop_bit 2 a < 64" "push_bit 4 (take_bit 2 a) < 64"
    "or (push_bit 4 (take_bit 2 a)) (drop_bit 4 b) < 64"
    "push_bit 2 (take_bit 4 b) < 64"
    "or (push_bit 2 (take_bit 4 b)) (drop_bit 6 c) < 64" "take_bit 6 c < 64"
proof -
  have lt: "w < 64" if "\<not> bit w 6" "\<not> bit w 7" for w :: byte
  proof -
    have "take_bit 6 w = w"
      using that by (intro byte_eqI) (simp_all add: bit_simps)
    then have "unat w = take_bit 6 (unat w)" by (metis unsigned_take_bit_eq)
    then have "unat w < 2 ^ 6" by (metis take_bit_nat_less_exp)
    then show ?thesis by (simp add: word_less_nat_alt)
  qed
  show "drop_bit 2 a < 64" "push_bit 4 (take_bit 2 a) < 64"
    "or (push_bit 4 (take_bit 2 a)) (drop_bit 4 b) < 64" "push_bit 2 (take_bit 4 b) < 64"
    "or (push_bit 2 (take_bit 4 b)) (drop_bit 6 c) < 64" "take_bit 6 c < 64"
    by (rule lt; simp add: bit_simps bit_byte_ge)+
qed

section \<open>Decoding\<close>

lemma b64_char_step:
  assumes "v < 64"
  shows "base64_loop buf bits out (b64_char v # cs) =
    (let buf' = or (push_bit 6 buf) (ucast v) in
     if 8 \<le> bits + 6
     then base64_loop buf' (bits + 6 - 8) (out @ [ucast (drop_bit (bits + 6 - 8) buf')]) cs
     else base64_loop buf' (bits + 6) out cs)"
proof -
  have "v \<noteq> 255" using assms by auto
  then show ?thesis
    using b64_char_rev [OF assms] b64_table_graphic by (simp add: Let_def)
qed

lemma b64_pad_step: "base64_loop buf bits out (CHR ''='' # cs) = base64_loop buf bits out cs"
  by simp

lemma b64_space_step: "ascii_ws c \<Longrightarrow> base64_loop buf bits out (c # cs) = base64_loop buf bits out cs"
  by simp

declare base64_loop.simps(2) [simp del]

text \<open>The sextets, put together again bit by bit, are the bytes.\<close>

lemma base64_loop_std: "base64_loop buf 0 out (b64_std d) = Some (out @ d)"
proof (induction d arbitrary: buf out rule: b64_std.induct)
  case 1
  then show ?case by simp
next
  case (2 a)
  show ?case
    by (simp add: b64_char_step sextets b64_pad_step Let_def)
       (rule byte_eqI; simp add: bit_simps bit_byte_ge)
next
  case (3 a b)
  show ?case
    by (simp add: b64_char_step sextets b64_pad_step Let_def)
       (intro conjI; rule byte_eqI; simp add: bit_simps bit_byte_ge)
next
  case (4 a b c r)
  show ?case
    by (simp add: b64_char_step sextets 4 Let_def)
       (intro conjI; rule byte_eqI; simp add: bit_simps bit_byte_ge)
qed

text \<open>Whitespace anywhere is ignored.\<close>

lemma base64_loop_ws: "base64_loop buf bits out (filter (\<lambda>c. \<not> ascii_ws c) s) = base64_loop buf bits out s"
proof (induction s arbitrary: buf bits out)
  case (Cons c s)
  then show ?case by (cases "ascii_ws c") (simp_all add: base64_loop.simps Let_def)
qed simp

text \<open>
  The certificate decoder is right on every standard base64 text: whatever white space is
  spread over the encoding of a byte string, decoding gives the bytes back.
\<close>
theorem base64_decode_std:
  assumes "filter (\<lambda>c. \<not> ascii_ws c) s = b64_std d"
  shows "base64_decode s = Some d"
  using base64_loop_ws [of 0 0 "[]" s] base64_loop_std [of 0 "[]" d] assms
  by (simp add: base64_decode_def)

theorem base64_decode_std_witness:
  "base64_decode (''AQID'' @ [CHR 0x0A] @ ''BA='' @ ''='') = Some [1, 2, 3, 4]"
  by (rule base64_decode_std) (simp add: ascii_ws_def b64_char_def b64_table_def)


section \<open>PEM blocks\<close>

lemma begin_not_end: "\<not> starts_with (BEGIN_CERT @ s) END_CERT" "\<not> starts_with (END_CERT @ s) BEGIN_CERT"
  by (simp_all add: starts_with_def BEGIN_CERT_def END_CERT_def strip_prefix_def)

lemma str_lines_Cons: "nl \<notin> set l \<Longrightarrow> str_lines (l @ nl # s) = strip_cr l # str_lines s"
  by (simp add: str_lines_def split_on_append Let_def)

lemma str_lines_Nil [simp]: "str_lines [] = []"
  by (simp add: str_lines_def)

text \<open>A PEM file: text before the block, the block in lines, and anything after it.\<close>

definition pem_lines :: "string list \<Rightarrow> string" where
  "pem_lines ls = concat (map (\<lambda>l. l @ [nl]) ls)"

lemma str_lines_pem: "\<forall>l \<in> set ls. nl \<notin> set l \<Longrightarrow> str_lines (pem_lines ls @ s) = map strip_cr ls @ str_lines s"
  by (induction ls) (simp_all add: pem_lines_def str_lines_Cons)

lemma pem_body_skip:
  "\<forall>l \<in> set ls. \<not> starts_with l BEGIN_CERT \<and> \<not> starts_with l END_CERT \<Longrightarrow>
   pem_body b (ls @ r) = (if b then concat (map trim ls) else []) @ pem_body b r"
  by (induction ls) auto

definition b64_line :: "string \<Rightarrow> bool" where
  "b64_line l \<longleftrightarrow> set l \<subseteq> set b64_table \<union> {CHR ''=''}"

lemma b64_line_props:
  assumes "b64_line l"
  shows "nl \<notin> set l" "strip_cr l = l" "trim l = l"
    "\<not> starts_with l BEGIN_CERT" "\<not> starts_with l END_CERT" "filter (\<lambda>c. \<not> ascii_ws c) l = l"
proof -
  have g: "graphic c \<and> c \<noteq> CHR ''-'' \<and> \<not> ascii_ws c" if "c \<in> set l" for c
    using assms that b64_table_graphic by (auto simp: b64_line_def graphic_def ascii_ws_def)
  have "\<not> graphic nl" "\<not> graphic Prelude.cr" by (simp_all add: graphic_def nl_def cr_def)
  then show "nl \<notin> set l" "strip_cr l = l"
    using g by (auto simp: strip_cr_def dest!: last_in_set)
  show "trim l = l" using g by (intro trim_graphic) auto
  have "CHR ''-'' \<notin> set l" using g by auto
  then show "\<not> starts_with l BEGIN_CERT" "\<not> starts_with l END_CERT"
    by (auto simp: starts_with_iff BEGIN_CERT_def END_CERT_def)
  show "filter (\<lambda>c. \<not> ascii_ws c) l = l" using g by (simp add: filter_id_conv)
qed

lemma pem_body_first_block:
  assumes "\<forall>l \<in> set before. nl \<notin> set l \<and> \<not> starts_with (strip_cr l) BEGIN_CERT \<and>
             \<not> starts_with (strip_cr l) END_CERT"
    and "\<forall>l \<in> set body. b64_line l"
  shows "pem_body False (str_lines (pem_lines (before @ [BEGIN_CERT] @ body @ [END_CERT]) @ rest)) = concat body"
proof -
  have markers: "nl \<notin> set BEGIN_CERT" "nl \<notin> set END_CERT"
    "strip_cr BEGIN_CERT = BEGIN_CERT" "strip_cr END_CERT = END_CERT"
    by (simp_all add: BEGIN_CERT_def END_CERT_def nl_def strip_cr_def cr_def)
  have "str_lines (pem_lines (before @ [BEGIN_CERT] @ body @ [END_CERT]) @ rest) =
      map strip_cr before @ BEGIN_CERT # map strip_cr body @ END_CERT # str_lines rest"
    using assms markers b64_line_props(1) by (subst str_lines_pem) auto
  also have "map strip_cr body = body"
    using assms(2) b64_line_props(2) by (simp add: map_idI)
  finally have "pem_body False (str_lines (pem_lines (before @ [BEGIN_CERT] @ body @ [END_CERT]) @ rest)) =
      concat (map trim body)"
    using assms begin_not_end [of "[]"] b64_line_props(4,5) starts_with_append [of BEGIN_CERT "[]"]
      starts_with_append [of END_CERT "[]"]
    by (simp add: pem_body_skip)
  also have "map trim body = body"
    using assms(2) b64_line_props(3) by (simp add: map_idI)
  finally show ?thesis .
qed

lemma base64_decode_b64_std: "base64_decode (b64_std d) = Some d"
  using base64_loop_std [of 0 "[]" d] by (simp add: base64_decode_def)

lemma b64_std_Nil_iff [simp]: "b64_std d = [] \<longleftrightarrow> d = []"
  by (cases d rule: b64_std.cases) simp_all

text \<open>
  From a PEM text the loader takes exactly the first certificate: whatever lines come
  before the first block and whatever follows it, the block whose lines are the standard
  base64 of a certificate, however they are wrapped, gives that certificate.
\<close>
theorem pem_to_der_first_block:
  assumes "\<forall>l \<in> set before. nl \<notin> set l \<and> \<not> starts_with (strip_cr l) BEGIN_CERT \<and>
             \<not> starts_with (strip_cr l) END_CERT"
    and "\<forall>l \<in> set body. b64_line l" and "concat body = b64_std der" and "der \<noteq> []"
  shows "pem_to_der (pem_lines (before @ [BEGIN_CERT] @ body @ [END_CERT]) @ rest) = Some der"
  unfolding pem_to_der_def pem_body_first_block [OF assms(1,2)] Let_def
  using assms(3,4) by (simp add: base64_decode_b64_std)

theorem pem_to_der_first_block_witness:
  "pem_to_der (pem_lines ([''junk''] @ [BEGIN_CERT] @ [''AQ'', ''ID''] @ [END_CERT]) @ ''more'') = Some [1, 2, 3]"
  by (rule pem_to_der_first_block)
     (simp_all add: b64_line_def b64_table_def b64_char_def starts_with_def strip_prefix_def
        BEGIN_CERT_def END_CERT_def strip_cr_def cr_def nl_def)

end
