(* ===== verification/Trust.thy ===== *)
theory Trust
  imports Pem Crates
begin

text \<open>
  Who a node trusts (crates/pair-trust): the node UUID in a certificate (uuid_scheme.rs,
  identity.rs), the store of pinned certificates (pin.rs) and the verifier of the mutual-TLS
  connections (mtls.rs). X.509 parsing, hexadecimal printing and signatures are functions of
  the record \<open>pki\<close>.
\<close>

record pki =
  cert_uris :: "bytes \<Rightarrow> string list option" \<comment> \<open>the URIs of the subject alternative name\<close>
  cert_spk :: "bytes \<Rightarrow> bytes option" \<comment> \<open>the subject public key\<close>
  hex_of :: "bytes \<Rightarrow> string"

section \<open>Node UUIDs and fingerprints\<close>

definition NODE_URN_PREFIX :: string where "NODE_URN_PREFIX = ''urn:nvpair:node:''"

definition node_urn :: "string \<Rightarrow> string" where
  "node_urn uuid = NODE_URN_PREFIX @ uuid"

definition uuid_from_urn :: "string \<Rightarrow> string option" where
  "uuid_from_urn uri = strip_prefix NODE_URN_PREFIX uri"

text \<open>The first URI of the certificate that is a node URN.\<close>

fun first_node_uuid :: "string list \<Rightarrow> string option" where
  "first_node_uuid [] = None"
| "first_node_uuid (u # us) =
     (case uuid_from_urn u of Some i \<Rightarrow> Some i | None \<Rightarrow> first_node_uuid us)"

definition node_uuid_from_cert :: "pki \<Rightarrow> bytes \<Rightarrow> string option" where
  "node_uuid_from_cert P der = Option.bind (cert_uris P der) first_node_uuid"

definition cert_fingerprint :: "crypto \<Rightarrow> pki \<Rightarrow> bytes \<Rightarrow> string" where
  "cert_fingerprint C P der = ''sha256:'' @ hex_of P (sha256 C der)"

lemma uuid_from_urn_Some: "uuid_from_urn uri = Some u \<longleftrightarrow> uri = node_urn u"
  by (auto simp: uuid_from_urn_def node_urn_def strip_prefix_Some_iff)

section \<open>The pin store\<close>

record pinned_peer =
  pp_uuid :: string
  pp_cert :: bytes
  pp_fingerprint :: string

type_synonym pin_store = "(string, pinned_peer) hmap"

text \<open>\<open>None\<close> is the refusal of a certificate without a node URN.\<close>

definition pin :: "crypto \<Rightarrow> pki \<Rightarrow> pin_store \<Rightarrow> bytes \<Rightarrow> (string \<times> pin_store) option" where
  "pin C P store der =
     (case node_uuid_from_cert P der of
        None \<Rightarrow> None
      | Some u \<Rightarrow>
          Some (u, hm_insert u \<lparr>pp_uuid = u, pp_cert = der,
                                pp_fingerprint = cert_fingerprint C P der\<rparr> store))"

definition is_pinned :: "pin_store \<Rightarrow> bytes \<Rightarrow> bool" where
  "is_pinned store der = list_ex (\<lambda>p. pp_cert p = der) (hm_values store)"

definition pin_get :: "pin_store \<Rightarrow> string \<Rightarrow> pinned_peer option" where
  "pin_get store u = hm_get store u"

definition pin_remove :: "pin_store \<Rightarrow> string \<Rightarrow> pinned_peer option \<times> pin_store" where
  "pin_remove store u = (hm_get store u, hm_remove u store)"

definition pin_len :: "pin_store \<Rightarrow> nat" where
  "pin_len store = length store"

text \<open>Every entry is a certificate that names the UUID it is stored under.\<close>

definition pin_entry_ok :: "crypto \<Rightarrow> pki \<Rightarrow> string \<Rightarrow> pinned_peer \<Rightarrow> bool" where
  "pin_entry_ok C P u p \<longleftrightarrow>
     pp_uuid p = u \<and> node_uuid_from_cert P (pp_cert p) = Some u \<and>
     pp_fingerprint p = cert_fingerprint C P (pp_cert p)"

definition pins_inv :: "crypto \<Rightarrow> pki \<Rightarrow> pin_store \<Rightarrow> bool" where
  "pins_inv C P store \<longleftrightarrow> hm_wf store \<and> hm.all_entries (pin_entry_ok C P) store"

lemma pins_inv_Nil [simp]: "pins_inv C P []"
  by (simp add: pins_inv_def hm_wf_def hm.all_entries_empty)

lemma pin_inv: "pins_inv C P store \<Longrightarrow> pin C P store der = Some (u, store') \<Longrightarrow> pins_inv C P store'"
  by (auto simp: pins_inv_def pin_def pin_entry_ok_def hm.wf_put intro!: hm.all_entries_put
      split: option.splits)

lemma pin_remove_inv: "pins_inv C P store \<Longrightarrow> pins_inv C P (snd (pin_remove store u))"
  by (simp add: pins_inv_def pin_remove_def hm.wf_del hm.all_entries_del)

lemma is_pinned_get:
  assumes "pins_inv C P store"
  shows "is_pinned store der \<longleftrightarrow>
    (\<exists>u p. node_uuid_from_cert P der = Some u \<and> hm_get store u = Some p \<and> pp_cert p = der)"
proof -
  have "is_pinned store der \<longleftrightarrow> (\<exists>u p. hm_get store u = Some p \<and> pp_cert p = der)"
    using assms hm.vals_get [of store] unfolding is_pinned_def list_ex_iff pins_inv_def by blast
  moreover have "node_uuid_from_cert P der = Some u" if "hm_get store u = Some p" "pp_cert p = der" for u p
    using assms that by (auto simp: pins_inv_def hm.all_entries_def pin_entry_ok_def)
  ultimately show ?thesis by blast
qed

text \<open>What the users of the store rely on.\<close>

locale trust_store =
  fixes inv :: "'s \<Rightarrow> bool"
    and accepts :: "'s \<Rightarrow> bytes \<Rightarrow> bool"
    and add :: "'s \<Rightarrow> bytes \<Rightarrow> (string \<times> 's) option"
    and who :: "bytes \<Rightarrow> string option"
  assumes add_None: "add s d = None \<longleftrightarrow> who d = None"
    and add_Some: "add s d = Some (u, s') \<Longrightarrow> who d = Some u"
    and add_inv: "inv s \<Longrightarrow> add s d = Some (u, s') \<Longrightarrow> inv s'"
    and add_accepts: "inv s \<Longrightarrow> add s d = Some (u, s') \<Longrightarrow>
      accepts s' e \<longleftrightarrow> e = d \<or> (accepts s e \<and> who e \<noteq> Some u)"
    and accepts_who: "inv s \<Longrightarrow> accepts s d \<Longrightarrow> who d \<noteq> None"
begin

text \<open>Pinning one certificate after the other, skipping those that are refused.\<close>

definition add_each :: "'s \<Rightarrow> bytes list \<Rightarrow> 's" where
  "add_each s ds = foldl (\<lambda>s d. case add s d of Some (u, s') \<Rightarrow> s' | None \<Rightarrow> s) s ds"

lemma add_each_Nil [simp]: "add_each s [] = s"
  by (simp add: add_each_def)

lemma add_each_Cons: "add_each s (d # ds) = add_each (case add s d of Some (u, s') \<Rightarrow> s' | None \<Rightarrow> s) ds"
  by (simp add: add_each_def)

lemma add_each_inv: "inv s \<Longrightarrow> inv (add_each s ds)"
  by (induction ds arbitrary: s) (auto simp: add_each_Cons add_inv split: option.splits)

lemma add_each_sound: "inv s \<Longrightarrow> accepts (add_each s ds) e \<Longrightarrow> accepts s e \<or> e \<in> set ds"
proof (induction ds arbitrary: s)
  case (Cons d ds)
  show ?case
  proof (cases "add s d")
    case None
    with Cons show ?thesis by (auto simp: add_each_Cons)
  next
    case (Some us)
    then obtain u s' where s': "add s d = Some (u, s')" by (cases us) auto
    with Cons.prems have "accepts (add_each s' ds) e" "inv s'"
      by (auto simp: add_each_Cons add_inv)
    with Cons.IH [of s'] add_accepts [OF Cons.prems(1) s'] show ?thesis by auto
  qed
qed simp

lemma add_each_snoc:
  "add_each s (ds @ [d]) = (case add (add_each s ds) d of Some (u, s') \<Rightarrow> s' | None \<Rightarrow> add_each s ds)"
  unfolding add_each_def by simp

text \<open>The last certificate of each UUID is the one that is trusted.\<close>

lemma add_each_accepts:
  assumes "inv s" "who e \<noteq> None"
  shows "accepts (add_each s ds) e \<longleftrightarrow>
    (case find (\<lambda>d. who d = who e) (rev ds) of Some d \<Rightarrow> d = e | None \<Rightarrow> accepts s e)"
proof (induction ds rule: rev_induct)
  case (snoc d ds)
  have inv: "inv (add_each s ds)" using assms(1) by (rule add_each_inv)
  show ?case
  proof (cases "add (add_each s ds) d")
    case None
    then have "who d = None" by (simp add: add_None)
    with assms(2) have "who d \<noteq> who e" by auto
    with None snoc show ?thesis by (simp add: add_each_snoc)
  next
    case (Some us)
    then obtain u s' where s': "add (add_each s ds) d = Some (u, s')" by (cases us) auto
    show ?thesis
      using add_Some [OF s'] add_accepts [OF inv s', of e] snoc s'
      by (cases "who d = who e") (auto simp: add_each_snoc)
  qed
qed simp

end

lemma pin_get_store:
  "pin C P s d = Some (u, s') \<Longrightarrow> hm_get s' =
   (hm_get s)(u \<mapsto> \<lparr>pp_uuid = u, pp_cert = d, pp_fingerprint = cert_fingerprint C P d\<rparr>)"
  by (auto simp: pin_def hm_simps split: option.splits)

lemma pin_accepts:
  assumes "pins_inv C P s" "pin C P s d = Some (u, s')"
  shows "is_pinned s' e \<longleftrightarrow> e = d \<or> (is_pinned s e \<and> node_uuid_from_cert P e \<noteq> Some u)"
proof -
  have d: "node_uuid_from_cert P d = Some u" using assms(2) by (simp add: pin_def split: option.splits)
  show ?thesis
  proof (cases "node_uuid_from_cert P e = Some u")
    case True
    then show ?thesis
      by (simp add: is_pinned_get [OF assms(1)] is_pinned_get [OF pin_inv [OF assms]]
          pin_get_store [OF assms(2)]) metis
  next
    case False
    then have "e \<noteq> d" using d by auto
    with False show ?thesis
      by (auto simp: is_pinned_get [OF assms(1)] is_pinned_get [OF pin_inv [OF assms]]
          pin_get_store [OF assms(2)])
  qed
qed

interpretation ps: trust_store "pins_inv C P" is_pinned "pin C P" "node_uuid_from_cert P" for C P
proof
  fix s d u s' e
  show "pin C P s d = None \<longleftrightarrow> node_uuid_from_cert P d = None"
    by (simp add: pin_def split: option.splits)
  show "node_uuid_from_cert P d = Some u" if "pin C P s d = Some (u, s')"
    using that by (simp add: pin_def split: option.splits)
  show "node_uuid_from_cert P d \<noteq> None" if "pins_inv C P s" "is_pinned s d"
    using that by (auto simp: is_pinned_get)
qed (fact pin_inv pin_accepts)+

text \<open>
  Pinning a certificate makes exactly that certificate trusted for the UUID it names:
  the certificates of other UUIDs keep their standing, and any other certificate that was
  pinned for the same UUID is no longer trusted. A certificate without a node URN is refused
  and nothing changes.
\<close>
theorem pin_trusts_exactly:
  assumes "pins_inv C P store"
  shows "case pin C P store der of
     None \<Rightarrow> node_uuid_from_cert P der = None
   | Some (u, store') \<Rightarrow>
       node_uuid_from_cert P der = Some u \<and> pins_inv C P store' \<and>
       is_pinned store' e = (e = der \<or> (is_pinned store e \<and> node_uuid_from_cert P e \<noteq> Some u)) \<and>
       map_option pp_cert (pin_get store' u) = Some der"
proof (cases "pin C P store der")
  case None
  then have "node_uuid_from_cert P der = None" by (simp add: pin_def split: option.splits)
  with None show ?thesis by simp
next
  case (Some us)
  then obtain u s where us: "pin C P store der = Some (u, s)" by (cases us) auto
  then have "map_option pp_cert (pin_get s u) = Some der"
    by (auto simp: pin_def pin_get_def hm_simps split: option.splits)
  then show ?thesis
    using us ps.add_Some [OF us] ps.add_inv [OF assms us] ps.add_accepts [OF assms us] by simp
qed

theorem pin_trusts_exactly_witness:
  "let P = \<lparr>cert_uris = (\<lambda>d. Some [node_urn ''a'']), cert_spk = (\<lambda>d. None), hex_of = demo_chars\<rparr>
   in map_option fst (pin demo_crypto P [] [7]) = Some ''a'' \<and>
      map_option (\<lambda>(u, s). is_pinned s [8]) (pin demo_crypto P [] [7]) = Some False"
proof -
  let ?P = "\<lparr>cert_uris = (\<lambda>d. Some [node_urn ''a'']), cert_spk = (\<lambda>d. None), hex_of = demo_chars\<rparr>"
  have "node_uuid_from_cert ?P d = Some ''a''" for d
    by (simp add: node_uuid_from_cert_def uuid_from_urn_def node_urn_def)
  then show ?thesis
    using pin_trusts_exactly [of demo_crypto ?P "[]" "[7]" "[8]"]
    by (auto simp: Let_def is_pinned_def hm_values_def split: option.splits)
qed

section \<open>The mutual-TLS verifier\<close>

text \<open>
  The shared store behind its lock: a poisoned lock (\<open>None\<close>) accepts nobody. The verifier of
  server certificates and that of client certificates make the same decision and never look
  at the name, the chain or the time; TLS 1.2 signatures are refused.
\<close>

datatype tls_error = ServerNotPinned | ClientNotPinned | Tls12NotSupported

definition accept_cert :: "pin_store option \<Rightarrow> bytes \<Rightarrow> bool" where
  "accept_cert pins end_entity = (case pins of Some p \<Rightarrow> is_pinned p end_entity | None \<Rightarrow> False)"

definition verify_server_cert ::
  "pin_store option \<Rightarrow> bytes \<Rightarrow> bytes list \<Rightarrow> string \<Rightarrow> bytes \<Rightarrow> nat \<Rightarrow> tls_error + unit" where
  "verify_server_cert pins end_entity intermediates server_name ocsp now =
     (if accept_cert pins end_entity then Inr () else Inl ServerNotPinned)"

definition verify_client_cert ::
  "pin_store option \<Rightarrow> bytes \<Rightarrow> bytes list \<Rightarrow> nat \<Rightarrow> tls_error + unit" where
  "verify_client_cert pins end_entity intermediates now =
     (if accept_cert pins end_entity then Inr () else Inl ClientNotPinned)"

definition verify_tls12_signature :: "bytes \<Rightarrow> bytes \<Rightarrow> bytes \<Rightarrow> tls_error + unit" where
  "verify_tls12_signature message cert dss = Inl Tls12NotSupported"

text \<open>
  C10: a connection in either direction is let in exactly when the peer presents, byte for
  byte, the certificate that is stored under the node UUID it names; a certificate without a
  node UUID is never let in.
\<close>
theorem mtls_accepts_iff_pinned:
  assumes "pins_inv C P store"
  shows "(verify_server_cert (Some store) der chain name ocsp t = Inr ()) =
           (\<exists>u. node_uuid_from_cert P der = Some u \<and> map_option pp_cert (pin_get store u) = Some der) \<and>
         (verify_client_cert (Some store) der chain t = Inr ()) =
           (\<exists>u. node_uuid_from_cert P der = Some u \<and> map_option pp_cert (pin_get store u) = Some der)"
  using is_pinned_get [OF assms, of der]
  by (auto simp: verify_server_cert_def verify_client_cert_def accept_cert_def pin_get_def)

theorem mtls_accepts_iff_pinned_witness:
  "verify_server_cert (Some []) [1] [] [] [] 0 = Inl ServerNotPinned"
proof -
  let ?P = "\<lparr>cert_uris = (\<lambda>d. None), cert_spk = (\<lambda>d. None), hex_of = demo_chars\<rparr>"
  have "verify_server_cert (Some []) [1] [] [] [] 0 \<noteq> Inr ()"
    using mtls_accepts_iff_pinned [of demo_crypto ?P "[]" "[1]" "[]" "[]" "[]" 0]
    by (simp add: node_uuid_from_cert_def)
  then show ?thesis by (simp add: verify_server_cert_def split: if_splits)
qed

end
