(* ===== verification/Cluster_Dir.thy ===== *)
theory Cluster_Dir
  imports Trust
begin

text \<open>
  The identity of a node and its trust on disk (crates/pair-trust/src/identity.rs and
  cluster_dir.rs, and the development-time bootstrap of crates/pair-node/src/trust.rs). The
  file system is a record of operations; what the code relies on, that a file reads back as it
  was written and is listed in its directory, is the predicate \<open>fs_ok\<close>. Minting keys and
  certificates and parsing keys are parameters.
\<close>

section \<open>Files\<close>

text \<open>
  A path is a directory and a name in it. \<open>None\<close> is an I/O error; listing a directory gives
  the names in the unspecified order of the operating system.
\<close>

record 'f fs_ops =
  fs_mkdir :: "'f \<Rightarrow> string \<Rightarrow> 'f option"
  fs_dir_exists :: "'f \<Rightarrow> string \<Rightarrow> bool"
  fs_exists :: "'f \<Rightarrow> string \<Rightarrow> string \<Rightarrow> bool"
  fs_read :: "'f \<Rightarrow> string \<Rightarrow> string \<Rightarrow> string option"
  fs_write :: "'f \<Rightarrow> string \<Rightarrow> string \<Rightarrow> string \<Rightarrow> 'f option"
  fs_list :: "'f \<Rightarrow> string \<Rightarrow> string list option"

text \<open>\<open>Path::extension\<close>: what follows the last dot, unless that dot starts the name.\<close>

definition path_extension :: "string \<Rightarrow> string option" where
  "path_extension name =
     (case rsplit_once (CHR ''.'') name of
        None \<Rightarrow> None
      | Some (stem, ext) \<Rightarrow> if stem = [] \<or> name = ''..'' then None else Some ext)"

text \<open>A name of a file in a directory. Joined with any other string, a path may leave the directory.\<close>

definition file_name :: "string \<Rightarrow> bool" where
  "file_name n \<longleftrightarrow> n \<noteq> [] \<and> CHR ''/'' \<notin> set n \<and> n \<noteq> ''.'' \<and> n \<noteq> ''..''"

text \<open>
  A file that is written under a file name reads back and is listed, and the other files of its
  directory stay as they are; a directory lists file names. Of a write under any other name nothing is
  known. Names are case-sensitive, and no two names of a directory are links to one file.
\<close>

definition fs_ok :: "'f fs_ops \<Rightarrow> bool" where
  "fs_ok F \<longleftrightarrow>
     (\<forall>f d n s f'. fs_write F f d n s = Some f' \<longrightarrow> file_name n \<longrightarrow>
        fs_read F f' d n = Some s \<and> fs_exists F f' d n \<and>
        (\<exists>ns. fs_list F f' d = Some ns \<and> n \<in> set ns) \<and> fs_dir_exists F f' d) \<and>
     (\<forall>f d n s f' m. fs_write F f d n s = Some f' \<longrightarrow> file_name n \<longrightarrow> file_name m \<longrightarrow> m \<noteq> n \<longrightarrow>
        fs_read F f' d m = fs_read F f d m \<and> fs_exists F f' d m = fs_exists F f d m) \<and>
     (\<forall>f d ns. fs_list F f d = Some ns \<longrightarrow> distinct ns \<and> list_all file_name ns)"

section \<open>Identities\<close>

record identity =
  id_uuid :: string
  id_cert_der :: bytes
  id_key_der :: bytes
  id_cert_pem :: string
  id_key_pem :: string
  id_seed :: bytes

text \<open>
  What rcgen and ed25519\_dalek provide: a fresh self-signed certificate with its key, and the
  reading of a PEM key (its DER form and its seed).
\<close>

record keygen =
  kg_mint :: "bytes \<Rightarrow> string \<Rightarrow> identity option" \<comment> \<open>random bytes, UUID\<close>
  kg_uuid :: "bytes \<Rightarrow> string"
  kg_key_der :: "string \<Rightarrow> bytes option"
  kg_seed :: "string \<Rightarrow> bytes option"

definition identity_generate :: "keygen \<Rightarrow> bytes \<Rightarrow> identity option" where
  "identity_generate K rnd = kg_mint K rnd (kg_uuid K rnd)"

datatype id_error = BadKeyPem | NoCertBlock | NoNodeSan | BadSeed | MintFailed | IoError

definition identity_from_pem :: "pki \<Rightarrow> keygen \<Rightarrow> string \<Rightarrow> string \<Rightarrow> id_error + identity" where
  "identity_from_pem P K cert_pem key_pem =
     (case kg_key_der K key_pem of
        None \<Rightarrow> Inl BadKeyPem
      | Some key_der \<Rightarrow>
          (case pem_to_der cert_pem of
             None \<Rightarrow> Inl NoCertBlock
           | Some der \<Rightarrow>
               (case node_uuid_from_cert P der of
                  None \<Rightarrow> Inl NoNodeSan
                | Some u \<Rightarrow>
                    (case kg_seed K key_pem of
                       None \<Rightarrow> Inl BadSeed
                     | Some seed \<Rightarrow>
                         Inr \<lparr>id_uuid = u, id_cert_der = der, id_key_der = key_der,
                              id_cert_pem = cert_pem, id_key_pem = key_pem, id_seed = seed\<rparr>))))"

definition identity_fingerprint :: "crypto \<Rightarrow> pki \<Rightarrow> identity \<Rightarrow> string" where
  "identity_fingerprint C P i = cert_fingerprint C P (id_cert_der i)"

text \<open>The names of the files.\<close>

definition KEY_FILE :: string where "KEY_FILE = ''node-key.pem''"
definition CERT_FILE :: string where "CERT_FILE = ''node-cert.pem''"
definition NODE_CRT :: string where "NODE_CRT = ''node.crt''"
definition NODE_KEY :: string where "NODE_KEY = ''node.key''"
definition CERT_EXTS :: "string list" where "CERT_EXTS = [''crt'', ''pem'']"

lemma file_names [simp]: "KEY_FILE \<noteq> CERT_FILE" "NODE_CRT \<noteq> NODE_KEY"
  by (simp_all add: KEY_FILE_def CERT_FILE_def NODE_CRT_def NODE_KEY_def)

definition identity_save :: "'f fs_ops \<Rightarrow> 'f \<Rightarrow> string \<Rightarrow> identity \<Rightarrow> 'f option" where
  "identity_save F f dir i =
     Option.bind (fs_mkdir F f dir) (\<lambda>f1.
     Option.bind (fs_write F f1 dir KEY_FILE (id_key_pem i)) (\<lambda>f2.
       fs_write F f2 dir CERT_FILE (id_cert_pem i)))"

definition load_or_generate ::
  "'f fs_ops \<Rightarrow> pki \<Rightarrow> keygen \<Rightarrow> bytes \<Rightarrow> 'f \<Rightarrow> string \<Rightarrow> (id_error + identity) \<times> 'f" where
  "load_or_generate F P K rnd f dir =
     (if fs_exists F f dir KEY_FILE \<and> fs_exists F f dir CERT_FILE
      then (case fs_read F f dir KEY_FILE of
              None \<Rightarrow> (Inl IoError, f)
            | Some key_pem \<Rightarrow>
                (case fs_read F f dir CERT_FILE of
                   None \<Rightarrow> (Inl IoError, f)
                 | Some cert_pem \<Rightarrow> (identity_from_pem P K cert_pem key_pem, f)))
      else (case identity_generate K rnd of
              None \<Rightarrow> (Inl MintFailed, f)
            | Some i \<Rightarrow>
                (case identity_save F f dir i of
                   None \<Rightarrow> (Inl IoError, f)
                 | Some f' \<Rightarrow> (Inr i, f'))))"

text \<open>\<open>hostname\<close>: an empty variable that is set hides the sources after it.\<close>

definition hostname :: "string option \<Rightarrow> string option \<Rightarrow> string option \<Rightarrow> string" where
  "hostname computername hostvar etc_hostname =
     (case (case computername of
              Some c \<Rightarrow> Some c
            | None \<Rightarrow> (case hostvar of Some h \<Rightarrow> Some h | None \<Rightarrow> map_option trim etc_hostname)) of
        Some s \<Rightarrow> if s \<noteq> [] then s else ''openpair-node''
      | None \<Rightarrow> ''openpair-node'')"

section \<open>The trusted directory\<close>

text \<open>The file's certificate, when its name and its contents make it one.\<close>

definition trusted_cert :: "'f fs_ops \<Rightarrow> 'f \<Rightarrow> string \<Rightarrow> string list \<Rightarrow> string \<Rightarrow> bytes option" where
  "trusted_cert F f dir exts name =
     (case path_extension name of
        None \<Rightarrow> None
      | Some e \<Rightarrow>
          if e \<in> set exts then Option.bind (fs_read F f dir name) pem_to_der else None)"

fun load_entries ::
  "crypto \<Rightarrow> pki \<Rightarrow> 'f fs_ops \<Rightarrow> 'f \<Rightarrow> string \<Rightarrow> string list \<Rightarrow> pin_store \<Rightarrow> nat \<Rightarrow> pin_store \<times> nat" where
  "load_entries C P F f dir [] pins n = (pins, n)"
| "load_entries C P F f dir (name # names) pins n =
     (case trusted_cert F f dir CERT_EXTS name of
        None \<Rightarrow> load_entries C P F f dir names pins n
      | Some der \<Rightarrow>
          (case pin C P pins der of
             None \<Rightarrow> load_entries C P F f dir names pins n
           | Some (_, pins') \<Rightarrow> load_entries C P F f dir names pins' (n + 1)))"

definition load_trusted_into ::
  "crypto \<Rightarrow> pki \<Rightarrow> 'f fs_ops \<Rightarrow> 'f \<Rightarrow> string \<Rightarrow> pin_store \<Rightarrow> (pin_store \<times> nat) option" where
  "load_trusted_into C P F f dir pins =
     (if \<not> fs_dir_exists F f dir then Some (pins, 0)
      else (case fs_list F f dir of
              None \<Rightarrow> None
            | Some names \<Rightarrow> Some (load_entries C P F f dir names pins 0)))"

definition trusted_dir :: "string \<Rightarrow> string" where
  "trusted_dir dir = dir @ ''/trusted''"

datatype add_error = NoCertificateBlock | NotPinnable | WriteFailed

text \<open>The certificate is pinned before it is written, and stays pinned when writing fails.\<close>

definition add_trusted_peer ::
  "crypto \<Rightarrow> pki \<Rightarrow> 'f fs_ops \<Rightarrow> 'f \<Rightarrow> string \<Rightarrow> string \<Rightarrow> pin_store \<Rightarrow>
     (add_error + string) \<times> 'f \<times> pin_store" where
  "add_trusted_peer C P F f dir pem pins =
     (case pem_to_der pem of
        None \<Rightarrow> (Inl NoCertificateBlock, f, pins)
      | Some der \<Rightarrow>
          (case pin C P pins der of
             None \<Rightarrow> (Inl NotPinnable, f, pins)
           | Some (u, pins') \<Rightarrow>
               (case fs_mkdir F f (trusted_dir dir) of
                  None \<Rightarrow> (Inl WriteFailed, f, pins')
                | Some f1 \<Rightarrow>
                    (case fs_write F f1 (trusted_dir dir) (u @ ''.crt'') pem of
                       None \<Rightarrow> (Inl WriteFailed, f1, pins')
                     | Some f2 \<Rightarrow> (Inr u, f2, pins')))))"

text \<open>The identity in the directory, minted and written when it is not there.\<close>

definition dir_identity ::
  "pki \<Rightarrow> keygen \<Rightarrow> 'f fs_ops \<Rightarrow> bytes \<Rightarrow> 'f \<Rightarrow> string \<Rightarrow> (id_error + identity) \<times> 'f" where
  "dir_identity P K F rnd f dir =
     (if fs_exists F f dir NODE_CRT \<and> fs_exists F f dir NODE_KEY
      then (case fs_read F f dir NODE_CRT of
              None \<Rightarrow> (Inl IoError, f)
            | Some crt \<Rightarrow>
                (case fs_read F f dir NODE_KEY of
                   None \<Rightarrow> (Inl IoError, f)
                 | Some key \<Rightarrow> (identity_from_pem P K crt key, f)))
      else (case identity_generate K rnd of
              None \<Rightarrow> (Inl MintFailed, f)
            | Some i \<Rightarrow>
                (case fs_write F f dir NODE_CRT (id_cert_pem i) of
                   None \<Rightarrow> (Inl IoError, f)
                 | Some f2 \<Rightarrow>
                     (case fs_write F f2 dir NODE_KEY (id_key_pem i) of
                        None \<Rightarrow> (Inl IoError, f2)
                      | Some f3 \<Rightarrow> (Inr i, f3)))))"

definition load_or_init ::
  "crypto \<Rightarrow> pki \<Rightarrow> keygen \<Rightarrow> 'f fs_ops \<Rightarrow> bytes \<Rightarrow> 'f \<Rightarrow> string \<Rightarrow>
     (id_error + identity \<times> pin_store) \<times> 'f" where
  "load_or_init C P K F rnd f dir =
     (case fs_mkdir F f (trusted_dir dir) of
        None \<Rightarrow> (Inl IoError, f)
      | Some f1 \<Rightarrow>
          (case dir_identity P K F rnd f1 dir of
             (Inl e, f2) \<Rightarrow> (Inl e, f2)
           | (Inr i, f2) \<Rightarrow>
               (case load_trusted_into C P F f2 (trusted_dir dir) [] of
                  None \<Rightarrow> (Inl IoError, f2)
                | Some (pins, _) \<Rightarrow> (Inr (i, pins), f2))))"

text \<open>\<open>bootstrap_dev_trust\<close>: publish the own certificate and pin every other one found.\<close>

fun bootstrap_entries ::
  "crypto \<Rightarrow> pki \<Rightarrow> 'f fs_ops \<Rightarrow> 'f \<Rightarrow> string \<Rightarrow> string \<Rightarrow> string list \<Rightarrow> pin_store \<Rightarrow> nat \<Rightarrow> pin_store \<times> nat" where
  "bootstrap_entries C P F f dir ours [] pins n = (pins, n)"
| "bootstrap_entries C P F f dir ours (name # names) pins n =
     (case (if name = ours then None else trusted_cert F f dir [''pem''] name) of
        None \<Rightarrow> bootstrap_entries C P F f dir ours names pins n
      | Some der \<Rightarrow>
          (case pin C P pins der of
             None \<Rightarrow> bootstrap_entries C P F f dir ours names pins n
           | Some (_, pins') \<Rightarrow> bootstrap_entries C P F f dir ours names pins' (n + 1)))"

definition bootstrap_dev_trust ::
  "crypto \<Rightarrow> pki \<Rightarrow> 'f fs_ops \<Rightarrow> 'f \<Rightarrow> string \<Rightarrow> identity \<Rightarrow> pin_store \<Rightarrow> (nat option \<times> 'f) \<times> pin_store" where
  "bootstrap_dev_trust C P F f dir i pins =
     (case fs_mkdir F f dir of
        None \<Rightarrow> ((None, f), pins)
      | Some f1 \<Rightarrow>
          (case fs_write F f1 dir (id_uuid i @ ''.pem'') (id_cert_pem i) of
             None \<Rightarrow> ((None, f1), pins)
           | Some f2 \<Rightarrow>
               (case fs_list F f2 dir of
                  None \<Rightarrow> ((None, f2), pins)
                | Some names \<Rightarrow>
                    (let (pins', n) = bootstrap_entries C P F f2 dir (id_uuid i @ ''.pem'') names pins 0
                     in ((Some n, f2), pins')))))"

section \<open>What the trusted directory makes trusted\<close>

definition trusted_certs :: "'f fs_ops \<Rightarrow> 'f \<Rightarrow> string \<Rightarrow> string list \<Rightarrow> bytes list" where
  "trusted_certs F f dir names = List.map_filter (trusted_cert F f dir CERT_EXTS) names"

lemma find_unique: "y \<in> set xs \<Longrightarrow> \<forall>w \<in> set xs. Q w \<longrightarrow> w = y \<Longrightarrow> Q y \<Longrightarrow> find Q xs = Some y"
proof (induction xs)
  case (Cons x xs)
  show ?case
  proof (cases "Q x")
    case True
    then have "x = y" using Cons.prems(2) by (meson list.set_intros(1))
    with True show ?thesis by simp
  next
    case False
    then have "y \<in> set xs" using Cons.prems(1,3) by (metis set_ConsD)
    moreover have "\<forall>w \<in> set xs. Q w \<longrightarrow> w = y" using Cons.prems(2) by (meson list.set_intros(2))
    ultimately have "find Q xs = Some y" using Cons.IH Cons.prems(3) by blast
    then show ?thesis using False by (simp only: find.simps if_False)
  qed
qed simp

lemma mem_map_filter: "w \<in> set (List.map_filter f xs) \<longleftrightarrow> (\<exists>z \<in> set xs. f z = Some w)"
proof (induction xs)
  case (Cons x xs)
  then show ?case by (cases "f x") auto
qed simp

lemma load_entries_each:
  "fst (load_entries C P F f dir names pins n) = ps.add_each C P pins (trusted_certs F f dir names)"
  by (induction names arbitrary: pins n)
     (auto simp: trusted_certs_def map_filter_simps ps.add_each_Cons split: option.split)

lemma bootstrap_entries_each:
  "fst (bootstrap_entries C P F f dir ours names pins n) =
   ps.add_each C P pins (List.map_filter (\<lambda>name. if name = ours then None
     else trusted_cert F f dir [''pem''] name) names)"
  by (induction names arbitrary: pins n)
     (auto simp: map_filter_simps ps.add_each_Cons split: option.split)

lemma load_trusted_pins:
  assumes "load_trusted_into C P F f dir pins = Some (pins', n)" "pins_inv C P pins"
  shows "pins_inv C P pins'"
    "is_pinned pins' e \<Longrightarrow> is_pinned pins e \<or>
       (\<exists>names name. fs_list F f dir = Some names \<and> name \<in> set names \<and>
          trusted_cert F f dir CERT_EXTS name = Some e)"
proof -
  have "pins_inv C P pins' \<and> (is_pinned pins' e \<longrightarrow> is_pinned pins e \<or>
       (\<exists>names name. fs_list F f dir = Some names \<and> name \<in> set names \<and>
          trusted_cert F f dir CERT_EXTS name = Some e))"
  proof (cases "fs_dir_exists F f dir")
    case False
    with assms show ?thesis by (simp add: load_trusted_into_def)
  next
    case True
    then obtain names where names: "fs_list F f dir = Some names"
      "load_entries C P F f dir names pins 0 = (pins', n)"
      using assms(1) by (auto simp: load_trusted_into_def split: option.splits)
    then have "pins' = ps.add_each C P pins (trusted_certs F f dir names)"
      by (metis fst_conv load_entries_each)
    moreover have "e \<in> set (trusted_certs F f dir names) \<Longrightarrow>
        \<exists>name \<in> set names. trusted_cert F f dir CERT_EXTS name = Some e"
      by (simp add: trusted_certs_def mem_map_filter)
    ultimately show ?thesis
      using ps.add_each_inv [OF assms(2)] ps.add_each_sound [OF assms(2)] names(1) by blast
  qed
  then show "pins_inv C P pins'" "is_pinned pins' e \<Longrightarrow> is_pinned pins e \<or>
       (\<exists>names name. fs_list F f dir = Some names \<and> name \<in> set names \<and>
          trusted_cert F f dir CERT_EXTS name = Some e)" by blast+
qed

lemma bootstrap_pins:
  assumes "bootstrap_dev_trust C P F f dir i pins = ((n, f'), pins')" "pins_inv C P pins"
  shows "pins_inv C P pins' \<and> (is_pinned pins' e \<longrightarrow> is_pinned pins e \<or>
    (\<exists>names name. fs_list F f' dir = Some names \<and> name \<in> set names \<and> name \<noteq> id_uuid i @ ''.pem'' \<and>
       trusted_cert F f' dir [''pem''] name = Some e))"
proof (cases "pins' = pins")
  case False
  let ?g = "\<lambda>name. if name = id_uuid i @ ''.pem'' then None else trusted_cert F f' dir [''pem''] name"
  obtain names where names: "fs_list F f' dir = Some names"
    and "pins' = fst (bootstrap_entries C P F f' dir (id_uuid i @ ''.pem'') names pins 0)"
    using assms(1) False by (auto simp: bootstrap_dev_trust_def Let_def case_prod_beta split: option.splits)
  then have p: "pins' = ps.add_each C P pins (List.map_filter ?g names)" by (simp add: bootstrap_entries_each)
  have "e \<in> set (List.map_filter ?g names) \<Longrightarrow> \<exists>name \<in> set names. name \<noteq> id_uuid i @ ''.pem'' \<and>
      trusted_cert F f' dir [''pem''] name = Some e"
    unfolding mem_map_filter by (metis option.distinct(1))
  then show ?thesis
    unfolding p using ps.add_each_inv [OF assms(2)] ps.add_each_sound [OF assms(2)] names by blast
qed (use assms(2) in simp)

text \<open>
  What \<open>load_or_init\<close> trusts is the certificates in the \<open>crt\<close> and \<open>pem\<close> files of \<open>trusted\<close>, each
  under the UUID it names.
\<close>
theorem load_or_init_trusts_only_files:
  assumes "load_or_init C P K F rnd f dir = (Inr (i, pins), f')"
  shows "pins_inv C P pins \<and>
    {e. is_pinned pins e} \<subseteq> {e. \<exists>names name. fs_list F f' (trusted_dir dir) = Some names \<and>
       name \<in> set names \<and> trusted_cert F f' (trusted_dir dir) CERT_EXTS name = Some e}"
proof -
  obtain n where "load_trusted_into C P F f' (trusted_dir dir) [] = Some (pins, n)"
    using assms
    by (auto simp: load_or_init_def split: option.splits prod.splits sum.splits)
  then show ?thesis
    using load_trusted_pins(1) [of C P F f' "trusted_dir dir" "[]" pins n]
      load_trusted_pins(2) [of C P F f' "trusted_dir dir" "[]" pins n]
    by (auto simp: is_pinned_def hm_values_def)
qed

lemma fs_write_facts:
  assumes "fs_ok F" "fs_write F f d n s = Some f'" "file_name n"
  shows "fs_read F f' d n = Some s" "fs_exists F f' d n" "fs_dir_exists F f' d"
    and "\<exists>ns. fs_list F f' d = Some ns \<and> n \<in> set ns"
    and "file_name m \<Longrightarrow> m \<noteq> n \<Longrightarrow> fs_read F f' d m = fs_read F f d m"
    and "file_name m \<Longrightarrow> m \<noteq> n \<Longrightarrow> fs_exists F f' d m = fs_exists F f d m"
  using assms unfolding fs_ok_def by blast+

lemma fs_listed: "fs_ok F \<Longrightarrow> fs_list F f d = Some ns \<Longrightarrow> n \<in> set ns \<Longrightarrow> file_name n"
  by (simp add: fs_ok_def list_all_iff)

lemma file_names_ok [simp]: "file_name KEY_FILE" "file_name CERT_FILE"
  by (simp_all add: file_name_def KEY_FILE_def CERT_FILE_def)

lemma crt_file_name: "file_name (u @ ''.crt'') \<longleftrightarrow> CHR ''/'' \<notin> set u"
  by (auto simp: file_name_def append_eq_Cons_conv)

lemma crt_extension:
  assumes "u \<noteq> []"
  shows "path_extension (u @ ''.crt'') = Some ''crt''"
proof -
  have "rsplit_once (CHR ''.'') (u @ CHR ''.'' # ''crt'') = Some (u, ''crt'')"
    by (intro rsplit_once_append) simp
  moreover have "u @ ''.crt'' \<noteq> ''..''"
    by (auto simp: append_eq_Cons_conv)
  ultimately show ?thesis using assms by (simp add: path_extension_def)
qed

text \<open>A file of \<open>trusted\<close> that alone certifies a UUID makes its certificate trusted.\<close>

lemma only_file_pinned:
  assumes "load_trusted_into C P F f dir [] = Some (pins, n)" "fs_dir_exists F f dir" "fs_list F f dir = Some names"
    and "node_uuid_from_cert P der = Some u" "file \<in> set names" "trusted_cert F f dir CERT_EXTS file = Some der"
    and alone: "\<forall>name \<in> set names. \<forall>d. name \<noteq> file \<longrightarrow> trusted_cert F f dir CERT_EXTS name = Some d \<longrightarrow>
      node_uuid_from_cert P d \<noteq> Some u"
  shows "is_pinned pins der"
proof -
  let ?t = "trusted_cert F f dir CERT_EXTS"
  have "fst (load_entries C P F f dir names [] 0) = pins" using assms(1-3) by (simp add: load_trusted_into_def)
  then have pins: "pins = ps.add_each C P [] (trusted_certs F f dir names)" by (simp add: load_entries_each)
  have only: "w = der" if "z \<in> set names" "?t z = Some w" "node_uuid_from_cert P w = Some u" for w z
    using alone that assms(6) by (metis option.inject)
  have "find (\<lambda>d. node_uuid_from_cert P d = node_uuid_from_cert P der) (rev (trusted_certs F f dir names)) = Some der"
    unfolding trusted_certs_def
  proof (rule find_unique)
    show "der \<in> set (rev (List.map_filter ?t names))"
      using assms(5,6) mem_map_filter [of der ?t names] by auto
    show "\<forall>w \<in> set (rev (List.map_filter ?t names)).
        node_uuid_from_cert P w = node_uuid_from_cert P der \<longrightarrow> w = der"
      using only assms(4) by (auto simp: mem_map_filter)
  qed simp
  then show ?thesis unfolding pins using ps.add_each_accepts [of C P "[]" der] assms(4) by simp
qed

lemma add_trusted_writes:
  assumes "add_trusted_peer C P F f dir pem pins = (Inr u, f', pins')"
  obtains der f1 where "pem_to_der pem = Some der" "pin C P pins der = Some (u, pins')"
    "fs_write F f1 (trusted_dir dir) (u @ ''.crt'') pem = Some f'"
  using assms by (auto simp: add_trusted_peer_def split: option.splits)


text \<open>A minted identity reads back from its own PEM texts.\<close>

definition keygen_ok :: "pki \<Rightarrow> keygen \<Rightarrow> bool" where
  "keygen_ok P K \<longleftrightarrow>
     (\<forall>rnd u i. kg_mint K rnd u = Some i \<longrightarrow>
        kg_key_der K (id_key_pem i) = Some (id_key_der i) \<and>
        kg_seed K (id_key_pem i) = Some (id_seed i) \<and>
        pem_to_der (id_cert_pem i) = Some (id_cert_der i) \<and>
        node_uuid_from_cert P (id_cert_der i) = Some (id_uuid i))"

lemma identity_reload:
  "keygen_ok P K \<Longrightarrow> identity_generate K rnd = Some i \<Longrightarrow>
   identity_from_pem P K (id_cert_pem i) (id_key_pem i) = Inr i"
  by (auto simp: keygen_ok_def identity_generate_def identity_from_pem_def)

text \<open>
  A node keeps its identity: once \<open>load_or_generate\<close> has returned an identity for a
  directory, whether it was read or minted, calling it again returns the same one and changes
  no file, whatever random bytes it is given.
\<close>
theorem identity_is_stable:
  assumes "fs_ok F" "keygen_ok P K" "load_or_generate F P K rnd f dir = (Inr i, f')"
  shows "load_or_generate F P K rnd' f' dir = (Inr i, f')"
proof (cases "fs_exists F f dir KEY_FILE \<and> fs_exists F f dir CERT_FILE")
  case True
  with assms(3) show ?thesis by (auto simp: load_or_generate_def split: option.splits)
next
  case False
  then obtain f1 f2 where i: "identity_generate K rnd = Some i" "fs_mkdir F f dir = Some f1"
    "fs_write F f1 dir KEY_FILE (id_key_pem i) = Some f2"
    "fs_write F f2 dir CERT_FILE (id_cert_pem i) = Some f'"
    using assms(3)
    by (auto simp: load_or_generate_def identity_save_def bind_eq_Some_conv split: option.splits)
  note a = fs_write_facts [OF assms(1) i(3)] and b = fs_write_facts [OF assms(1) i(4)]
  from a b identity_reload [OF assms(2) i(1)] show ?thesis by (simp add: load_or_generate_def)
qed

section \<open>A concrete file system and key generator\<close>

definition demo_fs :: "((string \<times> string) \<times> string) list fs_ops" where
  "demo_fs = \<lparr>
     fs_mkdir = (\<lambda>f d. Some f),
     fs_dir_exists = (\<lambda>f d. True),
     fs_exists = (\<lambda>f d n. map_of f (d, n) \<noteq> None),
     fs_read = (\<lambda>f d n. map_of f (d, n)),
     fs_write = (\<lambda>f d n s. Some (AList.update (d, n) s f)),
     fs_list = (\<lambda>f d. Some (remdups (map (snd \<circ> fst) (filter (\<lambda>e. fst (fst e) = d \<and> file_name (snd (fst e))) f))))\<rparr>"

lemma demo_fs_ok: "fs_ok demo_fs"
proof -
  have "(d, n) \<in> fst ` set (AList.update (d, n) s f)" for d n s :: string and f
    by (simp add: dom_update)
  then have "n \<in> (snd \<circ> fst) ` {e \<in> set (AList.update (d, n) s f). fst (fst e) = d \<and> file_name (snd (fst e))}"
    if "file_name n" for d n s :: string and f using that by (force simp: image_iff)
  then show ?thesis
    unfolding fs_ok_def demo_fs_def by (auto simp: update_conv' list_all_iff)
qed

definition demo_pki :: pki where
  "demo_pki = \<lparr>cert_uris = (\<lambda>d. Some [node_urn ''n1'']), cert_spk = (\<lambda>d. Some d), hex_of = demo_chars\<rparr>"

definition demo_pem :: string where
  "demo_pem = pem_lines [BEGIN_CERT, ''AQID'', END_CERT]"

definition demo_identity :: identity where
  "demo_identity = \<lparr>id_uuid = ''n1'', id_cert_der = [1, 2, 3], id_key_der = [4],
     id_cert_pem = demo_pem, id_key_pem = ''key'', id_seed = [5]\<rparr>"

definition demo_keygen :: keygen where
  "demo_keygen = \<lparr>kg_mint = (\<lambda>rnd u. Some demo_identity), kg_uuid = (\<lambda>rnd. ''n1''),
     kg_key_der = (\<lambda>s. Some [4]), kg_seed = (\<lambda>s. Some [5])\<rparr>"

lemma demo_node_uuid [simp]: "node_uuid_from_cert demo_pki d = Some ''n1''"
  by (simp add: node_uuid_from_cert_def demo_pki_def uuid_from_urn_def node_urn_def)

lemma demo_pem_der [simp]: "pem_to_der demo_pem = Some [1, 2, 3]"
proof -
  have std: "''AQID'' = b64_std [1, 2, 3]" by (simp add: b64_char_def b64_table_def)
  have "pem_body False (str_lines (pem_lines ([] @ [BEGIN_CERT] @ [''AQID''] @ [END_CERT]) @ [])) =
      concat [''AQID'']"
    by (rule pem_body_first_block) (simp_all add: b64_line_def b64_table_def)
  then have "pem_body False (str_lines demo_pem) = b64_std [1, 2, 3]"
    by (simp only: demo_pem_def std append_Nil append_Cons append_Nil2 concat.simps)
  then show ?thesis by (simp only: pem_to_der_def Let_def base64_decode_b64_std b64_std_Nil_iff) simp
qed

lemma demo_keygen_ok: "keygen_ok demo_pki demo_keygen"
  by (simp add: keygen_ok_def demo_keygen_def demo_identity_def)

lemma demo_load: "load_or_generate demo_fs demo_pki demo_keygen [1] [] ''d'' =
   (Inr demo_identity, AList.update (''d'', CERT_FILE) demo_pem (AList.update (''d'', KEY_FILE) ''key'' []))"
  by (simp add: load_or_generate_def demo_fs_def identity_generate_def demo_keygen_def
      identity_save_def demo_identity_def)

theorem identity_is_stable_witness:
  "\<exists>f. f \<noteq> [] \<and> load_or_generate demo_fs demo_pki demo_keygen [9] f ''d'' = (Inr demo_identity, f)"
proof (intro exI conjI)
  show "AList.update (''d'', CERT_FILE) demo_pem (AList.update (''d'', KEY_FILE) ''key'' []) \<noteq> []"
    by simp
qed (rule identity_is_stable [OF demo_fs_ok demo_keygen_ok demo_load])

lemma demo_add: "add_trusted_peer demo_crypto demo_pki demo_fs [] ''d'' demo_pem [] =
   (Inr ''n1'', [((''d/trusted'', ''n1.crt''), demo_pem)],
    [(''n1'', \<lparr>pp_uuid = ''n1'', pp_cert = [1, 2, 3],
               pp_fingerprint = cert_fingerprint demo_crypto demo_pki [1, 2, 3]\<rparr>)])"
  by (simp add: add_trusted_peer_def pin_def demo_fs_def trusted_dir_def hm_insert_def)

text \<open>A certificate that names a UUID with a slash.\<close>

definition demo_slash :: pki where
  "demo_slash = demo_pki\<lparr>cert_uris := (\<lambda>d. Some [node_urn ''../x''])\<rparr>"

lemma demo_add_slash: "add_trusted_peer demo_crypto demo_slash demo_fs [] ''d'' demo_pem [] =
   (Inr ''../x'', [((''d/trusted'', ''../x.crt''), demo_pem)],
    [(''../x'', \<lparr>pp_uuid = ''../x'', pp_cert = [1, 2, 3],
               pp_fingerprint = cert_fingerprint demo_crypto demo_slash [1, 2, 3]\<rparr>)])"
  by (simp add: add_trusted_peer_def pin_def demo_fs_def trusted_dir_def hm_insert_def node_uuid_from_cert_def
      demo_slash_def demo_pki_def uuid_from_urn_def node_urn_def)

lemma demo_loads:
  "\<exists>pins n. load_trusted_into demo_crypto P demo_fs f dir [] = Some (pins, n)"
  by (cases "load_entries demo_crypto P demo_fs f dir (the (fs_list demo_fs f dir)) [] 0")
    (simp add: load_trusted_into_def demo_fs_def)


theorem load_or_init_trusts_only_files_witness:
  "\<exists>pins f. load_or_init demo_crypto demo_pki demo_keygen demo_fs [1] [] ''d'' = (Inr (demo_identity, pins), f) \<and>
     pins_inv demo_crypto demo_pki pins"
proof -
  obtain pins f where l: "load_or_init demo_crypto demo_pki demo_keygen demo_fs [1] [] ''d'' =
      (Inr (demo_identity, pins), f)"
    by (simp add: load_or_init_def dir_identity_def demo_fs_def identity_generate_def demo_keygen_def
        load_trusted_into_def trusted_dir_def case_prod_beta)
  from load_or_init_trusts_only_files [OF this] l show ?thesis by blast
qed

end
