(* ===== verification/Membership.thy ===== *)
theory Membership
  imports Trust
begin

text \<open>
  Signed cluster membership (crates/pair-trust/src/membership.rs): the bytes that are signed
  for the two versions of endorsements and tombstones. Ed25519 is a record of functions.
\<close>

definition ENDORSE_DOMAIN_V1 :: string where "ENDORSE_DOMAIN_V1 = ''nvpair-endorse:v1''"
definition ENDORSE_DOMAIN_V2 :: string where "ENDORSE_DOMAIN_V2 = ''nvpair-endorse:v2''"
definition TOMBSTONE_DOMAIN_V1 :: string where "TOMBSTONE_DOMAIN_V1 = ''nvpair-remove:v1''"
definition TOMBSTONE_DOMAIN_V2 :: string where "TOMBSTONE_DOMAIN_V2 = ''nvpair-remove:v2''"

text \<open>The epochs are \<open>u64\<close>, the times \<open>i64\<close>.\<close>

definition endorse_payload_v1 :: "string \<Rightarrow> string \<Rightarrow> string \<Rightarrow> int \<Rightarrow> bytes" where
  "endorse_payload_v1 introduced_uuid fingerprint cluster_id issued_at =
     str_bytes (ENDORSE_DOMAIN_V1 @ [nl] @ introduced_uuid @ [nl] @ fingerprint @ [nl] @
       cluster_id @ [nl] @ int_str issued_at)"

definition endorse_payload_v2 ::
  "string \<Rightarrow> string \<Rightarrow> string \<Rightarrow> 64 word \<Rightarrow> 64 word \<Rightarrow> int \<Rightarrow> bytes" where
  "endorse_payload_v2 introduced_uuid fingerprint cluster_id epoch by_epoch issued_at =
     str_bytes (ENDORSE_DOMAIN_V2 @ [nl] @ introduced_uuid @ [nl] @ fingerprint @ [nl] @
       cluster_id @ [nl] @ nat_str (unat epoch) @ [nl] @ nat_str (unat by_epoch) @ [nl] @
       int_str issued_at)"

definition tombstone_payload_v1 :: "string \<Rightarrow> string \<Rightarrow> int \<Rightarrow> bytes" where
  "tombstone_payload_v1 node_uuid cluster_id removed_at =
     str_bytes (TOMBSTONE_DOMAIN_V1 @ [nl] @ node_uuid @ [nl] @ cluster_id @ [nl] @
       int_str removed_at)"

definition tombstone_payload_v2 :: "string \<Rightarrow> string \<Rightarrow> 64 word \<Rightarrow> 64 word \<Rightarrow> int \<Rightarrow> bytes" where
  "tombstone_payload_v2 node_uuid cluster_id epoch by_epoch removed_at =
     str_bytes (TOMBSTONE_DOMAIN_V2 @ [nl] @ node_uuid @ [nl] @ cluster_id @ [nl] @
       nat_str (unat epoch) @ [nl] @ nat_str (unat by_epoch) @ [nl] @ int_str removed_at)"

section \<open>Signatures\<close>

record ed25519 =
  ed_sign :: "bytes \<Rightarrow> bytes \<Rightarrow> bytes" \<comment> \<open>signing key, message\<close>
  ed_sig :: "bytes \<Rightarrow> bytes option" \<comment> \<open>\<open>Signature::from_slice\<close>\<close>
  ed_verify_strict :: "bytes \<Rightarrow> bytes \<Rightarrow> bytes \<Rightarrow> bool" \<comment> \<open>public key, message, signature\<close>
  ed_key :: "bytes \<Rightarrow> bytes option" \<comment> \<open>\<open>VerifyingKey::from_bytes\<close>\<close>

definition member_sign :: "crypto \<Rightarrow> ed25519 \<Rightarrow> bytes \<Rightarrow> bytes \<Rightarrow> string" where
  "member_sign C S signing payload = b64_encode C (ed_sign S signing payload)"

definition member_verify :: "crypto \<Rightarrow> ed25519 \<Rightarrow> bytes \<Rightarrow> bytes \<Rightarrow> string \<Rightarrow> bool" where
  "member_verify C S pubkey payload sig_b64 =
     (case b64_decode C sig_b64 of
        None \<Rightarrow> False
      | Some r \<Rightarrow>
          (case ed_sig S r of None \<Rightarrow> False | Some sg \<Rightarrow> ed_verify_strict S pubkey payload sg))"

definition verifying_key_from_cert :: "pki \<Rightarrow> ed25519 \<Rightarrow> bytes \<Rightarrow> bytes option" where
  "verifying_key_from_cert P S der =
     (case cert_spk P der of
        None \<Rightarrow> None
      | Some spk \<Rightarrow> if length spk \<noteq> 32 then None else ed_key S spk)"

section \<open>The payloads are unambiguous\<close>

datatype signed_claim =
    EndorseV1 string string string int
  | EndorseV2 string string string "64 word" "64 word" int
  | TombstoneV1 string string int
  | TombstoneV2 string string "64 word" "64 word" int

fun payload :: "signed_claim \<Rightarrow> bytes" where
  "payload (EndorseV1 u f c t) = endorse_payload_v1 u f c t"
| "payload (EndorseV2 u f c e b t) = endorse_payload_v2 u f c e b t"
| "payload (TombstoneV1 u c t) = tombstone_payload_v1 u c t"
| "payload (TombstoneV2 u c e b t) = tombstone_payload_v2 u c e b t"

fun one_line_fields :: "signed_claim \<Rightarrow> bool" where
  "one_line_fields (EndorseV1 u f c t) = (nl \<notin> set u \<and> nl \<notin> set f \<and> nl \<notin> set c)"
| "one_line_fields (EndorseV2 u f c e b t) = (nl \<notin> set u \<and> nl \<notin> set f \<and> nl \<notin> set c)"
| "one_line_fields (TombstoneV1 u c t) = (nl \<notin> set u \<and> nl \<notin> set c)"
| "one_line_fields (TombstoneV2 u c e b t) = (nl \<notin> set u \<and> nl \<notin> set c)"

lemma nl_not_number [simp]: "nl \<notin> set (nat_str n)" "nl \<notin> set (int_str i)"
proof -
  have "\<not> is_digit nl" "nl \<noteq> CHR ''-''" by (simp_all add: is_digit_def nl_def)
  then show "nl \<notin> set (nat_str n)" "nl \<notin> set (int_str i)"
    using nat_str_digits int_str_chars by blast+
qed

lemma line_split:
  "nl \<notin> set a \<Longrightarrow> nl \<notin> set b \<Longrightarrow> a @ nl # r = b @ nl # s \<longleftrightarrow> a = b \<and> r = s"
  by (auto dest: arg_cong [where f = "split_once nl"] simp: split_once_append)

lemma domains [simp]:
  "nl \<notin> set ENDORSE_DOMAIN_V1" "nl \<notin> set ENDORSE_DOMAIN_V2"
  "nl \<notin> set TOMBSTONE_DOMAIN_V1" "nl \<notin> set TOMBSTONE_DOMAIN_V2"
  "ENDORSE_DOMAIN_V1 \<noteq> ENDORSE_DOMAIN_V2" "ENDORSE_DOMAIN_V2 \<noteq> ENDORSE_DOMAIN_V1"
  "TOMBSTONE_DOMAIN_V1 \<noteq> TOMBSTONE_DOMAIN_V2" "TOMBSTONE_DOMAIN_V2 \<noteq> TOMBSTONE_DOMAIN_V1"
  "ENDORSE_DOMAIN_V1 \<noteq> TOMBSTONE_DOMAIN_V1" "ENDORSE_DOMAIN_V1 \<noteq> TOMBSTONE_DOMAIN_V2"
  "ENDORSE_DOMAIN_V2 \<noteq> TOMBSTONE_DOMAIN_V1" "ENDORSE_DOMAIN_V2 \<noteq> TOMBSTONE_DOMAIN_V2"
  "TOMBSTONE_DOMAIN_V1 \<noteq> ENDORSE_DOMAIN_V1" "TOMBSTONE_DOMAIN_V2 \<noteq> ENDORSE_DOMAIN_V1"
  "TOMBSTONE_DOMAIN_V1 \<noteq> ENDORSE_DOMAIN_V2" "TOMBSTONE_DOMAIN_V2 \<noteq> ENDORSE_DOMAIN_V2"
  by (simp_all add: ENDORSE_DOMAIN_V1_def ENDORSE_DOMAIN_V2_def TOMBSTONE_DOMAIN_V1_def
      TOMBSTONE_DOMAIN_V2_def nl_def)

fun domain_of :: "signed_claim \<Rightarrow> string" where
  "domain_of (EndorseV1 u f c t) = ENDORSE_DOMAIN_V1"
| "domain_of (EndorseV2 u f c e b t) = ENDORSE_DOMAIN_V2"
| "domain_of (TombstoneV1 u c t) = TOMBSTONE_DOMAIN_V1"
| "domain_of (TombstoneV2 u c e b t) = TOMBSTONE_DOMAIN_V2"

lemma payload_text: "\<exists>r. payload x = str_bytes (domain_of x @ nl # r) \<and> nl \<notin> set (domain_of x)"
  by (cases x) (auto simp: endorse_payload_v1_def endorse_payload_v2_def tombstone_payload_v1_def
      tombstone_payload_v2_def simp del: str_bytes_append)

lemma payload_kind: "payload x = payload y \<Longrightarrow> domain_of x = domain_of y"
  using payload_text [of x] payload_text [of y] line_split by (metis str_bytes_inject)

lemma payload_fields:
  "payload x = payload y \<Longrightarrow> one_line_fields x \<Longrightarrow> one_line_fields y \<Longrightarrow> x = y"
  using payload_kind [of x y]
  by (cases x; cases y)
     (auto simp: endorse_payload_v1_def endorse_payload_v2_def tombstone_payload_v1_def
        tombstone_payload_v2_def line_split simp del: str_bytes_append dest: unsigned_word_eqI)

text \<open>
  A membership signature can only be read as what was signed: payloads of different kinds
  or versions are never equal, whatever their fields, and two payloads of one kind whose
  fields are single lines are equal only when every field is.
\<close>
theorem payload_binds:
  assumes "payload x = payload y"
  shows "domain_of x = domain_of y \<and> (one_line_fields x \<longrightarrow> one_line_fields y \<longrightarrow> x = y)"
  using payload_kind [OF assms] payload_fields [OF assms] by blast

theorem payload_binds_witness:
  "let x = EndorseV1 ''u'' (''f'' @ [nl] @ ''g'') ''c'' 5; y = EndorseV1 ''u'' ''f'' (''g'' @ [nl] @ ''c'') 5
   in payload x = payload y \<and> domain_of x = domain_of y"
proof -
  have e: "payload (EndorseV1 ''u'' (''f'' @ [nl] @ ''g'') ''c'' 5) = payload (EndorseV1 ''u'' ''f'' (''g'' @ [nl] @ ''c'') 5)"
    by (simp add: endorse_payload_v1_def)
  from payload_binds [OF e] e show ?thesis by (simp add: Let_def)
qed

text \<open>
  Nothing in the payload protects the fields from line breaks: where a fingerprint may
  hold one, a signed endorsement is also the endorsement of another certificate in another
  cluster.
\<close>
theorem payload_ambiguous:
  "payload (EndorseV1 u (f @ [nl] @ g) c t) = payload (EndorseV1 u f (g @ [nl] @ c) t)"
  by (simp add: endorse_payload_v1_def)

end
