(* ===== verification/Mint.thy ===== *)
theory Mint
  imports Cluster_Dir Membership Demo_Json
begin

text \<open>
  Minting an identity (\<open>Identity::generate_with_uuid\<close> of crates/pair-trust/src/identity.rs): the
  key, the request for the self-signed certificate and what becomes of it. The crates rcgen,
  ed25519\_dalek and uuid are a record of functions, and \<open>rcgen_ok\<close> is what they promise. With
  it, the key generator that the loading of identities takes as a parameter is the program's own.
\<close>

section \<open>The certificate that is asked for\<close>

datatype san = DnsName string | San_Uri string

datatype eku = ServerAuth | ClientAuth

record cert_params =
  cq_sans :: "san list"
  cq_common_name :: string
  cq_digital_signature :: bool
  cq_ekus :: "eku list"
  cq_is_ca :: bool
  cq_serial :: bytes
  cq_not_before :: int \<comment> \<open>seconds\<close>
  cq_not_after :: int

record 'k rcgen =
  rg_seed :: "bytes \<Rightarrow> bytes" \<comment> \<open>\<open>SigningKey::generate\<close> of the drawn bytes\<close>
  rg_pkcs8 :: "bytes \<Rightarrow> bytes option"
  rg_key_pair :: "bytes \<Rightarrow> 'k option"
  rg_ia5 :: "string \<Rightarrow> string option" \<comment> \<open>\<open>Ia5String::try_from\<close>\<close>
  rg_self_signed :: "cert_params \<Rightarrow> 'k \<Rightarrow> (bytes \<times> string) option" \<comment> \<open>DER and PEM\<close>
  rg_key_der :: "'k \<Rightarrow> bytes"
  rg_key_pem :: "'k \<Rightarrow> string"
  rg_of_pem :: "string \<Rightarrow> 'k option" \<comment> \<open>\<open>KeyPair::from_pem\<close>\<close>
  rg_pem_seed :: "string \<Rightarrow> bytes option" \<comment> \<open>\<open>SigningKey::from_pkcs8_pem\<close>\<close>
  rg_public :: "bytes \<Rightarrow> bytes" \<comment> \<open>\<open>verifying_key\<close>\<close>
  rg_uuid :: "bytes \<Rightarrow> string" \<comment> \<open>\<open>Uuid::new_v4\<close> as text\<close>

definition CERT_LIFETIME :: int where "CERT_LIFETIME = 730 * 86400"

definition cert_request :: "string \<Rightarrow> string \<Rightarrow> string \<Rightarrow> bytes \<Rightarrow> int \<Rightarrow> cert_params" where
  "cert_request dns uri node_uuid serial now =
     \<lparr>cq_sans = [DnsName dns, San_Uri uri], cq_common_name = node_uuid, cq_digital_signature = True,
      cq_ekus = [ServerAuth, ClientAuth], cq_is_ca = False, cq_serial = serial,
      cq_not_before = now, cq_not_after = now + CERT_LIFETIME\<rparr>"

text \<open>The first 32 random bytes make the key, the next 16 the serial number.\<close>

definition generate_with_uuid :: "'k rcgen \<Rightarrow> string \<Rightarrow> int \<Rightarrow> bytes \<Rightarrow> string \<Rightarrow> identity option" where
  "generate_with_uuid G host now rnd node_uuid =
     (let seed = rg_seed G (take 32 rnd) in
      Option.bind (rg_pkcs8 G seed) (\<lambda>p8.
      Option.bind (rg_key_pair G p8) (\<lambda>key.
      Option.bind (rg_ia5 G host) (\<lambda>dns.
      Option.bind (rg_ia5 G (node_urn node_uuid)) (\<lambda>uri.
      Option.bind (rg_self_signed G (cert_request dns uri node_uuid (take 16 (drop 32 rnd)) now) key)
        (\<lambda>(der, pem).
           Some \<lparr>id_uuid = node_uuid, id_cert_der = der, id_key_der = rg_key_der G key,
                 id_cert_pem = pem, id_key_pem = rg_key_pem G key, id_seed = seed\<rparr>))))))"

definition identity_signing_key :: "identity \<Rightarrow> bytes" where
  "identity_signing_key i = id_seed i"

definition identity_verifying_key :: "'k rcgen \<Rightarrow> identity \<Rightarrow> bytes" where
  "identity_verifying_key G i = rg_public G (identity_signing_key i)"

definition mint_keygen :: "'k rcgen \<Rightarrow> string \<Rightarrow> int \<Rightarrow> keygen" where
  "mint_keygen G host now =
     \<lparr>kg_mint = generate_with_uuid G host now, kg_uuid = rg_uuid G,
      kg_key_der = (\<lambda>pem. map_option (rg_key_der G) (rg_of_pem G pem)), kg_seed = rg_pem_seed G\<rparr>"

section \<open>What the crates promise\<close>

fun san_uris :: "san list \<Rightarrow> string list" where
  "san_uris [] = []"
| "san_uris (DnsName d # ss) = san_uris ss"
| "san_uris (San_Uri u # ss) = u # san_uris ss"

definition is_ascii :: "string \<Rightarrow> bool" where
  "is_ascii s = list_all (\<lambda>c. (of_char c :: nat) < 128) s"

definition key_of_seed :: "'k rcgen \<Rightarrow> bytes \<Rightarrow> 'k option" where
  "key_of_seed G seed = Option.bind (rg_pkcs8 G seed) (rg_key_pair G)"

text \<open>A certificate as PEM text: standard base64 in lines between the two markers.\<close>

definition pem_text :: "bytes \<Rightarrow> string \<Rightarrow> bool" where
  "pem_text der pem \<longleftrightarrow> der \<noteq> [] \<and>
     (\<exists>body. list_all b64_line body \<and> concat body = b64_std der \<and>
        pem = pem_lines ([] @ [BEGIN_CERT] @ body @ [END_CERT]) @ [])"

lemma pem_text_der: "pem_text der pem \<Longrightarrow> pem_to_der pem = Some der"
  using pem_to_der_first_block [of "[]" _ der "[]"] by (auto simp: pem_text_def list_all_iff)

text \<open>
  An IA5 string is an ASCII string; keys can be made, written and read back; when a request is
  signed, which may fail, its certificate reads back with the names and the public key that went in.
\<close>

definition rcgen_ok :: "pki \<Rightarrow> 'k rcgen \<Rightarrow> bool" where
  "rcgen_ok P G \<longleftrightarrow>
     (\<forall>s. rg_ia5 G s = (if is_ascii s then Some s else None)) \<and>
     (\<forall>b. key_of_seed G (rg_seed G b) \<noteq> None) \<and>
     (\<forall>b k. key_of_seed G b = Some k \<longrightarrow>
        rg_of_pem G (rg_key_pem G k) = Some k \<and> rg_pem_seed G (rg_key_pem G k) = Some b \<and>
        (\<forall>ps. case rg_self_signed G ps k of None \<Rightarrow> True
              | Some (der, pem) \<Rightarrow> pem_text der pem \<and>
                  cert_uris P der = Some (san_uris (cq_sans ps)) \<and> cert_spk P der = Some (rg_public G b)))"

lemma rcgen_okD:
  assumes "rcgen_ok P G"
  shows "rg_ia5 G s = (if is_ascii s then Some s else None)"
    and "key_of_seed G (rg_seed G b) \<noteq> None"
    and "key_of_seed G b = Some k \<Longrightarrow> rg_of_pem G (rg_key_pem G k) = Some k"
    and "key_of_seed G b = Some k \<Longrightarrow> rg_pem_seed G (rg_key_pem G k) = Some b"
  using assms by (fastforce simp: rcgen_ok_def split: option.splits)+

lemma rcgen_cert:
  assumes "rcgen_ok P G" "key_of_seed G b = Some k" "rg_self_signed G ps k = Some (der, pem)"
  shows "pem_to_der pem = Some der" "cert_uris P der = Some (san_uris (cq_sans ps))"
    and "cert_spk P der = Some (rg_public G b)"
proof -
  have "case rg_self_signed G ps k of None \<Rightarrow> True
      | Some (der, pem) \<Rightarrow> pem_text der pem \<and>
          cert_uris P der = Some (san_uris (cq_sans ps)) \<and> cert_spk P der = Some (rg_public G b)"
    using assms(1,2) by (simp add: rcgen_ok_def)
  with assms(3) show "pem_to_der pem = Some der" "cert_uris P der = Some (san_uris (cq_sans ps))"
    "cert_spk P der = Some (rg_public G b)"
    by (simp_all add: pem_text_der)
qed

definition ed25519_ok :: "'k rcgen \<Rightarrow> ed25519 \<Rightarrow> bool" where
  "ed25519_ok G S \<longleftrightarrow>
     (\<forall>seed. length (rg_public G seed) = 32 \<and> ed_key S (rg_public G seed) = Some (rg_public G seed)) \<and>
     (\<forall>seed msg. \<exists>sg. ed_sig S (ed_sign S seed msg) = Some sg \<and>
        ed_verify_strict S (rg_public G seed) msg sg)"

section \<open>What a minted identity is good for\<close>

lemma node_urn_ascii: "is_ascii (node_urn u) \<longleftrightarrow> is_ascii u"
  by (simp add: is_ascii_def node_urn_def NODE_URN_PREFIX_def)

text \<open>The request is made and cannot be signed.\<close>

definition signing_fails :: "'k rcgen \<Rightarrow> string \<Rightarrow> int \<Rightarrow> bytes \<Rightarrow> string \<Rightarrow> bool" where
  "signing_fails G host now rnd u \<longleftrightarrow>
     (\<exists>k. key_of_seed G (rg_seed G (take 32 rnd)) = Some k \<and>
        rg_self_signed G (cert_request host (node_urn u) u (take 16 (drop 32 rnd)) now) k = None)"

lemma generate_result:
  assumes "rcgen_ok P G"
  shows "if is_ascii host \<and> is_ascii u \<and> \<not> signing_fails G host now rnd u
    then \<exists>i k. generate_with_uuid G host now rnd u = Some i \<and> key_of_seed G (id_seed i) = Some k \<and>
      rg_self_signed G (cert_request host (node_urn u) u (take 16 (drop 32 rnd)) now) k =
        Some (id_cert_der i, id_cert_pem i) \<and>
      id_uuid i = u \<and> id_key_der i = rg_key_der G k \<and> id_key_pem i = rg_key_pem G k
    else generate_with_uuid G host now rnd u = None"
proof -
  note ok = rcgen_okD [OF assms]
  obtain k where k: "key_of_seed G (rg_seed G (take 32 rnd)) = Some k" using ok(2) by blast
  then obtain p8 where p8: "rg_pkcs8 G (rg_seed G (take 32 rnd)) = Some p8" "rg_key_pair G p8 = Some k"
    by (auto simp: key_of_seed_def bind_eq_Some_conv)
  show ?thesis
  proof (cases "rg_self_signed G (cert_request host (node_urn u) u (take 16 (drop 32 rnd)) now) k")
    case None
    with k p8 show ?thesis by (simp add: generate_with_uuid_def signing_fails_def ok(1) node_urn_ascii)
  next
    case (Some c)
    then obtain der pem where
      "rg_self_signed G (cert_request host (node_urn u) u (take 16 (drop 32 rnd)) now) k = Some (der, pem)"
      by (cases c) simp
    with k p8 show ?thesis
      by (simp add: generate_with_uuid_def signing_fails_def ok(1) node_urn_ascii)
  qed
qed

lemma minted:
  assumes "rcgen_ok P G" "generate_with_uuid G host now rnd u = Some i"
  shows "is_ascii host \<and> is_ascii u \<and> id_uuid i = u \<and> pem_to_der (id_cert_pem i) = Some (id_cert_der i) \<and>
    node_uuid_from_cert P (id_cert_der i) = Some u \<and>
    cert_spk P (id_cert_der i) = Some (identity_verifying_key G i) \<and>
    kg_key_der (mint_keygen G host' now') (id_key_pem i) = Some (id_key_der i) \<and>
    kg_seed (mint_keygen G host' now') (id_key_pem i) = Some (id_seed i)"
proof -
  note r = generate_result [OF assms(1), of host u now rnd]
  have a: "is_ascii host \<and> is_ascii u \<and> \<not> signing_fails G host now rnd u" using r assms(2) by (auto split: if_splits)
  then obtain k where k: "key_of_seed G (id_seed i) = Some k"
    "rg_self_signed G (cert_request host (node_urn u) u (take 16 (drop 32 rnd)) now) k =
       Some (id_cert_der i, id_cert_pem i)"
    "id_uuid i = u" "id_key_der i = rg_key_der G k" "id_key_pem i = rg_key_pem G k"
    using r assms(2) by auto
  note c = rcgen_cert [OF assms(1) k(1,2)]
  have "node_uuid_from_cert P (id_cert_der i) = Some u"
    using c(2) uuid_from_urn_Some [of "node_urn u" u]
    by (simp add: node_uuid_from_cert_def cert_request_def)
  with a k(3-5) c(1,3) show ?thesis
    using rcgen_okD(3,4) [OF assms(1) k(1)]
    by (simp add: mint_keygen_def identity_verifying_key_def identity_signing_key_def)
qed

lemma kg_mint_mint [simp]:
  "kg_mint (mint_keygen G host now) = generate_with_uuid G host now"
  "kg_uuid (mint_keygen G host now) = rg_uuid G"
  by (simp_all add: mint_keygen_def)

lemma mint_keygen_ok: "rcgen_ok P G \<Longrightarrow> keygen_ok P (mint_keygen G host now)"
  unfolding keygen_ok_def kg_mint_mint using minted by blast

lemma mint_then_load:
  assumes "rcgen_ok P G" "generate_with_uuid G host now rnd u = Some i"
  shows "identity_from_pem P (mint_keygen G host' now') (id_cert_pem i) (id_key_pem i) = Inr i"
  using minted [OF assms, of host' now'] by (simp add: identity_from_pem_def)

lemma mint_then_pin:
  assumes "rcgen_ok P G" "generate_with_uuid G host now rnd u = Some i" "pins_inv C P store"
  shows "\<exists>store'. pin C P store (id_cert_der i) = Some (u, store') \<and>
    verify_server_cert (Some store') (id_cert_der i) chain name ocsp t = Inr () \<and>
    verify_client_cert (Some store') (id_cert_der i) chain t = Inr ()"
proof -
  obtain store' where p: "pin C P store (id_cert_der i) = Some (u, store')"
    using minted [OF assms(1,2)] by (simp add: pin_def)
  then have "is_pinned store' (id_cert_der i)" using pin_accepts [OF assms(3)] by blast
  with p show ?thesis by (simp add: verify_server_cert_def verify_client_cert_def accept_cert_def)
qed

lemma mint_then_sign:
  assumes "rcgen_ok P G" "ed25519_ok G S" "crypto_ok C" "generate_with_uuid G host now rnd u = Some i"
  shows "\<exists>k. verifying_key_from_cert P S (id_cert_der i) = Some k \<and>
    member_verify C S k msg (member_sign C S (identity_signing_key i) msg)"
proof -
  obtain sg where "ed_sig S (ed_sign S (id_seed i) msg) = Some sg"
    "ed_verify_strict S (rg_public G (id_seed i)) msg sg"
    using assms(2) unfolding ed25519_ok_def by blast
  moreover have "verifying_key_from_cert P S (id_cert_der i) = Some (rg_public G (id_seed i))"
    using minted [OF assms(1,4)] assms(2)
    by (simp add: verifying_key_from_cert_def identity_verifying_key_def identity_signing_key_def ed25519_ok_def)
  ultimately show ?thesis
    by (simp add: member_verify_def member_sign_def identity_signing_key_def crypto_okD [OF assms(3)])
qed

text \<open>
  C24: minting an identity fails exactly when the host name or the UUID is not ASCII or the library
  cannot sign the certificate that is asked for. What it gives reads back from its own PEM texts, is
  pinned under its UUID by any node and then let in by that node in both directions, and what it signs
  verifies with the key in its certificate.
\<close>
theorem minted_identity_works:
  assumes "rcgen_ok P G" "ed25519_ok G S" "crypto_ok C" "pins_inv C P store"
  shows "case generate_with_uuid G host now rnd u of
     None \<Rightarrow> \<not> (is_ascii host \<and> is_ascii u) \<or> signing_fails G host now rnd u
   | Some i \<Rightarrow> is_ascii host \<and> is_ascii u \<and> \<not> signing_fails G host now rnd u \<and>
       identity_from_pem P (mint_keygen G host' now') (id_cert_pem i) (id_key_pem i) = Inr i \<and>
       (\<exists>store'. pin C P store (id_cert_der i) = Some (u, store') \<and>
          verify_server_cert (Some store') (id_cert_der i) chain name ocsp t = Inr () \<and>
          verify_client_cert (Some store') (id_cert_der i) chain t = Inr ()) \<and>
       (\<exists>k. verifying_key_from_cert P S (id_cert_der i) = Some k \<and>
          member_verify C S k msg (member_sign C S (identity_signing_key i) msg))"
proof (cases "generate_with_uuid G host now rnd u")
  case None
  then show ?thesis using generate_result [OF assms(1), of host u now rnd] by (auto split: if_splits)
next
  case (Some i)
  then have "\<not> signing_fails G host now rnd u"
    using generate_result [OF assms(1), of host u now rnd] by (auto split: if_splits)
  with Some show ?thesis
    using minted [OF assms(1) Some] mint_then_load [OF assms(1) Some]
      mint_then_pin [OF assms(1) Some assms(4)] mint_then_sign [OF assms(1-3) Some] by simp
qed

text \<open>
  On a host whose name is not ASCII a node without an identity on disk cannot start: minting
  fails, and nothing is written.
\<close>
theorem non_ascii_host_cannot_start:
  assumes "rcgen_ok P G" "\<not> is_ascii host" "\<not> fs_exists F f dir KEY_FILE"
  shows "load_or_generate F P (mint_keygen G host now) rnd f dir = (Inl MintFailed, f)"
proof -
  have "generate_with_uuid G host now rnd u = None" for u
    using generate_result [OF assms(1), of host u now rnd] assms(2) by simp
  then show ?thesis using assms(3) by (simp add: load_or_generate_def identity_generate_def)
qed

section \<open>A concrete certificate authority\<close>

text \<open>
  A key is its seed; a certificate is the public key followed by the URIs, each character
  after a 1 and each URI closed by a 0, in one line of base64.
\<close>

definition demo_uri_bytes :: "string \<Rightarrow> bytes" where
  "demo_uri_bytes u = concat (map (\<lambda>c. [1, c]) (str_bytes u)) @ [0]"

fun demo_uris :: "bytes \<Rightarrow> bytes list" where
  "demo_uris [] = []"
| "demo_uris [x] = (if x = 0 then [[]] else [])"
| "demo_uris (x # c # r) =
     (if x = 0 then [] # demo_uris (c # r)
      else (case demo_uris r of [] \<Rightarrow> [] | u # us \<Rightarrow> (c # u) # us))"

lemma demo_uris_zero: "demo_uris (0 # r) = [] # demo_uris r"
  by (cases r) simp_all

lemma demo_uris_bytes: "demo_uris (concat (map (\<lambda>c. [1, c]) u) @ 0 # r) = u # demo_uris r"
  by (induction u) (simp_all add: demo_uris_zero)

lemma demo_uris_all: "demo_uris (concat (map demo_uri_bytes us)) = map str_bytes us"
  by (induction us) (simp_all add: demo_uri_bytes_def demo_uris_bytes)

definition demo_cert :: "cert_params \<Rightarrow> bytes \<Rightarrow> bytes" where
  "demo_cert ps k = demo_secret k @ concat (map demo_uri_bytes (san_uris (cq_sans ps)))"

definition demo_rcgen :: "bytes rcgen" where
  "demo_rcgen = \<lparr>rg_seed = demo_secret, rg_pkcs8 = (\<lambda>s. Some s), rg_key_pair = (\<lambda>p. Some p),
     rg_ia5 = (\<lambda>s. if is_ascii s then Some s else None),
     rg_self_signed = (\<lambda>ps k. Some (demo_cert ps k,
        pem_lines ([] @ [BEGIN_CERT] @ [b64_std (demo_cert ps k)] @ [END_CERT]) @ [])),
     rg_key_der = (\<lambda>k. k), rg_key_pem = demo_chars, rg_of_pem = (\<lambda>s. Some (str_bytes s)),
     rg_pem_seed = (\<lambda>s. Some (str_bytes s)), rg_public = demo_secret, rg_uuid = (\<lambda>r. ''n1'')\<rparr>"

definition demo_x509 :: pki where
  "demo_x509 = \<lparr>cert_uris = (\<lambda>d. Some (map demo_chars (demo_uris (drop 32 d)))),
     cert_spk = (\<lambda>d. Some (take 32 d)), hex_of = demo_chars\<rparr>"

definition demo_ed25519 :: ed25519 where
  "demo_ed25519 = \<lparr>ed_sign = (\<lambda>s m. demo_hash (s @ m)), ed_sig = (\<lambda>b. Some b),
     ed_verify_strict = (\<lambda>k m sg. length k = 32), ed_key = (\<lambda>k. Some k)\<rparr>"

lemma b64_std_line: "b64_line (b64_std d)"
proof (induction d rule: b64_std.induct)
  case (4 a b c r)
  then show ?case by (simp add: b64_line_def b64_char_rev(2) sextets)
qed (simp_all add: b64_line_def b64_char_rev(2) sextets)

lemma demo_cert_pem: "pem_text (demo_cert ps k) (pem_lines ([] @ [BEGIN_CERT] @ [b64_std (demo_cert ps k)] @ [END_CERT]) @ [])"
proof -
  have "demo_secret k \<noteq> []" using length_demo_secret [of k] by (metis list.size(3) zero_neq_numeral)
  then have "demo_cert ps k \<noteq> []" by (simp add: demo_cert_def)
  moreover have "list_all b64_line [b64_std (demo_cert ps k)]" by (simp add: b64_std_line)
  moreover have "concat [b64_std (demo_cert ps k)] = b64_std (demo_cert ps k)" by simp
  ultimately show ?thesis unfolding pem_text_def by blast
qed

lemma demo_rcgen_ok: "rcgen_ok demo_x509 demo_rcgen"
proof -
  have k: "key_of_seed demo_rcgen b = Some b" for b by (simp add: key_of_seed_def demo_rcgen_def)
  have u: "cert_uris demo_x509 (demo_cert ps b) = Some (san_uris (cq_sans ps))"
    and s: "cert_spk demo_x509 (demo_cert ps b) = Some (demo_secret b)" for ps b
    by (simp_all add: demo_x509_def demo_cert_def demo_uris_all comp_def)
  show ?thesis
    unfolding rcgen_ok_def k option.inject
    by (simp add: demo_rcgen_def u s demo_cert_pem [simplified])
qed

lemma demo_ed25519_ok: "ed25519_ok demo_rcgen demo_ed25519"
  by (simp add: ed25519_ok_def demo_rcgen_def demo_ed25519_def)

theorem minted_identity_works_witness:
  "\<exists>i. generate_with_uuid demo_rcgen ''host'' 0 [1] ''n1'' = Some i \<and>
     (\<exists>store. verify_client_cert (Some store) (id_cert_der i) [] 0 = Inr ())"
proof -
  have a: "is_ascii ''host''" "is_ascii ''n1''" "\<not> signing_fails demo_rcgen ''host'' 0 [1] ''n1''"
    by (simp_all add: is_ascii_def signing_fails_def demo_rcgen_def)
  note w = minted_identity_works [OF demo_rcgen_ok demo_ed25519_ok demo_crypto_ok pins_inv_Nil,
    where host = "''host''" and u = "''n1''" and now = 0 and rnd = "[1]" and chain = "[]" and t = 0]
  show ?thesis
  proof (cases "generate_with_uuid demo_rcgen ''host'' 0 [1] ''n1''")
    case None
    with w a show ?thesis by simp
  next
    case (Some i)
    with w show ?thesis by simp blast
  qed
qed

theorem non_ascii_host_cannot_start_witness:
  "load_or_generate demo_fs demo_x509 (mint_keygen demo_rcgen [CHR 0xE5, CHR 0x90, CHR 0x8D] 0) [1] [] ''d'' =
     (Inl MintFailed, [])"
  by (rule non_ascii_host_cannot_start [OF demo_rcgen_ok]) (simp_all add: is_ascii_def demo_fs_def)

end
