(* ===== verification/Pairing_Info.thy ===== *)
theory Pairing_Info
  imports Demo_Json Trust
begin

text \<open>
  The identity object that each side of a pairing embeds in the exchange
  (crates/pair-cluster/src/info.rs) and the envelope of the pairing channel
  (crates/pair-cluster/src/wire.rs). Their JSON forms are functions of the record \<open>codec\<close>,
  with the documented behaviour of serde in \<open>codec_ok\<close>.
\<close>

section \<open>PairingInfo\<close>

definition PAIRING_INFO_VERSION :: "32 word" where "PAIRING_INFO_VERSION = 2"
definition LEGACY_ADMISSION_EPOCH :: "64 word" where "LEGACY_ADMISSION_EPOCH = 1"

record pairing_info =
  pi_v :: "32 word"
  pi_node_uuid :: string
  pi_node_id :: string
  pi_name :: string
  pi_cluster_id :: string
  pi_admission_epoch :: "64 word"
  pi_cluster_friendly_name :: string
  pi_addr :: string
  pi_cert :: string

definition is_zero_u64 :: "64 word \<Rightarrow> bool" where
  "is_zero_u64 v \<longleftrightarrow> v = 0"

section \<open>The envelope\<close>

definition PAIRING_PATH :: string where "PAIRING_PATH = ''/v1/cluster/pairing''"
definition DEFAULT_PAIRING_PORT :: nat where "DEFAULT_PAIRING_PORT = 14321"

definition INITIAL :: string where "INITIAL = ''initial''"
definition COMPLETION :: string where "COMPLETION = ''completion''"
definition CANCEL :: string where "CANCEL = ''cancel''"
definition DECLINE :: string where "DECLINE = ''decline''"
definition FAIL :: string where "FAIL = ''fail''"
definition ACK :: string where "ACK = ''ack''"
definition EXPIRED :: string where "EXPIRED = ''expired''"

definition INCORRECT_PIN :: string where "INCORRECT_PIN = ''incorrect-pin''"
definition ALREADY_CLUSTERED :: string where "ALREADY_CLUSTERED = ''already-clustered''"

lemmas phase_defs = INITIAL_def COMPLETION_def CANCEL_def DECLINE_def FAIL_def ACK_def EXPIRED_def

record envelope =
  e_invite_id :: string
  e_phase :: string
  e_msg :: string
  e_rejected :: bool
  e_reason :: string

definition default_envelope :: envelope where
  "default_envelope = \<lparr>e_invite_id = [], e_phase = [], e_msg = [], e_rejected = False, e_reason = []\<rparr>"

section \<open>JSON\<close>

text \<open>\<open>pi_of\<close> gives serde's message when it fails; \<open>dbg\<close> is the \<open>{:?}\<close> form of a string.\<close>

record codec =
  pi_to :: "pairing_info \<Rightarrow> string"
  pi_of :: "string \<Rightarrow> string + pairing_info"
  dbg :: "string \<Rightarrow> string"
  first_type_of :: "bytes \<Rightarrow> int option" \<comment> \<open>the \<open>Type\<close> field alone\<close>
  env_to :: "envelope \<Rightarrow> bytes option"
  env_of :: "bytes \<Rightarrow> string + envelope"

record cluster_env =
  ce :: env
  cp :: pki
  cj :: codec

definition codec_ok :: "cluster_env \<Rightarrow> bool" where
  "codec_ok X \<longleftrightarrow>
     json_ok (js (ce X)) \<and> crypto_ok (cr (ce X)) \<and>
     (\<forall>p. pi_of (cj X) (pi_to (cj X) p) = Inr p \<and> raw_ok (js (ce X)) (pi_to (cj X) p)) \<and>
     (\<forall>b w. wire_of (js (ce X)) b = Some w \<longrightarrow> first_type_of (cj X) b = w_type w) \<and>
     wire_of (js (ce X)) [] = None \<and>
     (\<forall>e. \<exists>b. env_to (cj X) e = Some b \<and> env_of (cj X) b = Inr e)"

lemma codec_okD:
  assumes "codec_ok X"
  shows "json_ok (js (ce X))" "crypto_ok (cr (ce X))"
    "pi_of (cj X) (pi_to (cj X) p) = Inr p" "raw_ok (js (ce X)) (pi_to (cj X) p)"
    "wire_of (js (ce X)) b = Some w \<Longrightarrow> first_type_of (cj X) b = w_type w"
    "\<exists>b. env_to (cj X) e = Some b \<and> env_of (cj X) b = Inr e"
    "wire_of (js (ce X)) [] = None"
  using assms by (auto simp: codec_ok_def)

section \<open>Parsing a PairingInfo\<close>

datatype pi_error =
    DecodeFailed string
  | MissingNodeUuid
  | NoCertificate
  | CertWithoutUuid
  | PrincipalMismatch string string
  | MissingEpoch "32 word"

definition pi_error_text :: "codec \<Rightarrow> pi_error \<Rightarrow> string" where
  "pi_error_text J e = (case e of
       DecodeFailed m \<Rightarrow> ''decode PairingInfo: '' @ m
     | MissingNodeUuid \<Rightarrow> ''PairingInfo missing nodeUuid''
     | NoCertificate \<Rightarrow> ''PairingInfo has no CERTIFICATE block''
     | CertWithoutUuid \<Rightarrow> ''PairingInfo cert has no node UUID''
     | PrincipalMismatch a b \<Rightarrow> ''PairingInfo cert principal '' @ dbg J a @ '' != nodeUuid '' @ dbg J b
     | MissingEpoch v \<Rightarrow> ''PairingInfo v'' @ nat_str (unat v) @ '' missing admissionEpoch'')"

definition parse_pairing_info :: "cluster_env \<Rightarrow> string \<Rightarrow> pi_error + pairing_info \<times> bytes" where
  "parse_pairing_info X txt =
     (case pi_of (cj X) txt of
        Inl m \<Rightarrow> Inl (DecodeFailed m)
      | Inr pi \<Rightarrow>
          if pi_node_uuid pi = [] then Inl MissingNodeUuid
          else (case pem_to_der (pi_cert pi) of
              None \<Rightarrow> Inl NoCertificate
            | Some der \<Rightarrow>
                (case node_uuid_from_cert (cp X) der of
                   None \<Rightarrow> Inl CertWithoutUuid
                 | Some prc \<Rightarrow>
                     if prc \<noteq> pi_node_uuid pi
                     then Inl (PrincipalMismatch prc (pi_node_uuid pi))
                     else if PAIRING_INFO_VERSION \<le> pi_v pi \<and> pi_admission_epoch pi = 0
                     then Inl (MissingEpoch (pi_v pi))
                     else if pi_v pi < PAIRING_INFO_VERSION \<and> pi_admission_epoch pi = 0
                     then Inr (pi\<lparr>pi_admission_epoch := LEGACY_ADMISSION_EPOCH\<rparr>, der)
                     else Inr (pi, der))))"

text \<open>What every PairingInfo that was accepted satisfies.\<close>

definition pi_valid :: "cluster_env \<Rightarrow> pairing_info \<Rightarrow> bytes \<Rightarrow> bool" where
  "pi_valid X pi der \<longleftrightarrow>
     pi_node_uuid pi \<noteq> [] \<and> pem_to_der (pi_cert pi) = Some der \<and>
     node_uuid_from_cert (cp X) der = Some (pi_node_uuid pi) \<and> pi_admission_epoch pi \<noteq> 0"

lemma parse_valid: "parse_pairing_info X txt = Inr (pi, der) \<Longrightarrow> pi_valid X pi der"
  by (auto simp: parse_pairing_info_def pi_valid_def LEGACY_ADMISSION_EPOCH_def Let_def
      split: sum.splits option.splits if_splits)

lemma parse_own:
  assumes "codec_ok X" "pi_valid X pi der"
  shows "parse_pairing_info X (pi_to (cj X) pi) = Inr (pi, der)"
  using assms codec_okD(3) by (auto simp: parse_pairing_info_def pi_valid_def)

text \<open>
  An identity object is accepted only when it names a node, carries a certificate that
  certifies exactly that node, and has an admission epoch, which a version-1 object without
  one gets as 1; it comes back otherwise unchanged, with its certificate. In every other case
  the object is refused.
\<close>
theorem parse_pairing_info_iff:
  "parse_pairing_info X txt = Inr (pi, der) \<longleftrightarrow>
   (\<exists>p0. pi_of (cj X) txt = Inr p0 \<and> pi_node_uuid p0 \<noteq> [] \<and>
      pem_to_der (pi_cert p0) = Some der \<and> node_uuid_from_cert (cp X) der = Some (pi_node_uuid p0) \<and>
      pi = (if pi_admission_epoch p0 = 0 then p0\<lparr>pi_admission_epoch := 1\<rparr> else p0) \<and>
      \<not> (2 \<le> pi_v p0 \<and> pi_admission_epoch p0 = 0))"
proof (cases "pi_of (cj X) txt")
  case (Inl m)
  then show ?thesis by (simp add: parse_pairing_info_def)
next
  case (Inr p0)
  show ?thesis
  proof (cases "pem_to_der (pi_cert p0)")
    case None
    with Inr show ?thesis by (simp add: parse_pairing_info_def)
  next
    case (Some d)
    have "parse_pairing_info X txt =
      (if pi_node_uuid p0 = [] then Inl MissingNodeUuid
       else case node_uuid_from_cert (cp X) d of
         None \<Rightarrow> Inl CertWithoutUuid
       | Some prc \<Rightarrow>
           if prc \<noteq> pi_node_uuid p0 then Inl (PrincipalMismatch prc (pi_node_uuid p0))
           else if pi_admission_epoch p0 = 0
           then if 2 \<le> pi_v p0 then Inl (MissingEpoch (pi_v p0)) else Inr (p0\<lparr>pi_admission_epoch := 1\<rparr>, d)
           else Inr (p0, d))"
      using Inr Some by (auto simp: parse_pairing_info_def PAIRING_INFO_VERSION_def
          LEGACY_ADMISSION_EPOCH_def split: option.split dest: leD)
    with Inr Some show ?thesis
      by (cases "node_uuid_from_cert (cp X) d"; cases "2 \<le> pi_v p0"; cases "pi_admission_epoch p0 = 0";
          cases "pi_node_uuid p0 = []") auto
  qed
qed

section \<open>Envelopes\<close>

definition encode_msg :: "cluster_env \<Rightarrow> bytes \<Rightarrow> string" where
  "encode_msg X blob = b64_encode (cr (ce X)) blob"

definition decode_msg :: "cluster_env \<Rightarrow> string \<Rightarrow> bytes option" where
  "decode_msg X s = b64_decode (cr (ce X)) s"

definition with_msg :: "cluster_env \<Rightarrow> string \<Rightarrow> string \<Rightarrow> bytes \<Rightarrow> envelope" where
  "with_msg X invite_id phase blob =
     default_envelope\<lparr>e_invite_id := invite_id, e_phase := phase, e_msg := encode_msg X blob\<rparr>"

definition signal :: "string \<Rightarrow> string \<Rightarrow> string \<Rightarrow> envelope" where
  "signal invite_id phase reason =
     default_envelope\<lparr>e_invite_id := invite_id, e_phase := phase, e_reason := reason\<rparr>"

definition rejected :: "string \<Rightarrow> envelope" where
  "rejected reason = default_envelope\<lparr>e_rejected := True, e_reason := reason\<rparr>"

definition blob :: "cluster_env \<Rightarrow> envelope \<Rightarrow> bytes" where
  "blob X e =
     (if e_msg e = [] then []
      else (case decode_msg X (e_msg e) of Some b \<Rightarrow> b | None \<Rightarrow> []))"

lemma blob_with_msg [simp]: "codec_ok X \<Longrightarrow> blob X (with_msg X i p b) = b"
  using crypto_okD [OF codec_okD(2)]
  by (auto simp: blob_def with_msg_def encode_msg_def decode_msg_def default_envelope_def)

lemma blob_signal [simp]: "blob X (signal i p r) = []"
  by (simp add: blob_def signal_def default_envelope_def)

lemma envelope_fields [simp]:
  "e_rejected (with_msg X i p b) = False" "e_rejected (signal i p r) = False"
  "e_rejected (rejected r) = True" "e_phase (with_msg X i p b) = p" "e_phase (signal i p r) = p"
  "e_invite_id (with_msg X i p b) = i" "e_invite_id (signal i p r) = i" "e_reason (rejected r) = r"
  "e_reason (signal i p r) = r"
  by (simp_all add: with_msg_def signal_def rejected_def default_envelope_def)

end
