(* ===== verification/Demo_Codec.thy ===== *)
theory Demo_Codec
  imports Pairing_Info Cluster_Dir
begin

text \<open>
  A concrete codec for identity objects and envelopes that satisfies \<open>codec_ok\<close>, and a
  concrete identity object, for the witnesses.
\<close>

definition demo_pi_to :: "pairing_info \<Rightarrow> string" where
  "demo_pi_to p = demo_str (enc_os
     [Some (nat_str (unat (pi_v p))), Some (pi_node_uuid p), Some (pi_node_id p), Some (pi_name p),
      Some (pi_cluster_id p), Some (nat_str (unat (pi_admission_epoch p))),
      Some (pi_cluster_friendly_name p), Some (pi_addr p), Some (pi_cert p)])"

definition demo_pi_of :: "string \<Rightarrow> string + pairing_info" where
  "demo_pi_of s =
     (case Option.bind (demo_str_of s) (dec_os 9) of
        Some [Some v, Some u, Some i, Some n, Some c, Some e, Some f, Some a, Some p] \<Rightarrow>
          (case (dec_val 0 v, dec_val 0 e) of
             (Some v', Some e') \<Rightarrow>
               Inr \<lparr>pi_v = word_of_nat v', pi_node_uuid = u, pi_node_id = i, pi_name = n,
                    pi_cluster_id = c, pi_admission_epoch = word_of_nat e',
                    pi_cluster_friendly_name = f, pi_addr = a, pi_cert = p\<rparr>
           | _ \<Rightarrow> Inl ''number'')
      | _ \<Rightarrow> Inl ''shape'')"

lemma demo_pi_roundtrip [simp]: "demo_pi_of (demo_pi_to p) = Inr p"
proof -
  have "dec_os 9 (enc_os [a1, a2, a3, a4, a5, a6, a7, a8, a9]) = Some [a1, a2, a3, a4, a5, a6, a7, a8, a9]"
    for a1 a2 a3 a4 a5 a6 a7 a8 a9
    using dec_enc_os [of "[a1, a2, a3, a4, a5, a6, a7, a8, a9]"]
    by (simp only: list.size One_nat_def) (simp add: numeral_eq_Suc)
  then show ?thesis by (simp add: demo_pi_of_def demo_pi_to_def dec_val_nat_str)
qed

definition demo_env_to :: "envelope \<Rightarrow> bytes option" where
  "demo_env_to e = Some (str_bytes (enc_os
     [Some (e_invite_id e), Some (e_phase e), Some (e_msg e),
      (if e_rejected e then Some [] else None), Some (e_reason e)]))"

definition demo_env_of :: "bytes \<Rightarrow> string + envelope" where
  "demo_env_of b =
     (case dec_os 5 (demo_chars b) of
        Some [Some i, Some p, Some m, r, Some t] \<Rightarrow>
          Inr \<lparr>e_invite_id = i, e_phase = p, e_msg = m, e_rejected = (r \<noteq> None), e_reason = t\<rparr>
      | _ \<Rightarrow> Inl ''shape'')"

lemma demo_env_roundtrip: "\<exists>b. demo_env_to e = Some b \<and> demo_env_of b = Inr e"
proof -
  have "dec_os 5 (enc_os [a1, a2, a3, a4, a5]) = Some [a1, a2, a3, a4, a5]" for a1 a2 a3 a4 a5
    using dec_enc_os [of "[a1, a2, a3, a4, a5]"]
    by (simp only: list.size One_nat_def) (simp add: numeral_eq_Suc)
  then show ?thesis by (simp add: demo_env_of_def demo_env_to_def)
qed

definition demo_codec :: codec where
  "demo_codec = \<lparr>pi_to = demo_pi_to, pi_of = demo_pi_of, dbg = (\<lambda>s. s),
     first_type_of = (\<lambda>b. Option.bind (wire_of demo_json b) w_type),
     env_to = demo_env_to, env_of = demo_env_of\<rparr>"

definition demo_X :: cluster_env where
  "demo_X = \<lparr>ce = demo_env, cp = demo_pki, cj = demo_codec\<rparr>"

lemma demo_X_simps [simp]: "ce demo_X = demo_env" "cp demo_X = demo_pki" "cj demo_X = demo_codec"
  by (simp_all add: demo_X_def)

lemma demo_codec_simps [simp]: "pi_to demo_codec = demo_pi_to" "pi_of demo_codec = demo_pi_of"
  by (simp_all add: demo_codec_def)

lemma demo_X_ok: "codec_ok demo_X"
proof -
  have "demo_pi_to p \<noteq> ''null''" "json_frag (demo_pi_to p)" for p
    by (simp_all add: demo_pi_to_def)
  moreover have "first_type_of demo_codec b = Option.bind (wire_of demo_json b) w_type"
    "env_to demo_codec = demo_env_to" "env_of demo_codec = demo_env_of" for b
    by (simp_all add: demo_codec_def)
  moreover have "wire_of demo_json [] = None"
    by (simp add: demo_json_def demo_wire_of_def demo_chars_def numeral_eq_Suc)
  ultimately show ?thesis
    using demo_env_roundtrip by (simp add: codec_ok_def demo_json_ok demo_crypto_ok)
qed

definition demo_info :: "string \<Rightarrow> string \<Rightarrow> pairing_info" where
  "demo_info name addr = \<lparr>pi_v = 2, pi_node_uuid = ''n1'', pi_node_id = name, pi_name = name, pi_cluster_id = [],
     pi_admission_epoch = 1, pi_cluster_friendly_name = [], pi_addr = addr, pi_cert = demo_pem\<rparr>"

lemma demo_info_valid: "pi_valid demo_X (demo_info n a) [1, 2, 3]"
  by (simp add: pi_valid_def demo_info_def)

end
