(* ===== verification/Session.thy ===== *)
theory Session
  imports Demo_Codec Handshake
begin

text \<open>
  The two sides of a pairing as the drivers see them (crates/pair-cluster/src/session.rs): the
  EAP-NOOB machine together with the identity of the other side, captured from the transcript.
  An \<open>Inl\<close> is the text of the error returned.
\<close>

record peer_identity =
  pid_info :: pairing_info
  pid_cert :: bytes

record step =
  st_send :: "bytes option"
  st_done :: bool
  st_success :: bool
  st_auth_failed :: bool
  st_error_code :: "int option"
  st_error :: "string option"

definition step_of :: "outcome \<Rightarrow> step" where
  "step_of o1 =
     \<lparr>st_send = o_send o1, st_done = o_done o1, st_success = o_success o1,
      st_auth_failed = (case o_error_code o1 of Some c \<Rightarrow> is_wrong_pin_code c | None \<Rightarrow> False),
      st_error_code = o_error_code o1, st_error = o_error o1\<rparr>"

text \<open>The result of a call, with a function applied to what it returned.\<close>

fun emap :: "('a \<Rightarrow> 'b) \<Rightarrow> 'a exec \<Rightarrow> 'b exec" where
  "emap f (Returned a) = Returned (f a)"
| "emap f Panicked = Panicked"
| "emap f Diverged = Diverged"

section \<open>The joiner\<close>

record joiner =
  j_peer :: peer
  j_inviter :: "peer_identity option"

definition joiner_new :: "cluster_env \<Rightarrow> pairing_info \<Rightarrow> joiner" where
  "joiner_new X info = \<lparr>j_peer = with_peer_info peer_new (pi_to (cj X) info), j_inviter = None\<rparr>"

definition inviter_addr :: "joiner \<Rightarrow> string option" where
  "inviter_addr j = map_option (\<lambda>i. pi_addr (pid_info i)) (j_inviter j)"

definition joiner_on_initial ::
  "cluster_env \<Rightarrow> entropy \<Rightarrow> joiner \<Rightarrow> bytes \<Rightarrow> joiner \<times> (string + bytes) exec" where
  "joiner_on_initial X rnd j msg =
     (let (p, r) = peer_receive (ce X) rnd (j_peer j) msg; j1 = j\<lparr>j_peer := p\<rparr>
      in (case r of
            Panicked \<Rightarrow> (j1, Panicked)
          | Diverged \<Rightarrow> (j1, Diverged)
          | Returned out \<Rightarrow>
              (case o_error out of
                 Some e \<Rightarrow> (j1, Returned (Inl (''eap-noob: '' @ e)))
               | None \<Rightarrow>
                   (let reply = (case o_send out of Some b \<Rightarrow> b | None \<Rightarrow> [])
                    in if p_state p = Waiting \<and> j_inviter j1 = None
                       then (if peer_server_info p = []
                             then (j1, Returned (Inl ''inviter sent no ServerInfo''))
                             else (case parse_pairing_info X (peer_server_info p) of
                                     Inl e \<Rightarrow> (j1, Returned (Inl (pi_error_text (cj X) e)))
                                   | Inr (info, der) \<Rightarrow>
                                       (j1\<lparr>j_inviter := Some \<lparr>pid_info = info, pid_cert = der\<rparr>\<rparr>,
                                        Returned (Inr reply))))
                       else (j1, Returned (Inr reply))))))"

definition feed_pin :: "cluster_env \<Rightarrow> joiner \<Rightarrow> string \<Rightarrow> string + joiner" where
  "feed_pin X j pn =
     (case oob_input_noob (ce X) (j_peer j) (noob_from_pin pn) of
        Inl e \<Rightarrow> Inl e
      | Inr p \<Rightarrow> Inr (j\<lparr>j_peer := p\<rparr>))"

definition joiner_on_completion ::
  "cluster_env \<Rightarrow> entropy \<Rightarrow> joiner \<Rightarrow> bytes \<Rightarrow> joiner \<times> step exec" where
  "joiner_on_completion X rnd j resp =
     (let (p, r) = peer_receive (ce X) rnd (j_peer j) resp in (j\<lparr>j_peer := p\<rparr>, emap step_of r))"

definition joiner_association :: "joiner \<Rightarrow> association option" where
  "joiner_association j = p_assoc (j_peer j)"

section \<open>The inviter\<close>

record inviter =
  v_server :: server
  v_joiner :: "peer_identity option"

definition inviter_new :: "cluster_env \<Rightarrow> pairing_info \<Rightarrow> inviter" where
  "inviter_new X info = \<lparr>v_server = with_server_info server_new (pi_to (cj X) info), v_joiner = None\<rparr>"

definition inviter_start :: "cluster_env \<Rightarrow> inviter \<Rightarrow> bytes" where
  "inviter_start X v = srv_start (ce X) (v_server v)"

definition inviter_on_initial ::
  "cluster_env \<Rightarrow> entropy \<Rightarrow> inviter \<Rightarrow> bytes \<Rightarrow> inviter \<times> step exec" where
  "inviter_on_initial X rnd v resp =
     (let (s, r) = srv_receive (ce X) rnd (v_server v) resp in (v\<lparr>v_server := s\<rparr>, emap step_of r))"

definition set_pin :: "cluster_env \<Rightarrow> inviter \<Rightarrow> string \<Rightarrow> string + inviter" where
  "set_pin X v pn =
     (case oob_output_with (ce X) (v_server v) (noob_from_pin pn) of
        Inl e \<Rightarrow> Inl e
      | Inr s \<Rightarrow> Inr (v\<lparr>v_server := s\<rparr>))"

definition inviter_on_completion ::
  "cluster_env \<Rightarrow> entropy \<Rightarrow> inviter \<Rightarrow> bytes \<Rightarrow> inviter \<times> (string + step) exec" where
  "inviter_on_completion X rnd v msg =
     (let (s, r) = srv_receive (ce X) rnd (v_server v) msg; v1 = v\<lparr>v_server := s\<rparr>
      in (case r of
            Panicked \<Rightarrow> (v1, Panicked)
          | Diverged \<Rightarrow> (v1, Diverged)
          | Returned out \<Rightarrow>
              (if s_state s = Registered \<and> v_joiner v1 = None
               then (if server_peer_info s = []
                     then (v1, Returned (Inl ''joiner sent no PeerInfo''))
                     else (case parse_pairing_info X (server_peer_info s) of
                             Inl e \<Rightarrow> (v1, Returned (Inl (pi_error_text (cj X) e)))
                           | Inr (info, der) \<Rightarrow>
                               (v1\<lparr>v_joiner := Some \<lparr>pid_info = info, pid_cert = der\<rparr>\<rparr>,
                                Returned (Inr (step_of out)))))
               else (v1, Returned (Inr (step_of out))))))"

definition inviter_association :: "inviter \<Rightarrow> association option" where
  "inviter_association v = s_assoc (v_server v)"

section \<open>Lemmas\<close>

lemma step_of_fields [simp]:
  "st_send (step_of out) = o_send out" "st_done (step_of out) = o_done out"
  "st_success (step_of out) = o_success out" "st_error_code (step_of out) = o_error_code out"
  "st_error (step_of out) = o_error out"
  "st_auth_failed (step_of out) \<longleftrightarrow> o_error_code out \<in> {Some 2003, Some 4001}"
  by (auto simp: step_of_def is_wrong_pin_code_def UNRECOGNIZED_OOB_MSG_ID_def
      HMAC_VERIFICATION_FAILED_def split: option.splits)

text \<open>
  The inviter takes over a joiner's identity at no other moment than when its server
  accepts the Completion MAC: whenever a call sets it, the message was accepted, the server is
  Registered, and the identity is the valid parse of the very PeerInfo the MAC was computed
  over; once set it never changes.
\<close>
theorem inviter_captures_authenticated:
  assumes "inviter_on_completion X rnd v msg = (v', r)"
    and "s_state (v_server v) \<noteq> Registered"
  shows "(case v_joiner v of
       Some i \<Rightarrow> v_joiner v' = Some i
     | None \<Rightarrow>
         (case v_joiner v' of
            None \<Rightarrow> True
          | Some i \<Rightarrow>
              (\<exists>wm k. wire_of (js (ce X)) msg = Some wm \<and> macp_accepted (ce X) (v_server v) wm k) \<and>
              s_state (v_server v') = Registered \<and>
              parse_pairing_info X (i_peer_info (m_inp (s_m (v_server v)))) = Inr (pid_info i, pid_cert i) \<and>
              pi_valid X (pid_info i) (pid_cert i)))"
proof -
  obtain s q where sq: "srv_receive (ce X) rnd (v_server v) msg = (s, q)" by fastforce
  have "(case v_joiner v of Some i \<Rightarrow> v_joiner v' = Some i
     | None \<Rightarrow> (case v_joiner v' of None \<Rightarrow> True
          | Some i \<Rightarrow> s_state s = Registered \<and> v_server v' = s \<and>
              parse_pairing_info X (server_peer_info s) = Inr (pid_info i, pid_cert i)))"
    using assms(1) sq
    by (auto simp: inviter_on_completion_def Let_def split: exec.splits if_splits sum.splits option.splits)
  moreover have "(\<exists>wm k. wire_of (js (ce X)) msg = Some wm \<and> macp_accepted (ce X) (v_server v) wm k) \<and>
      server_peer_info s = i_peer_info (m_inp (s_m (v_server v)))" if "s_state s = Registered"
    using srv_receive_accepted [of "ce X" msg _ "v_server v" _ rnd]
      srv_receive_quiet [of "ce X" msg "v_server v" rnd] that assms(2) sq
    by (cases "\<exists>wm k. wire_of (js (ce X)) msg = Some wm \<and> macp_accepted (ce X) (v_server v) wm k")
       (auto simp: server_peer_info_def quiet_def)
  ultimately show ?thesis
    using parse_valid by (auto split: option.splits)
qed

text \<open>What the inviter does with the joiner's last message, when it verifies.\<close>

lemma inviter_accepts:
  assumes "codec_ok X" "m_peer_id (s_m (v_server v)) = pid" "m_keym (s_m (v_server v)) = Some k"
    and "macp = compute_mac (cr (ce X)) (kmp k) 1 (m_inp (s_m (v_server v)))"
    and "v_joiner v = None" "server_peer_info (v_server v) = pi_to (cj X) pi" "pi_valid X pi der"
  shows "inviter_on_completion X rnd v (wire_bytes (ce X) (type6_response (ce X) pid macp)) =
    (v\<lparr>v_server := (v_server v)\<lparr>s_assoc := Some (srv_finish (v_server v) k), s_state := Registered\<rparr>,
       v_joiner := Some \<lparr>pid_info = pi, pid_cert = der\<rparr>\<rparr>,
     Returned (Inr (step_of (default_outcome\<lparr>o_send := Some (result_bytes (ce X) ''success''),
       o_done := True, o_success := True\<rparr>))))"
proof -
  have "server_peer_info ((v_server v)\<lparr>s_assoc := a, s_state := t\<rparr>) = pi_to (cj X) pi" for a t
    using assms(6) by (simp add: server_peer_info_def)
  moreover have "pi_to (cj X) pi \<noteq> []"
    using raw_ok_frag [OF codec_okD(1,4) [OF assms(1)]] assms(1) by (auto simp: json_frag_def)
  ultimately show ?thesis
    using server_gets_type6 [OF codec_okD(1,2) [OF assms(1)] assms(2-4), of rnd] assms(5)
      parse_own [OF assms(1,7)]
    by (simp add: inviter_on_completion_def)
qed

definition demo_keys :: derived_keys where
  "demo_keys = \<lparr>msk = [], emsk = [], amsk = [], method_id = [], kms = [1], kmp = [2], kz = replicate 32 0\<rparr>"

definition demo_inviter :: inviter where
  "demo_inviter =
     (let s = server3 demo_env demo_rnd demo_rnd demo_rnd ''{}'' (pi_to demo_codec (demo_info ''B'' ''b:1'')) [0]
      in \<lparr>v_server = s\<lparr>s_m := (s_m s)\<lparr>m_keym := Some demo_keys\<rparr>\<rparr>, v_joiner = None\<rparr>)"

theorem inviter_captures_authenticated_witness:
  "\<exists>msg i. v_joiner (fst (inviter_on_completion demo_X demo_rnd demo_inviter msg)) = Some i \<and>
     pi_valid demo_X (pid_info i) (pid_cert i)"
proof -
  let ?s = "v_server demo_inviter"
  let ?msg = "wire_bytes demo_env (type6_response demo_env (m_peer_id (s_m ?s))
     (compute_mac demo_crypto (kmp demo_keys) 1 (m_inp (s_m ?s))))"
  have "m_keym (s_m ?s) = Some demo_keys" "v_joiner demo_inviter = None" "s_state ?s \<noteq> Registered"
    "server_peer_info ?s = pi_to (cj demo_X) (demo_info ''B'' ''b:1'')"
    using run_infos(1) [of demo_env demo_rnd demo_rnd demo_rnd "''{}''" "pi_to demo_codec (demo_info ''B'' ''b:1'')" "[0]"]
    by (simp_all add: demo_inviter_def Let_def server_peer_info_def server3_def)
  note f = this
  from inviter_accepts [OF demo_X_ok refl f(1) _ f(2,4) demo_info_valid, of _ demo_rnd]
  obtain v' r i where run: "inviter_on_completion demo_X demo_rnd demo_inviter ?msg = (v', r)" "v_joiner v' = Some i"
    by simp
  from inviter_captures_authenticated [OF run(1) f(3)] run f(2)
  have "pi_valid demo_X (pid_info i) (pid_cert i)" by simp
  with run show ?thesis by (metis fst_conv)
qed

end
