(* ===== verification/Node.thy ===== *)
theory Node
  imports Session
begin

text \<open>
  The pairing endpoint (crates/pair-cluster/src/node.rs): the sessions of a node in both roles,
  the invites that wait for a PIN, and the handlers of the requests that arrive. The maps of
  the code hold shared handles to sessions; here they hold addresses into a store of sessions,
  so that a session that was removed from the map while a request runs it is still that
  session.
\<close>

section \<open>Profiles, results, the interface of the trust\<close>

record node_profile =
  np_identity :: identity
  np_name :: string
  np_cluster_id :: string
  np_cluster_friendly_name :: string
  np_admission_epoch :: "64 word"
  np_advertised_addr :: string

definition profile_info :: "cluster_env \<Rightarrow> node_profile \<Rightarrow> string option \<Rightarrow> pairing_info" where
  "profile_info X pr addr =
     \<lparr>pi_v = PAIRING_INFO_VERSION, pi_node_uuid = id_uuid (np_identity pr),
      pi_node_id = identity_fingerprint (cr (ce X)) (cp X) (np_identity pr),
      pi_name = np_name pr, pi_cluster_id = np_cluster_id pr,
      pi_admission_epoch = max (np_admission_epoch pr) 1,
      pi_cluster_friendly_name = np_cluster_friendly_name pr,
      pi_addr = (case addr of Some a \<Rightarrow> a | None \<Rightarrow> np_advertised_addr pr),
      pi_cert = id_cert_pem (np_identity pr)\<rparr>"

record paired =
  pd_peer :: pairing_info
  pd_peer_cert :: bytes
  pd_kz :: bytes
  pd_cryptosuitep :: "8 word"

record pending_invite =
  pn_invite_id :: string
  pn_from_node_uuid :: string
  pn_from_name :: string
  pn_cluster_id :: string
  pn_cluster_friendly_name :: string
  pn_inviter_addr :: string

record reply =
  rp_status :: nat
  rp_envelope :: envelope

definition reply_ok :: "envelope \<Rightarrow> reply" where
  "reply_ok e = \<lparr>rp_status = 200, rp_envelope = e\<rparr>"

definition reply_conflict :: "envelope \<Rightarrow> reply" where
  "reply_conflict e = \<lparr>rp_status = 409, rp_envelope = e\<rparr>"

text \<open>The trait \<open>TrustSink\<close>: its two operations on a state \<open>'t\<close>.\<close>

record 't sink =
  pin_peer :: "paired \<Rightarrow> 't \<Rightarrow> 't"
  is_clustered :: "'t \<Rightarrow> bool"

text \<open>\<open>is_clustered\<close> has a default.\<close>

definition default_is_clustered :: "'t \<Rightarrow> bool" where
  "default_is_clustered t = False"

section \<open>The node\<close>

record 't node =
  nd_profile :: node_profile
  nd_trust :: 't
  nd_joiners :: "(string, nat) hmap"
  nd_inviters :: "(string, nat) hmap"
  nd_pending :: "(string, pending_invite) hmap"
  nd_jheap :: "joiner list" \<comment> \<open>the sessions the handles of \<open>nd_joiners\<close> point to\<close>
  nd_iheap :: "inviter list"

definition node_new :: "node_profile \<Rightarrow> 't \<Rightarrow> 't node" where
  "node_new pr t = \<lparr>nd_profile = pr, nd_trust = t, nd_joiners = [], nd_inviters = [],
     nd_pending = [], nd_jheap = [], nd_iheap = []\<rparr>"

definition pending_invites :: "'t node \<Rightarrow> pending_invite list" where
  "pending_invites nd = hm_values (nd_pending nd)"

section \<open>The joiner's side of the Initial Exchange\<close>

text \<open>
  The handler in the three steps between which other requests may run: finding or creating the
  session under the lock of the map, running it under its own lock, and noting the invite.
\<close>

definition bad_request :: "string \<Rightarrow> string \<Rightarrow> string \<Rightarrow> reply" where
  "bad_request iid phase txt = \<lparr>rp_status = 400, rp_envelope = signal iid phase txt\<rparr>"

definition find_joiner ::
  "cluster_env \<Rightarrow> 't sink \<Rightarrow> envelope \<Rightarrow> 't node \<Rightarrow> 't node \<times> (reply + nat)" where
  "find_joiner X K env nd =
     (case hm_get (nd_joiners nd) (e_invite_id env) of
        Some a \<Rightarrow> (nd, Inr a)
      | None \<Rightarrow>
          if first_type_of (cj X) (blob X env) \<noteq> Some 1
          then (nd, Inl (bad_request (e_invite_id env) INITIAL ''invalid EAP-NOOB message''))
          else if is_clustered K (nd_trust nd)
          then (nd, Inl (reply_conflict (rejected ALREADY_CLUSTERED)))
          else (nd\<lparr>nd_jheap := nd_jheap nd @ [joiner_new X (profile_info X (nd_profile nd) None)],
                   nd_joiners := hm_insert (e_invite_id env) (length (nd_jheap nd)) (nd_joiners nd)\<rparr>,
                Inr (length (nd_jheap nd))))"

definition pending_of :: "string \<Rightarrow> peer_identity \<Rightarrow> pending_invite" where
  "pending_of iid i =
     \<lparr>pn_invite_id = iid, pn_from_node_uuid = pi_node_uuid (pid_info i),
      pn_from_name = pi_name (pid_info i), pn_cluster_id = pi_cluster_id (pid_info i),
      pn_cluster_friendly_name = pi_cluster_friendly_name (pid_info i),
      pn_inviter_addr = pi_addr (pid_info i)\<rparr>"

definition run_joiner ::
  "cluster_env \<Rightarrow> entropy \<Rightarrow> envelope \<Rightarrow> nat \<Rightarrow> 't node \<Rightarrow>
     't node \<times> (reply \<times> pending_invite option) exec" where
  "run_joiner X rnd env a nd =
     (let (j, r) = joiner_on_initial X rnd (nd_jheap nd ! a) (blob X env);
          nd1 = nd\<lparr>nd_jheap := (nd_jheap nd)[a := j]\<rparr>
      in (case r of
            Panicked \<Rightarrow> (nd1, Panicked)
          | Diverged \<Rightarrow> (nd1, Diverged)
          | Returned (Inr out) \<Rightarrow>
              (nd1, Returned (reply_ok (with_msg X (e_invite_id env) INITIAL out),
                 if p_state (j_peer j) = Waiting
                 then map_option (pending_of (e_invite_id env)) (j_inviter j) else None))
          | Returned (Inl e) \<Rightarrow>
              (nd1\<lparr>nd_joiners := hm_remove (e_invite_id env) (nd_joiners nd1)\<rparr>,
               Returned (bad_request (e_invite_id env) INITIAL e, None))))"

definition note_pending :: "pending_invite option \<Rightarrow> 't node \<Rightarrow> 't node" where
  "note_pending po nd =
     (case po of
        None \<Rightarrow> nd
      | Some p \<Rightarrow> nd\<lparr>nd_pending := hm_insert (pn_invite_id p) p (nd_pending nd)\<rparr>)"

definition on_initial_request ::
  "cluster_env \<Rightarrow> 't sink \<Rightarrow> entropy \<Rightarrow> envelope \<Rightarrow> 't node \<Rightarrow> 't node \<times> reply exec" where
  "on_initial_request X K rnd env nd =
     (case find_joiner X K env nd of
        (nd1, Inl r) \<Rightarrow> (nd1, Returned r)
      | (nd1, Inr a) \<Rightarrow>
          (case run_joiner X rnd env a nd1 of
             (nd2, Returned (r, po)) \<Rightarrow> (note_pending po nd2, Returned r)
           | (nd2, Panicked) \<Rightarrow> (nd2, Panicked)
           | (nd2, Diverged) \<Rightarrow> (nd2, Diverged)))"

section \<open>The inviter's side of the Completion Exchange\<close>

definition paired_of :: "peer_identity \<Rightarrow> association \<Rightarrow> paired" where
  "paired_of i a =
     \<lparr>pd_peer = pid_info i, pd_peer_cert = pid_cert i, pd_kz = a_kz a,
      pd_cryptosuitep = a_cryptosuitep a\<rparr>"

definition run_inviter ::
  "cluster_env \<Rightarrow> entropy \<Rightarrow> envelope \<Rightarrow> nat \<Rightarrow> 't node \<Rightarrow>
     't node \<times> (reply \<times> paired option) exec" where
  "run_inviter X rnd env a nd =
     (let v = nd_iheap nd ! a
      in if blob X env = []
         then (nd, Returned (reply_ok (with_msg X (e_invite_id env) COMPLETION (inviter_start X v)), None))
         else
           (let (v1, r) = inviter_on_completion X rnd v (blob X env);
                nd1 = nd\<lparr>nd_iheap := (nd_iheap nd)[a := v1]\<rparr>
            in (case r of
                  Panicked \<Rightarrow> (nd1, Panicked)
                | Diverged \<Rightarrow> (nd1, Diverged)
                | Returned (Inl e) \<Rightarrow>
                    (nd1, Returned (bad_request (e_invite_id env) COMPLETION e, None))
                | Returned (Inr s) \<Rightarrow>
                    (nd1, Returned
                       (reply_ok (with_msg X (e_invite_id env) COMPLETION
                          (case st_send s of Some b \<Rightarrow> b | None \<Rightarrow> [])),
                        if st_done s \<and> st_success s
                        then (case (v_joiner v1, inviter_association v1) of
                                (Some i, Some asc) \<Rightarrow> Some (paired_of i asc)
                              | _ \<Rightarrow> None)
                        else None)))))"

definition pin_paired :: "'t sink \<Rightarrow> paired option \<Rightarrow> 't node \<Rightarrow> 't node" where
  "pin_paired K po nd =
     (case po of None \<Rightarrow> nd | Some p \<Rightarrow> nd\<lparr>nd_trust := pin_peer K p (nd_trust nd)\<rparr>)"

definition on_completion_request ::
  "cluster_env \<Rightarrow> 't sink \<Rightarrow> entropy \<Rightarrow> envelope \<Rightarrow> 't node \<Rightarrow> 't node \<times> reply exec" where
  "on_completion_request X K rnd env nd =
     (case hm_get (nd_inviters nd) (e_invite_id env) of
        None \<Rightarrow>
          (nd, Returned (reply_conflict
             (signal (e_invite_id env) COMPLETION ''unknown or expired inviteId'')))
      | Some a \<Rightarrow>
          (case run_inviter X rnd env a nd of
             (nd1, Returned (r, po)) \<Rightarrow> (pin_paired K po nd1, Returned r)
           | (nd1, Panicked) \<Rightarrow> (nd1, Panicked)
           | (nd1, Diverged) \<Rightarrow> (nd1, Diverged)))"

section \<open>Signals and the dispatch\<close>

definition on_signal :: "envelope \<Rightarrow> 't node \<Rightarrow> 't node" where
  "on_signal env nd =
     (if e_phase env = CANCEL
      then nd\<lparr>nd_joiners := hm_remove (e_invite_id env) (nd_joiners nd),
              nd_pending := hm_remove (e_invite_id env) (nd_pending nd)\<rparr>
      else if e_phase env \<in> {DECLINE, FAIL, EXPIRED}
      then nd\<lparr>nd_inviters := hm_remove (e_invite_id env) (nd_inviters nd)\<rparr>
      else nd)"

definition handle_request ::
  "cluster_env \<Rightarrow> 't sink \<Rightarrow> entropy \<Rightarrow> envelope \<Rightarrow> 't node \<Rightarrow> 't node \<times> reply exec" where
  "handle_request X K rnd env nd =
     (if e_invite_id env = []
      then (nd, Returned (bad_request [] (e_phase env) ''missing inviteId''))
      else if e_phase env = INITIAL then on_initial_request X K rnd env nd
      else if e_phase env = COMPLETION then on_completion_request X K rnd env nd
      else if e_phase env \<in> {CANCEL, DECLINE, FAIL, EXPIRED, ACK}
      then (on_signal env nd, Returned (reply_ok default_envelope))
      else (nd, Returned (bad_request (e_invite_id env) (e_phase env) ''unknown phase'')))"

definition default_pairing_addr :: "string \<Rightarrow> string" where
  "default_pairing_addr host = host @ '':'' @ nat_str DEFAULT_PAIRING_PORT"

section \<open>What requests do\<close>

lemma phases_distinct [simp]:
  "INITIAL \<noteq> COMPLETION" "COMPLETION \<noteq> INITIAL"
  "CANCEL \<noteq> INITIAL" "CANCEL \<noteq> COMPLETION" "DECLINE \<noteq> INITIAL" "DECLINE \<noteq> COMPLETION" "DECLINE \<noteq> CANCEL"
  "FAIL \<noteq> INITIAL" "FAIL \<noteq> COMPLETION" "FAIL \<noteq> CANCEL" "EXPIRED \<noteq> INITIAL" "EXPIRED \<noteq> COMPLETION"
  "EXPIRED \<noteq> CANCEL" "ACK \<noteq> INITIAL" "ACK \<noteq> COMPLETION" "ACK \<noteq> CANCEL" "ACK \<noteq> DECLINE" "ACK \<noteq> FAIL"
  "ACK \<noteq> EXPIRED"
  by (simp_all add: phase_defs)

lemma reply_simps [simp]:
  "rp_status (reply_ok e) = 200" "rp_envelope (reply_ok e) = e"
  "rp_status (reply_conflict e) = 409" "rp_envelope (reply_conflict e) = e"
  "rp_status (bad_request i p t) = 400" "rp_envelope (bad_request i p t) = signal i p t"
  by (simp_all add: reply_ok_def reply_conflict_def bad_request_def)

lemma note_pending_fields [simp]:
  "nd_trust (note_pending po nd) = nd_trust nd" "nd_joiners (note_pending po nd) = nd_joiners nd"
  "nd_inviters (note_pending po nd) = nd_inviters nd" "nd_jheap (note_pending po nd) = nd_jheap nd"
  "nd_iheap (note_pending po nd) = nd_iheap nd" "nd_profile (note_pending po nd) = nd_profile nd"
  by (simp_all add: note_pending_def split: option.split)

lemma pin_paired_fields [simp]:
  "nd_pending (pin_paired K po nd) = nd_pending nd" "nd_joiners (pin_paired K po nd) = nd_joiners nd"
  "nd_inviters (pin_paired K po nd) = nd_inviters nd" "nd_jheap (pin_paired K po nd) = nd_jheap nd"
  "nd_iheap (pin_paired K po nd) = nd_iheap nd" "nd_profile (pin_paired K po nd) = nd_profile nd"
  by (simp_all add: pin_paired_def split: option.split)

lemma find_joiner_fields:
  assumes "find_joiner X K env nd = (nd1, q)"
  shows "nd_trust nd1 = nd_trust nd" "nd_inviters nd1 = nd_inviters nd" "nd_iheap nd1 = nd_iheap nd"
    "nd_pending nd1 = nd_pending nd" "nd_profile nd1 = nd_profile nd"
  using assms by (auto simp: find_joiner_def split: option.splits if_splits)

lemma run_joiner_fields:
  assumes "run_joiner X rnd env a nd = (nd1, q)"
  shows "nd_trust nd1 = nd_trust nd" "nd_inviters nd1 = nd_inviters nd" "nd_iheap nd1 = nd_iheap nd"
    "nd_pending nd1 = nd_pending nd" "nd_profile nd1 = nd_profile nd"
    "nd_joiners nd1 \<in> {nd_joiners nd, hm_remove (e_invite_id env) (nd_joiners nd)}"
  using assms by (auto simp: run_joiner_def Let_def case_prod_beta split: exec.splits sum.splits)

lemma run_inviter_fields:
  assumes "run_inviter X rnd env a nd = (nd1, q)"
  shows "nd_trust nd1 = nd_trust nd" "nd_inviters nd1 = nd_inviters nd" "nd_joiners nd1 = nd_joiners nd"
    "nd_jheap nd1 = nd_jheap nd" "nd_pending nd1 = nd_pending nd" "nd_profile nd1 = nd_profile nd"
  using assms by (auto simp: run_inviter_def Let_def case_prod_beta split: exec.splits sum.splits if_splits)

lemma on_initial_trust: "on_initial_request X K rnd env nd = (nd', r) \<Longrightarrow> nd_trust nd' = nd_trust nd"
  unfolding on_initial_request_def
  by (auto split: prod.splits sum.splits exec.splits dest!: find_joiner_fields(1) run_joiner_fields(1))

lemma on_signal_trust [simp]: "nd_trust (on_signal env nd) = nd_trust nd"
  by (simp add: on_signal_def)

lemma run_joiner_status:
  "run_joiner X rnd env a nd = (nd1, Returned (r, po)) \<Longrightarrow> rp_status r \<in> {200, 400}"
  by (auto simp: run_joiner_def Let_def case_prod_beta split: exec.splits sum.splits)

lemma run_inviter_status:
  "run_inviter X rnd env a nd = (nd1, Returned (r, po)) \<Longrightarrow> rp_status r \<in> {200, 400}"
  by (auto simp: run_inviter_def Let_def case_prod_beta split: exec.splits sum.splits if_splits)

text \<open>The requests that are refused with 409.\<close>

definition refused :: "cluster_env \<Rightarrow> 't sink \<Rightarrow> envelope \<Rightarrow> 't node \<Rightarrow> bool" where
  "refused X K env nd \<longleftrightarrow> e_invite_id env \<noteq> [] \<and>
     (e_phase env = INITIAL \<and> hm_get (nd_joiners nd) (e_invite_id env) = None \<and>
        first_type_of (cj X) (blob X env) = Some 1 \<and> is_clustered K (nd_trust nd) \<or>
      e_phase env = COMPLETION \<and> hm_get (nd_inviters nd) (e_invite_id env) = None)"

lemma on_initial_status:
  assumes "on_initial_request X K rnd env nd = (nd', Returned r)"
  shows "rp_status r \<in> {200, 400, 409} \<and>
    (rp_status r = 409 \<longleftrightarrow> hm_get (nd_joiners nd) (e_invite_id env) = None \<and>
        first_type_of (cj X) (blob X env) = Some 1 \<and> is_clustered K (nd_trust nd)) \<and>
    (rp_status r = 409 \<longrightarrow> nd' = nd)"
proof (cases "snd (find_joiner X K env nd)")
  case (Inl r')
  with assms show ?thesis
    by (auto simp: on_initial_request_def find_joiner_def split: option.splits if_splits)
next
  case (Inr a)
  then obtain nd1 where f: "find_joiner X K env nd = (nd1, Inr a)" by (metis prod.collapse)
  then have "\<not> (hm_get (nd_joiners nd) (e_invite_id env) = None \<and>
      first_type_of (cj X) (blob X env) = Some 1 \<and> is_clustered K (nd_trust nd))"
    by (auto simp: find_joiner_def split: option.splits if_splits)
  moreover have "rp_status r \<in> {200, 400}"
    using assms f by (auto simp: on_initial_request_def split: prod.splits exec.splits dest!: run_joiner_status)
  ultimately show ?thesis by auto
qed

lemma on_completion_status:
  assumes "on_completion_request X K rnd env nd = (nd', Returned r)"
  shows "rp_status r \<in> {200, 400, 409} \<and>
    (rp_status r = 409 \<longleftrightarrow> hm_get (nd_inviters nd) (e_invite_id env) = None) \<and>
    (rp_status r = 409 \<longrightarrow> nd' = nd)"
  using assms by (auto simp: on_completion_request_def split: option.splits prod.splits exec.splits
      dest!: run_inviter_status)

text \<open>
  A request is answered with status 200, 400 or 409, and with 409 exactly when it opens a
  new join with a Discovery message while this node is already clustered, or when it drives a
  Completion for an invite this node does not have; a refused request changes nothing.
\<close>
theorem request_status:
  assumes "handle_request X K rnd env nd = (nd', Returned r)"
  shows "rp_status r \<in> {200, 400, 409} \<and> (rp_status r = 409 \<longleftrightarrow> refused X K env nd) \<and>
    (rp_status r = 409 \<longrightarrow> nd' = nd)"
proof -
  consider "e_invite_id env = []" | "e_invite_id env \<noteq> []" "e_phase env = INITIAL"
    | "e_invite_id env \<noteq> []" "e_phase env = COMPLETION"
    | "e_invite_id env \<noteq> []" "e_phase env \<noteq> INITIAL" "e_phase env \<noteq> COMPLETION" by blast
  then show ?thesis
  proof cases
    case 2
    with assms on_initial_status show ?thesis by (simp add: handle_request_def refused_def)
  next
    case 3
    with assms on_completion_status show ?thesis by (simp add: handle_request_def refused_def)
  qed (use assms in \<open>auto simp: handle_request_def refused_def split: if_splits\<close>)
qed

section \<open>Pinning by a request\<close>

lemma inviter_step_accepted:
  assumes "inviter_on_completion X rnd v msg = (v', Returned (Inr s))" "st_done s" "st_success s"
  shows "\<exists>wm k. wire_of (js (ce X)) msg = Some wm \<and> macp_accepted (ce X) (v_server v) wm k \<and>
    map_option a_kz (inviter_association v') = Some (kz k) \<and>
    (v_joiner v = None \<longrightarrow> (\<forall>i. v_joiner v' = Some i \<longrightarrow>
       parse_pairing_info X (i_peer_info (m_inp (s_m (v_server v)))) = Inr (pid_info i, pid_cert i))) \<and>
    (\<forall>i. v_joiner v = Some i \<longrightarrow> v_joiner v' = Some i)"
proof -
  obtain sv q where sq: "srv_receive (ce X) rnd (v_server v) msg = (sv, q)" by fastforce
  have "succeeded q \<and> v_server v' = sv"
    using assms sq by (auto simp: inviter_on_completion_def Let_def split: exec.splits if_splits sum.splits)
  moreover from this have "\<exists>wm k. wire_of (js (ce X)) msg = Some wm \<and> macp_accepted (ce X) (v_server v) wm k"
    using srv_receive_quiet [of "ce X" msg "v_server v" rnd] sq by (auto simp: quiet_alt)
  moreover have "(v_joiner v = None \<longrightarrow> (\<forall>i. v_joiner v' = Some i \<longrightarrow>
       parse_pairing_info X (server_peer_info sv) = Inr (pid_info i, pid_cert i))) \<and>
    (\<forall>i. v_joiner v = Some i \<longrightarrow> v_joiner v' = Some i)"
    using assms(1) sq by (auto simp: inviter_on_completion_def Let_def split: exec.splits if_splits sum.splits)
  ultimately show ?thesis
    using srv_receive_accepted [of "ce X" msg _ "v_server v" _ rnd] sq
    by (fastforce simp: inviter_association_def server_peer_info_def srv_finish_def)
qed

lemma run_inviter_pins:
  assumes "run_inviter X rnd env a nd = (nd1, Returned (r, Some p))"
  obtains v1 s i asc where
    "inviter_on_completion X rnd (nd_iheap nd ! a) (blob X env) = (v1, Returned (Inr s))"
    "st_done s" "st_success s" "v_joiner v1 = Some i" "inviter_association v1 = Some asc"
    "p = paired_of i asc"
proof -
  obtain v1 q where q: "inviter_on_completion X rnd (nd_iheap nd ! a) (blob X env) = (v1, q)" by fastforce
  show thesis
    using assms q that by (auto simp: run_inviter_def Let_def split: exec.splits sum.splits if_splits option.splits)
qed

text \<open>
  C3: a request makes this node pin a peer only when it is the Completion message of one of
  its own invites whose MAC verifies under the key of that invite's key exchange and PIN; the
  key pinned is that derivation's, and the identity pinned is the one in the PeerInfo the MAC
  covers, unless that session had captured one before.
\<close>
theorem request_pins_only_accepted:
  assumes "handle_request X K rnd env nd = (nd', r)" "nd_trust nd' \<noteq> nd_trust nd"
  shows "\<exists>a p wm k. e_phase env = COMPLETION \<and> hm_get (nd_inviters nd) (e_invite_id env) = Some a \<and>
    wire_of (js (ce X)) (blob X env) = Some wm \<and> macp_accepted (ce X) (v_server (nd_iheap nd ! a)) wm k \<and>
    nd_trust nd' = pin_peer K p (nd_trust nd) \<and> pd_kz p = kz k \<and>
    (case v_joiner (nd_iheap nd ! a) of
       None \<Rightarrow> parse_pairing_info X (i_peer_info (m_inp (s_m (v_server (nd_iheap nd ! a))))) =
               Inr (pd_peer p, pd_peer_cert p)
     | Some i \<Rightarrow> pd_peer p = pid_info i \<and> pd_peer_cert p = pid_cert i)"
proof -
  have ph: "e_phase env = COMPLETION" "on_completion_request X K rnd env nd = (nd', r)"
    using assms by (auto simp: handle_request_def dest: on_initial_trust split: if_splits)
  then obtain a where a: "hm_get (nd_inviters nd) (e_invite_id env) = Some a"
    using assms(2) by (auto simp: on_completion_request_def split: option.splits)
  obtain nd1 q where q: "run_inviter X rnd env a nd = (nd1, q)" by fastforce
  then have t: "nd_trust nd1 = nd_trust nd" by (rule run_inviter_fields)
  with ph(2) a q assms(2) obtain rp p where p: "q = Returned (rp, Some p)" "nd_trust nd' = pin_peer K p (nd_trust nd)"
    by (auto simp: on_completion_request_def pin_paired_def split: exec.splits option.splits)
  obtain v1 s i asc where v:
    "inviter_on_completion X rnd (nd_iheap nd ! a) (blob X env) = (v1, Returned (Inr s))"
    "st_done s" "st_success s" "v_joiner v1 = Some i" "inviter_association v1 = Some asc" "p = paired_of i asc"
    using run_inviter_pins q p(1) by metis
  with inviter_step_accepted [OF v(1-3)] obtain wm k where k:
    "wire_of (js (ce X)) (blob X env) = Some wm" "macp_accepted (ce X) (v_server (nd_iheap nd ! a)) wm k"
    "a_kz asc = kz k" by auto
  have "case v_joiner (nd_iheap nd ! a) of
       None \<Rightarrow> parse_pairing_info X (i_peer_info (m_inp (s_m (v_server (nd_iheap nd ! a))))) =
               Inr (pd_peer p, pd_peer_cert p)
     | Some i \<Rightarrow> pd_peer p = pid_info i \<and> pd_peer_cert p = pid_cert i"
    using inviter_step_accepted [OF v(1-3)] v(4,6) by (auto simp: paired_of_def split: option.split)
  moreover have "pd_kz p = kz k" using v(6) k(3) by (simp add: paired_of_def)
  ultimately show ?thesis using ph(1) a k(1,2) p(2) by blast
qed

section \<open>A clustered node\<close>

text \<open>A sequence of requests, each with the random bytes its handler draws.\<close>

fun serve :: "cluster_env \<Rightarrow> 't sink \<Rightarrow> (entropy \<times> envelope) list \<Rightarrow> 't node \<Rightarrow> 't node" where
  "serve X K [] nd = nd"
| "serve X K (q # qs) nd = serve X K qs (fst (handle_request X K (fst q) (snd q) nd))"

lemma request_pins_by:
  "nd_trust (fst (handle_request X K rnd env nd)) = nd_trust nd \<or>
   (\<exists>p. nd_trust (fst (handle_request X K rnd env nd)) = pin_peer K p (nd_trust nd))"
proof (cases "e_phase env = COMPLETION \<and> e_invite_id env \<noteq> []")
  case True
  then show ?thesis
    by (auto simp: handle_request_def on_completion_request_def pin_paired_def
        split: option.split prod.split exec.split dest!: run_inviter_fields(1))
next
  case False
  then show ?thesis
    using on_initial_trust [of X K rnd env nd]
    by (auto simp: handle_request_def) (metis prod.collapse)
qed

lemma on_initial_joiners:
  "nd_joiners (fst (on_initial_request X K rnd env nd)) \<in>
     {nd_joiners nd, hm_remove (e_invite_id env) (nd_joiners nd)} \<or>
   \<not> is_clustered K (nd_trust nd) \<and> hm_get (nd_joiners nd) (e_invite_id env) = None"
proof (cases "find_joiner X K env nd")
  case (Pair nd1 q)
  then have "nd_joiners nd1 = nd_joiners nd \<or>
      \<not> is_clustered K (nd_trust nd) \<and> hm_get (nd_joiners nd) (e_invite_id env) = None"
    by (auto simp: find_joiner_def split: option.splits if_splits)
  with Pair show ?thesis
    by (auto simp: on_initial_request_def split: sum.split prod.split exec.split dest!: run_joiner_fields(6))
qed

lemma request_joiners:
  "nd_joiners (fst (handle_request X K rnd env nd)) \<in>
     {nd_joiners nd, hm_remove (e_invite_id env) (nd_joiners nd)} \<or>
   \<not> is_clustered K (nd_trust nd) \<and> hm_get (nd_joiners nd) (e_invite_id env) = None"
proof (cases "e_phase env = COMPLETION")
  case True
  then have "nd_joiners (fst (handle_request X K rnd env nd)) = nd_joiners nd"
    by (auto simp: handle_request_def on_completion_request_def
        split: option.split prod.split exec.split dest: run_inviter_fields(3))
  then show ?thesis by simp
next
  case False
  then show ?thesis
    using on_initial_joiners [of X K rnd env nd] by (auto simp: handle_request_def on_signal_def)
qed

text \<open>What the node relies on: pinning a peer does not make it leave its cluster.\<close>

locale trust_sink =
  fixes K :: "'t sink"
  assumes sticky: "is_clustered K t \<Longrightarrow> is_clustered K (pin_peer K p t)"
begin

lemma request_stays_clustered:
  "is_clustered K (nd_trust nd) \<Longrightarrow> is_clustered K (nd_trust (fst (handle_request X K rnd env nd)))"
  using request_pins_by [of X K rnd env nd] sticky by (auto split: prod.splits)

lemma request_no_new_join:
  assumes "is_clustered K (nd_trust nd)"
    "hm_get (nd_joiners (fst (handle_request X K rnd env nd))) iid = Some a"
  shows "hm_get (nd_joiners nd) iid = Some a"
  using request_joiners [of X K rnd env nd] assms by (auto simp: hm_simps split: if_splits)

lemma serve_clustered:
  assumes "is_clustered K (nd_trust nd)"
  shows "is_clustered K (nd_trust (serve X K qs nd)) \<and>
    (\<forall>iid a. hm_get (nd_joiners (serve X K qs nd)) iid = Some a \<longrightarrow> hm_get (nd_joiners nd) iid = Some a)"
  using assms
proof (induction qs arbitrary: nd)
  case (Cons q qs)
  from Cons.IH [OF request_stays_clustered [OF Cons.prems]] request_no_new_join [OF Cons.prems]
  show ?case unfolding serve.simps by blast
qed simp

end

section \<open>The inviter's answers\<close>

lemma wire_bytes_not_Nil:
  assumes "codec_ok X" "wire_ok (js (ce X)) w"
  shows "wire_bytes (ce X) w \<noteq> []"
  using wire_of_bytes [OF codec_okD(1) [OF assms(1)] assms(2)] codec_okD(7) [OF assms(1)] by auto

lemma completion_kickoff:
  assumes "codec_ok X" "iid \<noteq> []" "hm_get (nd_inviters nd) iid = Some a"
  shows "handle_request X K rnd (signal iid COMPLETION []) nd =
    (nd, Returned (reply_ok (with_msg X iid COMPLETION (srv_start (ce X) (v_server (nd_iheap nd ! a))))))"
  using assms by (simp add: handle_request_def on_completion_request_def run_inviter_def Let_def
      pin_paired_def inviter_start_def)

lemma completion_step:
  assumes "codec_ok X" "iid \<noteq> []" "hm_get (nd_inviters nd) iid = Some a" "msg \<noteq> []"
    and "srv_receive (ce X) rnd (v_server (nd_iheap nd ! a)) msg = (s, Returned out)"
    and "s_state s \<noteq> Registered" "\<not> o_success out"
  shows "handle_request X K rnd (with_msg X iid COMPLETION msg) nd =
    (nd\<lparr>nd_iheap := (nd_iheap nd)[a := (nd_iheap nd ! a)\<lparr>v_server := s\<rparr>]\<rparr>,
     Returned (reply_ok (with_msg X iid COMPLETION (case o_send out of Some b \<Rightarrow> b | None \<Rightarrow> []))))"
  using assms by (simp add: handle_request_def on_completion_request_def run_inviter_def
      inviter_on_completion_def Let_def pin_paired_def)

lemma completion_accept:
  assumes "codec_ok X" "iid \<noteq> []" "hm_get (nd_inviters nd) iid = Some a" "msg \<noteq> []"
    and "inviter_on_completion X rnd (nd_iheap nd ! a) msg = (v, Returned (Inr (step_of out)))"
    and "o_done out" "o_success out" "v_joiner v = Some i" "inviter_association v = Some asc"
  shows "handle_request X K rnd (with_msg X iid COMPLETION msg) nd =
    (nd\<lparr>nd_iheap := (nd_iheap nd)[a := v], nd_trust := pin_peer K (paired_of i asc) (nd_trust nd)\<rparr>,
     Returned (reply_ok (with_msg X iid COMPLETION (case o_send out of Some b \<Rightarrow> b | None \<Rightarrow> []))))"
  using assms by (simp add: handle_request_def on_completion_request_def run_inviter_def
      Let_def pin_paired_def)

lemma fail_handled:
  assumes "iid \<noteq> []"
  shows "handle_request X K rnd (signal iid FAIL t) nd =
    (nd\<lparr>nd_inviters := hm_remove iid (nd_inviters nd)\<rparr>, Returned (reply_ok default_envelope))"
  using assms by (simp add: handle_request_def on_signal_def)

lemma ack_handled:
  assumes "iid \<noteq> []"
  shows "handle_request X K rnd (signal iid ACK t) nd = (nd, Returned (reply_ok default_envelope))"
  using assms by (simp add: handle_request_def on_signal_def)

section \<open>Witnesses\<close>

definition toy_sink :: "paired list sink" where
  "toy_sink = \<lparr>pin_peer = Cons, is_clustered = (\<lambda>t. t \<noteq> [])\<rparr>"

definition toy_node :: "paired list node" where
  "toy_node = (node_new \<lparr>np_identity = demo_identity, np_name = [], np_cluster_id = [], np_cluster_friendly_name = [],
     np_admission_epoch = 1, np_advertised_addr = []\<rparr> [])\<lparr>nd_inviters := [(''i'', 0)], nd_iheap := [demo_inviter]\<rparr>"

theorem request_status_witness:
  "\<exists>r. handle_request demo_X toy_sink demo_rnd (signal ''j'' COMPLETION []) toy_node = (toy_node, Returned r) \<and>
     rp_status r = 409"
proof -
  obtain r where r: "handle_request demo_X toy_sink demo_rnd (signal ''j'' COMPLETION []) toy_node = (toy_node, Returned r)"
    by (simp add: handle_request_def on_completion_request_def toy_node_def hm_get_def)
  moreover have "refused demo_X toy_sink (signal ''j'' COMPLETION []) toy_node"
    by (simp add: refused_def toy_node_def hm_get_def)
  ultimately show ?thesis using request_status [OF r] by blast
qed

theorem request_pins_only_accepted_witness:
  "\<exists>msg p. nd_trust (fst (handle_request demo_X toy_sink demo_rnd (with_msg demo_X ''i'' COMPLETION msg) toy_node)) = [p] \<and>
     pd_kz p = replicate 32 0"
proof -
  let ?s = "v_server demo_inviter"
  let ?w = "type6_response demo_env (m_peer_id (s_m ?s)) (compute_mac demo_crypto (kmp demo_keys) 1 (m_inp (s_m ?s)))"
  let ?msg = "wire_bytes (ce demo_X) ?w"
  have f: "m_keym (s_m ?s) = Some demo_keys" "v_joiner demo_inviter = None"
    "server_peer_info ?s = pi_to (cj demo_X) (demo_info ''B'' ''b:1'')"
    using run_infos(1) [of demo_env demo_rnd demo_rnd demo_rnd "''{}''" "pi_to demo_codec (demo_info ''B'' ''b:1'')" "[0]"]
    by (simp_all add: demo_inviter_def Let_def server_peer_info_def server3_def)
  obtain v asc i where acc: "inviter_on_completion demo_X demo_rnd demo_inviter ?msg =
      (v, Returned (Inr (step_of (default_outcome\<lparr>o_send := Some (result_bytes demo_env ''success''),
       o_done := True, o_success := True\<rparr>))))" "inviter_association v = Some asc" "v_joiner v = Some i"
    using inviter_accepts [OF demo_X_ok refl f(1) _ f(2,3) demo_info_valid, of _ demo_rnd]
    by (simp add: inviter_association_def)
  have t: "hm_get (nd_inviters toy_node) ''i'' = Some 0" "nd_iheap toy_node ! 0 = demo_inviter" "nd_trust toy_node = []"
    by (simp_all add: toy_node_def hm_get_def node_new_def)
  have "wire_ok (js (ce demo_X)) ?w" using completion_messages_ok(4) [OF demo_env_ok(1)] by simp
  note ne = wire_bytes_not_Nil [OF demo_X_ok this]
  let ?q = "handle_request demo_X toy_sink demo_rnd (with_msg demo_X ''i'' COMPLETION ?msg) toy_node"
  have "inviter_on_completion demo_X demo_rnd (nd_iheap toy_node ! 0) ?msg =
      (v, Returned (Inr (step_of (default_outcome\<lparr>o_send := Some (result_bytes demo_env ''success''),
       o_done := True, o_success := True\<rparr>))))"
    unfolding t(2) by (rule acc(1))
  then have h: "nd_trust (fst ?q) = [paired_of i asc]"
    using completion_accept [OF demo_X_ok _ t(1) ne, of demo_rnd v _ i asc toy_sink] acc(2,3) t(3)
    by (simp add: default_outcome_def toy_sink_def)
  with t(3) have ch: "nd_trust (fst ?q) \<noteq> nd_trust toy_node" by simp
  obtain nd r where q: "?q = (nd, r)" by fastforce
  from request_pins_only_accepted [OF q] ch q
  obtain a p wm k where k: "hm_get (nd_inviters toy_node) ''i'' = Some a"
    "macp_accepted (ce demo_X) (v_server (nd_iheap toy_node ! a)) wm k"
    "nd_trust nd = pin_peer toy_sink p (nd_trust toy_node)" "pd_kz p = kz k"
    by auto
  then have "k = demo_keys" using t f(1) by (simp add: macp_accepted_def)
  with k(3,4) q t(3) show ?thesis by (intro exI [of _ ?msg] exI [of _ p]) (simp add: toy_sink_def demo_keys_def)
qed

end
