(* ===== verification/Http.thy ===== *)
theory Http
  imports Node
begin

text \<open>
  The plain-HTTP transport of the pairing channel (crates/pair-cluster/src/http.rs) and the two
  drivers of node.rs that use it, \<open>create_invite\<close> and \<open>submit_pin\<close>. The network is a function on
  the state of the world and of this node: while a driver awaits an answer, anything may happen
  elsewhere and other requests may be handled here.
\<close>

section \<open>The client and the server\<close>

datatype post_error =
    EncodeFailed
  | Transport string
  | Conflict bytes
  | BadStatus nat bytes
  | BadBody string

type_synonym ('w, 't) net =
  "string \<Rightarrow> bytes \<Rightarrow> 'w \<times> 't node \<Rightarrow> ('w \<times> 't node) \<times> (string + nat \<times> bytes)"

definition post_pairing ::
  "cluster_env \<Rightarrow> ('w, 't) net \<Rightarrow> string \<Rightarrow> envelope \<Rightarrow> 'w \<times> 't node \<Rightarrow>
     ('w \<times> 't node) \<times> (post_error + envelope)" where
  "post_pairing X N addr env st =
     (case env_to (cj X) env of
        None \<Rightarrow> (st, Inl EncodeFailed)
      | Some body \<Rightarrow>
          (case N addr body st of
             (st1, Inl e) \<Rightarrow> (st1, Inl (Transport e))
           | (st1, Inr (status, b)) \<Rightarrow>
               if status = 409
               then (case env_of (cj X) b of
                       Inr e \<Rightarrow> if e_rejected e then (st1, Inr e) else (st1, Inl (Conflict b))
                     | Inl _ \<Rightarrow> (st1, Inl (Conflict b)))
               else if \<not> (200 \<le> status \<and> status < 300)
               then (st1, Inl (BadStatus status b))
               else (case env_of (cj X) b of
                       Inl m \<Rightarrow> (st1, Inl (BadBody m))
                     | Inr e \<Rightarrow> (st1, Inr e))))"

text \<open>\<open>handle\<close>: the path, the method and the body of a request (no body when reading it failed).\<close>

definition http_handle ::
  "cluster_env \<Rightarrow> 't sink \<Rightarrow> entropy \<Rightarrow> string \<Rightarrow> string \<Rightarrow> bytes option \<Rightarrow> 't node \<Rightarrow>
     't node \<times> (nat \<times> bytes) exec" where
  "http_handle X K rnd path meth body nd =
     (if path \<noteq> PAIRING_PATH then (nd, Returned (404, str_bytes ''not found''))
      else if meth \<noteq> ''POST'' then (nd, Returned (405, str_bytes ''method not allowed''))
      else (case body of
              None \<Rightarrow> (nd, Returned (400, str_bytes ''cannot read body''))
            | Some b \<Rightarrow>
                (case env_of (cj X) b of
                   Inl _ \<Rightarrow> (nd, Returned (400, str_bytes ''bad request''))
                 | Inr env \<Rightarrow>
                     (case handle_request X K rnd env nd of
                        (nd1, Returned r) \<Rightarrow>
                          (nd1, Returned (rp_status r,
                             case env_to (cj X) (rp_envelope r) of Some p \<Rightarrow> p | None \<Rightarrow> []))
                      | (nd1, Panicked) \<Rightarrow> (nd1, Panicked)
                      | (nd1, Diverged) \<Rightarrow> (nd1, Diverged)))))"

section \<open>The inviter's driver\<close>

datatype drive_error =
    Post post_error
  | JoinerRejected string
  | InitialFailed string
  | InviterStalled
  | NotWaiting state
  | OobError string
  | BadPin
  | UnknownInvite
  | AddressUnknown
  | NoInviterIdentity
  | NoAssociation
  | JoinerStalled
  | CompletionFailed bool string

text \<open>
  The loop of \<open>create_invite\<close>, which has no bound: \<open>None\<close> is not returning. The draws of its
  rounds are a sequence.
\<close>

partial_function (option) invite_loop ::
  "cluster_env \<Rightarrow> ('w, 't) net \<Rightarrow> (nat \<Rightarrow> entropy) \<Rightarrow> string \<Rightarrow> string \<Rightarrow> nat \<Rightarrow> bytes \<Rightarrow> inviter \<Rightarrow>
     'w \<times> 't node \<Rightarrow> (('w \<times> 't node) \<times> (drive_error + inviter) exec) option" where
  "invite_loop X N rnd addr iid i msg v st =
     (case post_pairing X N addr (with_msg X iid INITIAL msg) st of
        (st1, Inl e) \<Rightarrow> Some (st1, Returned (Inl (Post e)))
      | (st1, Inr resp) \<Rightarrow>
          if e_rejected resp then Some (st1, Returned (Inl (JoinerRejected (e_reason resp))))
          else
            (case inviter_on_initial X (rnd i) v (blob X resp) of
               (v1, Panicked) \<Rightarrow> Some (st1, Panicked)
             | (v1, Diverged) \<Rightarrow> Some (st1, Diverged)
             | (v1, Returned s) \<Rightarrow>
                 (case st_error s of
                    Some e \<Rightarrow> Some (st1, Returned (Inl (InitialFailed e)))
                  | None \<Rightarrow>
                      if st_done s then Some (st1, Returned (Inr v1))
                      else (case st_send s of
                              None \<Rightarrow> Some (st1, Returned (Inl InviterStalled))
                            | Some m \<Rightarrow> invite_loop X N rnd addr iid (Suc i) m v1 st1))))"

text \<open>\<open>Arc::new\<close> of the session and its insertion in the map.\<close>

definition add_inviter :: "string \<Rightarrow> inviter \<Rightarrow> 't node \<Rightarrow> 't node" where
  "add_inviter iid v nd =
     nd\<lparr>nd_iheap := nd_iheap nd @ [v], nd_inviters := hm_insert iid (length (nd_iheap nd)) (nd_inviters nd)\<rparr>"

text \<open>\<open>iid\<close> is the UUID drawn, \<open>n\<close> the number drawn for the PIN.\<close>

definition create_invite ::
  "cluster_env \<Rightarrow> ('w, 't) net \<Rightarrow> (nat \<Rightarrow> entropy) \<Rightarrow> string \<Rightarrow> nat \<Rightarrow> string \<Rightarrow>
     'w \<times> 't node \<Rightarrow> (('w \<times> 't node) \<times> (drive_error + string \<times> string) exec) option" where
  "create_invite X N rnd iid n addr st =
     (let v = inviter_new X (profile_info X (nd_profile (snd st)) None)
      in (case invite_loop X N rnd addr iid 0 (inviter_start X v) v st of
            None \<Rightarrow> None
          | Some (st1, Panicked) \<Rightarrow> Some (st1, Panicked)
          | Some (st1, Diverged) \<Rightarrow> Some (st1, Diverged)
          | Some (st1, Returned (Inl e)) \<Rightarrow> Some (st1, Returned (Inl e))
          | Some (st1, Returned (Inr v1)) \<Rightarrow>
              if s_state (v_server v1) \<noteq> Waiting
              then Some (st1, Returned (Inl (NotWaiting (s_state (v_server v1)))))
              else
                (let pn = mint_pin n
                 in (case set_pin X v1 pn of
                       Inl e \<Rightarrow> Some (st1, Returned (Inl (OobError e)))
                     | Inr v2 \<Rightarrow>
                         Some ((fst st1, add_inviter iid v2 (snd st1)), Returned (Inr (iid, pn)))))))"

section \<open>The joiner's driver\<close>

definition put_joiner :: "nat \<Rightarrow> joiner \<Rightarrow> 'w \<times> 't node \<Rightarrow> 'w \<times> 't node" where
  "put_joiner a j st = (fst st, (snd st)\<lparr>nd_jheap := (nd_jheap (snd st))[a := j]\<rparr>)"

definition forget_joiner :: "string \<Rightarrow> 'w \<times> 't node \<Rightarrow> 'w \<times> 't node" where
  "forget_joiner iid st =
     (fst st, (snd st)\<lparr>nd_joiners := hm_remove iid (nd_joiners (snd st)),
                       nd_pending := hm_remove iid (nd_pending (snd st))\<rparr>)"

partial_function (option) completion_rounds ::
  "cluster_env \<Rightarrow> ('w, 't) net \<Rightarrow> (nat \<Rightarrow> entropy) \<Rightarrow> string \<Rightarrow> string \<Rightarrow> nat \<Rightarrow> nat \<Rightarrow> envelope \<Rightarrow>
     'w \<times> 't node \<Rightarrow> (('w \<times> 't node) \<times> (drive_error + paired) exec) option" where
  "completion_rounds X N rnd addr iid a i resp st =
     (case joiner_on_completion X (rnd i) (nd_jheap (snd st) ! a) (blob X resp) of
        (j, Panicked) \<Rightarrow> Some (put_joiner a j st, Panicked)
      | (j, Diverged) \<Rightarrow> Some (put_joiner a j st, Diverged)
      | (j, Returned s) \<Rightarrow>
          let st1 = put_joiner a j st in
          if st_done s
          then if st_success s
               then (case j_inviter j of
                       None \<Rightarrow> Some (st1, Returned (Inl NoInviterIdentity))
                     | Some who \<Rightarrow>
                         (case joiner_association j of
                            None \<Rightarrow> Some (st1, Returned (Inl NoAssociation))
                          | Some asc \<Rightarrow> Some (st1, Returned (Inr (paired_of who asc)))))
               else
                 (let (st2, _) = post_pairing X N addr
                        (signal iid FAIL (if st_auth_failed s then INCORRECT_PIN else [])) st1
                  in Some (forget_joiner iid st2, Returned (Inl (CompletionFailed (st_auth_failed s)
                        (case st_error s of Some e \<Rightarrow> e | None \<Rightarrow> [])))))
          else
            (case st_send s of
               None \<Rightarrow> Some (st1, Returned (Inl JoinerStalled))
             | Some m \<Rightarrow>
                 (case post_pairing X N addr (with_msg X iid COMPLETION m) st1 of
                    (st2, Inl e) \<Rightarrow> Some (st2, Returned (Inl (Post e)))
                  | (st2, Inr resp') \<Rightarrow> completion_rounds X N rnd addr iid a (Suc i) resp' st2)))"

definition submit_pin ::
  "cluster_env \<Rightarrow> 't sink \<Rightarrow> ('w, 't) net \<Rightarrow> (nat \<Rightarrow> entropy) \<Rightarrow> string \<Rightarrow> string \<Rightarrow>
     'w \<times> 't node \<Rightarrow> (('w \<times> 't node) \<times> (drive_error + paired) exec) option" where
  "submit_pin X K N rnd iid pn st =
     (if \<not> is_valid_pin pn then Some (st, Returned (Inl BadPin))
      else
        (case hm_get (nd_joiners (snd st)) iid of
           None \<Rightarrow> Some (st, Returned (Inl UnknownInvite))
         | Some a \<Rightarrow>
             (case inviter_addr (nd_jheap (snd st) ! a) of
                None \<Rightarrow> Some (st, Returned (Inl AddressUnknown))
              | Some addr \<Rightarrow>
                  if addr = [] then Some (st, Returned (Inl AddressUnknown))
                  else
                    (case feed_pin X (nd_jheap (snd st) ! a) pn of
                       Inl e \<Rightarrow> Some (st, Returned (Inl (OobError e)))
                     | Inr j1 \<Rightarrow>
                         (case post_pairing X N addr (signal iid COMPLETION []) (put_joiner a j1 st) of
                            (st1, Inl e) \<Rightarrow> Some (st1, Returned (Inl (Post e)))
                          | (st1, Inr resp) \<Rightarrow>
                              (case completion_rounds X N rnd addr iid a 0 resp st1 of
                                 None \<Rightarrow> None
                               | Some (st2, Panicked) \<Rightarrow> Some (st2, Panicked)
                               | Some (st2, Diverged) \<Rightarrow> Some (st2, Diverged)
                               | Some (st2, Returned (Inl e)) \<Rightarrow> Some (st2, Returned (Inl e))
                               | Some (st2, Returned (Inr p)) \<Rightarrow>
                                   (let st3 = forget_joiner iid (fst st2, pin_paired K (Some p) (snd st2));
                                        (st4, _) = post_pairing X N addr (signal iid ACK []) st3
                                    in Some (st4, Returned (Inr p)))))))))"

end
