(* ===== verification/Sink.thy ===== *)
theory Sink
  imports Node Cluster_Dir
begin

text \<open>
  The trust sink of the daemon (\<open>ClusterTrustSink\<close> of crates/pair-node/src/pairing.rs): the
  in-memory pins, the cluster directory and the membership flag, as an instance of the
  interface the pairing endpoint relies on.
\<close>

record 'f trust_state =
  ts_pins :: pin_store
  ts_fs :: 'f
  ts_cluster_dir :: "string option"
  ts_clustered :: bool
  ts_cluster_id :: string

definition trust_sink_new :: "pin_store \<Rightarrow> 'f \<Rightarrow> string option \<Rightarrow> bool \<Rightarrow> 'f trust_state" where
  "trust_sink_new pins f dir already =
     \<lparr>ts_pins = pins, ts_fs = f, ts_cluster_dir = dir, ts_clustered = already, ts_cluster_id = []\<rparr>"

text \<open>Pinning in memory, and on disk when there is a cluster directory; whether it succeeded.\<close>

definition sink_store ::
  "crypto \<Rightarrow> pki \<Rightarrow> 'f fs_ops \<Rightarrow> paired \<Rightarrow> 'f trust_state \<Rightarrow> bool \<times> 'f trust_state" where
  "sink_store C P F p t =
     (case ts_cluster_dir t of
        Some dir \<Rightarrow>
          (case add_trusted_peer C P F (ts_fs t) dir (pi_cert (pd_peer p)) (ts_pins t) of
             (Inr _, f, pins) \<Rightarrow> (True, t\<lparr>ts_pins := pins, ts_fs := f\<rparr>)
           | (Inl _, f, pins) \<Rightarrow> (False, t\<lparr>ts_pins := pins, ts_fs := f\<rparr>))
      | None \<Rightarrow>
          (case pin C P (ts_pins t) (pd_peer_cert p) of
             Some (_, pins) \<Rightarrow> (True, t\<lparr>ts_pins := pins\<rparr>)
           | None \<Rightarrow> (False, t)))"

definition sink_pin_peer ::
  "crypto \<Rightarrow> pki \<Rightarrow> 'f fs_ops \<Rightarrow> paired \<Rightarrow> 'f trust_state \<Rightarrow> 'f trust_state" where
  "sink_pin_peer C P F p t =
     (case sink_store C P F p t of
        (True, t1) \<Rightarrow>
          t1\<lparr>ts_cluster_id := if pi_cluster_id (pd_peer p) \<noteq> [] then pi_cluster_id (pd_peer p) else ts_cluster_id t1,
             ts_clustered := True\<rparr>
      | (False, t1) \<Rightarrow> t1)"

definition cluster_sink :: "crypto \<Rightarrow> pki \<Rightarrow> 'f fs_ops \<Rightarrow> 'f trust_state sink" where
  "cluster_sink C P F = \<lparr>pin_peer = sink_pin_peer C P F, is_clustered = ts_clustered\<rparr>"

definition pairing_profile :: "identity \<Rightarrow> string \<Rightarrow> string \<Rightarrow> string \<Rightarrow> string \<Rightarrow> node_profile" where
  "pairing_profile i name addr cid cname =
     \<lparr>np_identity = i, np_name = name, np_cluster_id = cid, np_cluster_friendly_name = cname,
      np_admission_epoch = 1, np_advertised_addr = addr\<rparr>"

definition build_node :: "node_profile \<Rightarrow> 'f trust_state \<Rightarrow> 'f trust_state node" where
  "build_node pr t = node_new pr t"

lemma cluster_sink_simps [simp]:
  "pin_peer (cluster_sink C P F) = sink_pin_peer C P F" "is_clustered (cluster_sink C P F) = ts_clustered"
  by (simp_all add: cluster_sink_def)

lemma sink_store_flag: "ts_clustered (snd (sink_store C P F p t)) = ts_clustered t"
  by (auto simp: sink_store_def split: option.split sum.split prod.split)

interpretation cts: trust_sink "cluster_sink C P F" for C P F
proof
  fix t :: "'a trust_state" and p
  assume "is_clustered (cluster_sink C P F) t"
  then show "is_clustered (cluster_sink C P F) (pin_peer (cluster_sink C P F) p t)"
    using sink_store_flag [of C P F p t] by (auto simp: sink_pin_peer_def split: prod.split bool.split)
qed

text \<open>
  Once the daemon is in a cluster it stays in it and takes part in no further join,
  whatever sequence of requests it serves: every invite it is joining afterwards it was
  already joining before.
\<close>
theorem clustered_joins_nothing_new:
  assumes "ts_clustered (nd_trust nd)"
    "hm_get (nd_joiners (serve X (cluster_sink C P F) qs nd)) iid = Some a"
  shows "ts_clustered (nd_trust (serve X (cluster_sink C P F) qs nd)) \<and> hm_get (nd_joiners nd) iid = Some a"
  using cts.serve_clustered [of C P F nd X qs] assms by simp

text \<open>
  Pinning a paired peer makes exactly its certificate trusted and the node clustered when
  the certificate names a node and, with a cluster directory, the file can be written. When
  only the writing fails the certificate is trusted all the same, while the node does not
  count as clustered.
\<close>
theorem sink_pin_peer_effect:
  assumes "pins_inv C P (ts_pins t)" "pem_to_der (pi_cert (pd_peer p)) = Some (pd_peer_cert p)"
    "node_uuid_from_cert P (pd_peer_cert p) = Some u"
  shows "is_pinned (ts_pins (sink_pin_peer C P F p t)) (pd_peer_cert p) \<and>
    (ts_clustered (sink_pin_peer C P F p t) \<longleftrightarrow> ts_clustered t \<or> ts_cluster_dir t = None \<or>
       (\<exists>f1 f2. fs_mkdir F (ts_fs t) (trusted_dir (the (ts_cluster_dir t))) = Some f1 \<and>
          fs_write F f1 (trusted_dir (the (ts_cluster_dir t))) (u @ ''.crt'') (pi_cert (pd_peer p)) = Some f2))"
proof -
  obtain pins where pins: "pin C P (ts_pins t) (pd_peer_cert p) = Some (u, pins)"
    using assms(3) by (simp add: pin_def)
  with ps.add_accepts [OF assms(1)] have "is_pinned pins (pd_peer_cert p)" by blast
  with pins assms(2) show ?thesis
    by (cases "ts_cluster_dir t")
       (auto simp: sink_pin_peer_def sink_store_def add_trusted_peer_def split: option.splits)
qed

section \<open>Witnesses\<close>

definition demo_paired :: paired where
  "demo_paired = \<lparr>pd_peer = \<lparr>pi_v = 2, pi_node_uuid = ''n1'', pi_node_id = [], pi_name = [], pi_cluster_id = ''c'',
     pi_admission_epoch = 1, pi_cluster_friendly_name = [], pi_addr = [], pi_cert = demo_pem\<rparr>,
     pd_peer_cert = [1, 2, 3], pd_kz = replicate 32 0, pd_cryptosuitep = 2\<rparr>"

definition full_disk :: "unit fs_ops" where
  "full_disk = \<lparr>fs_mkdir = (\<lambda>f d. Some f), fs_dir_exists = (\<lambda>f d. False), fs_exists = (\<lambda>f d n. False),
     fs_read = (\<lambda>f d n. None), fs_write = (\<lambda>f d n s. None), fs_list = (\<lambda>f d. None)\<rparr>"

theorem sink_pin_peer_effect_witness:
  "let t = sink_pin_peer demo_crypto demo_pki full_disk demo_paired (trust_sink_new [] () (Some ''d'') False)
   in is_pinned (ts_pins t) [1, 2, 3] \<and> \<not> ts_clustered t"
  using sink_pin_peer_effect [of demo_crypto demo_pki "trust_sink_new [] () (Some ''d'') False" demo_paired "''n1''" full_disk]
  by (simp add: Let_def trust_sink_new_def demo_paired_def full_disk_def)

theorem clustered_joins_nothing_new_witness:
  "hm_get (nd_joiners (serve demo_X (cluster_sink demo_crypto demo_pki full_disk)
       [(demo_rnd, signal ''i'' ACK [])]
       (node_new (pairing_profile demo_identity ''A'' ''a:1'' [] []) (trust_sink_new [] () None True)
         \<lparr>nd_joiners := [(''i'', 0)]\<rparr>))) ''i'' = Some 0 \<and>
   ts_clustered (nd_trust (serve demo_X (cluster_sink demo_crypto demo_pki full_disk)
       [(demo_rnd, signal ''i'' ACK [])]
       (node_new (pairing_profile demo_identity ''A'' ''a:1'' [] []) (trust_sink_new [] () None True)
         \<lparr>nd_joiners := [(''i'', 0)]\<rparr>)))"
proof -
  let ?nd = "node_new (pairing_profile demo_identity ''A'' ''a:1'' [] []) (trust_sink_new [] () None True)
         \<lparr>nd_joiners := [(''i'', 0)]\<rparr>"
  have c: "ts_clustered (nd_trust ?nd)" by (simp add: node_new_def trust_sink_new_def)
  have j: "hm_get (nd_joiners (serve demo_X (cluster_sink demo_crypto demo_pki full_disk)
       [(demo_rnd, signal ''i'' ACK [])] ?nd)) ''i'' = Some 0"
    by (simp add: handle_request_def on_signal_def phase_defs hm_get_def signal_def default_envelope_def)
  from clustered_joins_nothing_new [OF c j] j show ?thesis by blast
qed

end
