(* ===== verification/Router.thy ===== *)
theory Router
  imports Prelude "HOL-Library.List_Lexorder" "HOL-Library.Char_ord" "HOL-Library.Product_Lexorder" "HOL-Library.Multiset"
begin

text \<open>
  Candidate selection of the proxy (crates/pair-proxy/src/router.rs) and the routing table it
  is applied to (crates/pair-proxy/src/routing.rs). The order in which a \<open>HashMap\<close> iterates is
  the order of the association list, which no theorem relies on unless it says so.
\<close>

section \<open>Selection\<close>

record candidate =
  c_node_id :: string
  c_base_url :: string
  c_advertises_model :: bool
  c_is_self :: bool
  c_pinned :: bool
  c_priority_rank :: "32 word option"
  c_manually_selected :: bool
  c_host :: "string option"
  c_ingress_port :: "16 word option"

text \<open>\<open>Iterator::min_by\<close>: the first of the least elements.\<close>

fun min_first :: "('a \<Rightarrow> 'k :: linorder) \<Rightarrow> 'a list \<Rightarrow> 'a option" where
  "min_first k [] = None"
| "min_first k (x # xs) =
     (case min_first k xs of None \<Rightarrow> Some x | Some y \<Rightarrow> if k x \<le> k y then Some x else Some y)"

definition eligible :: "candidate \<Rightarrow> bool" where
  "eligible c \<longleftrightarrow> c_advertises_model c \<and> (c_is_self c \<or> c_pinned c)"

definition select :: "candidate list \<Rightarrow> candidate option" where
  "select candidates =
     (let el = filter eligible candidates
      in if el = [] then None
         else (case find c_manually_selected el of
                 Some c \<Rightarrow> Some c
               | None \<Rightarrow>
                   (case min_first (the \<circ> c_priority_rank) (filter (\<lambda>c. c_priority_rank c \<noteq> None) el) of
                      Some c \<Rightarrow> Some c
                    | None \<Rightarrow>
                        (case find c_is_self el of
                           Some c \<Rightarrow> Some c
                         | None \<Rightarrow> min_first c_node_id el))))"

section \<open>The routing table\<close>

record peer_entry =
  pe_node_id :: string
  pe_host :: string
  pe_ingress_port :: "16 word"
  pe_models :: "string set"
  pe_pinned :: bool
  pe_priority_rank :: "32 word option"
  pe_manually_selected :: bool

record routing_table =
  rt_local_models :: "string set"
  rt_peers :: "(string, peer_entry) hmap"
  rt_local_id :: string

definition routing_new :: "string \<Rightarrow> routing_table" where
  "routing_new local_id = \<lparr>rt_local_models = {}, rt_peers = [], rt_local_id = local_id\<rparr>"

definition set_local_models :: "string list \<Rightarrow> routing_table \<Rightarrow> routing_table" where
  "set_local_models ms t = t\<lparr>rt_local_models := set ms\<rparr>"

definition upsert_peer :: "peer_entry \<Rightarrow> routing_table \<Rightarrow> routing_table" where
  "upsert_peer p t = t\<lparr>rt_peers := hm_insert (pe_node_id p) p (rt_peers t)\<rparr>"

definition remove_peer :: "string \<Rightarrow> routing_table \<Rightarrow> routing_table" where
  "remove_peer i t = t\<lparr>rt_peers := hm_remove i (rt_peers t)\<rparr>"

definition upsert_peer_meta :: "string \<Rightarrow> string \<Rightarrow> 16 word \<Rightarrow> bool \<Rightarrow> routing_table \<Rightarrow> routing_table" where
  "upsert_peer_meta i host port pinned t =
     (case hm_get (rt_peers t) i of
        Some p \<Rightarrow>
          t\<lparr>rt_peers := hm_insert i (p\<lparr>pe_host := host, pe_ingress_port := port, pe_pinned := pinned\<rparr>) (rt_peers t)\<rparr>
      | None \<Rightarrow>
          t\<lparr>rt_peers := hm_insert i
              \<lparr>pe_node_id = i, pe_host = host, pe_ingress_port = port, pe_models = {}, pe_pinned = pinned,
               pe_priority_rank = None, pe_manually_selected = False\<rparr> (rt_peers t)\<rparr>)"

definition set_peer_models :: "string \<Rightarrow> string list \<Rightarrow> routing_table \<Rightarrow> routing_table" where
  "set_peer_models i ms t =
     (case hm_get (rt_peers t) i of
        Some p \<Rightarrow> t\<lparr>rt_peers := hm_insert i (p\<lparr>pe_models := set ms\<rparr>) (rt_peers t)\<rparr>
      | None \<Rightarrow> t)"

definition set_peer_priority :: "string \<Rightarrow> 32 word option \<Rightarrow> routing_table \<Rightarrow> routing_table" where
  "set_peer_priority i rank t =
     (case hm_get (rt_peers t) i of
        Some p \<Rightarrow> t\<lparr>rt_peers := hm_insert i (p\<lparr>pe_priority_rank := rank\<rparr>) (rt_peers t)\<rparr>
      | None \<Rightarrow> t)"

definition pinned_peers :: "routing_table \<Rightarrow> (string \<times> string \<times> 16 word) list" where
  "pinned_peers t =
     map (\<lambda>p. (pe_node_id p, pe_host p, pe_ingress_port p)) (filter pe_pinned (hm_values (rt_peers t)))"

definition peer_count :: "routing_table \<Rightarrow> nat" where
  "peer_count t = length (rt_peers t)"

record peer_view =
  pv_node_id :: string
  pv_host :: string
  pv_ingress_port :: "16 word"
  pv_pinned :: bool
  pv_priority_rank :: "32 word option"
  pv_models :: "string list"

record routing_snapshot =
  rs_local_models :: "string list"
  rs_peers :: "peer_view list"

definition snapshot :: "routing_table \<Rightarrow> routing_snapshot" where
  "snapshot t =
     \<lparr>rs_local_models = sorted_list_of_set (rt_local_models t),
      rs_peers = sort_key pv_node_id
        (map (\<lambda>p. \<lparr>pv_node_id = pe_node_id p, pv_host = pe_host p, pv_ingress_port = pe_ingress_port p,
                   pv_pinned = pe_pinned p, pv_priority_rank = pe_priority_rank p,
                   pv_models = sorted_list_of_set (pe_models p)\<rparr>) (hm_values (rt_peers t)))\<rparr>"

definition peer_candidate :: "string \<Rightarrow> peer_entry \<Rightarrow> candidate" where
  "peer_candidate m p =
     \<lparr>c_node_id = pe_node_id p,
      c_base_url = ''https://'' @ pe_host p @ '':'' @ nat_str (unat (pe_ingress_port p)),
      c_advertises_model = (m \<in> pe_models p), c_is_self = False, c_pinned = pe_pinned p,
      c_priority_rank = pe_priority_rank p, c_manually_selected = pe_manually_selected p,
      c_host = Some (pe_host p), c_ingress_port = Some (pe_ingress_port p)\<rparr>"

definition self_candidate :: "string option \<Rightarrow> string \<Rightarrow> routing_table \<Rightarrow> candidate" where
  "self_candidate model backend t =
     \<lparr>c_node_id = rt_local_id t, c_base_url = ''http://'' @ backend,
      c_advertises_model = (case model of Some m \<Rightarrow> m \<in> rt_local_models t | None \<Rightarrow> True),
      c_is_self = True, c_pinned = False, c_priority_rank = None, c_manually_selected = False,
      c_host = None, c_ingress_port = None\<rparr>"

definition candidates_for :: "string option \<Rightarrow> string \<Rightarrow> routing_table \<Rightarrow> candidate list" where
  "candidates_for model backend t =
     self_candidate model backend t #
     (case model of None \<Rightarrow> [] | Some m \<Rightarrow> map (peer_candidate m) (hm_values (rt_peers t)))"

section \<open>What selection guarantees\<close>

lemma min_first_None [simp]: "min_first k xs = None \<longleftrightarrow> xs = []"
  by (cases xs) (auto split: option.splits)

lemma min_first_in: "min_first k xs = Some x \<Longrightarrow> x \<in> set xs \<and> (\<forall>y \<in> set xs. k x \<le> k y)"
  by (induction xs arbitrary: x) (auto split: option.splits if_splits)

lemma min_first_unique:
  assumes "x \<in> set xs" "\<forall>y \<in> set xs. y \<noteq> x \<longrightarrow> k x < k y"
  shows "min_first k xs = Some x"
proof -
  obtain y where y: "min_first k xs = Some y" using assms(1) by (cases "min_first k xs") auto
  with min_first_in [OF y] assms show ?thesis by force
qed

lemma find_NoneD: "find P xs = None \<Longrightarrow> x \<in> set xs \<Longrightarrow> \<not> P x"
  by (auto simp: find_None_iff)

lemma find_SomeD: "find P xs = Some x \<Longrightarrow> x \<in> set xs \<and> P x"
  by (induction xs) (auto split: if_splits)

lemma select_eligible: "select cs = Some c \<Longrightarrow> c \<in> set cs \<and> eligible c"
  by (auto simp: select_def Let_def split: if_splits option.splits dest!: find_SomeD min_first_in)

lemma select_None: "select cs = None \<longleftrightarrow> (\<forall>c \<in> set cs. \<not> eligible c)"
  by (auto simp: select_def Let_def filter_empty_conv split: option.splits)

text \<open>
  The preference between two eligible candidates that the documentation of \<open>select\<close> states:
  a manual choice, then any rank before none and lower ranks first, then the local node, then
  the node id.
\<close>

definition sel_class :: "candidate \<Rightarrow> nat" where
  "sel_class c = (if c_manually_selected c then 0 else if c_priority_rank c \<noteq> None then 1
                  else if c_is_self c then 2 else 3)"

definition preferred :: "candidate \<Rightarrow> candidate \<Rightarrow> bool" where
  "preferred c d \<longleftrightarrow> sel_class c < sel_class d \<or>
     sel_class c = sel_class d \<and>
       (sel_class c = 1 \<longrightarrow> the (c_priority_rank c) \<le> the (c_priority_rank d)) \<and>
       (sel_class c = 3 \<longrightarrow> c_node_id c \<le> c_node_id d)"

lemma select_preferred:
  assumes s: "select cs = Some c" and d: "d \<in> set cs" "eligible d"
  shows "preferred c d"
proof -
  let ?el = "filter eligible cs" and ?rk = "filter (\<lambda>c. c_priority_rank c \<noteq> None) (filter eligible cs)"
  have d': "d \<in> set ?el" using d by simp
  then have ne: "?el \<noteq> []" by (metis empty_iff empty_set)
  show ?thesis
  proof (cases "find c_manually_selected ?el")
    case (Some m)
    with s ne have "c = m" by (simp add: select_def Let_def)
    with find_SomeD [OF Some] show ?thesis by (auto simp: preferred_def sel_class_def)
  next
    case None
    note man = find_NoneD [OF None]
    show ?thesis
    proof (cases "min_first (the \<circ> c_priority_rank) ?rk")
      case (Some m)
      with s ne None have "c = m" by (simp add: select_def Let_def)
      with min_first_in [OF Some] man [of m] man [OF d'] d' show ?thesis
        by (auto simp: preferred_def sel_class_def)
    next
      case rk: None
      then have nr: "c_priority_rank x = None" if "x \<in> set ?el" for x
        using that by (auto simp: filter_empty_conv)
      show ?thesis
      proof (cases "find c_is_self ?el")
        case (Some m)
        with s ne None rk have "c = m" by (simp add: select_def Let_def)
        with find_SomeD [OF Some] man nr d' show ?thesis by (auto simp: preferred_def sel_class_def)
      next
        case self: None
        with s ne None rk have "min_first c_node_id ?el = Some c" by (simp add: select_def Let_def)
        from min_first_in [OF this] man nr find_NoneD [OF self] d' show ?thesis
          by (auto simp: preferred_def sel_class_def)
      qed
    qed
  qed
qed

text \<open>
  \<open>select\<close> returns nothing exactly when no candidate is eligible; otherwise it returns a
  candidate of the list that advertises the model, is the local node or a pinned peer, and is
  preferred to every other eligible one: a manual choice before a ranked one, a lower rank
  before a higher, a ranked one before the local node, the local node before any other peer,
  and those by their ids.
\<close>
theorem select_best:
  "case select cs of
     None \<Rightarrow> filter eligible cs = []
   | Some c \<Rightarrow> c \<in> set cs \<and> c_advertises_model c \<and> (c_is_self c \<or> c_pinned c) \<and>
       list_all (preferred c) (filter eligible cs)"
proof (cases "select cs")
  case None
  then show ?thesis using select_None [of cs] by (simp add: filter_empty_conv)
next
  case (Some c)
  from select_eligible [OF Some] select_preferred [OF Some] Some show ?thesis
    by (simp add: list_all_iff eligible_def)
qed

text \<open>The preference as one key, and \<open>select\<close> as the search for its first minimum.\<close>

definition sel_key :: "candidate \<Rightarrow> nat \<times> nat \<times> string" where
  "sel_key c = (sel_class c, if sel_class c = 1 then unat (the (c_priority_rank c)) else 0,
     if sel_class c = 3 then c_node_id c else [])"

lemma min_first_filter:
  assumes "x \<in> set xs" "P x" "\<And>x y. x \<in> set xs \<Longrightarrow> y \<in> set xs \<Longrightarrow> P x \<Longrightarrow> \<not> P y \<Longrightarrow> k x < k y"
  shows "min_first k xs = min_first k (filter P xs)"
  using assms
proof (induction xs arbitrary: x)
  case Nil
  then show ?case by simp
next
  case (Cons z xs)
  show ?case
  proof (cases "\<exists>y \<in> set xs. P y")
    case True
    then obtain y where y: "y \<in> set xs" "P y" by blast
    have IH: "min_first k xs = min_first k (filter P xs)"
      by (rule Cons.IH [OF y]) (use Cons.prems(3) in auto)
    show ?thesis
    proof (cases "P z")
      case True
      then show ?thesis by (simp add: IH)
    next
      case False
      obtain m where m: "min_first k (filter P xs) = Some m"
        using y by (cases "min_first k (filter P xs)") (auto simp: filter_empty_conv)
      then have "m \<in> set xs" "P m" using min_first_in [OF m] by auto
      then have "k m < k z" using Cons.prems(3) [of m z] False by simp
      then show ?thesis using False m by (auto simp: IH not_le [symmetric])
    qed
  next
    case False
    then have z: "P z" using Cons.prems(1,2) by auto
    from False have e: "filter P xs = []" by (simp add: filter_empty_conv)
    show ?thesis
    proof (cases "min_first k xs")
      case None
      then show ?thesis using z e by simp
    next
      case (Some m)
      then have "m \<in> set xs" using min_first_in [OF Some] by blast
      then have "k z < k m" using Cons.prems(3) [of z m] False z by auto
      then show ?thesis using Some z e by (simp add: less_imp_le)
    qed
  qed
qed

lemma min_first_same_order:
  assumes "\<And>x y. x \<in> set xs \<Longrightarrow> y \<in> set xs \<Longrightarrow> k x \<le> k y \<longleftrightarrow> k' x \<le> k' y"
  shows "min_first k xs = min_first k' xs"
  using assms
proof (induction xs)
  case Nil
  then show ?case by simp
next
  case (Cons z xs)
  then have IH: "min_first k xs = min_first k' xs" by simp
  show ?case
  proof (cases "min_first k' xs")
    case (Some m)
    then have "m \<in> set xs" using min_first_in [OF Some] by blast
    with Cons.prems [of z m] IH Some show ?thesis by simp
  qed (simp add: IH)
qed

lemma min_first_const: "(\<And>x. x \<in> set xs \<Longrightarrow> k x = a) \<Longrightarrow> xs \<noteq> [] \<Longrightarrow> min_first k xs = Some (hd xs)"
proof (induction xs)
  case (Cons x xs)
  then show ?case by (cases xs) (auto split: option.split dest: min_first_in)
qed simp

lemma find_hd: "find P xs = (if filter P xs = [] then None else Some (hd (filter P xs)))"
  by (induction xs) auto

lemma sel_key_class: "sel_class c < sel_class d \<Longrightarrow> sel_key c < sel_key d"
  by (simp add: sel_key_def less_prod_def')

lemma select_min_first: "select cs = min_first sel_key (filter eligible cs)"
proof -
  let ?el = "filter eligible cs"
  have cls: "sel_class c < 4" for c by (simp add: sel_class_def)
  have first: "min_first sel_key ?el = min_first sel_key (filter (\<lambda>c. sel_class c = n) ?el)"
    if "\<exists>c \<in> set ?el. sel_class c = n" "\<forall>c \<in> set ?el. n \<le> sel_class c" for n
  proof -
    from that(1) obtain c where "c \<in> set ?el" "sel_class c = n" by blast
    then show ?thesis
      by (rule min_first_filter) (use that(2) in \<open>auto intro!: sel_key_class simp: le_less\<close>)
  qed
  consider (none) "?el = []" | (man) "\<exists>c \<in> set ?el. c_manually_selected c"
    | (rank) "\<forall>c \<in> set ?el. \<not> c_manually_selected c" "\<exists>c \<in> set ?el. c_priority_rank c \<noteq> None"
    | (self) "\<forall>c \<in> set ?el. \<not> c_manually_selected c \<and> c_priority_rank c = None" "\<exists>c \<in> set ?el. c_is_self c"
    | (rest) "?el \<noteq> []" "\<forall>c \<in> set ?el. \<not> c_manually_selected c \<and> c_priority_rank c = None \<and> \<not> c_is_self c"
    by blast
  then show ?thesis
  proof cases
    case none
    then show ?thesis by (simp add: select_def)
  next
    case man
    let ?f = "filter c_manually_selected ?el"
    have f: "filter (\<lambda>c. sel_class c = 0) ?el = ?f" by (rule filter_cong) (auto simp: sel_class_def)
    have "?f \<noteq> []" using man unfolding filter_empty_conv by blast
    moreover have "min_first sel_key ?el = min_first sel_key ?f"
      unfolding f [symmetric] using man by (intro first) (auto simp: sel_class_def)
    moreover have "min_first sel_key ?f = Some (hd ?f)"
      using \<open>?f \<noteq> []\<close> by (intro min_first_const) (auto simp: sel_key_def sel_class_def)
    moreover have "?el \<noteq> []" using man unfolding filter_empty_conv by auto
    ultimately show ?thesis by (simp add: select_def Let_def find_hd)
  next
    case rank
    let ?f = "filter (\<lambda>c. c_priority_rank c \<noteq> None) ?el"
    have f: "filter (\<lambda>c. sel_class c = 1) ?el = ?f" using rank(1) by (intro filter_cong) (auto simp: sel_class_def)
    have ne: "?f \<noteq> []" using rank(2) unfolding filter_empty_conv by blast
    have "min_first sel_key ?el = min_first sel_key ?f"
      unfolding f [symmetric] using rank by (intro first) (auto simp: sel_class_def)
    also have "\<dots> = min_first (the \<circ> c_priority_rank) ?f"
      using rank(1) by (intro min_first_same_order)
        (auto simp: sel_key_def sel_class_def word_le_nat_alt)
    finally show ?thesis using rank ne
      by (cases "min_first (the \<circ> c_priority_rank) ?f") (auto simp: select_def Let_def find_hd filter_empty_conv)
  next
    case self
    let ?f = "filter c_is_self ?el"
    have f: "filter (\<lambda>c. sel_class c = 2) ?el = ?f" using self(1) by (intro filter_cong) (auto simp: sel_class_def)
    have ne: "?f \<noteq> []" using self(2) unfolding filter_empty_conv by blast
    have "min_first sel_key ?el = min_first sel_key ?f"
      unfolding f [symmetric] using self by (intro first) (auto simp: sel_class_def)
    also have "\<dots> = Some (hd ?f)"
      using ne self(1) by (intro min_first_const) (auto simp: sel_key_def sel_class_def)
    finally show ?thesis using self ne
      by (auto simp: select_def Let_def find_hd filter_empty_conv)
  next
    case rest
    have "min_first sel_key ?el = min_first c_node_id ?el"
      using rest(2) by (intro min_first_same_order) (auto simp: sel_key_def sel_class_def)
    with rest show ?thesis by (auto simp: select_def Let_def find_hd filter_empty_conv)
  qed
qed

text \<open>
  C18: \<open>select\<close> is the search for the first minimum of one key among the eligible candidates,
  those that advertise the model and are the local node or a pinned peer: the class of the
  candidate (a manual choice, a ranked one, the local node, any other), then the rank, then the
  node id.
\<close>
theorem select_is_first_minimum:
  "select cs = min_first sel_key (filter (\<lambda>c. c_advertises_model c \<and> (c_is_self c \<or> c_pinned c)) cs)"
proof -
  have "eligible = (\<lambda>c. c_advertises_model c \<and> (c_is_self c \<or> c_pinned c))"
    by (simp add: fun_eq_iff eligible_def)
  then show ?thesis by (simp add: select_min_first)
qed

lemma eligible_perm: "mset cs = mset ds \<Longrightarrow> x \<in> set cs \<longleftrightarrow> x \<in> set ds"
  by (metis set_mset_mset)

text \<open>
  The choice depends on the order of the candidates only through ties: when no two
  different eligible candidates are equally preferred, every order of the same candidates
  gives the same choice.
\<close>
theorem select_order_independent:
  assumes "mset cs = mset ds"
    and "\<And>c d. c \<in> set cs \<Longrightarrow> d \<in> set cs \<Longrightarrow> eligible c \<Longrightarrow> eligible d \<Longrightarrow>
           preferred c d \<Longrightarrow> preferred d c \<Longrightarrow> c = d"
  shows "select cs = select ds"
proof (cases "select cs")
  case None
  then have "select ds = None" using eligible_perm [OF assms(1)] by (auto simp: select_None)
  with None show ?thesis by simp
next
  case (Some c)
  from select_eligible [OF Some] have c: "c \<in> set cs" "c \<in> set ds" "eligible c"
    using eligible_perm [OF assms(1), of c] by simp_all
  then have "select ds \<noteq> None" unfolding select_None by blast
  then obtain d where d: "select ds = Some d" by blast
  from select_eligible [OF d] have d': "d \<in> set cs" "d \<in> set ds" "eligible d"
    using eligible_perm [OF assms(1), of d] by simp_all
  have "preferred c d" by (rule select_preferred [OF Some d'(1,3)])
  moreover have "preferred d c" by (rule select_preferred [OF d c(2,3)])
  ultimately have "c = d" by (rule assms(2) [OF c(1) d'(1) c(3) d'(3)])
  with Some d show ?thesis by simp
qed

text \<open>
  Two pinned peers that advertise the model with equal ranks are such a tie: the one that
  comes first is chosen, and the peers come in the order in which the hash map iterates.
\<close>
theorem select_rank_tie:
  assumes "eligible a" "eligible b" "\<not> c_manually_selected a" "\<not> c_manually_selected b"
    and "c_priority_rank a = Some r" "c_priority_rank b = Some r"
  shows "select [a, b] = Some a \<and> select [b, a] = Some b"
  using assms by (simp add: select_def Let_def)

section \<open>Routing\<close>

definition rt_wf :: "routing_table \<Rightarrow> bool" where
  "rt_wf t \<longleftrightarrow> hm_wf (rt_peers t) \<and> hm.all_entries (\<lambda>i p. pe_node_id p = i) (rt_peers t)"

text \<open>What happens to a table: discovery, probes, the local poll and the scheduler.\<close>

inductive rt_reach :: "string \<Rightarrow> routing_table \<Rightarrow> bool" for i where
  new: "rt_reach i (routing_new i)"
| local: "rt_reach i t \<Longrightarrow> rt_reach i (set_local_models ms t)"
| upsert: "rt_reach i t \<Longrightarrow> rt_reach i (upsert_peer p t)"
| remove: "rt_reach i t \<Longrightarrow> rt_reach i (remove_peer n t)"
| meta: "rt_reach i t \<Longrightarrow> rt_reach i (upsert_peer_meta n h port pinned t)"
| models: "rt_reach i t \<Longrightarrow> rt_reach i (set_peer_models n ms t)"
| priority: "rt_reach i t \<Longrightarrow> rt_reach i (set_peer_priority n rank t)"

lemma rt_wf_insert:
  "rt_wf t \<Longrightarrow> pe_node_id p = k \<Longrightarrow> rt_wf (t\<lparr>rt_peers := hm_insert k p (rt_peers t)\<rparr>)"
  by (simp add: rt_wf_def hm.wf_put hm.all_entries_put)

lemma rt_wf_entry: "rt_wf t \<Longrightarrow> hm_get (rt_peers t) k = Some p \<Longrightarrow> pe_node_id p = k"
  by (simp add: rt_wf_def hm.all_entries_def)

lemma rt_reach_wf: "rt_reach i t \<Longrightarrow> rt_wf t \<and> rt_local_id t = i"
proof (induction rule: rt_reach.induct)
  case new
  then show ?case by (simp add: routing_new_def rt_wf_def hm.wf_empty hm.all_entries_empty)
next
  case (local t ms)
  then show ?case by (simp add: set_local_models_def rt_wf_def)
next
  case (upsert t p)
  then show ?case by (simp add: upsert_peer_def rt_wf_insert)
next
  case (remove t n)
  then show ?case by (simp add: remove_peer_def rt_wf_def hm.wf_del hm.all_entries_del)
next
  case (meta t n h port pinned)
  then show ?case by (auto simp: upsert_peer_meta_def intro!: rt_wf_insert dest: rt_wf_entry split: option.split)
next
  case (models t n ms)
  then show ?case by (auto simp: set_peer_models_def intro!: rt_wf_insert dest: rt_wf_entry split: option.split)
next
  case (priority t n rank)
  then show ?case by (auto simp: set_peer_priority_def intro!: rt_wf_insert dest: rt_wf_entry split: option.split)
qed

lemma self_fields [simp]:
  "c_is_self (self_candidate m b t)" "c_node_id (self_candidate m b t) = rt_local_id t"
  "\<not> c_manually_selected (self_candidate m b t)" "c_priority_rank (self_candidate m b t) = None"
  by (simp_all add: self_candidate_def)

lemma candidates_in:
  assumes "rt_wf t"
  shows "c \<in> set (candidates_for (Some m) b t) \<longleftrightarrow>
    c = self_candidate (Some m) b t \<or> (\<exists>i p. hm_get (rt_peers t) i = Some p \<and> c = peer_candidate m p)"
proof -
  have "c \<in> set (candidates_for (Some m) b t) \<longleftrightarrow>
      c = self_candidate (Some m) b t \<or> (\<exists>p. p \<in> set (hm_values (rt_peers t)) \<and> c = peer_candidate m p)"
    by (auto simp: candidates_for_def)
  then show ?thesis using assms by (simp add: rt_wf_def hm.vals_get) blast
qed

text \<open>
  C17: whatever has been done to the routing table, a request with a model is routed only to
  the local node when its engine has the model, or to a peer that is in the table under that
  very id, whose certificate is marked as pinned and that advertises exactly that model name,
  at the address the table holds for it; a request without a model always goes to the local
  node.
\<close>
theorem routing_target:
  assumes "rt_reach i t"
  shows "case select (candidates_for model b t) of
     None \<Rightarrow> model \<noteq> None \<and> the model \<notin> rt_local_models t
   | Some c \<Rightarrow>
       (if c_is_self c then c_node_id c = i \<and> (case model of None \<Rightarrow> True | Some m \<Rightarrow> m \<in> rt_local_models t)
        else \<exists>m p. model = Some m \<and> hm_get (rt_peers t) (c_node_id c) = Some p \<and> pe_pinned p \<and>
               m \<in> pe_models p \<and> c_host c = Some (pe_host p) \<and> c_ingress_port c = Some (pe_ingress_port p))"
proof (cases model)
  case None
  then have "select (candidates_for model b t) = Some (self_candidate None b t)"
    by (simp add: candidates_for_def select_def eligible_def self_candidate_def)
  with rt_reach_wf [OF assms] None show ?thesis by simp
next
  case (Some m)
  note wf = rt_reach_wf [OF assms]
  show ?thesis
  proof (cases "select (candidates_for model b t)")
    case None
    then have "\<not> eligible (self_candidate model b t)"
      by (simp add: select_None candidates_for_def)
    with Some None show ?thesis by (simp add: eligible_def self_candidate_def)
  next
    case sel: (Some c)
    from select_eligible [OF sel] Some candidates_in [of t c m b] wf
    have "eligible c" "c = self_candidate (Some m) b t \<or> (\<exists>i p. hm_get (rt_peers t) i = Some p \<and> c = peer_candidate m p)"
      by auto
    with wf sel Some rt_wf_entry [of t] show ?thesis
      by (auto simp: eligible_def self_candidate_def peer_candidate_def)
  qed
qed

section \<open>Witnesses\<close>

definition demo_peer_entry :: "string \<Rightarrow> string set \<Rightarrow> 32 word option \<Rightarrow> peer_entry" where
  "demo_peer_entry i ms r = \<lparr>pe_node_id = i, pe_host = ''10.0.0.2'', pe_ingress_port = 7443, pe_models = ms,
     pe_pinned = True, pe_priority_rank = r, pe_manually_selected = False\<rparr>"

lemma demo_candidate_fields [simp]:
  "eligible (peer_candidate m (demo_peer_entry i ms r)) \<longleftrightarrow> m \<in> ms"
  "c_priority_rank (peer_candidate m (demo_peer_entry i ms r)) = r"
  "\<not> c_manually_selected (peer_candidate m (demo_peer_entry i ms r))"
  "\<not> c_is_self (peer_candidate m (demo_peer_entry i ms r))"
  "c_node_id (peer_candidate m (demo_peer_entry i ms r)) = i"
  by (simp_all add: eligible_def peer_candidate_def demo_peer_entry_def)

theorem select_rank_tie_witness:
  "let a = peer_candidate ''m'' (demo_peer_entry ''a'' {''m''} (Some 0));
       b = peer_candidate ''m'' (demo_peer_entry ''b'' {''m''} (Some 0))
   in select [a, b] = Some a \<and> select [b, a] = Some b"
  unfolding Let_def by (rule select_rank_tie) simp_all

theorem select_order_independent_witness:
  "let a = peer_candidate ''m'' (demo_peer_entry ''a'' {''m''} (Some 0));
       b = peer_candidate ''m'' (demo_peer_entry ''b'' {''m''} (Some 1))
   in select [a, b] = select [b, a]"
  unfolding Let_def
proof (rule select_order_independent)
  fix c d
  let ?a = "peer_candidate ''m'' (demo_peer_entry ''a'' {''m''} (Some 0))"
  let ?b = "peer_candidate ''m'' (demo_peer_entry ''b'' {''m''} (Some 1))"
  assume "c \<in> set [?a, ?b]" "d \<in> set [?a, ?b]" "preferred c d" "preferred d c"
  then show "c = d" by (auto simp: preferred_def sel_class_def)
qed simp

theorem routing_target_witness:
  "map_option c_host (select (candidates_for (Some ''m'') ''e''
     (upsert_peer (demo_peer_entry ''b'' {''m''} None) (routing_new ''s'')))) = Some (Some ''10.0.0.2'')"
proof -
  let ?t = "upsert_peer (demo_peer_entry ''b'' {''m''} None) (routing_new ''s'')"
  have r: "rt_reach ''s'' ?t" by (intro rt_reach.intros)
  have p: "rt_peers ?t = [(''b'', demo_peer_entry ''b'' {''m''} None)]" "rt_local_models ?t = {}"
    by (simp_all add: upsert_peer_def routing_new_def hm_insert_def demo_peer_entry_def)
  have "select (candidates_for (Some ''m'') ''e'' ?t) \<noteq> None"
    by (simp add: select_None candidates_for_def p hm_values_def)
  then obtain c where c: "select (candidates_for (Some ''m'') ''e'' ?t) = Some c" by blast
  have "hm_get (rt_peers ?t) k = Some q \<Longrightarrow> pe_host q = ''10.0.0.2''" for k q
    unfolding p(1) by (auto simp: hm_get_def demo_peer_entry_def split: if_splits)
  with routing_target [OF r, of "Some ''m''" "''e''"] c p(2) show ?thesis by (auto split: if_splits)
qed

end
