(* ===== verification/Utf8.thy ===== *)
theory Utf8
  imports Prelude
begin

text \<open>
  UTF-8 in Rust's standard library: \<open>String::from_utf8\<close> and \<open>String::from_utf8_lossy\<close>, which
  replaces every maximal invalid piece by U+FFFD. A string is the list of its bytes.
\<close>

definition bytes_str :: "bytes \<Rightarrow> string" where
  "bytes_str bs = map (\<lambda>b. char_of (unat b)) bs"

lemma str_bytes_bytes_str [simp]: "str_bytes (bytes_str bs) = bs"
proof -
  have "unat (b :: byte) mod 256 = unat b" for b using unsigned_less [of b, where 'a = nat] by simp
  then show ?thesis by (simp add: str_bytes_def bytes_str_def comp_def)
qed

lemma bytes_str_str_bytes [simp]: "bytes_str (str_bytes s) = s"
  by (metis str_bytes_bytes_str str_bytes_inject)

lemma length_bytes_str [simp]: "length (bytes_str bs) = length bs"
  by (simp add: bytes_str_def)

lemma bytes_str_append [simp]: "bytes_str (a @ b) = bytes_str a @ bytes_str b"
  by (simp add: bytes_str_def)

lemma bytes_str_Nil_iff [simp]: "bytes_str bs = [] \<longleftrightarrow> bs = []"
  by (simp add: bytes_str_def)

definition cont_byte :: "nat \<Rightarrow> bool" where
  "cont_byte b \<longleftrightarrow> 0x80 \<le> b \<and> b \<le> 0xBF"

text \<open>
  The first character of a byte string: whether it is well formed, and the number of bytes it
  takes (of the invalid piece, when it is not). A byte past the end counts as 0.
\<close>

definition utf8_char :: "nat \<Rightarrow> nat \<Rightarrow> nat \<Rightarrow> nat \<Rightarrow> bool \<times> nat" where
  "utf8_char a b c d =
     (if a < 0x80 then (True, 1)
      else if 0xC2 \<le> a \<and> a \<le> 0xDF then (if cont_byte b then (True, 2) else (False, 1))
      else if 0xE0 \<le> a \<and> a \<le> 0xEF then
        (if \<not> ((if a = 0xE0 then 0xA0 else 0x80) \<le> b \<and> b \<le> (if a = 0xED then 0x9F else 0xBF)) then (False, 1)
         else if cont_byte c then (True, 3) else (False, 2))
      else if 0xF0 \<le> a \<and> a \<le> 0xF4 then
        (if \<not> ((if a = 0xF0 then 0x90 else 0x80) \<le> b \<and> b \<le> (if a = 0xF4 then 0x8F else 0xBF)) then (False, 1)
         else if \<not> cont_byte c then (False, 2)
         else if cont_byte d then (True, 4) else (False, 3))
      else (False, 1))"

fun byte_at :: "bytes \<Rightarrow> nat \<Rightarrow> nat" where
  "byte_at [] i = 0"
| "byte_at (b # bs) 0 = unat b"
| "byte_at (b # bs) (Suc i) = byte_at bs i"

definition utf8_first :: "bytes \<Rightarrow> bool \<times> nat" where
  "utf8_first bs = utf8_char (byte_at bs 0) (byte_at bs 1) (byte_at bs 2) (byte_at bs 3)"

lemma utf8_char_pos: "0 < snd (utf8_char a b c d)"
  by (simp add: utf8_char_def)

lemma utf8_first_pos: "0 < snd (utf8_first bs)"
  unfolding utf8_first_def by (rule utf8_char_pos)

lemma utf8_char_valid:
  assumes "utf8_char a b c d = (True, n)"
  shows "n = 1 \<and> (\<forall>b' c' d'. utf8_char a b' c' d' = (True, 1)) \<or>
    n = 2 \<and> b \<noteq> 0 \<and> (\<forall>c' d'. utf8_char a b c' d' = (True, 2)) \<or>
    n = 3 \<and> b \<noteq> 0 \<and> c \<noteq> 0 \<and> (\<forall>d'. utf8_char a b c d' = (True, 3)) \<or>
    n = 4 \<and> b \<noteq> 0 \<and> c \<noteq> 0 \<and> d \<noteq> 0"
proof -
  consider "a < 0x80" | "0xC2 \<le> a" "a \<le> 0xDF" | "0xE0 \<le> a" "a \<le> 0xEF" | "0xF0 \<le> a" "a \<le> 0xF4"
    using assms by (force simp: utf8_char_def)
  then show ?thesis
  proof cases
    case 1
    then show ?thesis using assms by (simp add: utf8_char_def)
  next
    case 2
    then show ?thesis using assms by (auto simp: utf8_char_def cont_byte_def split: if_splits)
  next
    case 3
    then have "\<not> a < 0x80" "\<not> a \<le> 0xDF" by simp_all
    with 3 show ?thesis using assms by (cases "b = 0"; cases "c = 0") (auto simp: utf8_char_def cont_byte_def split: if_splits)
  next
    case 4
    then have "\<not> a < 0x80" "\<not> a \<le> 0xDF" "\<not> a \<le> 0xEF" by simp_all
    with 4 show ?thesis using assms
      by (cases "b = 0"; cases "c = 0"; cases "d = 0") (auto simp: utf8_char_def cont_byte_def split: if_splits)
  qed
qed

function utf8_lossy :: "bytes \<Rightarrow> bytes" where
  "utf8_lossy bs =
     (if bs = [] then []
      else let (ok, n) = utf8_first bs
           in (if ok then take n bs else [0xEF, 0xBF, 0xBD]) @ utf8_lossy (drop n bs))"
  by pat_completeness auto
termination
proof (relation "measure length")
  fix bs and x and ok n
  assume "bs \<noteq> []" "x = utf8_first bs" "(ok, n) = x"
  then have "n = snd (utf8_first bs)" by (metis snd_conv)
  then have "0 < n" using utf8_first_pos [of bs] by simp
  with \<open>bs \<noteq> []\<close> show "(drop n bs, bs) \<in> measure length" by (cases bs) auto
qed simp

function utf8_valid :: "bytes \<Rightarrow> bool" where
  "utf8_valid bs =
     (if bs = [] then True
      else let (ok, n) = utf8_first bs in ok \<and> utf8_valid (drop n bs))"
  by pat_completeness auto
termination
proof (relation "measure length")
  fix bs and x and ok n
  assume "bs \<noteq> []" "x = utf8_first bs" "(ok, n) = x"
  then have "n = snd (utf8_first bs)" by (metis snd_conv)
  then have "0 < n" using utf8_first_pos [of bs] by simp
  with \<open>bs \<noteq> []\<close> show "(drop n bs, bs) \<in> measure length" by (cases bs) auto
qed simp

declare utf8_lossy.simps [simp del] utf8_valid.simps [simp del]

definition from_utf8 :: "bytes \<Rightarrow> string option" where
  "from_utf8 bs = (if utf8_valid bs then Some (bytes_str bs) else None)"

definition from_utf8_lossy :: "bytes \<Rightarrow> string" where
  "from_utf8_lossy bs = bytes_str (utf8_lossy bs)"

lemma utf8_lossy_step:
  "bs \<noteq> [] \<Longrightarrow> utf8_first bs = (ok, n) \<Longrightarrow>
   utf8_lossy bs = (if ok then take n bs else [0xEF, 0xBF, 0xBD]) @ utf8_lossy (drop n bs)"
  by (subst utf8_lossy.simps) simp

lemma utf8_valid_step:
  "bs \<noteq> [] \<Longrightarrow> utf8_first bs = (ok, n) \<Longrightarrow> utf8_valid bs \<longleftrightarrow> ok \<and> utf8_valid (drop n bs)"
  by (subst utf8_valid.simps) simp

lemma utf8_empty [simp]: "utf8_lossy [] = []" "utf8_valid []"
  by (simp_all add: utf8_lossy.simps utf8_valid.simps)

lemma utf8_lossy_valid: "utf8_valid bs \<Longrightarrow> utf8_lossy bs = bs"
proof (induction bs rule: utf8_lossy.induct)
  case (1 bs)
  show ?case
  proof (cases "bs = []")
    case False
    obtain ok n where f: "utf8_first bs = (ok, n)" by fastforce
    with "1.prems" False have "ok" "utf8_valid (drop n bs)" using utf8_valid_step by blast+
    with "1.IH" [OF False f [symmetric] refl] show ?thesis using utf8_lossy_step [OF False f] by simp
  qed simp
qed

lemma utf8_first_take:
  assumes "utf8_first bs = (True, n)" "bs \<noteq> []"
  shows "n \<le> length bs \<and> utf8_first (take n bs @ r) = (True, n)"
proof -
  obtain x xs where bs: "bs = x # xs" using assms(2) by (cases bs) auto
  from utf8_char_valid [OF assms(1) [unfolded utf8_first_def]] show ?thesis
  proof (elim disjE conjE)
    assume "n = 1" "\<forall>b' c' d'. utf8_char (byte_at bs 0) b' c' d' = (True, 1)"
    then show ?thesis by (simp add: bs utf8_first_def)
  next
    assume n: "n = 2" "byte_at bs 1 \<noteq> 0" "\<forall>c' d'. utf8_char (byte_at bs 0) (byte_at bs 1) c' d' = (True, 2)"
    then obtain y ys where "xs = y # ys" by (cases xs) (simp_all add: bs)
    with n show ?thesis by (simp add: bs utf8_first_def numeral_2_eq_2)
  next
    assume n: "n = 3" "byte_at bs 1 \<noteq> 0" "byte_at bs 2 \<noteq> 0"
      "\<forall>d'. utf8_char (byte_at bs 0) (byte_at bs 1) (byte_at bs 2) d' = (True, 3)"
    then obtain y z zs where "xs = y # z # zs"
      by (cases xs; cases "tl xs") (simp_all add: bs numeral_2_eq_2)
    with n show ?thesis by (simp add: bs utf8_first_def numeral_2_eq_2 numeral_3_eq_3)
  next
    assume n: "n = 4" "byte_at bs 1 \<noteq> 0" "byte_at bs 2 \<noteq> 0" "byte_at bs 3 \<noteq> 0"
    then obtain y z w ws where "xs = y # z # w # ws"
      by (cases xs; cases "tl xs"; cases "tl (tl xs)") (simp_all add: bs numeral_2_eq_2 numeral_3_eq_3)
    with n assms(1) show ?thesis by (simp add: bs utf8_first_def numeral_2_eq_2 numeral_3_eq_3)
  qed
qed

lemma replacement_first: "utf8_first (0xEF # 0xBF # 0xBD # r) = (True, 3)"
proof -
  have "byte_at (0xEF # 0xBF # 0xBD # r) (Suc (Suc 0)) = 0xBD" by simp
  then have "byte_at (0xEF # 0xBF # 0xBD # r) 2 = 0xBD" by (simp only: numeral_2_eq_2)
  then show ?thesis by (simp add: utf8_first_def utf8_char_def cont_byte_def)
qed

text \<open>The replacement always gives a well-formed string, and it is the input exactly when that is one.\<close>

lemma utf8_lossy_is_valid: "utf8_valid (utf8_lossy bs)"
proof (induction bs rule: utf8_lossy.induct)
  case (1 bs)
  show ?case
  proof (cases "bs = []")
    case False
    obtain ok n where f: "utf8_first bs = (ok, n)" by fastforce
    let ?r = "utf8_lossy (drop n bs)"
    have IH: "utf8_valid ?r" using "1.IH" [OF False f [symmetric] refl] .
    show ?thesis
    proof (cases ok)
      case True
      with f have f1: "utf8_first bs = (True, n)" by simp
      note t = utf8_first_take [OF f1 False, of ?r]
      have "0 < n" using utf8_first_pos [of bs] f by simp
      with False have "take n bs @ ?r \<noteq> []" by simp
      from utf8_valid_step [OF this] t IH show ?thesis
        using utf8_lossy_step [OF False f1] by simp
    next
      case False
      have "utf8_valid (0xEF # 0xBF # 0xBD # ?r)"
        using utf8_valid_step [OF _ replacement_first] IH by (simp add: numeral_3_eq_3)
      then show ?thesis using utf8_lossy_step [OF \<open>bs \<noteq> []\<close> f] False by simp
    qed
  qed simp
qed

lemma utf8_lossy_same_iff: "utf8_lossy bs = bs \<longleftrightarrow> utf8_valid bs"
  using utf8_lossy_valid utf8_lossy_is_valid by metis

lemma from_utf8_lossy_eq: "utf8_valid bs \<Longrightarrow> str_bytes (from_utf8_lossy bs) = bs"
  by (simp add: from_utf8_lossy_def utf8_lossy_valid)

lemma utf8_lossy_idem [simp]: "utf8_lossy (utf8_lossy bs) = utf8_lossy bs"
  by (simp add: utf8_lossy_valid utf8_lossy_is_valid)

lemma utf8_valid_ascii: "\<forall>b \<in> set bs. unat b < 128 \<Longrightarrow> utf8_valid bs"
proof (induction bs)
  case Nil
  then show ?case by simp
next
  case (Cons b bs)
  then have "utf8_first (b # bs) = (True, 1)" by (simp add: utf8_first_def utf8_char_def)
  with Cons show ?case by (subst utf8_valid_step [where ok = True and n = 1]) simp_all
qed

end
