(* ===== verification/Json_Value.thy ===== *)
theory Json_Value
  imports Prelude
begin

text \<open>
  JSON values as \<open>serde_json::Value\<close> holds them, with the accessors the program uses: the proxy,
  the dashboard and the inventory tools read JSON through these.
\<close>

text \<open>\<open>serde_json::Value\<close>; a number by its text. The parser leaves one entry per key.\<close>

datatype jval = JNull | JBool bool | JNum string | JStr string | JArr "jval list" | JObj "(string \<times> jval) list"

fun jget :: "string \<Rightarrow> jval \<Rightarrow> jval option" where
  "jget k (JObj kvs) = map_of kvs k"
| "jget k _ = None"

fun j_str :: "jval \<Rightarrow> string option" where
  "j_str (JStr s) = Some s"
| "j_str _ = None"

fun j_arr :: "jval \<Rightarrow> jval list option" where
  "j_arr (JArr vs) = Some vs"
| "j_arr _ = None"

text \<open>
  \<open>as_u64\<close>: only a number without sign, fraction and exponent that fits in 64 bits; a number is
  written the way it is printed, so any other one has one of those.
\<close>

fun j_u64 :: "jval \<Rightarrow> nat option" where
  "j_u64 (JNum s) = (if list_all is_digit s then parse_uint (2 ^ 64 - 1) s else None)"
| "j_u64 _ = None"

lemma j_u64_nat_str: "n < 2 ^ 64 \<Longrightarrow> j_u64 (JNum (nat_str n)) = Some n"
  using nat_str_digits [of n] by (simp add: list_all_iff parse_uint_nat_str)

lemma j_u64_less: "j_u64 v = Some n \<Longrightarrow> n < 2 ^ 64"
  by (cases v) (auto split: if_splits dest!: parse_uint_le)

end
