(* ===== verification/Proxy.thy ===== *)
theory Proxy
  imports Router Trust Utf8 Json_Value Demo_Json
begin

text \<open>
  The data plane of the proxy: model extraction (model.rs), the ingress envelope (ingress.rs),
  the probes of \<open>/api/tags\<close> (tags.rs), the routing of a request (live.rs), the forwarding to a
  peer (peer.rs), the receiver of a peer's requests (ingress\_server.rs) and the local reverse
  proxy (server.rs), all of crates/pair-proxy. Sockets and HTTP are functions on a state of the
  world; serde\_json is a record of functions.
\<close>

section \<open>The ingress envelope\<close>

record ingress_envelope =
  ig_host :: "string option"
  ig_port :: "16 word option"
  ig_path :: "string option"
  ig_method :: "string option"
  ig_name :: "string option"
  ig_data :: "string option"
  ig_txt :: "string option"
  ig_code :: "16 word option"

definition default_ingress :: ingress_envelope where
  "default_ingress = \<lparr>ig_host = None, ig_port = None, ig_path = None, ig_method = None, ig_name = None,
     ig_data = None, ig_txt = None, ig_code = None\<rparr>"

record proxy_json =
  pj_value :: "bytes \<Rightarrow> jval option"
  pj_to :: "ingress_envelope \<Rightarrow> bytes option"
  pj_of :: "bytes \<Rightarrow> string + ingress_envelope"
  pj_status :: "nat \<Rightarrow> string" \<comment> \<open>the \<open>Display\<close> of a status code\<close>

definition proxy_json_ok :: "proxy_json \<Rightarrow> bool" where
  "proxy_json_ok J \<longleftrightarrow> (\<forall>e. \<exists>b. pj_to J e = Some b \<and> pj_of J b = Inr e)"

section \<open>Models\<close>

definition extract_model :: "proxy_json \<Rightarrow> bytes \<Rightarrow> string option" where
  "extract_model J body =
     Option.bind (pj_value J body) (\<lambda>v. Option.bind (jget ''model'' v) j_str)"

definition normalize_model_key :: "string \<Rightarrow> string" where
  "normalize_model_key m = (case strip_suffix '':latest'' m of Some s \<Rightarrow> s | None \<Rightarrow> m)"

definition parse_ollama_tags :: "proxy_json \<Rightarrow> bytes \<Rightarrow> string list" where
  "parse_ollama_tags J body =
     (case pj_value J body of
        None \<Rightarrow> []
      | Some v \<Rightarrow>
          (case Option.bind (jget ''models'' v) j_arr of
             None \<Rightarrow> []
           | Some arr \<Rightarrow> List.map_filter (\<lambda>m. Option.bind (jget ''name'' m) j_str) arr))"

section \<open>Forwarding\<close>

text \<open>
  An engine answers a method, path and body (\<open>forward_raw\<close>); a link carries the body of a POST
  to \<open>/ingress\<close> of a host and port over mutual TLS.
\<close>

type_synonym 'w engine = "string \<Rightarrow> string \<Rightarrow> string \<Rightarrow> bytes \<Rightarrow> 'w \<Rightarrow> 'w \<times> (string + nat \<times> bytes)"
type_synonym 'w link = "string \<Rightarrow> 16 word \<Rightarrow> bytes \<Rightarrow> 'w \<Rightarrow> 'w \<times> (string + nat \<times> bytes)"

definition forward_to_peer ::
  "proxy_json \<Rightarrow> 'w link \<Rightarrow> string \<Rightarrow> 16 word \<Rightarrow> ingress_envelope \<Rightarrow> 'w \<Rightarrow> 'w \<times> (string + ingress_envelope)" where
  "forward_to_peer J L host port env w =
     (case pj_to J env of
        None \<Rightarrow> (w, Inl ''encode'')
      | Some body \<Rightarrow>
          (case L host port body w of
             (w1, Inl e) \<Rightarrow> (w1, Inl e)
           | (w1, Inr (status, b)) \<Rightarrow>
               if \<not> (200 \<le> status \<and> status < 300)
               then (w1, Inl (''peer /ingress returned '' @ pj_status J status))
               else (w1, pj_of J b)))"

definition fetch_local_models ::
  "proxy_json \<Rightarrow> 'w engine \<Rightarrow> string \<Rightarrow> 'w \<Rightarrow> 'w \<times> (string + string list)" where
  "fetch_local_models J G backend w =
     (case G backend ''GET'' ''/api/tags'' [] w of
        (w1, Inl e) \<Rightarrow> (w1, Inl e)
      | (w1, Inr (code, body)) \<Rightarrow>
          if code \<noteq> 200 then (w1, Inl (''local /api/tags returned '' @ nat_str code))
          else (w1, Inr (parse_ollama_tags J body)))"

definition fetch_peer_models ::
  "proxy_json \<Rightarrow> 'w link \<Rightarrow> string \<Rightarrow> 16 word \<Rightarrow> 'w \<Rightarrow> 'w \<times> (string + string list)" where
  "fetch_peer_models J L host port w =
     (case forward_to_peer J L host port
             (default_ingress\<lparr>ig_method := Some ''GET'', ig_path := Some ''/api/tags''\<rparr>) w of
        (w1, Inl e) \<Rightarrow> (w1, Inl e)
      | (w1, Inr resp) \<Rightarrow>
          (w1, Inr (parse_ollama_tags J (str_bytes (case ig_data resp of Some d \<Rightarrow> d | None \<Rightarrow> [])))))"

section \<open>Routing a request\<close>

text \<open>A request by its method, its path without the query, and its body (an error when reading fails).\<close>

record proxy_request =
  pr_method :: string
  pr_path :: string
  pr_body :: "string + bytes"

text \<open>\<open>Response::builder\<close> refuses a status outside 100 to 999.\<close>

definition build_response :: "nat \<Rightarrow> bytes \<Rightarrow> string + nat \<times> bytes" where
  "build_response code b = (if 100 \<le> code \<and> code < 1000 then Inr (code, b) else Inl ''invalid status code'')"

definition route_inner ::
  "proxy_json \<Rightarrow> 'w engine \<Rightarrow> 'w link \<Rightarrow> string \<Rightarrow> routing_table \<Rightarrow> proxy_request \<Rightarrow> 'w \<Rightarrow>
     'w \<times> (string + nat \<times> bytes)" where
  "route_inner J G L backend t req w =
     (case pr_body req of
        Inl e \<Rightarrow> (w, Inl e)
      | Inr body \<Rightarrow>
          (let model = extract_model J body
           in (case select (candidates_for model backend t) of
                 None \<Rightarrow> (w, Inr (503, str_bytes ''no node can serve this model''))
               | Some c \<Rightarrow>
                   if c_is_self c
                   then (case G backend (pr_method req) (pr_path req) body w of
                           (w1, Inl e) \<Rightarrow> (w1, Inl e)
                         | (w1, Inr (code, b)) \<Rightarrow> (w1, build_response code b))
                   else
                     (case forward_to_peer J L (case c_host c of Some h \<Rightarrow> h | None \<Rightarrow> [])
                             (case c_ingress_port c of Some p \<Rightarrow> p | None \<Rightarrow> 0)
                             (default_ingress\<lparr>ig_path := Some (pr_path req),
                                ig_data := Some (from_utf8_lossy body), ig_name := model\<rparr>) w of
                        (w1, Inl e) \<Rightarrow> (w1, Inl e)
                      | (w1, Inr resp) \<Rightarrow>
                          (w1, build_response (case ig_code resp of Some k \<Rightarrow> unat k | None \<Rightarrow> 502)
                                 (str_bytes (case ig_data resp of Some d \<Rightarrow> d | None \<Rightarrow> [])))))))"

definition route ::
  "proxy_json \<Rightarrow> 'w engine \<Rightarrow> 'w link \<Rightarrow> string \<Rightarrow> routing_table \<Rightarrow> proxy_request \<Rightarrow> 'w \<Rightarrow> 'w \<times> nat \<times> bytes" where
  "route J G L backend t req w =
     (case route_inner J G L backend t req w of
        (w1, Inr r) \<Rightarrow> (w1, r)
      | (w1, Inl e) \<Rightarrow> (w1, 502, str_bytes (''openpair-proxy: '' @ e)))"

section \<open>The receiver of a peer's requests\<close>

definition INGRESS :: string where "INGRESS = ''/ingress''"

definition ingress_reply :: "string + nat \<times> bytes \<Rightarrow> ingress_envelope" where
  "ingress_reply r =
     (case r of
        Inr (code, out) \<Rightarrow>
          default_ingress\<lparr>ig_code := Some (word_of_nat code), ig_data := Some (from_utf8_lossy out), ig_txt := Some ''ok''\<rparr>
      | Inl e \<Rightarrow> default_ingress\<lparr>ig_code := Some 502, ig_txt := Some e\<rparr>)"

definition ingress_handle ::
  "proxy_json \<Rightarrow> 'w engine \<Rightarrow> string \<Rightarrow> string \<Rightarrow> bytes option \<Rightarrow> 'w \<Rightarrow> 'w \<times> nat \<times> bytes" where
  "ingress_handle J G backend path body w =
     (if path \<noteq> INGRESS then (w, 404, [])
      else (case body of
              None \<Rightarrow> (w, 400, [])
            | Some b \<Rightarrow>
                (case pj_of J b of
                   Inl _ \<Rightarrow> (w, 400, [])
                 | Inr env \<Rightarrow>
                     (let (w1, r) = G backend (case ig_method env of Some m \<Rightarrow> m | None \<Rightarrow> ''POST'')
                            (case ig_path env of Some p \<Rightarrow> p | None \<Rightarrow> ''/'')
                            (str_bytes (case ig_data env of Some d \<Rightarrow> d | None \<Rightarrow> [])) w
                      in (w1, 200, case pj_to J (ingress_reply r) of Some o1 \<Rightarrow> o1 | None \<Rightarrow> [])))))"

section \<open>The local reverse proxy\<close>

record http_request =
  hr_method :: string
  hr_uri :: string
  hr_headers :: "(string \<times> bytes) list"
  hr_body :: "string + bytes"

record http_response =
  hs_status :: nat
  hs_headers :: "(string \<times> bytes) list"
  hs_body :: "string + bytes"

text \<open>Header names are lower case; \<open>send\<close> is the exchange with the backend.\<close>

definition forward_local ::
  "(string \<Rightarrow> http_request \<Rightarrow> 'w \<Rightarrow> 'w \<times> (string + http_response)) \<Rightarrow> string \<Rightarrow> http_request \<Rightarrow> 'w \<Rightarrow>
     'w \<times> (string + http_response)" where
  "forward_local send backend req w =
     (case hr_body req of
        Inl e \<Rightarrow> (w, Inl e)
      | Inr body \<Rightarrow>
          (case send backend
                 (req\<lparr>hr_headers := filter (\<lambda>h. fst h \<noteq> ''host'') (hr_headers req)\<rparr>) w of
             (w1, Inl e) \<Rightarrow> (w1, Inl e)
           | (w1, Inr resp) \<Rightarrow>
               (case hs_body resp of
                  Inl e \<Rightarrow> (w1, Inl e)
                | Inr b \<Rightarrow> (w1, Inr resp))))"

definition local_handle ::
  "(string \<Rightarrow> http_request \<Rightarrow> 'w \<Rightarrow> 'w \<times> (string + http_response)) \<Rightarrow> string \<Rightarrow> http_request \<Rightarrow> 'w \<Rightarrow>
     'w \<times> http_response" where
  "local_handle send backend req w =
     (case forward_local send backend req w of
        (w1, Inr resp) \<Rightarrow> (w1, resp)
      | (w1, Inl e) \<Rightarrow>
          (w1, \<lparr>hs_status = 502, hs_headers = [], hs_body = Inr (str_bytes (''openpair-proxy: '' @ e))\<rparr>))"

section \<open>A request that a peer serves\<close>

text \<open>
  The link of two nodes: each side checks the certificate of the other against its own pins
  before anything is sent, and the receiver is the peer's ingress handler.
\<close>

definition mtls_link ::
  "proxy_json \<Rightarrow> 'w engine \<Rightarrow> string \<Rightarrow> pin_store \<Rightarrow> bytes \<Rightarrow> pin_store \<Rightarrow> bytes \<Rightarrow> string \<Rightarrow> 16 word \<Rightarrow> 'w link" where
  "mtls_link J G backend my_pins my_cert peer_pins peer_cert peer_host peer_port host port body w =
     (if (host, port) \<noteq> (peer_host, peer_port) then (w, Inl ''connection refused'')
      else if verify_server_cert (Some my_pins) peer_cert [] host [] 0 \<noteq> Inr () then (w, Inl ''server refused'')
      else if verify_client_cert (Some peer_pins) my_cert [] 0 \<noteq> Inr () then (w, Inl ''client refused'')
      else (case ingress_handle J G backend INGRESS (Some body) w of (w1, r) \<Rightarrow> (w1, Inr r)))"

lemma mtls_link_delivers:
  assumes "proxy_json_ok J" "is_pinned my_pins peer_cert" "is_pinned peer_pins my_cert" "pj_to J env = Some b"
    and "pj_of J b = Inr env"
  shows "mtls_link J G backend my_pins my_cert peer_pins peer_cert h p h p b w =
    (case ingress_handle J G backend INGRESS (Some b) w of (w1, r) \<Rightarrow> (w1, Inr r))"
  using assms by (simp add: mtls_link_def verify_server_cert_def verify_client_cert_def accept_cert_def)

lemma mtls_link_refuses:
  assumes "\<not> (is_pinned my_pins peer_cert \<and> is_pinned peer_pins my_cert)"
  shows "\<exists>e. mtls_link J G backend my_pins my_cert peer_pins peer_cert h p host port b w = (w, Inl e)"
  using assms by (auto simp: mtls_link_def verify_server_cert_def verify_client_cert_def accept_cert_def)

lemma forward_over_mtls:
  assumes "proxy_json_ok J" "is_pinned my_pins peer_cert" "is_pinned peer_pins my_cert"
    and "G backend (case ig_method env of Some m \<Rightarrow> m | None \<Rightarrow> ''POST'') (case ig_path env of Some p \<Rightarrow> p | None \<Rightarrow> ''/'')
           (str_bytes (case ig_data env of Some d \<Rightarrow> d | None \<Rightarrow> [])) w = (w1, r)"
  shows "forward_to_peer J (mtls_link J G backend my_pins my_cert peer_pins peer_cert h p) h p env w =
    (w1, Inr (ingress_reply r))"
proof -
  obtain b where b: "pj_to J env = Some b" "pj_of J b = Inr env"
    using assms(1) by (auto simp: proxy_json_ok_def)
  obtain c where c: "pj_to J (ingress_reply r) = Some c" "pj_of J c = Inr (ingress_reply r)"
    using assms(1) by (auto simp: proxy_json_ok_def)
  have "ingress_handle J G backend INGRESS (Some b) w = (w1, 200, c)"
    using b assms(4) c(1) by (simp add: ingress_handle_def)
  with mtls_link_delivers [OF assms(1-3) b, of G backend h p w] b c show ?thesis
    by (simp add: forward_to_peer_def)
qed

lemma route_over_mtls:
  assumes "proxy_json_ok J" "is_pinned my_pins peer_cert" "is_pinned peer_pins my_cert"
    and "pr_body req = Inr body" "select (candidates_for (extract_model J body) backend t) = Some c"
    and "\<not> c_is_self c" "c_host c = Some h" "c_ingress_port c = Some p"
    and "G peer_backend ''POST'' (pr_path req) (utf8_lossy body) w = (w1, r)"
    and "case r of Inr (code, out) \<Rightarrow> 100 \<le> code \<and> code < 1000 | Inl e \<Rightarrow> True"
  shows "route J G0 (mtls_link J G peer_backend my_pins my_cert peer_pins peer_cert h p) backend t req w =
    (w1, case r of Inr (code, out) \<Rightarrow> (code, utf8_lossy out) | Inl e \<Rightarrow> (502, []))"
proof -
  let ?env = "default_ingress\<lparr>ig_path := Some (pr_path req), ig_data := Some (from_utf8_lossy body),
      ig_name := extract_model J body\<rparr>"
  have fw: "forward_to_peer J (mtls_link J G peer_backend my_pins my_cert peer_pins peer_cert h p) h p ?env w =
      (w1, Inr (ingress_reply r))"
    by (rule forward_over_mtls [OF assms(1-3)]) (use assms(9) in \<open>simp add: default_ingress_def from_utf8_lossy_def\<close>)
  show ?thesis
  proof (cases r)
    case (Inl e)
    with fw assms show ?thesis
      by (simp add: route_def route_inner_def Let_def build_response_def ingress_reply_def default_ingress_def)
  next
    case (Inr co)
    obtain code out where co: "co = (code, out)" by fastforce
    with Inr assms(10) have k: "100 \<le> code" "code < 1000" by auto
    then have "unat (word_of_nat code :: 16 word) = code" by (simp add: unat_of_nat)
    with Inr co fw k assms show ?thesis
      by (simp add: route_def route_inner_def Let_def build_response_def ingress_reply_def default_ingress_def from_utf8_lossy_def)
  qed
qed

text \<open>
  C7: a request that the table sends to a peer reaches that peer's engine: when each node has
  pinned the certificate of the other, the engine of the peer gets the path and the body as a
  POST, whatever the method was, and the client gets the engine's status and body, both bodies
  with their invalid UTF-8 replaced; an engine that cannot be reached gives 502 and no body.
\<close>
theorem peer_serves_request:
  assumes "proxy_json_ok J" "is_pinned my_pins peer_cert" "is_pinned peer_pins my_cert"
    and "pr_body req = Inr body" "select (candidates_for (extract_model J body) backend t) = Some c"
    and "\<not> c_is_self c" "c_host c = Some h" "c_ingress_port c = Some p"
    and "G peer_backend ''POST'' (pr_path req) (utf8_lossy body) w = (w1, r)"
    and "case r of Inr (code, out) \<Rightarrow> 100 \<le> code \<and> code < 1000 | Inl e \<Rightarrow> True"
  shows "route J G0 (mtls_link J G peer_backend my_pins my_cert peer_pins peer_cert h p) backend t req w =
    (w1, case r of Inr (code, out) \<Rightarrow> (code, utf8_lossy out) | Inl e \<Rightarrow> (502, []))"
  using assms by (rule route_over_mtls)

lemma route_unpinned:
  assumes "\<not> (is_pinned my_pins peer_cert \<and> is_pinned peer_pins my_cert)" "proxy_json_ok J"
    and "pr_body req = Inr body" "select (candidates_for (extract_model J body) backend t) = Some c"
    and "\<not> c_is_self c"
  shows "\<exists>txt. route J G0 (mtls_link J G peer_backend my_pins my_cert peer_pins peer_cert h p) backend t req w =
    (w, 502, txt)"
proof -
  let ?L = "mtls_link J G peer_backend my_pins my_cert peer_pins peer_cert h p"
  have refuse: "\<exists>e. forward_to_peer J ?L host port env w = (w, Inl e)" for host port env
  proof -
    obtain b where b: "pj_to J env = Some b" using assms(2) by (auto simp: proxy_json_ok_def)
    obtain e where "?L host port b w = (w, Inl e)"
      using mtls_link_refuses [OF assms(1), of J G peer_backend h p host port b w] by blast
    with b show ?thesis by (simp add: forward_to_peer_def)
  qed
  obtain e where "forward_to_peer J ?L (case c_host c of Some h \<Rightarrow> h | None \<Rightarrow> []) (case c_ingress_port c of Some p \<Rightarrow> p | None \<Rightarrow> 0)
      (default_ingress\<lparr>ig_path := Some (pr_path req), ig_data := Some (from_utf8_lossy body), ig_name := extract_model J body\<rparr>) w =
      (w, Inl e)"
    using refuse by blast
  then show ?thesis using assms(3-5) by (simp add: route_def route_inner_def Let_def)
qed


text \<open>
  Nothing leaves this node without mutual trust: when either node has not pinned the
  other's certificate, the request is answered with 502 and the peer's engine is not called.
\<close>
theorem unpinned_peer_gets_nothing:
  assumes "\<not> (is_pinned my_pins peer_cert \<and> is_pinned peer_pins my_cert)" "proxy_json_ok J"
    and "pr_body req = Inr body" "select (candidates_for (extract_model J body) backend t) = Some c"
    and "\<not> c_is_self c"
  shows "\<exists>txt. route J G0 (mtls_link J G peer_backend my_pins my_cert peer_pins peer_cert h p) backend t req w =
    (w, 502, txt)"
  by (rule route_unpinned [OF assms])
section \<open>Witnesses\<close>

definition demo_ingress_to :: "ingress_envelope \<Rightarrow> bytes option" where
  "demo_ingress_to e = Some (str_bytes (enc_os
     [ig_host e, map_option (\<lambda>p. nat_str (unat p)) (ig_port e), ig_path e, ig_method e, ig_name e,
      ig_data e, ig_txt e, map_option (\<lambda>p. nat_str (unat p)) (ig_code e)]))"

fun demo_word :: "string option \<Rightarrow> 16 word option" where
  "demo_word None = None"
| "demo_word (Some s) = map_option word_of_nat (dec_val 0 s)"

definition demo_ingress_of :: "bytes \<Rightarrow> string + ingress_envelope" where
  "demo_ingress_of b =
     (case dec_os 8 (bytes_str b) of
        Some [h, p, pa, m, n, d, t, c] \<Rightarrow>
          Inr \<lparr>ig_host = h, ig_port = demo_word p, ig_path = pa, ig_method = m, ig_name = n, ig_data = d,
               ig_txt = t, ig_code = demo_word c\<rparr>
      | _ \<Rightarrow> Inl ''shape'')"

lemma demo_word_nat_str [simp]: "demo_word (map_option (\<lambda>p. nat_str (unat p)) x) = x"
  by (cases x) (simp_all add: dec_val_nat_str)

lemma demo_ingress_roundtrip: "\<exists>b. demo_ingress_to e = Some b \<and> demo_ingress_of b = Inr e"
proof -
  have "dec_os 8 (enc_os [a1, a2, a3, a4, a5, a6, a7, a8]) = Some [a1, a2, a3, a4, a5, a6, a7, a8]"
    for a1 a2 a3 a4 a5 a6 a7 a8
    using dec_enc_os [of "[a1, a2, a3, a4, a5, a6, a7, a8]"]
    by (simp only: list.size One_nat_def) (simp add: numeral_eq_Suc)
  then show ?thesis by (simp add: demo_ingress_of_def demo_ingress_to_def)
qed

text \<open>The body of a request of the witnesses is the name of its model.\<close>

definition demo_pj :: proxy_json where
  "demo_pj = \<lparr>pj_value = (\<lambda>b. Some (JObj [(''model'', JStr (bytes_str b))])), pj_to = demo_ingress_to,
     pj_of = demo_ingress_of, pj_status = nat_str\<rparr>"

lemma demo_pj_ok: "proxy_json_ok demo_pj"
  using demo_ingress_roundtrip by (simp add: proxy_json_ok_def demo_pj_def)

lemma demo_pj_model: "extract_model demo_pj (str_bytes s) = Some s"
  by (simp add: extract_model_def demo_pj_def)

definition demo_pin :: "bytes \<Rightarrow> pin_store" where
  "demo_pin d = [(''u'', \<lparr>pp_uuid = ''u'', pp_cert = d, pp_fingerprint = []\<rparr>)]"

lemma demo_pin_is [simp]: "is_pinned (demo_pin d) e \<longleftrightarrow> d = e"
  by (simp add: is_pinned_def demo_pin_def hm_values_def)

text \<open>An engine that records the requests it gets and answers 200 with the body.\<close>

definition demo_engine :: "(string \<times> string \<times> bytes) list engine" where
  "demo_engine backend meth path body w = (w @ [(meth, path, body)], Inr (200, body))"

definition demo_table :: routing_table where
  "demo_table = upsert_peer (demo_peer_entry ''b'' {''m''} None) (routing_new ''s'')"

definition demo_peer_cand :: candidate where
  "demo_peer_cand = peer_candidate ''m'' (demo_peer_entry ''b'' {''m''} None)"

lemma demo_select: "select (candidates_for (Some ''m'') e demo_table) = Some demo_peer_cand"
proof -
  have "candidates_for (Some ''m'') e demo_table = [self_candidate (Some ''m'') e demo_table, demo_peer_cand]"
    by (simp add: candidates_for_def demo_table_def demo_peer_cand_def upsert_peer_def routing_new_def
        hm_insert_def demo_peer_entry_def hm_values_def)
  moreover have "\<not> eligible (self_candidate (Some ''m'') e demo_table)"
    by (simp add: eligible_def self_candidate_def demo_table_def upsert_peer_def routing_new_def)
  moreover have "eligible demo_peer_cand" "c_priority_rank demo_peer_cand = None"
    "\<not> c_manually_selected demo_peer_cand" "\<not> c_is_self demo_peer_cand"
    by (simp_all add: demo_peer_cand_def)
  ultimately show ?thesis by (simp add: select_def)
qed

lemma demo_peer_cand_fields [simp]:
  "\<not> c_is_self demo_peer_cand" "c_host demo_peer_cand = Some ''10.0.0.2''" "c_ingress_port demo_peer_cand = Some 7443"
  by (simp_all add: demo_peer_cand_def peer_candidate_def demo_peer_entry_def)

definition demo_req :: proxy_request where
  "demo_req = \<lparr>pr_method = ''GET'', pr_path = ''/api/show'', pr_body = Inr (str_bytes ''m'')\<rparr>"

theorem peer_serves_request_witness:
  "route demo_pj demo_engine
     (mtls_link demo_pj demo_engine ''pb'' (demo_pin [2]) [1] (demo_pin [1]) [2] ''10.0.0.2'' 7443)
     ''e'' demo_table demo_req [] =
   ([(''POST'', ''/api/show'', utf8_lossy (str_bytes ''m''))], 200, utf8_lossy (str_bytes ''m''))"
proof -
  have s: "select (candidates_for (extract_model demo_pj (str_bytes ''m'')) ''e'' demo_table) = Some demo_peer_cand"
    by (simp only: demo_pj_model demo_select)
  show ?thesis
    by (rule trans, rule peer_serves_request [OF demo_pj_ok _ _ _ s, where r = "Inr (200, utf8_lossy (str_bytes ''m''))"])
      (simp_all add: demo_req_def demo_engine_def)
qed

theorem unpinned_peer_gets_nothing_witness:
  "fst (route demo_pj demo_engine
     (mtls_link demo_pj demo_engine ''pb'' (demo_pin [2]) [1] (demo_pin [9]) [2] ''10.0.0.2'' 7443)
     ''e'' demo_table demo_req []) = []"
proof -
  have s: "select (candidates_for (extract_model demo_pj (str_bytes ''m'')) ''e'' demo_table) = Some demo_peer_cand"
    by (simp only: demo_pj_model demo_select)
  have n: "\<not> (is_pinned (demo_pin [2]) [2] \<and> is_pinned (demo_pin [9]) [1])" by simp
  have b: "pr_body demo_req = Inr (str_bytes ''m'')" by (simp add: demo_req_def)
  from unpinned_peer_gets_nothing [OF n demo_pj_ok b s demo_peer_cand_fields(1)] show ?thesis by (metis fst_conv)
qed

end
