(* ===== verification/Ui.thy ===== *)
theory Ui
  imports Http Sink Proxy
begin

text \<open>
  The dashboard and its control API (crates/pair-ui/src/lib.rs): the routes, adding a
  certificate, pairing two nodes by exchanging certificates over plain HTTP, and the two
  controls of the EAP-NOOB pairing. The state is that of the daemon: the state of the world
  and the routing table, and the pairing node, whose trust holds the pins that all parts share.
\<close>

type_synonym ('w, 'f) dstate = "('w \<times> routing_table) \<times> 'f trust_state node"

definition ds_pins :: "('w, 'f) dstate \<Rightarrow> pin_store" where
  "ds_pins st = ts_pins (nd_trust (snd st))"

definition ds_set_pins :: "pin_store \<Rightarrow> ('w, 'f) dstate \<Rightarrow> ('w, 'f) dstate" where
  "ds_set_pins pins st = (fst st, (snd st)\<lparr>nd_trust := (nd_trust (snd st))\<lparr>ts_pins := pins\<rparr>\<rparr>)"

definition ds_routing :: "('w, 'f) dstate \<Rightarrow> routing_table" where
  "ds_routing st = snd (fst st)"

definition ds_map_routing :: "(routing_table \<Rightarrow> routing_table) \<Rightarrow> ('w, 'f) dstate \<Rightarrow> ('w, 'f) dstate" where
  "ds_map_routing g st = ((fst (fst st), g (snd (fst st))), snd st)"

lemma ds_simps [simp]:
  "ds_pins (ds_set_pins p st) = p" "ds_pins (ds_map_routing g st) = ds_pins st"
  "ds_routing (ds_set_pins p st) = ds_routing st" "ds_routing (ds_map_routing g st) = g (ds_routing st)"
  "fst (fst (ds_set_pins p st)) = fst (fst st)" "fst (fst (ds_map_routing g st)) = fst (fst st)"
  by (simp_all add: ds_pins_def ds_set_pins_def ds_routing_def ds_map_routing_def)

section \<open>The context, JSON and HTTP\<close>

record ui_context =
  ui_node_id :: string
  ui_identity :: identity
  ui_ingress_port :: "16 word"

text \<open>
  serde\_json, the page, the telemetry of the host (CPU, memory and GPUs as JSON), and the text
  of the errors of the pairing drivers.
\<close>

record ui_env =
  ue_of :: "bytes \<Rightarrow> string + jval"
  ue_to :: "jval \<Rightarrow> bytes option"
  ue_index :: string
  ue_cpu :: jval
  ue_memory :: jval
  ue_gpus :: jval
  ue_err :: "drive_error \<Rightarrow> string"

record ui_resp =
  ur_status :: nat
  ur_type :: string
  ur_body :: bytes

definition ui_html :: "string \<Rightarrow> ui_resp" where
  "ui_html s = \<lparr>ur_status = 200, ur_type = ''text/html; charset=utf-8'', ur_body = str_bytes s\<rparr>"

definition ui_text :: "string \<Rightarrow> ui_resp" where
  "ui_text s = \<lparr>ur_status = 200, ur_type = ''text/plain; charset=utf-8'', ur_body = str_bytes s\<rparr>"

definition ui_json_ok :: "ui_env \<Rightarrow> jval \<Rightarrow> ui_resp" where
  "ui_json_ok U v = \<lparr>ur_status = 200, ur_type = ''application/json'',
     ur_body = (case ue_to U v of Some b \<Rightarrow> b | None \<Rightarrow> [])\<rparr>"

definition not_found :: ui_resp where
  "not_found = \<lparr>ur_status = 404, ur_type = [], ur_body = str_bytes ''not found''\<rparr>"

text \<open>An object lists its keys in order, as the map of serde\_json does.\<close>

definition failure_json :: "string \<Rightarrow> jval" where
  "failure_json e = JObj [(''error'', JStr e), (''ok'', JBool False)]"

definition parse_url :: "string \<Rightarrow> string + string \<times> 16 word \<times> string" where
  "parse_url url =
     (case strip_prefix ''http://'' url of
        None \<Rightarrow> Inl ''only http:// URLs''
      | Some rest \<Rightarrow>
          (let (authority, path) = (case split_once (CHR ''/'') rest of
                 Some (a, p) \<Rightarrow> (a, CHR ''/'' # p) | None \<Rightarrow> (rest, ''/''));
               (host, port) = (case rsplit_once (CHR '':'') authority of
                 Some (h, p) \<Rightarrow> (h, case parse_uint 65535 p of Some n \<Rightarrow> word_of_nat n | None \<Rightarrow> 80)
               | None \<Rightarrow> (authority, 80))
           in Inr (host, port, path)))"

definition ui_normalize_addr :: "string \<Rightarrow> string" where
  "ui_normalize_addr input =
     (if (case rsplit_once (CHR '':'') input of Some (_, p) \<Rightarrow> parse_uint 65535 p \<noteq> None | None \<Rightarrow> False)
      then input else input @ '':'' @ nat_str DEFAULT_PAIRING_PORT)"

section \<open>Status and trust\<close>

definition opt_json :: "('a \<Rightarrow> jval) \<Rightarrow> 'a option \<Rightarrow> jval" where
  "opt_json g x = (case x of Some a \<Rightarrow> g a | None \<Rightarrow> JNull)"

definition port_json :: "16 word \<Rightarrow> jval" where
  "port_json p = JNum (nat_str (unat p))"

definition peer_view_json :: "peer_view \<Rightarrow> jval" where
  "peer_view_json v = JObj
     [(''host'', JStr (pv_host v)), (''ingress_port'', port_json (pv_ingress_port v)),
      (''models'', JArr (map JStr (pv_models v))), (''node_id'', JStr (pv_node_id v)),
      (''pinned'', JBool (pv_pinned v)),
      (''priority_rank'', opt_json (\<lambda>r. JNum (nat_str (unat r))) (pv_priority_rank v))]"

definition ui_status :: "crypto \<Rightarrow> pki \<Rightarrow> ui_env \<Rightarrow> ui_context \<Rightarrow> ('w, 'f) dstate \<Rightarrow> jval" where
  "ui_status C P U ctx st =
     (let snap = snapshot (ds_routing st)
      in JObj
        [(''cpu'', ue_cpu U),
         (''fingerprint'', JStr (identity_fingerprint C P (ui_identity ctx))),
         (''gpus'', ue_gpus U),
         (''ingress_port'', port_json (ui_ingress_port ctx)),
         (''local_models'', JArr (map JStr (rs_local_models snap))),
         (''memory'', ue_memory U),
         (''node_uuid'', JStr (ui_node_id ctx)),
         (''peers'', JArr (map peer_view_json (rs_peers snap))),
         (''trusted'', JArr (map (\<lambda>p. JObj [(''fingerprint'', JStr (pp_fingerprint p)), (''node_uuid'', JStr (pp_uuid p))])
            (hm_values (ds_pins st))))])"

definition PIN_REFUSED :: string where
  "PIN_REFUSED = ''refusing to pin: cert has no urn:nvpair:node SAN''"

definition add_cert ::
  "crypto \<Rightarrow> pki \<Rightarrow> ui_env \<Rightarrow> string \<Rightarrow> ('w, 'f) dstate \<Rightarrow> ('w, 'f) dstate \<times> ui_resp" where
  "add_cert C P U pem st =
     (case pem_to_der pem of
        Some der \<Rightarrow>
          (case pin C P (ds_pins st) der of
             Some (u, pins) \<Rightarrow> (ds_set_pins pins st, ui_json_ok U (JObj [(''node_uuid'', JStr u), (''ok'', JBool True)]))
           | None \<Rightarrow> (st, ui_json_ok U (failure_json PIN_REFUSED)))
      | None \<Rightarrow> (st, ui_json_ok U (failure_json ''no certificate in PEM'')))"

section \<open>Pairing by certificates\<close>

text \<open>The HTTP client: host, port, method, path and body; anything may happen while it waits.\<close>

type_synonym ('w, 'f) ui_net =
  "string \<Rightarrow> 16 word \<Rightarrow> string \<Rightarrow> string \<Rightarrow> bytes \<Rightarrow> ('w, 'f) dstate \<Rightarrow> ('w, 'f) dstate \<times> (string + nat \<times> bytes)"

definition ui_pair ::
  "crypto \<Rightarrow> pki \<Rightarrow> ui_env \<Rightarrow> ('w, 'f) ui_net \<Rightarrow> ui_context \<Rightarrow> bytes \<Rightarrow> ('w, 'f) dstate \<Rightarrow>
     ('w, 'f) dstate \<times> (string + jval)" where
  "ui_pair C P U H ctx body st =
     (case ue_of U body of
        Inl e \<Rightarrow> (st, Inl e)
      | Inr v \<Rightarrow>
          (case Option.bind (jget ''peer'' v) j_str of
             None \<Rightarrow> (st, Inl ''peer required'')
           | Some peer \<Rightarrow>
               (case parse_url peer of
                  Inl e \<Rightarrow> (st, Inl e)
                | Inr (host, port, _) \<Rightarrow>
                    (case H host port ''GET'' ''/api/status'' [] st of
                       (st1, Inl e) \<Rightarrow> (st1, Inl e)
                     | (st1, Inr (_, sbytes)) \<Rightarrow>
                         (case ue_of U sbytes of
                            Inl e \<Rightarrow> (st1, Inl e)
                          | Inr s \<Rightarrow>
                              (let peer_uuid = (case Option.bind (jget ''node_uuid'' s) j_str of Some u \<Rightarrow> u | None \<Rightarrow> []);
                                   peer_ingress = word_of_nat
                                     (case Option.bind (jget ''ingress_port'' s) j_u64 of Some n \<Rightarrow> n | None \<Rightarrow> 0) :: 16 word
                               in (case H host port ''GET'' ''/api/identity/cert'' [] st1 of
                                     (st2, Inl e) \<Rightarrow> (st2, Inl e)
                                   | (st2, Inr (_, cbytes)) \<Rightarrow>
                                       (case pem_to_der (from_utf8_lossy cbytes) of
                                          None \<Rightarrow> (st2, Inl ''peer returned no certificate'')
                                        | Some der \<Rightarrow>
                                            (case pin C P (ds_pins st2) der of
                                               None \<Rightarrow> (st2, Inl PIN_REFUSED)
                                             | Some (_, pins) \<Rightarrow>
                                                 (case H host port ''POST'' ''/api/trust/add''
                                                         (str_bytes (id_cert_pem (ui_identity ctx))) (ds_set_pins pins st2) of
                                                    (st4, Inl e) \<Rightarrow> (st4, Inl e)
                                                  | (st4, Inr (code, _)) \<Rightarrow>
                                                      if 400 \<le> code
                                                      then (st4, Inl (''peer rejected our certificate ('' @ nat_str code @ '')''))
                                                      else
                                                        (if peer_ingress \<noteq> 0
                                                         then ds_map_routing (upsert_peer_meta peer_uuid host peer_ingress True) st4
                                                         else st4,
                                                         Inr (JObj [(''ingress_port'', port_json peer_ingress),
                                                                    (''node_uuid'', JStr peer_uuid), (''ok'', JBool True)]))))))))))))"

section \<open>The controls of EAP-NOOB pairing\<close>

definition invite_json :: "pending_invite \<Rightarrow> jval" where
  "invite_json p = JObj
     [(''cluster_friendly_name'', JStr (pn_cluster_friendly_name p)), (''cluster_id'', JStr (pn_cluster_id p)),
      (''from_name'', JStr (pn_from_name p)), (''from_node_uuid'', JStr (pn_from_node_uuid p)),
      (''invite_id'', JStr (pn_invite_id p)), (''inviter_addr'', JStr (pn_inviter_addr p))]"

definition ui_pending_invites :: "('w, 'f) dstate \<Rightarrow> jval" where
  "ui_pending_invites st = JObj [(''invites'', JArr (map invite_json (pending_invites (snd st))))]"

definition ui_invite ::
  "cluster_env \<Rightarrow> ui_env \<Rightarrow> ('w \<times> routing_table, 'f trust_state) net \<Rightarrow> (nat \<Rightarrow> entropy) \<Rightarrow> string \<Rightarrow> nat \<Rightarrow>
     bytes \<Rightarrow> ('w, 'f) dstate \<Rightarrow> (('w, 'f) dstate \<times> (string + jval) exec) option" where
  "ui_invite X U N rnd iid n body st =
     (case ue_of U body of
        Inl e \<Rightarrow> Some (st, Returned (Inl e))
      | Inr v \<Rightarrow>
          (case map_option trim (Option.bind (jget ''joiner'' v) j_str) of
             None \<Rightarrow> Some (st, Returned (Inl ''joiner address required''))
           | Some joiner \<Rightarrow>
               if joiner = [] then Some (st, Returned (Inl ''joiner address required''))
               else
                 (let addr = ui_normalize_addr joiner
                  in (case create_invite X N rnd iid n addr st of
                        None \<Rightarrow> None
                      | Some (st1, Panicked) \<Rightarrow> Some (st1, Panicked)
                      | Some (st1, Diverged) \<Rightarrow> Some (st1, Diverged)
                      | Some (st1, Returned (Inl e)) \<Rightarrow> Some (st1, Returned (Inl (ue_err U e)))
                      | Some (st1, Returned (Inr (i, pn))) \<Rightarrow>
                          Some (st1, Returned (Inr (JObj [(''invite_id'', JStr i), (''joiner'', JStr addr),
                            (''ok'', JBool True), (''pin'', JStr pn)])))))))"

definition ui_respond ::
  "cluster_env \<Rightarrow> ui_env \<Rightarrow> 'f trust_state sink \<Rightarrow> ('w \<times> routing_table, 'f trust_state) net \<Rightarrow> (nat \<Rightarrow> entropy) \<Rightarrow>
     bytes \<Rightarrow> ('w, 'f) dstate \<Rightarrow> (('w, 'f) dstate \<times> (string + jval) exec) option" where
  "ui_respond X U K N rnd body st =
     (case ue_of U body of
        Inl e \<Rightarrow> Some (st, Returned (Inl e))
      | Inr v \<Rightarrow>
          (case Option.bind (jget ''invite_id'' v) j_str of
             None \<Rightarrow> Some (st, Returned (Inl ''invite_id required''))
           | Some iid \<Rightarrow>
               (case map_option trim (Option.bind (jget ''pin'' v) j_str) of
                  None \<Rightarrow> Some (st, Returned (Inl ''pin required''))
                | Some pn \<Rightarrow>
                    (case submit_pin X K N rnd iid pn st of
                       None \<Rightarrow> None
                     | Some (st1, Panicked) \<Rightarrow> Some (st1, Panicked)
                     | Some (st1, Diverged) \<Rightarrow> Some (st1, Diverged)
                     | Some (st1, Returned (Inl e)) \<Rightarrow> Some (st1, Returned (Inl (ue_err U e)))
                     | Some (st1, Returned (Inr p)) \<Rightarrow>
                         Some (st1, Returned (Inr (JObj
                           [(''cluster_friendly_name'', JStr (pi_cluster_friendly_name (pd_peer p))),
                            (''cluster_id'', JStr (pi_cluster_id (pd_peer p))), (''name'', JStr (pi_name (pd_peer p))),
                            (''node_uuid'', JStr (pi_node_uuid (pd_peer p))), (''ok'', JBool True)])))))))"

section \<open>The routes\<close>

text \<open>What the handlers of one node use: its two clients, its draws, and the rest.\<close>

record ('w, 'f) ui_host =
  uh_cluster :: cluster_env
  uh_env :: ui_env
  uh_sink :: "'f trust_state sink"
  uh_http :: "('w, 'f) ui_net"
  uh_net :: "('w \<times> routing_table, 'f trust_state) net"
  uh_rnd :: "nat \<Rightarrow> entropy"
  uh_uuid :: string
  uh_pin :: nat

definition answer ::
  "ui_env \<Rightarrow> (('w, 'f) dstate \<times> (string + jval) exec) option \<Rightarrow> (('w, 'f) dstate \<times> ui_resp exec) option" where
  "answer U r =
     (case r of
        None \<Rightarrow> None
      | Some (st, Panicked) \<Rightarrow> Some (st, Panicked)
      | Some (st, Diverged) \<Rightarrow> Some (st, Diverged)
      | Some (st, Returned (Inl e)) \<Rightarrow> Some (st, Returned (ui_json_ok U (failure_json e)))
      | Some (st, Returned (Inr v)) \<Rightarrow> Some (st, Returned (ui_json_ok U v)))"

definition ui_route ::
  "('w, 'f) ui_host \<Rightarrow> ui_context \<Rightarrow> string \<Rightarrow> string \<Rightarrow> bytes option \<Rightarrow> ('w, 'f) dstate \<Rightarrow>
     (('w, 'f) dstate \<times> ui_resp exec) option" where
  "ui_route h ctx meth path read st =
     (let X = uh_cluster h; C = cr (ce X); P = cp X; U = uh_env h;
          body = (case read of Some b \<Rightarrow> b | None \<Rightarrow> [])
      in if (meth, path) = (''GET'', ''/'') then Some (st, Returned (ui_html (ue_index U)))
         else if (meth, path) = (''GET'', ''/api/status'') then Some (st, Returned (ui_json_ok U (ui_status C P U ctx st)))
         else if (meth, path) = (''GET'', ''/api/identity/cert'')
         then Some (st, Returned (ui_text (id_cert_pem (ui_identity ctx))))
         else if (meth, path) = (''POST'', ''/api/trust/add'')
         then (case add_cert C P U (from_utf8_lossy body) st of (st1, r) \<Rightarrow> Some (st1, Returned r))
         else if (meth, path) = (''POST'', ''/api/trust/pair'')
         then answer U (case ui_pair C P U (uh_http h) ctx body st of (st1, r) \<Rightarrow> Some (st1, Returned r))
         else if (meth, path) = (''GET'', ''/api/pairing/pending'')
         then Some (st, Returned (ui_json_ok U (ui_pending_invites st)))
         else if (meth, path) = (''POST'', ''/api/pairing/invite'')
         then answer U (ui_invite X U (uh_net h) (uh_rnd h) (uh_uuid h) (uh_pin h) body st)
         else if (meth, path) = (''POST'', ''/api/pairing/respond'')
         then answer U (ui_respond X U (uh_sink h) (uh_net h) (uh_rnd h) body st)
         else Some (st, Returned not_found))"

section \<open>What the control API guarantees\<close>

lemma upsert_meta_get:
  "\<exists>e. hm_get (rt_peers (upsert_peer_meta i host port pinned t)) i = Some e \<and>
     pe_host e = host \<and> pe_ingress_port e = port \<and> pe_pinned e = pinned"
  by (auto simp: upsert_peer_meta_def hm.get_put split: option.split)

lemma port_json_u64 [simp]: "Option.bind (Some (port_json p)) j_u64 = Some (unat p)"
proof -
  have "unat p < 2 ^ 16" using unsigned_less [of p, where 'a = nat] by simp
  then show ?thesis using j_u64_nat_str [of "unat p"] by (simp add: port_json_def)
qed

lemma port_json_u64' [simp]: "j_u64 (port_json p) = Some (unat p)"
  using port_json_u64 [of p] by simp

lemma status_fields [simp]:
  "jget ''node_uuid'' (ui_status C P U ctx st) = Some (JStr (ui_node_id ctx))"
  "jget ''ingress_port'' (ui_status C P U ctx st) = Some (port_json (ui_ingress_port ctx))"
  by (simp_all add: ui_status_def Let_def)

text \<open>The client of one node connected to the dashboard of another, whose state is the world.\<close>

definition ui_link ::
  "('v, 'g) ui_host \<Rightarrow> ui_context \<Rightarrow> string \<Rightarrow> 16 word \<Rightarrow> (('v, 'g) dstate, 'f) ui_net" where
  "ui_link h ctx host0 port0 host port meth path body st =
     (if (host, port) \<noteq> (host0, port0) then (st, Inl ''connection refused'')
      else (case ui_route h ctx meth path (Some body) (fst (fst st)) of
              None \<Rightarrow> (st, Inl ''no answer'')
            | Some (s, Returned r) \<Rightarrow> (((s, snd (fst st)), snd st), Inr (ur_status r, ur_body r))
            | Some (s, _) \<Rightarrow> (((s, snd (fst st)), snd st), Inl ''connection closed'')))"

lemma routes_get:
  "ui_route h ctx ''GET'' ''/api/status'' b st =
     Some (st, Returned (ui_json_ok (uh_env h) (ui_status (cr (ce (uh_cluster h))) (cp (uh_cluster h)) (uh_env h) ctx st)))"
  "ui_route h ctx ''GET'' ''/api/identity/cert'' b st = Some (st, Returned (ui_text (id_cert_pem (ui_identity ctx))))"
  by (simp_all add: ui_route_def Let_def)

lemma route_add:
  "ui_route h ctx ''POST'' ''/api/trust/add'' (Some b) st =
     (case add_cert (cr (ce (uh_cluster h))) (cp (uh_cluster h)) (uh_env h) (from_utf8_lossy b) st of
        (st1, r) \<Rightarrow> Some (st1, Returned r))"
  by (simp add: ui_route_def Let_def)

lemma from_utf8_lossy_str: "utf8_valid (str_bytes s) \<Longrightarrow> from_utf8_lossy (str_bytes s) = s"
  by (simp add: from_utf8_lossy_def utf8_lossy_valid)

lemma ui_pair_run:
  fixes st :: "(('v, 'g) dstate, 'f) dstate" and h :: "('v, 'g) ui_host"
  defines "C \<equiv> cr (ce (uh_cluster h))" and "P \<equiv> cp (uh_cluster h)"
  assumes url: "ue_of U body = Inr v" "Option.bind (jget ''peer'' v) j_str = Some url" "parse_url url = Inr (host, port, path)"
    and status: "ue_to (uh_env h) (ui_status C P (uh_env h) b (fst (fst st))) = Some sb"
      "ue_of U sb = Inr (ui_status C P (uh_env h) b (fst (fst st)))"
    and a: "pem_to_der (id_cert_pem (ui_identity a)) = Some da" "node_uuid_from_cert P da = Some ua"
      "utf8_valid (str_bytes (id_cert_pem (ui_identity a)))"
    and b: "pem_to_der (id_cert_pem (ui_identity b)) = Some db" "node_uuid_from_cert P db = Some ub"
      "utf8_valid (str_bytes (id_cert_pem (ui_identity b)))" "ui_ingress_port b \<noteq> 0"
    and pins: "pins_inv C P (ds_pins st)" "pins_inv C P (ds_pins (fst (fst st)))"
  obtains st' r where "ui_pair C P U (ui_link h b host port) a body st = (st', Inr r)"
    "is_pinned (ds_pins st') db" "is_pinned (ds_pins (fst (fst st'))) da"
    "ds_routing st' = upsert_peer_meta (ui_node_id b) host (ui_ingress_port b) True (ds_routing st)"
proof -
  let ?H = "ui_link h b host port :: (('v, 'g) dstate, 'f) ui_net"
  obtain pa where pa: "pin C P (ds_pins st) db = Some (ub, pa)" using b(2) by (simp add: pin_def)
  obtain pb where pb: "pin C P (ds_pins (fst (fst st))) da = Some (ua, pb)" using a(2) by (simp add: pin_def)
  have s: "?H host port ''GET'' ''/api/status'' [] st = (st, Inr (200, sb))"
    using status(1) by (simp add: ui_link_def routes_get ui_json_ok_def C_def P_def)
  have c: "?H host port ''GET'' ''/api/identity/cert'' [] st = (st, Inr (200, str_bytes (id_cert_pem (ui_identity b))))"
    by (simp add: ui_link_def routes_get ui_text_def)
  obtain sb2 where p: "?H host port ''POST'' ''/api/trust/add'' (str_bytes (id_cert_pem (ui_identity a))) (ds_set_pins pa st) =
      (((ds_set_pins pb (fst (fst st)), ds_routing st), snd (ds_set_pins pa st)), Inr (200, sb2))"
    using a pb by (simp add: ui_link_def route_add from_utf8_lossy_str add_cert_def ui_json_ok_def C_def P_def ds_set_pins_def ds_routing_def)
  let ?st4 = "((ds_set_pins pb (fst (fst st)), ds_routing st), snd (ds_set_pins pa st))"
  let ?st' = "ds_map_routing (upsert_peer_meta (ui_node_id b) host (ui_ingress_port b) True) ?st4"
  have run: "ui_pair C P U ?H a body st = (?st', Inr (JObj [(''ingress_port'', port_json (ui_ingress_port b)),
      (''node_uuid'', JStr (ui_node_id b)), (''ok'', JBool True)]))"
    using url status(2) s c p pa b by (simp add: ui_pair_def from_utf8_lossy_str Let_def)
  have "ds_pins ?st' = pa" by (simp add: ds_pins_def ds_map_routing_def ds_set_pins_def)
  moreover have "ds_pins (fst (fst ?st')) = pb" by simp
  moreover have "is_pinned pa db" "is_pinned pb da"
    using ps.add_accepts [OF pins(1) pa] ps.add_accepts [OF pins(2) pb] by blast+
  moreover have "ds_routing ?st' = upsert_peer_meta (ui_node_id b) host (ui_ingress_port b) True (ds_routing st)"
    by (simp add: ds_map_routing_def ds_routing_def)
  ultimately show thesis using that [OF run] by simp
qed

text \<open>
  Pairing from the dashboard makes trust mutual: when the URL names the dashboard of another
  node, both nodes have pinned the other's certificate afterwards, and the other node is in the
  routing table as a pinned peer, under its UUID, at the host of the URL and at its ingress port.
\<close>
theorem ui_pair_mutual:
  fixes st :: "(('v, 'g) dstate, 'f) dstate" and h :: "('v, 'g) ui_host"
  defines "C \<equiv> cr (ce (uh_cluster h))" and "P \<equiv> cp (uh_cluster h)"
  assumes url: "ue_of U body = Inr v" "Option.bind (jget ''peer'' v) j_str = Some url" "parse_url url = Inr (host, port, path)"
    and status: "ue_to (uh_env h) (ui_status C P (uh_env h) b (fst (fst st))) = Some sb"
      "ue_of U sb = Inr (ui_status C P (uh_env h) b (fst (fst st)))"
    and a: "pem_to_der (id_cert_pem (ui_identity a)) = Some da" "node_uuid_from_cert P da = Some ua"
      "utf8_valid (str_bytes (id_cert_pem (ui_identity a)))"
    and b: "pem_to_der (id_cert_pem (ui_identity b)) = Some db" "node_uuid_from_cert P db = Some ub"
      "utf8_valid (str_bytes (id_cert_pem (ui_identity b)))" "ui_ingress_port b \<noteq> 0"
    and pins: "pins_inv C P (ds_pins st)" "pins_inv C P (ds_pins (fst (fst st)))"
  shows "\<exists>st' r e. ui_pair C P U (ui_link h b host port) a body st = (st', Inr r) \<and>
    is_pinned (ds_pins st') db \<and> is_pinned (ds_pins (fst (fst st'))) da \<and>
    hm_get (rt_peers (ds_routing st')) (ui_node_id b) = Some e \<and>
    pe_host e = host \<and> pe_ingress_port e = ui_ingress_port b \<and> pe_pinned e"
  using ui_pair_run [OF url status [unfolded C_def P_def] a [unfolded P_def] b [unfolded P_def] pins [unfolded C_def P_def]]
    upsert_meta_get [of "ui_node_id b" host "ui_ingress_port b" True "ds_routing st"]
  unfolding C_def P_def by metis

text \<open>
  C31: pairing from the dashboard believes the UUID that the peer reports and never compares it
  with the one in its certificate: a peer that names another UUID is entered in the routing
  table under that UUID and marked as pinned, at the peer's own host, while the pin of that
  UUID, if there is one, stays as it was.
\<close>
theorem ui_pair_believes_uuid:
  fixes st :: "('w, 'f) dstate"
  assumes "ue_of U body = Inr v" "Option.bind (jget ''peer'' v) j_str = Some url" "parse_url url = Inr (host, port, path)"
    and "H host port ''GET'' ''/api/status'' [] st = (st, Inr (k1, sb))" "ue_of U sb = Inr s"
    and "Option.bind (jget ''node_uuid'' s) j_str = Some u" "Option.bind (jget ''ingress_port'' s) j_u64 = Some n"
      "(word_of_nat n :: 16 word) \<noteq> 0"
    and "H host port ''GET'' ''/api/identity/cert'' [] st = (st, Inr (k2, cb))"
    and "pem_to_der (from_utf8_lossy cb) = Some d" "pin C P (ds_pins st) d = Some (w, pins)" "w \<noteq> u"
    and "H host port ''POST'' ''/api/trust/add'' (str_bytes (id_cert_pem (ui_identity ctx))) (ds_set_pins pins st) =
      (ds_set_pins pins st, Inr (k3, rb))" "k3 < 400"
  shows "\<exists>st' r e. ui_pair C P U H ctx body st = (st', Inr r) \<and>
    hm_get (rt_peers (ds_routing st')) u = Some e \<and> pe_host e = host \<and> pe_pinned e \<and>
    pin_get (ds_pins st') u = pin_get (ds_pins st) u"
proof -
  let ?st' = "ds_map_routing (upsert_peer_meta u host (word_of_nat n) True) (ds_set_pins pins st)"
  have "\<exists>r. ui_pair C P U H ctx body st = (?st', Inr r)"
    using assms by (simp add: ui_pair_def Let_def)
  moreover have "pin_get (ds_pins ?st') u = pin_get (ds_pins st) u"
    using pin_get_store [OF assms(11)] assms(12) by (simp add: pin_get_def)
  moreover obtain e where "hm_get (rt_peers (ds_routing ?st')) u = Some e" "pe_host e = host" "pe_pinned e"
    using upsert_meta_get [of u host "word_of_nat n" True "ds_routing st"] by auto
  ultimately show ?thesis by blast
qed

text \<open>
  The dashboard asks for no credentials: one POST with the certificate of any node makes
  that node a trusted client of this node's mutual-TLS ingress.
\<close>
theorem trust_add_admits_anyone:
  assumes "pins_inv (cr (ce (uh_cluster h))) (cp (uh_cluster h)) (ds_pins st)"
    and "utf8_valid (str_bytes pem)" "pem_to_der pem = Some d" "node_uuid_from_cert (cp (uh_cluster h)) d = Some u"
  shows "\<exists>st' r. ui_route h ctx ''POST'' ''/api/trust/add'' (Some (str_bytes pem)) st = Some (st', Returned r) \<and>
    verify_client_cert (Some (ds_pins st')) d [] 0 = Inr () \<and> ds_routing st' = ds_routing st"
proof -
  let ?C = "cr (ce (uh_cluster h))" and ?P = "cp (uh_cluster h)"
  obtain pins where p: "pin ?C ?P (ds_pins st) d = Some (u, pins)" using assms(4) by (simp add: pin_def)
  then have "is_pinned pins d" using ps.add_accepts [OF assms(1) p] by blast
  with p assms(2,3) show ?thesis
    by (simp add: route_add from_utf8_lossy_str add_cert_def verify_client_cert_def accept_cert_def)
qed

text \<open>
  Only POST requests change anything: every other request is answered and leaves pins,
  routing table and sessions as they were.
\<close>
theorem ui_get_pure:
  assumes "meth \<noteq> ''POST''"
  shows "\<exists>r. ui_route h ctx meth path body st = Some (st, Returned r)"
  using assms by (simp add: ui_route_def Let_def)

section \<open>Witnesses\<close>

definition demo_ui_env :: "(bytes \<Rightarrow> string + jval) \<Rightarrow> ui_env" where
  "demo_ui_env parse = \<lparr>ue_of = parse, ue_to = (\<lambda>v. Some [1]), ue_index = [], ue_cpu = JNull, ue_memory = JNull,
     ue_gpus = JNull, ue_err = (\<lambda>e. [])\<rparr>"

definition demo_ui_host :: "ui_env \<Rightarrow> (unit, unit) ui_host" where
  "demo_ui_host U = \<lparr>uh_cluster = demo_X, uh_env = U, uh_sink = cluster_sink demo_crypto demo_pki full_disk,
     uh_http = (\<lambda>h p m pa b st. (st, Inl [])), uh_net = (\<lambda>a b st. (st, Inl [])), uh_rnd = (\<lambda>i. demo_rnd),
     uh_uuid = ''i'', uh_pin = 0\<rparr>"

definition demo_ui_ctx :: ui_context where
  "demo_ui_ctx = \<lparr>ui_node_id = ''n1'', ui_identity = demo_identity, ui_ingress_port = 7443\<rparr>"

definition demo_dstate :: "'w \<Rightarrow> ('w, unit) dstate" where
  "demo_dstate w = ((w, routing_new ''n1''),
     build_node (pairing_profile demo_identity ''A'' ''a:1'' [] []) (trust_sink_new [] () None False))"

lemma demo_dstate_pins [simp]: "ds_pins (demo_dstate w) = []" "fst (fst (demo_dstate w)) = w"
  by (simp_all add: demo_dstate_def ds_pins_def build_node_def node_new_def trust_sink_new_def)

definition demo_url :: "string" where "demo_url = ''http://b/x''"

lemma demo_url_parsed: "parse_url demo_url = Inr (''b'', 80, ''/x'')"
  by (simp add: parse_url_def demo_url_def strip_prefix_def rsplit_once_def)

text \<open>Any bytes but one byte 1 are the request to pair with the URL; that byte is the status of the peer.\<close>

definition demo_ui_parse :: "jval \<Rightarrow> bytes \<Rightarrow> string + jval" where
  "demo_ui_parse status b = (if b = [1] then Inr status else Inr (JObj [(''peer'', JStr demo_url)]))"

lemma demo_pem_utf8: "utf8_valid (str_bytes demo_pem)"
  by (rule utf8_valid_ascii) (simp add: demo_pem_def str_bytes_def pem_lines_def BEGIN_CERT_def END_CERT_def nl_def)

lemma demo_identity_pem [simp]: "id_cert_pem demo_identity = demo_pem"
  by (simp add: demo_identity_def)

theorem trust_add_admits_anyone_witness:
  "\<exists>st' r. ui_route (demo_ui_host (demo_ui_env (\<lambda>b. Inl []))) demo_ui_ctx ''POST'' ''/api/trust/add''
     (Some (str_bytes demo_pem)) (demo_dstate ()) = Some (st', Returned r) \<and>
   verify_client_cert (Some (ds_pins st')) [1, 2, 3] [] 0 = Inr ()"
  using trust_add_admits_anyone [of "demo_ui_host (demo_ui_env (\<lambda>b. Inl []))" "demo_dstate ()" demo_pem "[1, 2, 3]" "''n1''" demo_ui_ctx]
    demo_pem_utf8 by (simp add: demo_ui_host_def) blast

theorem ui_get_pure_witness:
  "\<exists>r. ui_route (demo_ui_host (demo_ui_env (\<lambda>b. Inl []))) demo_ui_ctx ''DELETE'' ''/api/trust/add'' None (demo_dstate ()) =
     Some (demo_dstate (), Returned r)"
  by (rule ui_get_pure) simp

theorem ui_pair_mutual_witness:
  "let s = ui_status demo_crypto demo_pki (demo_ui_env (\<lambda>b. Inl [])) demo_ui_ctx (demo_dstate ());
       U = demo_ui_env (demo_ui_parse s)
   in \<exists>st' r. ui_pair demo_crypto demo_pki U (ui_link (demo_ui_host U) demo_ui_ctx ''b'' 80) demo_ui_ctx []
        (demo_dstate (demo_dstate ())) = (st', Inr r) \<and> is_pinned (ds_pins st') [1, 2, 3]"
proof -
  let ?s = "ui_status demo_crypto demo_pki (demo_ui_env (\<lambda>b. Inl [])) demo_ui_ctx (demo_dstate ())"
  let ?U = "demo_ui_env (demo_ui_parse ?s)"
  have s: "ui_status demo_crypto demo_pki ?U demo_ui_ctx (demo_dstate ()) = ?s"
    by (simp add: ui_status_def demo_ui_env_def)
  have of_: "ue_of ?U [] = Inr (JObj [(''peer'', JStr demo_url)])" "ue_of ?U [1] = Inr ?s" "ue_to ?U x = Some [1]" for x
    by (simp_all add: demo_ui_env_def demo_ui_parse_def)
  have h: "uh_cluster (demo_ui_host ?U) = demo_X" "uh_env (demo_ui_host ?U) = ?U"
    by (simp_all add: demo_ui_host_def)
  have i: "ui_identity demo_ui_ctx = demo_identity" "ui_ingress_port demo_ui_ctx \<noteq> 0"
    by (simp_all add: demo_ui_ctx_def)
  have "\<exists>st' r e. ui_pair (cr (ce (uh_cluster (demo_ui_host ?U)))) (cp (uh_cluster (demo_ui_host ?U))) ?U
      (ui_link (demo_ui_host ?U) demo_ui_ctx ''b'' 80) demo_ui_ctx [] (demo_dstate (demo_dstate ())) = (st', Inr r) \<and>
    is_pinned (ds_pins st') [1, 2, 3] \<and> is_pinned (ds_pins (fst (fst st'))) [1, 2, 3] \<and>
    hm_get (rt_peers (ds_routing st')) (ui_node_id demo_ui_ctx) = Some e \<and>
    pe_host e = ''b'' \<and> pe_ingress_port e = ui_ingress_port demo_ui_ctx \<and> pe_pinned e"
    by (rule ui_pair_mutual [where v = "JObj [(''peer'', JStr demo_url)]" and url = demo_url and path = "''/x''" and
          sb = "[1]" and ua = "''n1''" and ub = "''n1''"])
      (simp_all add: of_ h s i demo_url_parsed demo_pem_utf8)
  then show ?thesis unfolding Let_def h by auto
qed

text \<open>A peer that reports the UUID of somebody else.\<close>

definition liar :: "(unit, unit) ui_net" where
  "liar host port meth path body st =
     (st, Inr (200, if path = ''/api/status'' then [1]
                    else if path = ''/api/identity/cert'' then str_bytes demo_pem else []))"

theorem ui_pair_believes_uuid_witness:
  "let s = JObj [(''node_uuid'', JStr ''victim''), (''ingress_port'', JNum (nat_str 7443))]
   in \<exists>st' r e. ui_pair demo_crypto demo_pki (demo_ui_env (demo_ui_parse s)) liar demo_ui_ctx [] (demo_dstate ()) = (st', Inr r) \<and>
        hm_get (rt_peers (ds_routing st')) ''victim'' = Some e \<and> pe_pinned e \<and> pin_get (ds_pins st') ''victim'' = None"
proof -
  let ?s = "JObj [(''node_uuid'', JStr ''victim''), (''ingress_port'', JNum (nat_str 7443))]"
  let ?U = "demo_ui_env (demo_ui_parse ?s)"
  obtain pins where pins: "pin demo_crypto demo_pki [] [1, 2, 3] = Some (''n1'', pins)"
    by (simp add: pin_def)
  have "\<exists>st' r e. ui_pair demo_crypto demo_pki ?U liar demo_ui_ctx [] (demo_dstate ()) = (st', Inr r) \<and>
      hm_get (rt_peers (ds_routing st')) ''victim'' = Some e \<and> pe_host e = ''b'' \<and> pe_pinned e \<and>
      pin_get (ds_pins st') ''victim'' = pin_get (ds_pins (demo_dstate () :: (unit, unit) dstate)) ''victim''"
  proof (rule ui_pair_believes_uuid [where v = "JObj [(''peer'', JStr demo_url)]" and s = ?s and sb = "[1]" and n = 7443
        and url = demo_url and port = 80 and path = "''/x''" and d = "[1, 2, 3]" and w = "''n1''" and pins = pins
        and cb = "str_bytes demo_pem" and ?k1.0 = 200 and ?k2.0 = 200 and ?k3.0 = 200 and rb = "[]"])
    show "pin demo_crypto demo_pki (ds_pins (demo_dstate () :: (unit, unit) dstate)) [1, 2, 3] = Some (''n1'', pins)"
      using pins by simp
    show "Option.bind (jget ''ingress_port'' ?s) j_u64 = Some 7443"
      using j_u64_nat_str [of 7443] by simp
  qed (simp_all add: demo_ui_env_def demo_ui_parse_def demo_url_parsed liar_def from_utf8_lossy_str demo_pem_utf8)
  then show ?thesis by (simp add: Let_def pin_get_def hm.get_empty) blast
qed

end
