(* ===== verification/Telemetry.thy ===== *)
theory Telemetry
  imports Utf8 Json_Value Router Pem
begin

text \<open>
  Hardware telemetry: the snapshot a node reports (crates/pair-proto/src/telemetry.rs) and the
  inventory of GPUs from \<open>nvidia-smi\<close>, the \<open>amdgpu\<close> files, \<open>amd-smi\<close>, \<open>rocm-smi\<close> and the
  operating system (crates/pair-nodeinfo). The tools and the files are parameters. Integer
  overflow panics in a build with overflow checks and wraps in one without: the first argument
  \<open>chk\<close> says which.
\<close>

section \<open>The snapshot\<close>

datatype gpu_vendor = Nvidia | Amd | Intel | Other

definition from_pci_id :: "16 word \<Rightarrow> gpu_vendor" where
  "from_pci_id i = (if i = 0x10de then Nvidia else if i = 0x1002 then Amd else if i = 0x8086 then Intel else Other)"

record gpu =
  g_name :: string
  g_vram_bytes :: "64 word option"
  g_vram_used_bytes :: "64 word option"
  g_utilization_percent :: "32 word option"
  g_uuid :: string
  g_vendor :: gpu_vendor
  g_vendor_id :: "16 word option"

record cpu =
  cpu_name :: string
  cpu_cores :: "32 word option"
  cpu_total_threads :: "32 word option"
  cpu_utilization :: "32 word option"

record memory_info =
  mem_total_bytes :: "64 word"
  mem_used_bytes :: "64 word option"

record node_info =
  ni_gpus :: "gpu list"
  ni_cpu :: "cpu option"
  ni_memory :: "memory_info option"
  ni_telemetry_valid :: bool
  ni_ms_since :: "64 word"
  ni_host_uuid :: "string option"
  ni_node_uuid :: "string option"
  ni_cluster_uuid :: "string option"

definition saturating_sub :: "64 word \<Rightarrow> 64 word \<Rightarrow> 64 word" where
  "saturating_sub a b = (if b \<le> a then a - b else 0)"

definition free_of :: "gpu \<Rightarrow> 64 word option" where
  "free_of g =
     (case (g_vram_bytes g, g_vram_used_bytes g) of
        (Some t, Some used) \<Rightarrow> Some (saturating_sub t used)
      | _ \<Rightarrow> None)"

text \<open>Addition and multiplication of \<open>u64\<close> values.\<close>

definition u64_of :: "bool \<Rightarrow> nat \<Rightarrow> 64 word exec" where
  "u64_of chk n = (if chk \<and> 2 ^ 64 \<le> n then Panicked else Returned (word_of_nat n))"

fun sum_u64 :: "bool \<Rightarrow> 64 word \<Rightarrow> 64 word list \<Rightarrow> 64 word exec" where
  "sum_u64 chk acc [] = Returned acc"
| "sum_u64 chk acc (x # xs) =
     (case u64_of chk (unat acc + unat x) of
        Returned s \<Rightarrow> sum_u64 chk s xs
      | Panicked \<Rightarrow> Panicked
      | Diverged \<Rightarrow> Diverged)"

definition free_vram_bytes :: "bool \<Rightarrow> node_info \<Rightarrow> 64 word exec" where
  "free_vram_bytes chk ni = sum_u64 chk 0 (List.map_filter free_of (ni_gpus ni))"

section \<open>nvidia-smi\<close>

definition MIB :: nat where "MIB = 2 ^ 20"

text \<open>A command: whether it succeeded and what it printed; nothing when it could not be run.\<close>

type_synonym commands = "string \<Rightarrow> string list \<Rightarrow> (bool \<times> bytes) option"

definition run_command :: "commands \<Rightarrow> string \<Rightarrow> string list \<Rightarrow> string option" where
  "run_command cmd bin args =
     (case cmd bin args of
        None \<Rightarrow> None
      | Some (ok, out) \<Rightarrow> if \<not> ok then None else Some (from_utf8_lossy out))"

definition split_csv :: "string \<Rightarrow> string list" where
  "split_csv line = filter (\<lambda>_. trim line \<noteq> []) (map trim (split_on (CHR '','') line))"

definition mib_field :: "bool \<Rightarrow> string \<Rightarrow> 64 word option exec" where
  "mib_field chk s =
     (case parse_uint (2 ^ 64 - 1) s of
        None \<Rightarrow> Returned None
      | Some mib \<Rightarrow>
          (case u64_of chk (mib * MIB) of
             Returned v \<Rightarrow> Returned (Some v)
           | Panicked \<Rightarrow> Panicked
           | Diverged \<Rightarrow> Diverged))"

fun static_rows :: "bool \<Rightarrow> string list \<Rightarrow> gpu list exec" where
  "static_rows chk [] = Returned []"
| "static_rows chk (line # ls) =
     (case split_csv line of
        u # n # m # _ \<Rightarrow>
          (case mib_field chk m of
             Returned v \<Rightarrow>
               (case static_rows chk ls of
                  Returned gs \<Rightarrow>
                    Returned (\<lparr>g_name = n, g_vram_bytes = v, g_vram_used_bytes = None, g_utilization_percent = None,
                               g_uuid = u, g_vendor = Nvidia, g_vendor_id = Some 0x10de\<rparr> # gs)
                | Panicked \<Rightarrow> Panicked
                | Diverged \<Rightarrow> Diverged)
           | Panicked \<Rightarrow> Panicked
           | Diverged \<Rightarrow> Diverged)
      | _ \<Rightarrow> static_rows chk ls)"

definition parse_static :: "bool \<Rightarrow> string \<Rightarrow> gpu list exec" where
  "parse_static chk csv = static_rows chk (str_lines csv)"

type_synonym dynamics = "(string, 32 word option \<times> 64 word option) hmap"

fun dynamic_rows :: "bool \<Rightarrow> string list \<Rightarrow> dynamics \<Rightarrow> dynamics exec" where
  "dynamic_rows chk [] m = Returned m"
| "dynamic_rows chk (line # ls) m =
     (case split_csv line of
        u # p # b # _ \<Rightarrow>
          (case mib_field chk b of
             Returned used \<Rightarrow>
               dynamic_rows chk ls
                 (hm_insert u (map_option word_of_nat (parse_uint (2 ^ 32 - 1) p), used) m)
           | Panicked \<Rightarrow> Panicked
           | Diverged \<Rightarrow> Diverged)
      | _ \<Rightarrow> dynamic_rows chk ls m)"

definition parse_dynamic :: "bool \<Rightarrow> string \<Rightarrow> dynamics exec" where
  "parse_dynamic chk csv = dynamic_rows chk (str_lines csv) []"

definition merge_gpus :: "gpu list \<Rightarrow> dynamics \<Rightarrow> gpu list" where
  "merge_gpus gs d =
     map (\<lambda>g. case hm_get d (g_uuid g) of
                Some (util, used) \<Rightarrow> g\<lparr>g_utilization_percent := util, g_vram_used_bytes := used\<rparr>
              | None \<Rightarrow> g) gs"

definition nvidia_detect :: "bool \<Rightarrow> commands \<Rightarrow> gpu list exec" where
  "nvidia_detect chk cmd =
     (case run_command cmd ''nvidia-smi''
             [''--query-gpu=uuid,name,memory.total'', ''--format=csv,noheader,nounits''] of
        None \<Rightarrow> Returned []
      | Some out \<Rightarrow>
          (case parse_static chk out of
             Panicked \<Rightarrow> Panicked
           | Diverged \<Rightarrow> Diverged
           | Returned gs \<Rightarrow>
               (case run_command cmd ''nvidia-smi''
                       [''--query-gpu=uuid,utilization.gpu,memory.used'', ''--format=csv,noheader,nounits''] of
                  None \<Rightarrow> Returned (merge_gpus gs [])
                | Some o2 \<Rightarrow>
                    (case parse_dynamic chk o2 of
                       Panicked \<Rightarrow> Panicked
                     | Diverged \<Rightarrow> Diverged
                     | Returned d \<Rightarrow> Returned (merge_gpus gs d)))))"

section \<open>Searching JSON\<close>

fun deep_find :: "string \<Rightarrow> jval \<Rightarrow> jval option"
  and deep_members :: "string \<Rightarrow> (string \<times> jval) list \<Rightarrow> jval option"
  and deep_items :: "string \<Rightarrow> jval list \<Rightarrow> jval option" where
  "deep_find key (JObj kvs) = (case map_of kvs key of Some hit \<Rightarrow> Some hit | None \<Rightarrow> deep_members key kvs)"
| "deep_find key (JArr vs) = deep_items key vs"
| "deep_find key JNull = None"
| "deep_find key (JBool _) = None"
| "deep_find key (JNum _) = None"
| "deep_find key (JStr _) = None"
| "deep_members key [] = None"
| "deep_members key ((k, v) # kvs) = (case deep_find key v of Some hit \<Rightarrow> Some hit | None \<Rightarrow> deep_members key kvs)"
| "deep_items key [] = None"
| "deep_items key (v # vs) = (case deep_find key v of Some hit \<Rightarrow> Some hit | None \<Rightarrow> deep_items key vs)"

fun find_str :: "jval \<Rightarrow> string list \<Rightarrow> string option" where
  "find_str v [] = None"
| "find_str v (k # ks) =
     (case Option.bind (deep_find k v) j_str of Some s \<Rightarrow> Some s | None \<Rightarrow> find_str v ks)"

text \<open>\<open>f64\<close>: a number read from its text, and the operations on numbers that are used.\<close>

record 'n floats =
  fl_of :: "string \<Rightarrow> 'n"
  fl_of_u64 :: "nat \<Rightarrow> 'n"
  fl_mul :: "'n \<Rightarrow> 'n \<Rightarrow> 'n"
  fl_as_u64 :: "'n \<Rightarrow> 64 word"
  fl_as_u32 :: "'n \<Rightarrow> 32 word"

fun j_f64 :: "'n floats \<Rightarrow> jval \<Rightarrow> 'n option" where
  "j_f64 L (JNum s) = Some (fl_of L s)"
| "j_f64 L _ = None"

fun find_num :: "'n floats \<Rightarrow> jval \<Rightarrow> string list \<Rightarrow> 'n option" where
  "find_num L v [] = None"
| "find_num L v (k # ks) =
     (case deep_find k v of
        None \<Rightarrow> find_num L v ks
      | Some found \<Rightarrow>
          (case j_f64 L found of
             Some n \<Rightarrow> Some n
           | None \<Rightarrow>
               (case Option.bind (jget ''value'' found) (j_f64 L) of
                  Some inner \<Rightarrow> Some inner
                | None \<Rightarrow> find_num L v ks)))"

definition find_str_num :: "jval \<Rightarrow> string \<Rightarrow> nat option" where
  "find_str_num v key =
     (case deep_find key v of
        None \<Rightarrow> None
      | Some f \<Rightarrow>
          (case Option.bind (j_str f) (\<lambda>s. parse_uint (2 ^ 64 - 1) (trim s)) of
             Some n \<Rightarrow> Some n
           | None \<Rightarrow> j_u64 f))"

section \<open>AMD\<close>

definition MB :: nat where "MB = 1000000"

definition mb_to_bytes :: "'n floats \<Rightarrow> 'n \<Rightarrow> 64 word" where
  "mb_to_bytes L mb = fl_as_u64 L (fl_mul L mb (fl_of_u64 L MB))"

text \<open>An entry of the directory of DRM devices: its name and the files below \<open>device\<close>.\<close>

type_synonym drm_entry = "string \<times> (string \<Rightarrow> string option)"

definition sysfs_gpu :: "drm_entry \<Rightarrow> gpu option" where
  "sysfs_gpu e =
     (case e of (name, file) \<Rightarrow>
        (let rd = (\<lambda>f. map_option trim (file f))
         in if \<not> starts_with name ''card'' \<or> CHR ''-'' \<in> set name then None
            else if rd ''vendor'' \<noteq> Some ''0x1002'' then None
            else Some
              \<lparr>g_name = ''AMD GPU (amdgpu '' @ (case rd ''device'' of Some d \<Rightarrow> d | None \<Rightarrow> []) @ '')'',
               g_vram_bytes = map_option word_of_nat (Option.bind (rd ''mem_info_vram_total'') (parse_uint (2 ^ 64 - 1))),
               g_vram_used_bytes = map_option word_of_nat (Option.bind (rd ''mem_info_vram_used'') (parse_uint (2 ^ 64 - 1))),
               g_utilization_percent = map_option word_of_nat (Option.bind (rd ''gpu_busy_percent'') (parse_uint (2 ^ 32 - 1))),
               g_uuid = (case rd ''unique_id'' of Some u \<Rightarrow> u | None \<Rightarrow> name),
               g_vendor = Amd, g_vendor_id = Some 0x1002\<rparr>))"

text \<open>An entry that cannot be read is skipped.\<close>

definition detect_sysfs :: "drm_entry option list option \<Rightarrow> gpu list" where
  "detect_sysfs entries =
     (case entries of None \<Rightarrow> [] | Some es \<Rightarrow> List.map_filter sysfs_gpu (List.map_filter id es))"

definition amd_smi_gpu :: "'n floats \<Rightarrow> jval list \<Rightarrow> jval \<Rightarrow> gpu" where
  "amd_smi_gpu L metrics e =
     (let idx = Option.bind (jget ''gpu'' e) j_u64;
          metric = Option.bind idx (\<lambda>i. find (\<lambda>m. Option.bind (jget ''gpu'' m) j_u64 = Some i) metrics)
      in \<lparr>g_name = (case find_str e [''market_name'', ''product_name'', ''name''] of Some n \<Rightarrow> n | None \<Rightarrow> ''AMD GPU''),
          g_vram_bytes = map_option (mb_to_bytes L) (find_num L e [''size'', ''total'', ''vram_total'', ''total_vram'']),
          g_vram_used_bytes = Option.bind metric (\<lambda>m.
            map_option (mb_to_bytes L) (find_num L m [''used_vram'', ''vram_used'', ''used''])),
          g_utilization_percent = Option.bind metric (\<lambda>m.
            map_option (fl_as_u32 L) (find_num L m [''gfx_activity'', ''gfx'', ''gpu_activity'', ''usage''])),
          g_uuid = (case find_str e [''uuid'', ''serial'', ''bdf'', ''market_name''] of
                      Some u \<Rightarrow> u | None \<Rightarrow> ''amd-gpu-'' @ nat_str (case idx of Some i \<Rightarrow> i | None \<Rightarrow> 0)),
          g_vendor = Amd, g_vendor_id = Some 0x1002\<rparr>)"

definition parse_amd_smi :: "(string \<Rightarrow> jval option) \<Rightarrow> 'n floats \<Rightarrow> string \<Rightarrow> string option \<Rightarrow> gpu list" where
  "parse_amd_smi json L static_json metric_json =
     (case json static_json of
        None \<Rightarrow> []
      | Some stat \<Rightarrow>
          (let metrics = (case Option.bind (Option.bind metric_json json) j_arr of Some ms \<Rightarrow> ms | None \<Rightarrow> [])
           in (case j_arr stat of None \<Rightarrow> [] | Some es \<Rightarrow> map (amd_smi_gpu L metrics) es)))"

definition rocm_gpu :: "string \<times> jval \<Rightarrow> gpu" where
  "rocm_gpu kc =
     (case kc of (key, c) \<Rightarrow>
        \<lparr>g_name = (case find_str c [''Card Series'', ''Device Name'', ''Market Name'', ''Card Model''] of
                     Some n \<Rightarrow> n | None \<Rightarrow> ''AMD GPU''),
         g_vram_bytes = map_option word_of_nat (find_str_num c ''VRAM Total Memory (B)''),
         g_vram_used_bytes = map_option word_of_nat (find_str_num c ''VRAM Total Used Memory (B)''),
         g_utilization_percent = map_option word_of_nat
           (Option.bind (find_str c [''GPU use (%)'']) (\<lambda>s. parse_uint (2 ^ 32 - 1) (trim s))),
         g_uuid = (case find_str c [''Unique ID'', ''Serial Number'', ''PCI Bus''] of Some u \<Rightarrow> u | None \<Rightarrow> key),
         g_vendor = Amd, g_vendor_id = Some 0x1002\<rparr>)"

definition parse_rocm_smi_json :: "(string \<Rightarrow> jval option) \<Rightarrow> string \<Rightarrow> gpu list" where
  "parse_rocm_smi_json json s =
     (case json s of
        Some (JObj kvs) \<Rightarrow> map rocm_gpu (sort_key fst (filter (\<lambda>kv. starts_with (fst kv) ''card'') kvs))
      | _ \<Rightarrow> [])"

definition detect_tools :: "(string \<Rightarrow> jval option) \<Rightarrow> 'n floats \<Rightarrow> commands \<Rightarrow> gpu list" where
  "detect_tools json L cmd =
     (let gpus = (case run_command cmd ''amd-smi'' [''static'', ''--json''] of
                    None \<Rightarrow> []
                  | Some stat \<Rightarrow> parse_amd_smi json L stat (run_command cmd ''amd-smi'' [''metric'', ''--json'']))
      in if gpus \<noteq> [] then gpus
         else (case run_command cmd ''rocm-smi''
                      [''--showproductname'', ''--showmeminfo'', ''vram'', ''--showuse'', ''--json''] of
                 Some js \<Rightarrow> parse_rocm_smi_json json js
               | None \<Rightarrow> []))"

definition amd_detect ::
  "drm_entry option list option \<Rightarrow> (string \<Rightarrow> jval option) \<Rightarrow> 'n floats \<Rightarrow> commands \<Rightarrow> gpu list" where
  "amd_detect entries json L cmd =
     (let s = detect_sysfs entries in if s \<noteq> [] then s else detect_tools json L cmd)"

section \<open>The operating system\<close>

text \<open>\<open>str::find\<close> of a string: the position of its first occurrence.\<close>

fun find_sub :: "string \<Rightarrow> string \<Rightarrow> nat option" where
  "find_sub p [] = (if p = [] then Some 0 else None)"
| "find_sub p (c # s) = (if starts_with (c # s) p then Some 0 else map_option Suc (find_sub p s))"

fun hex_val :: "nat \<Rightarrow> string \<Rightarrow> nat option" where
  "hex_val acc [] = Some acc"
| "hex_val acc (c # cs) =
     (let x = of_char c :: nat
      in if 48 \<le> x \<and> x \<le> 57 then hex_val (16 * acc + (x - 48)) cs
         else if 65 \<le> x \<and> x \<le> 70 then hex_val (16 * acc + (x - 55)) cs
         else if 97 \<le> x \<and> x \<le> 102 then hex_val (16 * acc + (x - 87)) cs
         else None)"

text \<open>\<open>u16::from_str_radix\<close> with radix 16: an optional plus sign, then digits.\<close>

definition parse_hex16 :: "string \<Rightarrow> nat option" where
  "parse_hex16 s =
     (let ds = (case s of c # r \<Rightarrow> if c = CHR ''+'' then r else s | [] \<Rightarrow> s)
      in if ds = [] then None
         else (case hex_val 0 ds of Some v \<Rightarrow> if v < 2 ^ 16 then Some v else None | None \<Rightarrow> None))"

text \<open>
  The case mappings of Unicode are parameters. Four bytes are taken where the code takes four
  characters: both parse to the same number, since a character of more than one byte is no digit.
\<close>

definition vendor_id_from_pnp :: "(string \<Rightarrow> string) \<Rightarrow> string \<Rightarrow> 16 word option" where
  "vendor_id_from_pnp upper pnp =
     (let up = upper pnp
      in (case find_sub ''VEN_'' up of
            None \<Rightarrow> None
          | Some i \<Rightarrow> map_option word_of_nat (parse_hex16 (take 4 (drop (i + 4) up)))))"

definition vendor_from_pnp :: "(string \<Rightarrow> string) \<Rightarrow> string \<Rightarrow> gpu_vendor" where
  "vendor_from_pnp upper pnp =
     (case vendor_id_from_pnp upper pnp of Some i \<Rightarrow> from_pci_id i | None \<Rightarrow> Other)"

definition win32_gpu :: "(string \<Rightarrow> string) \<Rightarrow> jval \<Rightarrow> gpu option" where
  "win32_gpu upper it =
     map_option (\<lambda>name.
       (let pnp = (case Option.bind (jget ''PNPDeviceID'' it) j_str of Some p \<Rightarrow> p | None \<Rightarrow> [])
        in \<lparr>g_name = trim name,
            g_vram_bytes = (case Option.bind (jget ''AdapterRAM'' it) j_u64 of
                              Some n \<Rightarrow> if 0 < n then Some (word_of_nat n) else None | None \<Rightarrow> None),
            g_vram_used_bytes = None, g_utilization_percent = None, g_uuid = pnp,
            g_vendor = vendor_from_pnp upper pnp, g_vendor_id = vendor_id_from_pnp upper pnp\<rparr>))
     (Option.bind (jget ''Name'' it) j_str)"

definition parse_win32_video :: "(string \<Rightarrow> jval option) \<Rightarrow> (string \<Rightarrow> string) \<Rightarrow> string \<Rightarrow> gpu list" where
  "parse_win32_video json upper s =
     (case json (trim s) of
        Some (JArr a) \<Rightarrow> List.map_filter (win32_gpu upper) a
      | Some (JObj kvs) \<Rightarrow> List.map_filter (win32_gpu upper) [JObj kvs]
      | _ \<Rightarrow> [])"

definition macos_vendor :: "(string \<Rightarrow> string) \<Rightarrow> string \<Rightarrow> gpu_vendor" where
  "macos_vendor lower name =
     (let has = (\<lambda>p. find_sub p (lower name) \<noteq> None)
      in if has ''amd'' \<or> has ''radeon'' then Amd
         else if has ''nvidia'' then Nvidia
         else if has ''apple'' \<or> has ''intel'' then Intel else Other)"

definition macos_gpu :: "(string \<Rightarrow> string) \<Rightarrow> jval \<Rightarrow> gpu option" where
  "macos_gpu lower g =
     map_option (\<lambda>name.
       \<lparr>g_name = name, g_vram_bytes = None, g_vram_used_bytes = None, g_utilization_percent = None,
        g_uuid = name, g_vendor = macos_vendor lower name, g_vendor_id = None\<rparr>)
     (Option.bind (case jget ''sppci_model'' g of Some v \<Rightarrow> Some v | None \<Rightarrow> jget ''_name'' g) j_str)"

definition parse_macos_displays :: "(string \<Rightarrow> jval option) \<Rightarrow> (string \<Rightarrow> string) \<Rightarrow> string \<Rightarrow> gpu list" where
  "parse_macos_displays json lower s =
     (case Option.bind (Option.bind (json s) (jget ''SPDisplaysDataType'')) j_arr of
        Some arr \<Rightarrow> List.map_filter (macos_gpu lower) arr
      | None \<Rightarrow> [])"

section \<open>All GPUs, and the snapshot\<close>

definition detect_gpus :: "gpu list \<Rightarrow> gpu list \<Rightarrow> gpu list \<Rightarrow> gpu list" where
  "detect_gpus nv amd os =
     (let gpus = nv @ amd; covered = g_vendor ` set gpus
      in gpus @ filter (\<lambda>g. g_vendor g \<notin> covered) os)"

text \<open>The files of the host's UUID are tried in order; a file that cannot be read or is blank is skipped.\<close>

fun host_uuid :: "string option list \<Rightarrow> string option" where
  "host_uuid [] = None"
| "host_uuid (f # fs) =
     (case map_option trim f of
        Some (c # s) \<Rightarrow> Some (c # s)
      | _ \<Rightarrow> host_uuid fs)"

definition collect ::
  "gpu list \<Rightarrow> cpu option \<Rightarrow> memory_info option \<Rightarrow> string option \<Rightarrow> string option \<Rightarrow> string option \<Rightarrow> node_info" where
  "collect gpus c m host node_uuid cluster_uuid =
     \<lparr>ni_gpus = gpus, ni_cpu = c, ni_memory = m,
      ni_telemetry_valid = list_ex (\<lambda>g. g_vram_used_bytes g \<noteq> None \<or> g_utilization_percent g \<noteq> None) gpus,
      ni_ms_since = 0, ni_host_uuid = host, ni_node_uuid = node_uuid, ni_cluster_uuid = cluster_uuid\<rparr>"

text \<open>\<open>GET /v1/node-info\<close>: the path and the snapshot give the status and the body.\<close>

definition NODE_INFO :: string where "NODE_INFO = ''/v1/node-info''"

definition nodeinfo_handle :: "(node_info \<Rightarrow> bytes option) \<Rightarrow> string \<Rightarrow> string \<Rightarrow> node_info \<Rightarrow> nat \<times> bytes" where
  "nodeinfo_handle to_vec node_id path ni =
     (if path \<noteq> NODE_INFO then (404, str_bytes ''not found'')
      else (case to_vec (ni\<lparr>ni_host_uuid := Some node_id, ni_node_uuid := None\<rparr>) of
              Some b \<Rightarrow> (200, b)
            | None \<Rightarrow> (200, str_bytes ''{}'')))"

section \<open>Sums of memory sizes\<close>

lemma unat_saturating_sub: "unat (saturating_sub a b) = unat a - unat b"
  by (auto simp: saturating_sub_def unat_sub word_le_nat_alt)

lemma sum_u64_total:
  "sum_u64 chk acc xs =
     (if chk \<and> 2 ^ 64 \<le> unat acc + sum_list (map unat xs) then Panicked
      else Returned (word_of_nat (unat acc + sum_list (map unat xs))))"
proof (induction xs arbitrary: acc)
  case Nil
  have "unat acc < 2 ^ 64" using unsigned_less [of acc, where 'a = nat] by simp
  then show ?case by simp
next
  case (Cons x xs)
  show ?case
  proof (cases "2 ^ 64 \<le> unat acc + unat x")
    case True
    then show ?thesis
    proof (cases chk)
      case False
      have "(word_of_nat (unat (word_of_nat (unat acc + unat x) :: 64 word) + n) :: 64 word) =
          word_of_nat (unat acc + unat x + n)" for n
        by simp
      with False Cons.IH show ?thesis by (simp add: u64_of_def add.assoc)
    qed (simp add: u64_of_def)
  next
    case False
    have "unat (word_of_nat k :: 64 word) = k" if "k < 2 ^ 64" for k
      using that by (simp add: unat_of_nat)
    from this [of "unat acc + unat x"] False
    have "unat (word_of_nat (unat acc + unat x) :: 64 word) = unat acc + unat x" by linarith
    with False Cons.IH show ?thesis by (simp add: u64_of_def add.assoc)
  qed
qed

text \<open>The free memory of the GPUs that report both sizes, as a number.\<close>

definition total_free :: "gpu list \<Rightarrow> nat" where
  "total_free gs = (\<Sum>g \<leftarrow> gs. case (g_vram_bytes g, g_vram_used_bytes g) of
     (Some t, Some used) \<Rightarrow> unat t - unat used | _ \<Rightarrow> 0)"

lemma sum_free: "sum_list (map unat (List.map_filter free_of gs)) = total_free gs"
  by (induction gs) (auto simp: total_free_def List.map_filter_def free_of_def unat_saturating_sub split: option.split)

text \<open>
  The free memory of a node is the sum over the GPUs that report both their memory and its
  use, where a GPU that reports more in use than it has counts as full; a sum that does not fit
  in 64 bits panics in a build with overflow checks and wraps in one without.
\<close>
theorem free_vram_total:
  "free_vram_bytes chk ni =
     (if chk \<and> 2 ^ 64 \<le> total_free (ni_gpus ni) then Panicked
      else Returned (word_of_nat (total_free (ni_gpus ni))))"
  by (simp add: free_vram_bytes_def sum_u64_total sum_free)

section \<open>Reading what nvidia-smi prints\<close>

record nv_row =
  nv_uuid :: string
  nv_name :: string
  nv_total :: nat
  nv_util :: nat
  nv_used :: nat

text \<open>A field: ASCII without comma and line break that neither starts nor ends with a space.\<close>

definition field_ok :: "string \<Rightarrow> bool" where
  "field_ok s \<longleftrightarrow> s \<noteq> [] \<and> graphic (hd s) \<and> graphic (last s) \<and>
     list_all (\<lambda>c. 32 \<le> (of_char c :: nat) \<and> (of_char c :: nat) < 128 \<and> c \<noteq> CHR '','') s"

definition row_ok :: "nv_row \<Rightarrow> bool" where
  "row_ok r \<longleftrightarrow> field_ok (nv_uuid r) \<and> field_ok (nv_name r) \<and>
     nv_total r < 2 ^ 44 \<and> nv_used r < 2 ^ 44 \<and> nv_util r < 2 ^ 32"

definition csv3 :: "string \<Rightarrow> string \<Rightarrow> string \<Rightarrow> string" where
  "csv3 a b c = a @ '', '' @ b @ '', '' @ c"

definition row_gpu :: "nv_row \<Rightarrow> gpu" where
  "row_gpu r = \<lparr>g_name = nv_name r, g_vram_bytes = Some (word_of_nat (nv_total r * 2 ^ 20)),
     g_vram_used_bytes = Some (word_of_nat (nv_used r * 2 ^ 20)),
     g_utilization_percent = Some (word_of_nat (nv_util r)), g_uuid = nv_uuid r,
     g_vendor = Nvidia, g_vendor_id = Some 0x10de\<rparr>"

lemma ws_suffix_graphic_last:
  assumes "s \<noteq> []" "graphic (last s)"
  shows "ws_suffix s = 0"
proof -
  from assms obtain t c where s: "s = t @ [c]" "graphic c" by (metis append_butlast_last_id)
  then have c: "(of_char c :: nat) \<le> 126" "33 \<le> (of_char c :: nat)" by (simp_all add: graphic_def)
  have "ws_len (drop (length s - 1) s) = 0" using s by (simp add: ws_len_graphic)
  moreover have "ws_len (drop (length s - 2) s) \<noteq> 2" if "2 \<le> length s"
  proof -
    from that s obtain b where "drop (length s - 2) s = [b, c]"
      by (cases t rule: rev_cases) simp_all
    with c show ?thesis by (simp add: ws_len_def)
  qed
  moreover have "ws_len (drop (length s - 3) s) \<noteq> 3" if "3 \<le> length s"
  proof -
    from that s obtain t' a b where "t = t' @ [a, b]"
      by (cases t rule: rev_cases; cases "butlast t" rule: rev_cases) auto
    with s have "drop (length s - 3) s = [a, b, c]" by simp
    with c show ?thesis by (simp add: ws_len_def)
  qed
  ultimately show ?thesis by (simp add: ws_suffix_def)
qed

lemma trim_graphic_ends:
  assumes "s \<noteq> []" "graphic (hd s)" "graphic (last s)"
  shows "trim s = s" "trim (CHR '' '' # s) = s"
proof -
  have "ws_len s = 0" using assms by (cases s) (simp_all add: ws_len_graphic)
  then have "trim_start s = s" by (subst trim_start.simps) simp
  moreover have "trim_start (CHR '' '' # s) = trim_start s"
    by (subst trim_start.simps) (simp add: ws_len_def)
  moreover have "trim_end s = s"
    using ws_suffix_graphic_last [OF assms(1,3)] by (subst trim_end.simps) simp
  ultimately show "trim s = s" "trim (CHR '' '' # s) = s" by (simp_all add: trim_def)
qed

lemma field_okD:
  assumes "field_ok s"
  shows "trim s = s" "trim (CHR '' '' # s) = s" "CHR '','' \<notin> set s" "nl \<notin> set s" "s \<noteq> []" "last s \<noteq> cr"
    "graphic (hd s)" "graphic (last s)" "\<forall>c \<in> set s. (of_char c :: nat) < 128"
proof -
  from assms show e: "s \<noteq> []" "graphic (hd s)" "graphic (last s)" by (simp_all add: field_ok_def)
  from trim_graphic_ends [OF e] show "trim s = s" "trim (CHR '' '' # s) = s" by simp_all
  have c: "32 \<le> (of_char c :: nat) \<and> (of_char c :: nat) < 128 \<and> c \<noteq> CHR '',''" if "c \<in> set s" for c
    using assms that by (simp add: field_ok_def list_all_iff)
  from c show "CHR '','' \<notin> set s" "\<forall>c \<in> set s. (of_char c :: nat) < 128" by blast+
  show "nl \<notin> set s" using c [of nl] by (auto simp: nl_def)
  show "last s \<noteq> cr" using e(3) by (auto simp: cr_def graphic_def)
qed

lemma field_ok_nat [simp]: "field_ok (nat_str n)"
  using nat_str_digits [of n]
  by (auto simp: field_ok_def list_all_iff is_digit_def graphic_def dest: bspec [OF _ hd_in_set] bspec [OF _ last_in_set])

lemma split_csv3:
  assumes "field_ok a" "field_ok b" "field_ok c"
  shows "split_csv (csv3 a b c) = [a, b, c]" "nl \<notin> set (csv3 a b c)" "strip_cr (csv3 a b c) = csv3 a b c"
    "\<forall>x \<in> set (csv3 a b c). (of_char x :: nat) < 128"
proof -
  note a = field_okD [OF assms(1)] and b = field_okD [OF assms(2)] and c = field_okD [OF assms(3)]
  have sb: "CHR '','' \<notin> set (CHR '' '' # b)" "CHR '','' \<notin> set (CHR '' '' # c)" using b c by simp_all
  have l: "csv3 a b c = a @ CHR '','' # (CHR '' '' # b) @ CHR '','' # (CHR '' '' # c)" by (simp add: csv3_def)
  have "split_on (CHR '','') (csv3 a b c) = [a, CHR '' '' # b, CHR '' '' # c]"
    unfolding l split_on_append [OF a(3)] split_on_append [OF sb(1)] split_on_none [OF sb(2)] ..
  moreover have "trim (csv3 a b c) = csv3 a b c"
    using a c by (intro trim_graphic_ends) (simp_all add: csv3_def)
  moreover have "csv3 a b c \<noteq> []" using a by (simp add: csv3_def)
  ultimately show "split_csv (csv3 a b c) = [a, b, c]" by (simp add: split_csv_def a b c)
  show "nl \<notin> set (csv3 a b c)" "\<forall>x \<in> set (csv3 a b c). (of_char x :: nat) < 128"
    using a b c by (auto simp: csv3_def nl_def)
  have "last (csv3 a b c) \<noteq> cr" using c by (simp add: csv3_def)
  then show "strip_cr (csv3 a b c) = csv3 a b c" by (simp add: strip_cr_def)
qed

lemma mib_field_nat:
  "mib_field chk (nat_str n) =
     (if 2 ^ 64 \<le> n then Returned None
      else if chk \<and> 2 ^ 44 \<le> n then Panicked else Returned (Some (word_of_nat (n * 2 ^ 20))))"
proof (cases "2 ^ 64 \<le> n")
  case True
  obtain c t where ct: "nat_str n = c # t" by (cases "nat_str n") simp_all
  then have "c \<noteq> CHR ''+''" using nat_str_no_sign(2) by metis
  moreover have "dec_val 0 (c # t) = Some n" unfolding ct [symmetric] by (rule dec_val_nat_str)
  ultimately have "parse_uint (2 ^ 64 - 1) (nat_str n) = None"
    using True by (simp add: parse_uint_def ct del: dec_val.simps)
  with True show ?thesis by (simp add: mib_field_def)
next
  case False
  then have "parse_uint (2 ^ 64 - 1) (nat_str n) = Some n" by (intro parse_uint_nat_str) simp
  moreover have "2 ^ 64 \<le> n * MIB \<longleftrightarrow> 2 ^ 44 \<le> n" by (simp add: MIB_def)
  ultimately show ?thesis using False by (simp add: mib_field_def u64_of_def MIB_def)
qed

lemma static_rows_ok:
  "list_all row_ok rows \<Longrightarrow>
   static_rows chk (map (\<lambda>r. csv3 (nv_uuid r) (nv_name r) (nat_str (nv_total r))) rows) =
     Returned (map (\<lambda>r. (row_gpu r)\<lparr>g_vram_used_bytes := None, g_utilization_percent := None\<rparr>) rows)"
  by (induction rows) (simp_all add: row_ok_def split_csv3 mib_field_nat row_gpu_def)

lemma dynamic_rows_ok:
  "list_all row_ok rows \<Longrightarrow>
   dynamic_rows chk (map (\<lambda>r. csv3 (nv_uuid r) (nat_str (nv_util r)) (nat_str (nv_used r))) rows) m =
     Returned (foldl (\<lambda>m (k, v). hm_insert k v m) m
       (map (\<lambda>r. (nv_uuid r, (g_utilization_percent (row_gpu r), g_vram_used_bytes (row_gpu r)))) rows))"
  by (induction rows arbitrary: m)
     (simp_all add: row_ok_def split_csv3 mib_field_nat row_gpu_def parse_uint_nat_str)

text \<open>What the two queries print for a list of GPUs, one line each.\<close>

definition static_out :: "nv_row list \<Rightarrow> string" where
  "static_out rows = pem_lines (map (\<lambda>r. csv3 (nv_uuid r) (nv_name r) (nat_str (nv_total r))) rows)"

definition dynamic_out :: "nv_row list \<Rightarrow> string" where
  "dynamic_out rows = pem_lines (map (\<lambda>r. csv3 (nv_uuid r) (nat_str (nv_util r)) (nat_str (nv_used r))) rows)"

definition line_ok :: "string \<Rightarrow> bool" where
  "line_ok l \<longleftrightarrow> nl \<notin> set l \<and> strip_cr l = l \<and> (\<forall>c \<in> set l. (of_char c :: nat) < 128)"

lemma csv3_line_ok: "field_ok a \<Longrightarrow> field_ok b \<Longrightarrow> field_ok c \<Longrightarrow> line_ok (csv3 a b c)"
  using split_csv3(2-4) [of a b c] by (simp add: line_ok_def)

lemma lines_read:
  assumes "\<forall>l \<in> set ls. line_ok l"
  shows "str_lines (pem_lines ls) = ls" "from_utf8_lossy (str_bytes (pem_lines ls)) = pem_lines ls"
proof -
  have "map strip_cr ls = ls" using assms by (simp add: map_idI line_ok_def)
  with str_lines_pem [of ls "[]"] assms show "str_lines (pem_lines ls) = ls" by (simp add: str_lines_def line_ok_def)
  have "\<forall>c \<in> set (pem_lines ls). (of_char c :: nat) < 128"
    using assms by (auto simp: pem_lines_def nl_def line_ok_def)
  then have "utf8_valid (str_bytes (pem_lines ls))"
    by (intro utf8_valid_ascii) (auto simp: str_bytes_def unat_of_nat)
  then show "from_utf8_lossy (str_bytes (pem_lines ls)) = pem_lines ls"
    by (simp add: from_utf8_lossy_def utf8_lossy_valid)
qed

lemma parse_static_out:
  assumes "list_all row_ok rows"
  shows "from_utf8_lossy (str_bytes (static_out rows)) = static_out rows"
    "parse_static chk (static_out rows) =
      Returned (map (\<lambda>r. (row_gpu r)\<lparr>g_vram_used_bytes := None, g_utilization_percent := None\<rparr>) rows)"
proof -
  have ok: "\<forall>l \<in> set (map (\<lambda>r. csv3 (nv_uuid r) (nv_name r) (nat_str (nv_total r))) rows).
      line_ok l" using assms by (auto simp: list_all_iff row_ok_def intro!: csv3_line_ok)
  from lines_read [OF ok] static_rows_ok [OF assms, of chk]
  show "from_utf8_lossy (str_bytes (static_out rows)) = static_out rows"
    "parse_static chk (static_out rows) =
      Returned (map (\<lambda>r. (row_gpu r)\<lparr>g_vram_used_bytes := None, g_utilization_percent := None\<rparr>) rows)"
    by (simp_all add: static_out_def parse_static_def)
qed

lemma parse_dynamic_out:
  assumes "list_all row_ok rows"
  shows "from_utf8_lossy (str_bytes (dynamic_out rows)) = dynamic_out rows"
    "parse_dynamic chk (dynamic_out rows) = Returned (foldl (\<lambda>m (k, v). hm_insert k v m) []
       (map (\<lambda>r. (nv_uuid r, (g_utilization_percent (row_gpu r), g_vram_used_bytes (row_gpu r)))) rows))"
proof -
  have ok: "\<forall>l \<in> set (map (\<lambda>r. csv3 (nv_uuid r) (nat_str (nv_util r)) (nat_str (nv_used r))) rows).
      line_ok l" using assms by (auto simp: list_all_iff row_ok_def intro!: csv3_line_ok)
  from lines_read [OF ok] dynamic_rows_ok [OF assms, of chk "[]"]
  show "from_utf8_lossy (str_bytes (dynamic_out rows)) = dynamic_out rows"
    "parse_dynamic chk (dynamic_out rows) = Returned (foldl (\<lambda>m (k, v). hm_insert k v m) []
       (map (\<lambda>r. (nv_uuid r, (g_utilization_percent (row_gpu r), g_vram_used_bytes (row_gpu r)))) rows))"
    by (simp_all add: dynamic_out_def parse_dynamic_def)
qed

text \<open>
  The inventory of NVIDIA GPUs is what \<open>nvidia-smi\<close> prints: for any list of GPUs with distinct
  UUIDs, the two queries give each GPU its name, its memory and the memory in use in bytes, and
  its utilization.
\<close>
theorem nvidia_reads_rows:
  assumes "list_all row_ok rows" "distinct (map nv_uuid rows)"
    and "cmd ''nvidia-smi'' [''--query-gpu=uuid,name,memory.total'', ''--format=csv,noheader,nounits''] =
      Some (True, str_bytes (static_out rows))"
    and "cmd ''nvidia-smi'' [''--query-gpu=uuid,utilization.gpu,memory.used'', ''--format=csv,noheader,nounits''] =
      Some (True, str_bytes (dynamic_out rows))"
  shows "nvidia_detect chk cmd = Returned (map row_gpu rows)"
proof -
  let ?ps = "map (\<lambda>r. (nv_uuid r, (g_utilization_percent (row_gpu r), g_vram_used_bytes (row_gpu r)))) rows"
  have d: "distinct (map fst ?ps)" using assms(2) by (simp add: comp_def)
  have "hm_get (foldl (\<lambda>m (k, v). hm_insert k v m) [] ?ps) (nv_uuid r) =
      Some (g_utilization_percent (row_gpu r), g_vram_used_bytes (row_gpu r))" if "r \<in> set rows" for r
  proof -
    from that d have "map_of ?ps (nv_uuid r) = Some (g_utilization_percent (row_gpu r), g_vram_used_bytes (row_gpu r))"
      by (intro map_of_is_SomeI) (auto simp: image_iff)
    then show ?thesis by (simp add: hm_insert_all_get [OF d])
  qed
  then have "merge_gpus (map (\<lambda>r. (row_gpu r)\<lparr>g_vram_used_bytes := None, g_utilization_percent := None\<rparr>) rows)
      (foldl (\<lambda>m (k, v). hm_insert k v m) [] ?ps) = map row_gpu rows"
    by (simp add: merge_gpus_def row_gpu_def)
  with parse_static_out [OF assms(1)] parse_dynamic_out [OF assms(1)] assms(3,4) show ?thesis
    by (simp add: nvidia_detect_def run_command_def)
qed

definition demo_row :: nv_row where
  "demo_row = \<lparr>nv_uuid = ''GPU-1'', nv_name = ''RTX 4090'', nv_total = 24564, nv_util = 55, nv_used = 8000\<rparr>"

theorem nvidia_reads_rows_witness:
  "nvidia_detect True (\<lambda>b args. Some (True, str_bytes (if args = [''--query-gpu=uuid,name,memory.total'', ''--format=csv,noheader,nounits'']
      then static_out [demo_row] else dynamic_out [demo_row]))) = Returned [row_gpu demo_row]"
proof -
  have "list_all row_ok [demo_row]" "distinct (map nv_uuid [demo_row])"
    by (simp_all add: row_ok_def demo_row_def field_ok_def graphic_def)
  from nvidia_reads_rows [OF this, of "\<lambda>b args. Some (True, str_bytes (if args = [''--query-gpu=uuid,name,memory.total'',
      ''--format=csv,noheader,nounits''] then static_out [demo_row] else dynamic_out [demo_row]))" True]
  show ?thesis by simp
qed

end
