(* ===== verification/Pairing_Run.thy ===== *)
theory Pairing_Run
  imports Http
begin

text \<open>
  Two nodes that pair with each other over HTTP, from the invitation to the pinned
  certificates: every request that one node's driver posts is handled by the other node.
\<close>

section \<open>A network of two nodes\<close>

text \<open>The address reaches the other node's server; a handler that panics drops the connection.\<close>

definition node_net :: "cluster_env \<Rightarrow> 't sink \<Rightarrow> entropy \<Rightarrow> string \<Rightarrow> ('t node, 'u) net" where
  "node_net X K rnd here addr body st =
     (if addr \<noteq> here then (st, Inl ''connection refused'')
      else (case http_handle X K rnd PAIRING_PATH ''POST'' (Some body) (fst st) of
              (nd, Returned r) \<Rightarrow> ((nd, snd st), Inr r)
            | (nd, _) \<Rightarrow> ((nd, snd st), Inl ''connection closed'')))"

lemma post_handled:
  assumes "codec_ok X" "handle_request X K rnd env nd = (nd', Returned (reply_ok e))"
  shows "post_pairing X (node_net X K rnd addr) addr env (nd, me) = ((nd', me), Inr e)"
proof -
  obtain b c where "env_to (cj X) env = Some b" "env_of (cj X) b = Inr env"
    "env_to (cj X) e = Some c" "env_of (cj X) c = Inr e"
    using codec_okD(6) [OF assms(1)] by metis
  with assms(2) show ?thesis by (simp add: post_pairing_def node_net_def http_handle_def)
qed

section \<open>The invitation\<close>

lemma run_joiner_replies:
  assumes "joiner_on_initial X rnd (nd_jheap nd ! a) (blob X env) = (j, Returned (Inr out))"
  shows "run_joiner X rnd env a nd =
    (nd\<lparr>nd_jheap := (nd_jheap nd)[a := j]\<rparr>,
     Returned (reply_ok (with_msg X (e_invite_id env) INITIAL out),
       if p_state (j_peer j) = Waiting then map_option (pending_of (e_invite_id env)) (j_inviter j) else None))"
  using assms by (simp add: run_joiner_def)

lemma initial_known:
  assumes "codec_ok X" "iid \<noteq> []" "hm_get (nd_joiners nd) iid = Some a"
    and "joiner_on_initial X rnd (nd_jheap nd ! a) msg = (j, Returned (Inr out))"
  shows "handle_request X K rnd (with_msg X iid INITIAL msg) nd =
    (note_pending (if p_state (j_peer j) = Waiting then map_option (pending_of iid) (j_inviter j) else None)
       (nd\<lparr>nd_jheap := (nd_jheap nd)[a := j]\<rparr>),
     Returned (reply_ok (with_msg X iid INITIAL out)))"
  using assms run_joiner_replies [of X rnd nd a "with_msg X iid INITIAL msg" j out]
  by (simp add: handle_request_def on_initial_request_def find_joiner_def)

lemma initial_new:
  assumes "codec_ok X" "iid \<noteq> []" "hm_get (nd_joiners nd) iid = None" "\<not> is_clustered K (nd_trust nd)"
    and "first_type_of (cj X) msg = Some 1"
    and "joiner_on_initial X rnd (joiner_new X (profile_info X (nd_profile nd) None)) msg = (j, Returned (Inr out))"
    and "p_state (j_peer j) \<noteq> Waiting"
  shows "handle_request X K rnd (with_msg X iid INITIAL msg) nd =
    (nd\<lparr>nd_jheap := nd_jheap nd @ [j], nd_joiners := hm_insert iid (length (nd_jheap nd)) (nd_joiners nd)\<rparr>,
     Returned (reply_ok (with_msg X iid INITIAL out)))"
proof -
  let ?nd = "nd\<lparr>nd_jheap := nd_jheap nd @ [joiner_new X (profile_info X (nd_profile nd) None)],
      nd_joiners := hm_insert iid (length (nd_jheap nd)) (nd_joiners nd)\<rparr>"
  have "find_joiner X K (with_msg X iid INITIAL msg) nd = (?nd, Inr (length (nd_jheap nd)))"
    using assms(1-5) by (simp add: find_joiner_def)
  moreover have "run_joiner X rnd (with_msg X iid INITIAL msg) (length (nd_jheap nd)) ?nd =
      (?nd\<lparr>nd_jheap := (nd_jheap ?nd)[length (nd_jheap nd) := j]\<rparr>,
       Returned (reply_ok (with_msg X iid INITIAL out), None))"
    using run_joiner_replies [of X rnd ?nd "length (nd_jheap nd)" "with_msg X iid INITIAL msg" j out] assms(1,6,7)
    by simp
  ultimately show ?thesis
    using assms(2) by (simp add: handle_request_def on_initial_request_def note_pending_def)
qed

lemma joiner_replies:
  assumes "peer_receive (ce X) rnd (j_peer j) msg = (p, Returned (send_outcome (ce X) w))"
    and "p_state p \<noteq> Waiting"
  shows "joiner_on_initial X rnd j msg = (j\<lparr>j_peer := p\<rparr>, Returned (Inr (wire_bytes (ce X) w)))"
  using assms by (simp add: joiner_on_initial_def)

lemma joiner_captures:
  assumes "codec_ok X" "peer_receive (ce X) rnd (j_peer j) msg = (p, Returned (send_outcome (ce X) w))"
    and "p_state p = Waiting" "j_inviter j = None"
    and "peer_server_info p = pi_to (cj X) pi" "pi_valid X pi der"
  shows "joiner_on_initial X rnd j msg =
    (j\<lparr>j_peer := p, j_inviter := Some \<lparr>pid_info = pi, pid_cert = der\<rparr>\<rparr>, Returned (Inr (wire_bytes (ce X) w)))"
proof -
  have "pi_to (cj X) pi \<noteq> []"
    using raw_ok_frag [OF codec_okD(1,4) [OF assms(1)]] assms(1) by (auto simp: json_frag_def)
  with assms parse_own [OF assms(1,6)] show ?thesis by (simp add: joiner_on_initial_def)
qed

lemma inviter_step:
  "srv_receive (ce X) rnd (v_server v) msg = (s, Returned out) \<Longrightarrow>
   inviter_on_initial X rnd v msg = (v\<lparr>v_server := s\<rparr>, Returned (step_of out))"
  by (simp add: inviter_on_initial_def)

lemma invite_loop_go:
  assumes "post_pairing X N addr (with_msg X iid INITIAL msg) st = (st1, Inr resp)" "\<not> e_rejected resp"
    and "srv_receive (ce X) (rnd i) (v_server v) (blob X resp) = (s, Returned (send_outcome (ce X) w))"
  shows "invite_loop X N rnd addr iid i msg v st =
    invite_loop X N rnd addr iid (Suc i) (wire_bytes (ce X) w) (v\<lparr>v_server := s\<rparr>) st1"
  using assms by (subst invite_loop.simps) (simp add: inviter_step)

lemma invite_loop_end:
  assumes "post_pairing X N addr (with_msg X iid INITIAL msg) st = (st1, Inr resp)" "\<not> e_rejected resp"
    and "srv_receive (ce X) (rnd i) (v_server v) (blob X resp) = (s, Returned (srv_done_failure (ce X)))"
  shows "invite_loop X N rnd addr iid i msg v st = Some (st1, Returned (Inr (v\<lparr>v_server := s\<rparr>)))"
  using assms by (subst invite_loop.simps)
    (simp add: inviter_step srv_done_failure_def default_outcome_def)

text \<open>The two nodes after the invitation.\<close>

definition invited_joiner :: "cluster_env \<Rightarrow> entropy \<Rightarrow> entropy \<Rightarrow> entropy \<Rightarrow> pairing_info \<Rightarrow> bytes \<Rightarrow>
    pairing_info \<Rightarrow> bytes \<Rightarrow> joiner" where
  "invited_joiner X rs rs2 rp pia dera pib z =
     \<lparr>j_peer = peer2 (ce X) rs rs2 rp (pi_to (cj X) pia) (pi_to (cj X) pib) z,
      j_inviter = Some \<lparr>pid_info = pia, pid_cert = dera\<rparr>\<rparr>"

definition waiting_inviter :: "cluster_env \<Rightarrow> entropy \<Rightarrow> entropy \<Rightarrow> entropy \<Rightarrow> pairing_info \<Rightarrow>
    pairing_info \<Rightarrow> bytes \<Rightarrow> inviter" where
  "waiting_inviter X rs rs2 rp pia pib z =
     \<lparr>v_server = server3 (ce X) rs rs2 rp (pi_to (cj X) pia) (pi_to (cj X) pib) z, v_joiner = None\<rparr>"

definition invited_node :: "string \<Rightarrow> joiner \<Rightarrow> pairing_info \<Rightarrow> bytes \<Rightarrow> 't node \<Rightarrow> 't node" where
  "invited_node iid j pia dera nd =
     nd\<lparr>nd_jheap := nd_jheap nd @ [j], nd_joiners := hm_insert iid (length (nd_jheap nd)) (nd_joiners nd),
        nd_pending := hm_insert iid (pending_of iid \<lparr>pid_info = pia, pid_cert = dera\<rparr>) (nd_pending nd)\<rparr>"

lemma invite_loop_run:
  assumes X: "codec_ok X" and iid: "iid \<noteq> []" and new: "hm_get (nd_joiners b) iid = None"
    and free: "\<not> is_clustered K (nd_trust b)"
    and pib: "pib = profile_info X (nd_profile b) None" and valid: "pi_valid X pia dera"
  obtains z where
    "invite_loop X (node_net X K rb addr) rnd addr iid 0 (inviter_start X (inviter_new X pia)) (inviter_new X pia) (b, a) =
     Some ((invited_node iid (invited_joiner X (rnd 0) (rnd 1) rb pia dera pib z) pia dera b, a),
       Returned (Inr (waiting_inviter X (rnd 0) (rnd 1) rb pia pib z)))"
proof -
  let ?E = "ce X" and ?si = "pi_to (cj X) pia" and ?pi = "pi_to (cj X) pib" and ?k = "length (nd_jheap b)"
  let ?N = "node_net X K rb addr" and ?s0 = "with_server_info server_new (pi_to (cj X) pia)"
    and ?p0 = "with_peer_info peer_new (pi_to (cj X) pib)"
  note js = codec_okD(1) [OF X] and cr = codec_okD(2) [OF X] and ok = codec_okD(4) [OF X]
  obtain z where z:
    "compute_z (cr ?E) (generate (cr ?E) P256 (ent_key (rnd 1)))
       (public_jwk (generate (cr ?E) P256 (ent_key rb))) = Inr z"
    "compute_z (cr ?E) (generate (cr ?E) P256 (ent_key rb))
       (public_jwk (generate (cr ?E) P256 (ent_key (rnd 1)))) = Inr z"
    using same_suite_agree [OF cr] by blast
  let ?j0 = "joiner_new X pib"
  let ?b1 = "b\<lparr>nd_jheap := nd_jheap b @ [?j0], nd_joiners := hm_insert iid ?k (nd_joiners b)\<rparr>"
  let ?j1 = "\<lparr>j_peer = peer1 ?E (rnd 0) ?si ?pi, j_inviter = None\<rparr>"
  let ?b2 = "b\<lparr>nd_jheap := nd_jheap b @ [?j1], nd_joiners := hm_insert iid ?k (nd_joiners b)\<rparr>"
  let ?v0 = "inviter_new X pia"
  have j0: "j_peer ?j0 = ?p0" "j_inviter ?j0 = None" by (simp_all add: joiner_new_def)
  have w1: "wire_ok (js ?E) (empty_wire\<lparr>w_type := Some 1\<rparr>)"
    by (simp add: wire_ok_def raw_fields_def int_fields_def)
  have first: "first_type_of (cj X) (srv_start ?E ?s0) = Some 1"
    using codec_okD(5) [OF X wire_of_bytes [OF js w1]] by (simp add: srv_start_def)
  have post1: "post_pairing X ?N addr (with_msg X iid INITIAL (srv_start ?E ?s0)) (b, a) =
      ((?b1, a), Inr (with_msg X iid INITIAL (wire_bytes ?E (type1_response ?E ?p0))))"
  proof (rule post_handled [OF X], rule initial_new [where j = ?j0 and out = "wire_bytes ?E (type1_response ?E ?p0)", OF X iid new free first])
    show "joiner_on_initial X rb (joiner_new X (profile_info X (nd_profile b) None)) (srv_start ?E ?s0) =
        (?j0, Returned (Inr (wire_bytes ?E (type1_response ?E ?p0))))"
      using joiner_replies [of X rb ?j0 "srv_start ?E ?s0" ?p0] peer_gets_discovery [OF js] j0 pib
      by (simp add: joiner_new_def)
  qed (simp add: j0)
  have srv1: "srv_receive ?E (rnd 0) ?s0 (wire_bytes ?E (type1_response ?E ?p0)) =
      (server1 ?E (rnd 0) ?si, Returned (send_outcome ?E (type2_request ?E (rnd 0) ?s0)))"
    using round1 [OF js ok [of pia], of "rnd 0" rb ?s0 ?pi] by (simp add: machine_round_def peer_gets_discovery [OF js] split: prod.splits)
  let ?w2 = "type2_response ?E ?p0 (new_peer_id ?E (rnd 0)) 1 2 2"
  have post2: "post_pairing X ?N addr (with_msg X iid INITIAL (wire_bytes ?E (type2_request ?E (rnd 0) ?s0))) (?b1, a) =
      ((?b2, a), Inr (with_msg X iid INITIAL (wire_bytes ?E ?w2)))"
  proof (rule post_handled [OF X])
    have "joiner_on_initial X rb (nd_jheap ?b1 ! ?k) (wire_bytes ?E (type2_request ?E (rnd 0) ?s0)) =
        (?j1, Returned (Inr (wire_bytes ?E ?w2)))"
      using joiner_replies [of X rb ?j0 _ "peer1 ?E (rnd 0) ?si ?pi"] peer_gets_type2 [OF js ok [of pia] ok [of pib]] j0
      by (simp add: joiner_new_def peer1_def)
    from initial_known [OF X iid _ this] show
      "handle_request X K rb (with_msg X iid INITIAL (wire_bytes ?E (type2_request ?E (rnd 0) ?s0))) ?b1 =
        (?b2, Returned (reply_ok (with_msg X iid INITIAL (wire_bytes ?E ?w2))))"
      by (simp add: hm_simps peer1_def note_pending_def)
  qed
  let ?kp = "generate (cr ?E) P256 (ent_key (rnd 1))" and ?kj = "generate (cr ?E) P256 (ent_key rb)"
  let ?m3 = "wire_bytes ?E (type3_request ?E (server1 ?E (rnd 0) ?si) ?kp (ent_nonce (rnd 1)))"
  let ?r3 = "wire_bytes ?E (type3_response ?E (peer1 ?E (rnd 0) ?si ?pi) ?kj (ent_nonce rb))"
  let ?j2 = "invited_joiner X (rnd 0) (rnd 1) rb pia dera pib z"
  have post3: "post_pairing X ?N addr (with_msg X iid INITIAL ?m3) (?b2, a) =
      ((invited_node iid ?j2 pia dera b, a), Inr (with_msg X iid INITIAL ?r3))"
  proof (rule post_handled [OF X])
    have "joiner_on_initial X rb (nd_jheap ?b2 ! ?k) ?m3 = (?j2, Returned (Inr ?r3))"
      using joiner_captures [of X rb ?j1, OF X _ _ _ _ valid] peer_gets_type3 [OF js cr z(2)] run_infos(2)
      by (simp add: invited_joiner_def peer2_def Let_def)
    from initial_known [OF X iid _ this] show
      "handle_request X K rb (with_msg X iid INITIAL ?m3) ?b2 =
        (invited_node iid ?j2 pia dera b, Returned (reply_ok (with_msg X iid INITIAL ?r3)))"
      by (simp add: hm_simps invited_node_def invited_joiner_def peer2_def Let_def note_pending_def pending_of_def)
  qed
  show thesis
  proof (rule that)
    have v0: "v_server ?v0 = ?s0" "v_joiner ?v0 = None" by (simp_all add: inviter_new_def)
    let ?v1 = "?v0\<lparr>v_server := server1 ?E (rnd 0) ?si\<rparr>"
    let ?v2 = "?v1\<lparr>v_server := server2 ?E (rnd 0) (rnd 1) ?si ?pi\<rparr>"
    have "invite_loop X ?N rnd addr iid 0 (srv_start ?E ?s0) ?v0 (b, a) =
      invite_loop X ?N rnd addr iid 1 (wire_bytes ?E (type2_request ?E (rnd 0) ?s0)) ?v1 (?b1, a)"
      using invite_loop_go [OF post1, of rnd 0 ?v0] srv1 v0 X by simp
    also have "\<dots> = invite_loop X ?N rnd addr iid 2 ?m3 ?v2 (?b2, a)"
      using invite_loop_go [OF post2, of rnd 1 ?v1] server_gets_type2 [OF js ok [of pib], of "rnd 1" "rnd 0" ?si] X
      by (simp add: numeral_2_eq_2)
    also have "\<dots> = Some ((invited_node iid ?j2 pia dera b, a),
        Returned (Inr (?v2\<lparr>v_server := server3 ?E (rnd 0) (rnd 1) rb ?si ?pi z\<rparr>)))"
      using invite_loop_end [OF post3, of rnd 2 ?v2] server_gets_type3 [OF js cr z(1)] X by simp
    finally show "invite_loop X ?N rnd addr iid 0 (inviter_start X ?v0) ?v0 (b, a) =
     Some ((invited_node iid ?j2 pia dera b, a), Returned (Inr (waiting_inviter X (rnd 0) (rnd 1) rb pia pib z)))"
      using v0 by (simp add: inviter_start_def waiting_inviter_def)
  qed
qed

end
