(* ===== verification/Pairing_End.thy ===== *)
theory Pairing_End
  imports Pairing_Run Sink
begin

text \<open>
  The completion between two nodes and the pairing end to end: the right PIN pins both
  certificates with one key, a wrong PIN pins nothing.
\<close>

section \<open>The joiner's rounds\<close>

lemma rounds_go:
  assumes "peer_receive (ce X) (rnd i) (j_peer (nd_jheap (snd st) ! a)) (blob X resp) = (p, Returned (send_outcome (ce X) w))"
    and "post_pairing X N addr (with_msg X iid COMPLETION (wire_bytes (ce X) w))
           (put_joiner a ((nd_jheap (snd st) ! a)\<lparr>j_peer := p\<rparr>) st) = (st', Inr resp')"
  shows "completion_rounds X N rnd addr iid a i resp st = completion_rounds X N rnd addr iid a (Suc i) resp' st'"
  using assms by (subst completion_rounds.simps) (simp add: joiner_on_completion_def Let_def)

lemma rounds_success:
  assumes "peer_receive (ce X) (rnd i) (j_peer (nd_jheap (snd st) ! a)) (blob X resp) = (p, Returned out)"
    and "o_done out" "o_success out" "p_assoc p = Some asc" "j_inviter (nd_jheap (snd st) ! a) = Some who"
  shows "completion_rounds X N rnd addr iid a i resp st =
    Some (put_joiner a ((nd_jheap (snd st) ! a)\<lparr>j_peer := p\<rparr>) st, Returned (Inr (paired_of who asc)))"
  using assms by (subst completion_rounds.simps) (simp add: joiner_on_completion_def joiner_association_def Let_def)

lemma rounds_wrong_pin:
  assumes "peer_receive (ce X) (rnd i) (j_peer (nd_jheap (snd st) ! a)) (blob X resp) =
      (p, Returned (peer_error_outcome UNRECOGNIZED_OOB_MSG_ID t))"
    and "post_pairing X N addr (signal iid FAIL INCORRECT_PIN)
           (put_joiner a ((nd_jheap (snd st) ! a)\<lparr>j_peer := p\<rparr>) st) = (st', q)"
  shows "completion_rounds X N rnd addr iid a i resp st =
    Some (forget_joiner iid st', Returned (Inl (CompletionFailed True
      (peer_error_msg UNRECOGNIZED_OOB_MSG_ID t))))"
  using assms by (subst completion_rounds.simps)
    (simp add: joiner_on_completion_def Let_def UNRECOGNIZED_OOB_MSG_ID_def)

lemma put_joiner_same:
  "j_peer (nd_jheap (snd st) ! a) = p \<Longrightarrow> put_joiner a ((nd_jheap (snd st) ! a)\<lparr>j_peer := p\<rparr>) st = st"
proof -
  have "j\<lparr>j_peer := j_peer j\<rparr> = j" for j :: joiner by (cases j) simp
  moreover have "nd\<lparr>nd_jheap := nd_jheap nd\<rparr> = nd" for nd :: "'t node" by (cases nd) simp
  ultimately show "j_peer (nd_jheap (snd st) ! a) = p \<Longrightarrow> ?thesis" by (cases st) (auto simp: put_joiner_def)
qed

text \<open>
  The first two rounds after the kickoff: the joiner says that it has a Noob, the inviter asks
  for its NoobId, and compares it.
\<close>

lemma rounds_start:
  assumes X: "codec_ok X" and iid: "iid \<noteq> []"
    and ia: "hm_get (nd_inviters A) iid = Some ia" "ia < length (nd_iheap A)"
    and srv: "v_server (nd_iheap A ! ia) = with_noob (ce X) ns s"
    and ja: "ja < length (nd_jheap B)" and pr: "j_peer (nd_jheap B ! ja) = peer_with_noob (ce X) np p"
    and sync: "synced s p" and len: "length ns = 16" "length np = 16"
    and nextm: "srv_receive (ce X) ra (server_heard (ce X) (with_noob (ce X) ns s) (peer_with_noob (ce X) np p))
        (wire_bytes (ce X) (type5_response (ce X) (m_peer_id (p_m p))
           (compute_noob_id (cr (ce X)) (jstr (ce X) (b64 (ce X) np))))) = (s', Returned out)"
      "s_state s' \<noteq> Registered" "\<not> o_success out"
  shows "completion_rounds X (node_net X K ra addr) rnd addr iid ja 0
      (with_msg X iid COMPLETION (srv_start (ce X) s0)) (A, B) =
    completion_rounds X (node_net X K ra addr) rnd addr iid ja 2
      (with_msg X iid COMPLETION (case o_send out of Some b \<Rightarrow> b | None \<Rightarrow> []))
      (A\<lparr>nd_iheap := (nd_iheap A)[ia := (nd_iheap A ! ia)\<lparr>v_server := s'\<rparr>]\<rparr>, B)"
proof -
  let ?E = "ce X" and ?s = "with_noob (ce X) ns s" and ?p = "peer_with_noob (ce X) np p"
  let ?s1 = "server_heard ?E ?s ?p" and ?v = "nd_iheap A ! ia"
  let ?N = "node_net X K ra addr"
  let ?A1 = "A\<lparr>nd_iheap := (nd_iheap A)[ia := ?v\<lparr>v_server := ?s1\<rparr>]\<rparr>"
  note js = codec_okD(1) [OF X] and cr = codec_okD(2) [OF X]
  have ne: "m_noob (s_m ?s) \<noteq> []" "m_noob (p_m ?p) \<noteq> []" and st: "s_state ?s = Waiting"
    using len sync by (auto simp: synced_def)
  have h1: "handle_request X K ra (with_msg X iid COMPLETION (wire_bytes ?E (type1_response ?E ?p))) A =
      (?A1, Returned (reply_ok (with_msg X iid COMPLETION (wire_bytes ?E (type5_request ?E (m_peer_id (s_m ?s)))))))"
    using completion_step [OF X iid ia(1) wire_bytes_not_Nil [OF X messages_ok(1) [OF js]]]
      server_gets_oob_received [OF js st ne(1), of ?p ra] srv st by simp
  have ia1: "hm_get (nd_inviters ?A1) iid = Some ia" "v_server (nd_iheap ?A1 ! ia) = ?s1"
    using ia by simp_all
  have "completion_rounds X ?N rnd addr iid ja 0 (with_msg X iid COMPLETION (srv_start ?E s0)) (A, B) =
      completion_rounds X ?N rnd addr iid ja 1
        (with_msg X iid COMPLETION (wire_bytes ?E (type5_request ?E (m_peer_id (s_m ?s))))) (?A1, B)"
    using rounds_go [where X = X and N = ?N and rnd = rnd and addr = addr and iid = iid and a = ja and
        i = 0 and st = "(A, B)" and p = ?p and w = "type1_response ?E ?p" and
        resp = "with_msg X iid COMPLETION (srv_start ?E s0)" and st' = "(?A1, B)" and
        resp' = "with_msg X iid COMPLETION (wire_bytes ?E (type5_request ?E (m_peer_id (s_m ?s))))"] pr
      peer_gets_discovery [OF js] put_joiner_same [of "(A, B)" ja ?p] post_handled [OF X h1, of addr B] X by simp
  also have "\<dots> = completion_rounds X ?N rnd addr iid ja 2
      (with_msg X iid COMPLETION (case o_send out of Some b \<Rightarrow> b | None \<Rightarrow> []))
      (A\<lparr>nd_iheap := (nd_iheap A)[ia := ?v\<lparr>v_server := s'\<rparr>]\<rparr>, B)"
  proof -
    let ?m = "wire_bytes ?E (type5_response ?E (m_peer_id (p_m ?p)) (m_noob_id (p_m ?p)))"
    have "handle_request X K ra (with_msg X iid COMPLETION ?m) ?A1 =
      (A\<lparr>nd_iheap := (nd_iheap A)[ia := ?v\<lparr>v_server := s'\<rparr>]\<rparr>,
       Returned (reply_ok (with_msg X iid COMPLETION (case o_send out of Some b \<Rightarrow> b | None \<Rightarrow> []))))"
      using completion_step [OF X iid ia1(1) wire_bytes_not_Nil [OF X completion_messages_ok(2) [OF js]]]
        nextm ia by simp
    from post_handled [OF X this, of addr B] show ?thesis
      using rounds_go [where X = X and N = ?N and rnd = rnd and addr = addr and iid = iid and a = ja and
          i = 1 and st = "(?A1, B)" and p = ?p and
          w = "type5_response ?E (m_peer_id (p_m ?p)) (m_noob_id (p_m ?p))" and
          resp = "with_msg X iid COMPLETION (wire_bytes ?E (type5_request ?E (m_peer_id (s_m ?s))))" and
          st' = "(A\<lparr>nd_iheap := (nd_iheap A)[ia := ?v\<lparr>v_server := s'\<rparr>]\<rparr>, B)" and
          resp' = "with_msg X iid COMPLETION (case o_send out of Some b \<Rightarrow> b | None \<Rightarrow> [])"] pr X
        peer_gets_type5 [OF js ne(2)] put_joiner_same [of "(?A1, B)" ja ?p] by (simp add: numeral_2_eq_2)
  qed
  finally show ?thesis .
qed

section \<open>The right PIN\<close>

text \<open>What both nodes pin: the identity of the other side and the common key.\<close>

definition pinned_as :: "pairing_info \<Rightarrow> bytes \<Rightarrow> bytes \<Rightarrow> 8 word \<Rightarrow> paired" where
  "pinned_as pi der key cs = \<lparr>pd_peer = pi, pd_peer_cert = der, pd_kz = key, pd_cryptosuitep = cs\<rparr>"

lemma rounds_right:
  assumes X: "codec_ok X" and iid: "iid \<noteq> []"
    and ia: "hm_get (nd_inviters A) iid = Some ia" "ia < length (nd_iheap A)"
    and srv: "nd_iheap A ! ia = \<lparr>v_server = with_noob (ce X) ns s, v_joiner = None\<rparr>"
    and ja: "ja < length (nd_jheap B)"
    and pr: "nd_jheap B ! ja = \<lparr>j_peer = peer_with_noob (ce X) ns p, j_inviter = Some \<lparr>pid_info = pia, pid_cert = dera\<rparr>\<rparr>"
    and sync: "synced s p" and len: "length ns = 16"
    and pib: "server_peer_info s = pi_to (cj X) pib" "pi_valid X pib derb"
    and k: "derive_completion (cr (ce X)) (m_z (p_m p)) (m_np (p_m p)) (m_ns (p_m p)) ns = Returned k"
  shows "\<exists>A' B'. completion_rounds X (node_net X K ra addr) rnd addr iid ja 0
      (with_msg X iid COMPLETION (srv_start (ce X) s0)) (A, B) =
      Some ((A', B'), Returned (Inr (pinned_as pia dera (kz k) (as_u8 (p_csp p))))) \<and>
    nd_trust A' = pin_peer K (pinned_as pib derb (kz k) (as_u8 (s_csp s))) (nd_trust A) \<and>
    nd_trust B' = nd_trust B \<and> nd_joiners B' = nd_joiners B \<and> nd_pending B' = nd_pending B \<and>
    nd_inviters A' = nd_inviters A"
proof -
  let ?E = "ce X" and ?s = "with_noob (ce X) ns s" and ?p = "peer_with_noob (ce X) ns p"
  let ?N = "node_net X K ra addr" and ?v = "nd_iheap A ! ia"
  define s1 where "s1 = server_heard ?E ?s ?p"
  let ?s2 = "s1\<lparr>s_m := (s_m s1)\<lparr>m_keym := Some k\<rparr>\<rparr>" and ?p2 = "?p\<lparr>p_m := (p_m ?p)\<lparr>m_keym := Some k\<rparr>\<rparr>"
  note js = codec_okD(1) [OF X] and cr = codec_okD(2) [OF X]
  have ne: "ns \<noteq> []" using len by auto
  have s1: "m_inp (s_m s1) = m_inp (p_m ?p)" "m_peer_id (s_m s1) = m_peer_id (p_m p)"
    "m_noob_id (s_m s1) = m_noob_id (p_m ?p)" "s_state s1 = Waiting"
    "derive_completion (cr ?E) (m_z (s_m s1)) (m_np (s_m s1)) (m_ns (s_m s1)) (m_noob (s_m s1)) = Returned k"
    "server_peer_info s1 = server_peer_info s"
    using sync k by (simp_all add: s1_def synced_def server_peer_info_def)
  have csp: "s_csp s1 = s_csp s" by (simp add: s1_def server_heard_def with_noob_def)
  let ?m6 = "wire_bytes ?E (type6_request ?E (m_peer_id (s_m s1)) (m_noob_id (s_m s1))
      (compute_mac (cr ?E) (kms k) 2 (m_inp (s_m s1))))"
  have "srv_receive ?E ra s1 (wire_bytes ?E (type5_response ?E (m_peer_id (p_m p))
      (compute_noob_id (cr ?E) (jstr ?E (b64 ?E ns))))) =
    (?s2, Returned (send_outcome ?E (type6_request ?E (m_peer_id (s_m s1)) (m_noob_id (s_m s1))
      (compute_mac (cr ?E) (kms k) 2 (m_inp (s_m s1))))))"
    using server_gets_type5 [OF js cr s1(2), where rnd = ra] build_completion_eq [OF js s1(5)] s1(3) by simp
  note start0 = rounds_start [OF X iid ia _ ja _ sync len len this [unfolded s1_def],
      where K = K and addr = addr and rnd = rnd and ?s0.0 = s0, folded s1_def]
  have start: "completion_rounds X ?N rnd addr iid ja 0 (with_msg X iid COMPLETION (srv_start ?E s0)) (A, B) =
    completion_rounds X ?N rnd addr iid ja 2 (with_msg X iid COMPLETION ?m6)
      (A\<lparr>nd_iheap := (nd_iheap A)[ia := ?v\<lparr>v_server := ?s2\<rparr>]\<rparr>, B)"
    by (rule trans [OF start0]) (use srv pr s1(4) in simp_all)
  let ?v2 = "?v\<lparr>v_server := ?s2\<rparr>" and ?A2 = "A\<lparr>nd_iheap := (nd_iheap A)[ia := ?v\<lparr>v_server := ?s2\<rparr>]\<rparr>"
  let ?w6 = "type6_response ?E (m_peer_id (p_m p)) (compute_mac (cr ?E) (kmp k) 1 (m_inp (p_m ?p)))"
  let ?ida = "\<lparr>pid_info = pia, pid_cert = dera\<rparr>" and ?idb = "\<lparr>pid_info = pib, pid_cert = derb\<rparr>"
  let ?v3 = "?v2\<lparr>v_server := ?s2\<lparr>s_assoc := Some (srv_finish ?s2 k), s_state := Registered\<rparr>, v_joiner := Some ?idb\<rparr>"
  let ?out = "default_outcome\<lparr>o_send := Some (result_bytes ?E ''success''), o_done := True, o_success := True\<rparr>"
  let ?A3 = "?A2\<lparr>nd_iheap := (nd_iheap ?A2)[ia := ?v3],
      nd_trust := pin_peer K (pinned_as pib derb (kz k) (as_u8 (s_csp s))) (nd_trust A)\<rparr>"
  have v2: "nd_iheap ?A2 ! ia = ?v2" using ia by simp
  have acc: "inviter_on_completion X ra (nd_iheap ?A2 ! ia) (wire_bytes ?E ?w6) = (?v3, Returned (Inr (step_of ?out)))"
    unfolding v2 by (rule trans [OF inviter_accepts [OF X, of ?v2 "m_peer_id (p_m p)" k _ pib derb]])
      (use s1 srv pib in \<open>simp_all add: server_peer_info_def\<close>)
  have h6: "handle_request X K ra (with_msg X iid COMPLETION (wire_bytes ?E ?w6)) ?A2 =
      (?A3, Returned (reply_ok (with_msg X iid COMPLETION (result_bytes ?E ''success''))))"
    using completion_accept [OF X iid _ wire_bytes_not_Nil [OF X completion_messages_ok(4) [OF js]] acc] ia csp
    by (simp add: inviter_association_def paired_of_def srv_finish_def pinned_as_def default_outcome_def)
  let ?B3 = "snd (put_joiner ja ((nd_jheap B ! ja)\<lparr>j_peer := ?p2\<rparr>) (A, B))"
  have r6: "completion_rounds X ?N rnd addr iid ja 2 (with_msg X iid COMPLETION ?m6) (?A2, B) =
      completion_rounds X ?N rnd addr iid ja 3 (with_msg X iid COMPLETION (result_bytes ?E ''success'')) (?A3, ?B3)"
    unfolding numeral_3_eq_3 numeral_2_eq_2
  proof (rule rounds_go [where p = ?p2 and w = ?w6])
    show "peer_receive ?E (rnd (Suc (Suc 0))) (j_peer (nd_jheap (snd (?A2, B)) ! ja)) (blob X (with_msg X iid COMPLETION ?m6)) =
        (?p2, Returned (send_outcome ?E ?w6))"
      using peer_gets_type6 [OF js cr, of ?p "m_noob_id (s_m s1)" k] pr ne s1 k X by simp
    show "post_pairing X ?N addr (with_msg X iid COMPLETION (wire_bytes ?E ?w6))
        (put_joiner ja ((nd_jheap (snd (?A2, B)) ! ja)\<lparr>j_peer := ?p2\<rparr>) (?A2, B)) =
      ((?A3, ?B3), Inr (with_msg X iid COMPLETION (result_bytes ?E ''success'')))"
      using post_handled [OF X h6, of addr ?B3] by (simp add: put_joiner_def)
  qed
  have b3: "nd_jheap ?B3 ! ja = \<lparr>j_peer = ?p2, j_inviter = Some ?ida\<rparr>"
    using ja pr by (simp add: put_joiner_def)
  let ?p3 = "fst (peer_on_result ?p2 ''success'')"
  have r7: "completion_rounds X ?N rnd addr iid ja 3 (with_msg X iid COMPLETION (result_bytes ?E ''success'')) (?A3, ?B3) =
      Some (put_joiner ja ((nd_jheap ?B3 ! ja)\<lparr>j_peer := ?p3\<rparr>) (?A3, ?B3),
        Returned (Inr (pinned_as pia dera (kz k) (as_u8 (p_csp p)))))"
    using rounds_success [of X rnd 3 "(?A3, ?B3)" ja "with_msg X iid COMPLETION (result_bytes ?E ''success'')" ?p3]
      peer_gets_success [OF js] b3 X
    by (simp add: peer_on_result_def default_outcome_def paired_of_def pinned_as_def peer_with_noob_def)
  show ?thesis
    unfolding start r6 r7 by (simp add: put_joiner_def)
qed

section \<open>A wrong PIN\<close>

lemma rounds_wrong:
  assumes X: "codec_ok X" and iid: "iid \<noteq> []"
    and ia: "hm_get (nd_inviters A) iid = Some ia" "ia < length (nd_iheap A)"
    and srv: "v_server (nd_iheap A ! ia) = with_noob (ce X) ns s"
    and ja: "ja < length (nd_jheap B)" and pr: "j_peer (nd_jheap B ! ja) = peer_with_noob (ce X) np p"
    and sync: "synced s p" and len: "length ns = 16" "length np = 16"
    and diff: "compute_noob_id (cr (ce X)) (jstr (ce X) (b64 (ce X) np)) \<noteq>
      compute_noob_id (cr (ce X)) (jstr (ce X) (b64 (ce X) ns))"
  shows "\<exists>A' B'. completion_rounds X (node_net X K ra addr) rnd addr iid ja 0
      (with_msg X iid COMPLETION (srv_start (ce X) s0)) (A, B) =
      Some ((A', B'), Returned (Inl (CompletionFailed True
        (peer_error_msg UNRECOGNIZED_OOB_MSG_ID (Some ''unrecognized NoobId''))))) \<and>
    nd_trust A' = nd_trust A \<and> nd_trust B' = nd_trust B \<and>
    nd_inviters A' = hm_remove iid (nd_inviters A) \<and> nd_joiners B' = hm_remove iid (nd_joiners B) \<and>
    nd_pending B' = hm_remove iid (nd_pending B)"
proof -
  let ?E = "ce X" and ?s = "with_noob (ce X) ns s" and ?p = "peer_with_noob (ce X) np p"
  let ?N = "node_net X K ra addr" and ?v = "nd_iheap A ! ia"
  define s1 where "s1 = server_heard ?E ?s ?p"
  let ?out = "fail_code ?E UNRECOGNIZED_OOB_MSG_ID ''unrecognized NoobId''"
  note js = codec_okD(1) [OF X] and cr = codec_okD(2) [OF X]
  have s1: "m_peer_id (s_m s1) = m_peer_id (p_m p)" "s_state s1 \<noteq> Registered"
    "m_noob_id (s_m s1) = compute_noob_id (cr ?E) (jstr ?E (b64 ?E ns))"
    using sync by (simp_all add: s1_def synced_def)
  have "srv_receive ?E ra s1 (wire_bytes ?E (type5_response ?E (m_peer_id (p_m p))
      (compute_noob_id (cr ?E) (jstr ?E (b64 ?E np))))) = (s1, Returned ?out)"
    using server_gets_type5 [OF js cr s1(1), where rnd = ra] diff s1(3) by simp
  note start0 = rounds_start [OF X iid ia srv ja pr sync len this [unfolded s1_def],
      where K = K and addr = addr and rnd = rnd and ?s0.0 = s0, folded s1_def]
  let ?A2 = "A\<lparr>nd_iheap := (nd_iheap A)[ia := ?v\<lparr>v_server := s1\<rparr>]\<rparr>"
  have start: "completion_rounds X ?N rnd addr iid ja 0 (with_msg X iid COMPLETION (srv_start ?E s0)) (A, B) =
    completion_rounds X ?N rnd addr iid ja 2
      (with_msg X iid COMPLETION (err_bytes ?E UNRECOGNIZED_OOB_MSG_ID ''unrecognized NoobId'')) (?A2, B)"
    by (rule trans [OF start0]) (use s1(2) in \<open>simp_all add: fail_code_def default_outcome_def\<close>)
  have "in_i64 UNRECOGNIZED_OOB_MSG_ID" by (simp add: in_i64_def UNRECOGNIZED_OOB_MSG_ID_def)
  from peer_gets_error [OF js this]
  have "completion_rounds X ?N rnd addr iid ja 2
      (with_msg X iid COMPLETION (err_bytes ?E UNRECOGNIZED_OOB_MSG_ID ''unrecognized NoobId'')) (?A2, B) =
    Some (forget_joiner iid (?A2\<lparr>nd_inviters := hm_remove iid (nd_inviters A)\<rparr>, B),
      Returned (Inl (CompletionFailed True (peer_error_msg UNRECOGNIZED_OOB_MSG_ID (Some ''unrecognized NoobId'')))))"
    using rounds_wrong_pin [where st = "(?A2, B)" and a = ja and p = ?p and X = X and N = ?N and
        addr = addr and iid = iid and rnd = rnd and i = 2 and
        resp = "with_msg X iid COMPLETION (err_bytes ?E UNRECOGNIZED_OOB_MSG_ID ''unrecognized NoobId'')"]
      post_handled [OF X fail_handled [OF iid], where rnd = ra and K = K and nd = ?A2 and addr = addr and me = B, of INCORRECT_PIN]
      put_joiner_same [of "(?A2, B)" ja ?p] pr X by simp
  with start show ?thesis by (simp add: forget_joiner_def)
qed

section \<open>From the invitation to the pins\<close>

lemma create_invite_run:
  assumes X: "codec_ok X" and iid: "iid \<noteq> []" and new: "hm_get (nd_joiners B) iid = None"
    and free: "\<not> is_clustered KB (nd_trust B)"
    and valid: "pi_valid X (profile_info X (nd_profile A) None) dera"
  obtains z where
    "create_invite X (node_net X KB rb addr) rnd iid n addr (B, A) =
     Some ((invited_node iid (invited_joiner X (rnd 0) (rnd 1) rb (profile_info X (nd_profile A) None) dera
              (profile_info X (nd_profile B) None) z) (profile_info X (nd_profile A) None) dera B,
            add_inviter iid \<lparr>v_server = with_noob (ce X) (noob_from_pin (mint_pin n))
              (server3 (ce X) (rnd 0) (rnd 1) rb (pi_to (cj X) (profile_info X (nd_profile A) None))
                 (pi_to (cj X) (profile_info X (nd_profile B) None)) z), v_joiner = None\<rparr> A),
       Returned (Inr (iid, mint_pin n)))"
proof -
  obtain z where z: "invite_loop X (node_net X KB rb addr) rnd addr iid 0
      (inviter_start X (inviter_new X (profile_info X (nd_profile A) None)))
      (inviter_new X (profile_info X (nd_profile A) None)) (B, A) =
     Some ((invited_node iid (invited_joiner X (rnd 0) (rnd 1) rb (profile_info X (nd_profile A) None) dera
              (profile_info X (nd_profile B) None) z) (profile_info X (nd_profile A) None) dera B, A),
       Returned (Inr (waiting_inviter X (rnd 0) (rnd 1) rb (profile_info X (nd_profile A) None)
          (profile_info X (nd_profile B) None) z)))"
    by (rule invite_loop_run [OF X iid new free refl valid])
  let ?s = "server3 (ce X) (rnd 0) (rnd 1) rb (pi_to (cj X) (profile_info X (nd_profile A) None))
      (pi_to (cj X) (profile_info X (nd_profile B) None)) z"
  have "s_state ?s = Waiting" "oob_output_with (ce X) ?s (noob_from_pin (mint_pin n)) =
      Inr (with_noob (ce X) (noob_from_pin (mint_pin n)) ?s)"
    using oob_both(1) [OF synced_run] synced_run by (simp_all add: synced_def)
  with z show thesis
    by (intro that [of z]) (simp add: create_invite_def Let_def set_pin_def waiting_inviter_def)
qed

text \<open>The joiner's PIN entry up to the first answer of the inviter.\<close>

lemma submit_pin_starts:
  assumes X: "codec_ok X" and iid: "iid \<noteq> []" and g: "is_valid_pin g"
    and ja: "hm_get (nd_joiners B) iid = Some ja"
    and j: "nd_jheap B ! ja = \<lparr>j_peer = p, j_inviter = Some who\<rparr>" "pi_addr (pid_info who) = addr" "addr \<noteq> []"
    and sync: "synced s p"
    and ia: "hm_get (nd_inviters A) iid = Some ia"
  shows "submit_pin X KB (node_net X KA ra addr) rnd iid g (A, B) =
    (case completion_rounds X (node_net X KA ra addr) rnd addr iid ja 0
        (with_msg X iid COMPLETION (srv_start (ce X) (v_server (nd_iheap A ! ia))))
        (A, B\<lparr>nd_jheap := (nd_jheap B)[ja := \<lparr>j_peer = peer_with_noob (ce X) (noob_from_pin g) p, j_inviter = Some who\<rparr>]\<rparr>) of
       None \<Rightarrow> None
     | Some (st2, Panicked) \<Rightarrow> Some (st2, Panicked)
     | Some (st2, Diverged) \<Rightarrow> Some (st2, Diverged)
     | Some (st2, Returned (Inl e)) \<Rightarrow> Some (st2, Returned (Inl e))
     | Some (st2, Returned (Inr pd)) \<Rightarrow>
         (let st3 = forget_joiner iid (fst st2, pin_paired KB (Some pd) (snd st2));
              (st4, _) = post_pairing X (node_net X KA ra addr) addr (signal iid ACK []) st3
          in Some (st4, Returned (Inr pd))))"
proof -
  have "feed_pin X (nd_jheap B ! ja) g =
      Inr \<lparr>j_peer = peer_with_noob (ce X) (noob_from_pin g) p, j_inviter = Some who\<rparr>"
    using oob_both(2) [OF sync, of "noob_from_pin g" "ce X"] j(1) by (simp add: feed_pin_def)
  moreover have "inviter_addr (nd_jheap B ! ja) = Some addr" using j by (simp add: inviter_addr_def)
  moreover note post_handled [OF X completion_kickoff [OF X iid ia], where rnd = ra and K = KA and addr = addr and
      me = "B\<lparr>nd_jheap := (nd_jheap B)[ja := \<lparr>j_peer = peer_with_noob (ce X) (noob_from_pin g) p, j_inviter = Some who\<rparr>]\<rparr>"]
  ultimately show ?thesis
    using g ja j(3) by (simp add: submit_pin_def Let_def put_joiner_def)
qed

text \<open>
  C1: pairing works end to end: for two nodes with valid identities, any random draws and
  any trust store, inviting a node that is not clustered returns a PIN, and when that PIN is
  entered on the other node, each node pins the identity and certificate of the other with one
  and the same association key, and the invite is cleared.
\<close>
theorem pairing_end_to_end:
  assumes "codec_ok X" "iid \<noteq> []" "hm_get (nd_joiners B) iid = None" "\<not> is_clustered KB (nd_trust B)"
    and "pi_valid X (profile_info X (nd_profile A) None) dera"
    and "pi_valid X (profile_info X (nd_profile B) None) derb"
    and "np_advertised_addr (nd_profile A) \<noteq> []" "n < 1000000"
  shows "\<exists>A1 B1 A2 B2 key.
    create_invite X (node_net X KB rb addr) rnd iid n addr (B, A) =
      Some ((B1, A1), Returned (Inr (iid, mint_pin n))) \<and>
    map_option pn_from_node_uuid (hm_get (nd_pending B1) iid) = Some (id_uuid (np_identity (nd_profile A))) \<and>
    submit_pin X KB (node_net X KA ra (np_advertised_addr (nd_profile A))) rnd' iid (mint_pin n) (A1, B1) =
      Some ((A2, B2), Returned (Inr (pinned_as (profile_info X (nd_profile A) None) dera key 2))) \<and>
    nd_trust A2 = pin_peer KA (pinned_as (profile_info X (nd_profile B) None) derb key 2) (nd_trust A) \<and>
    nd_trust B2 = pin_peer KB (pinned_as (profile_info X (nd_profile A) None) dera key 2) (nd_trust B) \<and>
    hm_get (nd_joiners B2) iid = None \<and> hm_get (nd_pending B2) iid = None"
proof -
  let ?E = "ce X" and ?pia = "profile_info X (nd_profile A) None" and ?pib = "profile_info X (nd_profile B) None"
  let ?addr = "np_advertised_addr (nd_profile A)" and ?ns = "noob_from_pin (mint_pin n)"
  note X = assms(1) and iid = assms(2)
  obtain z where z: "create_invite X (node_net X KB rb addr) rnd iid n addr (B, A) =
     Some ((invited_node iid (invited_joiner X (rnd 0) (rnd 1) rb ?pia dera ?pib z) ?pia dera B,
            add_inviter iid \<lparr>v_server = with_noob ?E ?ns
              (server3 ?E (rnd 0) (rnd 1) rb (pi_to (cj X) ?pia) (pi_to (cj X) ?pib) z), v_joiner = None\<rparr> A),
       Returned (Inr (iid, mint_pin n)))"
    by (rule create_invite_run [OF X iid assms(3-5)])
  let ?s = "server3 ?E (rnd 0) (rnd 1) rb (pi_to (cj X) ?pia) (pi_to (cj X) ?pib) z"
  let ?p = "peer2 ?E (rnd 0) (rnd 1) rb (pi_to (cj X) ?pia) (pi_to (cj X) ?pib) z"
  let ?v = "\<lparr>v_server = with_noob ?E ?ns ?s, v_joiner = None\<rparr>"
  let ?j = "invited_joiner X (rnd 0) (rnd 1) rb ?pia dera ?pib z" and ?who = "\<lparr>pid_info = ?pia, pid_cert = dera\<rparr>"
  let ?A1 = "add_inviter iid ?v A" and ?B1 = "invited_node iid ?j ?pia dera B"
  let ?ia = "length (nd_iheap A)" and ?ja = "length (nd_jheap B)"
  let ?B2 = "?B1\<lparr>nd_jheap := (nd_jheap ?B1)[?ja := \<lparr>j_peer = peer_with_noob ?E ?ns ?p, j_inviter = Some ?who\<rparr>]\<rparr>"
  obtain k where k: "derive_completion (cr ?E) (m_z (p_m ?p)) (m_np (p_m ?p)) (m_ns (p_m ?p)) ?ns = Returned k"
    using derive_completion_cases [OF codec_okD(2) [OF X]] by metis
  have ia: "hm_get (nd_inviters ?A1) iid = Some ?ia" "?ia < length (nd_iheap ?A1)" "nd_iheap ?A1 ! ?ia = ?v"
    by (simp_all add: add_inviter_def hm_simps)
  have ja: "hm_get (nd_joiners ?B1) iid = Some ?ja" "?ja < length (nd_jheap ?B1)"
    "nd_jheap ?B1 ! ?ja = \<lparr>j_peer = ?p, j_inviter = Some ?who\<rparr>"
    by (simp_all add: invited_node_def hm_simps invited_joiner_def)
  have csp: "as_u8 (p_csp ?p) = 2" "as_u8 (s_csp ?s) = 2"
    by (simp_all add: peer2_def peer1_def server3_def server2_def Let_def as_u8_def)
  have addr: "pi_addr (pid_info ?who) = ?addr" by (simp add: profile_info_def)
  have pin: "is_valid_pin (mint_pin n)" using assms(8) by (rule mint_pin_valid)
  have "\<exists>A' B'. completion_rounds X (node_net X KA ra ?addr) rnd' ?addr iid ?ja 0
      (with_msg X iid COMPLETION (srv_start ?E (v_server (nd_iheap ?A1 ! ?ia)))) (?A1, ?B2) =
      Some ((A', B'), Returned (Inr (pinned_as ?pia dera (kz k) (as_u8 (p_csp ?p))))) \<and>
    nd_trust A' = pin_peer KA (pinned_as ?pib derb (kz k) (as_u8 (s_csp ?s))) (nd_trust ?A1) \<and>
    nd_trust B' = nd_trust ?B2 \<and> nd_joiners B' = nd_joiners ?B2 \<and> nd_pending B' = nd_pending ?B2 \<and>
    nd_inviters A' = nd_inviters ?A1"
    by (rule rounds_right [OF X iid ia _ _ synced_run _ _ assms(6) k]) (use ja run_infos(1) in simp_all)
  then obtain A' B' where run: "completion_rounds X (node_net X KA ra ?addr) rnd' ?addr iid ?ja 0
      (with_msg X iid COMPLETION (srv_start ?E (v_server (nd_iheap ?A1 ! ?ia)))) (?A1, ?B2) =
      Some ((A', B'), Returned (Inr (pinned_as ?pia dera (kz k) 2)))"
    "nd_trust A' = pin_peer KA (pinned_as ?pib derb (kz k) 2) (nd_trust A)" "nd_trust B' = nd_trust B"
    "nd_joiners B' = nd_joiners ?B1" "nd_pending B' = nd_pending ?B1"
    unfolding csp by (auto simp: add_inviter_def invited_node_def)
  let ?B3 = "snd (forget_joiner iid (A', pin_paired KB (Some (pinned_as ?pia dera (kz k) 2)) B'))"
  have "submit_pin X KB (node_net X KA ra ?addr) rnd' iid (mint_pin n) (?A1, ?B1) =
      Some ((A', ?B3), Returned (Inr (pinned_as ?pia dera (kz k) 2)))"
    using submit_pin_starts [OF X iid pin ja(1,3) addr assms(7) synced_run ia(1), of KB KA ra rnd'] run(1)
      post_handled [OF X ack_handled [OF iid], where rnd = ra and K = KA and nd = A' and addr = ?addr and me = ?B3, of "[]"]
    by (simp add: forget_joiner_def)
  moreover have "map_option pn_from_node_uuid (hm_get (nd_pending ?B1) iid) = Some (id_uuid (np_identity (nd_profile A)))"
    by (simp add: invited_node_def hm_simps pending_of_def profile_info_def)
  moreover have "nd_trust ?B3 = pin_peer KB (pinned_as ?pia dera (kz k) 2) (nd_trust B)"
    "hm_get (nd_joiners ?B3) iid = None" "hm_get (nd_pending ?B3) iid = None"
    using run(3) by (simp_all add: forget_joiner_def pin_paired_def hm_simps)
  ultimately show ?thesis using z run(2) by blast
qed

text \<open>
  C2: a PIN with another NoobId pins nobody: the joiner gets a failure marked as a wrong PIN,
  neither trust store changes, and both nodes drop the invite, so that the next guess needs a
  new one.
\<close>
theorem wrong_pin_pins_nobody:
  assumes "codec_ok X" "iid \<noteq> []" "hm_get (nd_joiners B) iid = None" "\<not> is_clustered KB (nd_trust B)"
    and "pi_valid X (profile_info X (nd_profile A) None) dera"
    and "np_advertised_addr (nd_profile A) \<noteq> []" "is_valid_pin g"
    and "compute_noob_id (cr (ce X)) (jstr (ce X) (b64 (ce X) (noob_from_pin g))) \<noteq>
      compute_noob_id (cr (ce X)) (jstr (ce X) (b64 (ce X) (noob_from_pin (mint_pin n))))"
  shows "\<exists>A1 B1 A2 B2 txt.
    create_invite X (node_net X KB rb addr) rnd iid n addr (B, A) =
      Some ((B1, A1), Returned (Inr (iid, mint_pin n))) \<and>
    submit_pin X KB (node_net X KA ra (np_advertised_addr (nd_profile A))) rnd' iid g (A1, B1) =
      Some ((A2, B2), Returned (Inl (CompletionFailed True txt))) \<and>
    nd_trust A2 = nd_trust A \<and> nd_trust B2 = nd_trust B \<and>
    hm_get (nd_inviters A2) iid = None \<and> hm_get (nd_joiners B2) iid = None \<and> hm_get (nd_pending B2) iid = None"
proof -
  let ?E = "ce X" and ?pia = "profile_info X (nd_profile A) None" and ?pib = "profile_info X (nd_profile B) None"
  let ?addr = "np_advertised_addr (nd_profile A)" and ?ns = "noob_from_pin (mint_pin n)" and ?np = "noob_from_pin g"
  note X = assms(1) and iid = assms(2)
  obtain z where z: "create_invite X (node_net X KB rb addr) rnd iid n addr (B, A) =
     Some ((invited_node iid (invited_joiner X (rnd 0) (rnd 1) rb ?pia dera ?pib z) ?pia dera B,
            add_inviter iid \<lparr>v_server = with_noob ?E ?ns
              (server3 ?E (rnd 0) (rnd 1) rb (pi_to (cj X) ?pia) (pi_to (cj X) ?pib) z), v_joiner = None\<rparr> A),
       Returned (Inr (iid, mint_pin n)))"
    by (rule create_invite_run [OF X iid assms(3-5)])
  let ?s = "server3 ?E (rnd 0) (rnd 1) rb (pi_to (cj X) ?pia) (pi_to (cj X) ?pib) z"
  let ?p = "peer2 ?E (rnd 0) (rnd 1) rb (pi_to (cj X) ?pia) (pi_to (cj X) ?pib) z"
  let ?j = "invited_joiner X (rnd 0) (rnd 1) rb ?pia dera ?pib z" and ?who = "\<lparr>pid_info = ?pia, pid_cert = dera\<rparr>"
  let ?A1 = "add_inviter iid \<lparr>v_server = with_noob ?E ?ns ?s, v_joiner = None\<rparr> A" and ?B1 = "invited_node iid ?j ?pia dera B"
  let ?ia = "length (nd_iheap A)" and ?ja = "length (nd_jheap B)"
  let ?B2 = "?B1\<lparr>nd_jheap := (nd_jheap ?B1)[?ja := \<lparr>j_peer = peer_with_noob ?E ?np ?p, j_inviter = Some ?who\<rparr>]\<rparr>"
  have ia: "hm_get (nd_inviters ?A1) iid = Some ?ia" "?ia < length (nd_iheap ?A1)"
    "v_server (nd_iheap ?A1 ! ?ia) = with_noob ?E ?ns ?s"
    by (simp_all add: add_inviter_def hm_simps)
  have ja: "hm_get (nd_joiners ?B1) iid = Some ?ja" "?ja < length (nd_jheap ?B1)"
    "nd_jheap ?B1 ! ?ja = \<lparr>j_peer = ?p, j_inviter = Some ?who\<rparr>"
    by (simp_all add: invited_node_def hm_simps invited_joiner_def)
  have addr: "pi_addr (pid_info ?who) = ?addr" by (simp add: profile_info_def)
  let ?err = "CompletionFailed True (peer_error_msg UNRECOGNIZED_OOB_MSG_ID (Some ''unrecognized NoobId''))"
  have "\<exists>A' B'. completion_rounds X (node_net X KA ra ?addr) rnd' ?addr iid ?ja 0
      (with_msg X iid COMPLETION (srv_start ?E (v_server (nd_iheap ?A1 ! ?ia)))) (?A1, ?B2) =
      Some ((A', B'), Returned (Inl ?err)) \<and>
    nd_trust A' = nd_trust ?A1 \<and> nd_trust B' = nd_trust ?B2 \<and>
    nd_inviters A' = hm_remove iid (nd_inviters ?A1) \<and> nd_joiners B' = hm_remove iid (nd_joiners ?B2) \<and>
    nd_pending B' = hm_remove iid (nd_pending ?B2)"
    by (rule rounds_wrong [OF X iid ia _ _ synced_run _ _ assms(8)]) (use ja in simp_all)
  then obtain A' B' where run: "completion_rounds X (node_net X KA ra ?addr) rnd' ?addr iid ?ja 0
      (with_msg X iid COMPLETION (srv_start ?E (v_server (nd_iheap ?A1 ! ?ia)))) (?A1, ?B2) =
      Some ((A', B'), Returned (Inl ?err))"
    "nd_trust A' = nd_trust ?A1 \<and> nd_trust B' = nd_trust ?B2 \<and>
    nd_inviters A' = hm_remove iid (nd_inviters ?A1) \<and> nd_joiners B' = hm_remove iid (nd_joiners ?B2) \<and>
    nd_pending B' = hm_remove iid (nd_pending ?B2)" by blast
  have "submit_pin X KB (node_net X KA ra ?addr) rnd' iid g (?A1, ?B1) = Some ((A', B'), Returned (Inl ?err))"
    using submit_pin_starts [OF X iid assms(7) ja(1,3) addr assms(6) synced_run ia(1), of KB KA ra rnd'] run(1)
    by simp
  moreover have "nd_trust A' = nd_trust A" "nd_trust B' = nd_trust B"
    "hm_get (nd_inviters A') iid = None" "hm_get (nd_joiners B') iid = None" "hm_get (nd_pending B') iid = None"
    using run(2) by (simp_all add: add_inviter_def invited_node_def hm_simps)
  ultimately show ?thesis using z by blast
qed

section \<open>Witnesses\<close>

abbreviation demo_sink :: "((string \<times> string) \<times> string) list trust_state sink" where
  "demo_sink \<equiv> cluster_sink demo_crypto demo_pki demo_fs"

definition demo_node :: "string \<Rightarrow> string \<Rightarrow> ((string \<times> string) \<times> string) list trust_state node" where
  "demo_node name addr =
     build_node (pairing_profile demo_identity name addr [] []) (trust_sink_new [] [] None False)"

lemma demo_node_facts [simp]:
  "nd_joiners (demo_node m a) = []" "ts_clustered (nd_trust (demo_node m a)) = False"
  "nd_profile (demo_node m a) = pairing_profile demo_identity m a [] []"
  "nd_trust (demo_node m a) = trust_sink_new [] [] None False"
  by (simp_all add: demo_node_def build_node_def node_new_def trust_sink_new_def)

lemma demo_profile_valid: "pi_valid demo_X (profile_info demo_X (pairing_profile demo_identity m a [] []) None) [1, 2, 3]"
  by (simp add: pi_valid_def profile_info_def pairing_profile_def demo_identity_def)

theorem pairing_end_to_end_witness:
  "\<exists>B1 A1 A2 B2 p.
     create_invite demo_X (node_net demo_X demo_sink demo_rnd ''b:1'') (\<lambda>i. demo_rnd) ''i'' 42 ''b:1''
       (demo_node ''B'' ''b:1'', demo_node ''A'' ''a:1'') = Some ((B1, A1), Returned (Inr (''i'', mint_pin 42))) \<and>
     submit_pin demo_X demo_sink (node_net demo_X demo_sink demo_rnd ''a:1'') (\<lambda>i. demo_rnd) ''i'' (mint_pin 42) (A1, B1) =
       Some ((A2, B2), Returned (Inr p)) \<and>
     is_pinned (ts_pins (nd_trust A2)) [1, 2, 3] \<and> is_pinned (ts_pins (nd_trust B2)) [1, 2, 3]"
proof -
  have pins: "is_pinned (ts_pins (sink_pin_peer demo_crypto demo_pki demo_fs (pinned_as pi [1, 2, 3] key c)
      (trust_sink_new [] [] None False))) [1, 2, 3]" for pi key c
    by (simp add: sink_pin_peer_def sink_store_def trust_sink_new_def pinned_as_def pin_def is_pinned_def
        hm_values_def hm_insert_def)
  have adr: "np_advertised_addr (pairing_profile demo_identity ''A'' ''a:1'' [] []) = ''a:1''"
    by (simp add: pairing_profile_def)
  have pre: "codec_ok demo_X" "''i'' \<noteq> []" "hm_get (nd_joiners (demo_node ''B'' ''b:1'')) ''i'' = None"
    "\<not> is_clustered demo_sink (nd_trust (demo_node ''B'' ''b:1''))"
    "pi_valid demo_X (profile_info demo_X (nd_profile (demo_node ''A'' ''a:1'')) None) [1, 2, 3]"
    "pi_valid demo_X (profile_info demo_X (nd_profile (demo_node ''B'' ''b:1'')) None) [1, 2, 3]"
    "np_advertised_addr (nd_profile (demo_node ''A'' ''a:1'')) \<noteq> []" "(42::nat) < 1000000"
    using demo_X_ok demo_profile_valid adr by (simp_all add: hm_simps trust_sink_new_def)
  from pairing_end_to_end [OF pre, of demo_rnd "''b:1''" "\<lambda>i. demo_rnd" demo_sink demo_rnd "\<lambda>i. demo_rnd"]
  obtain A1 B1 A2 B2 key where run:
    "create_invite demo_X (node_net demo_X demo_sink demo_rnd ''b:1'') (\<lambda>i. demo_rnd) ''i'' 42 ''b:1''
       (demo_node ''B'' ''b:1'', demo_node ''A'' ''a:1'') = Some ((B1, A1), Returned (Inr (''i'', mint_pin 42)))"
    "submit_pin demo_X demo_sink (node_net demo_X demo_sink demo_rnd ''a:1'') (\<lambda>i. demo_rnd) ''i'' (mint_pin 42) (A1, B1) =
       Some ((A2, B2), Returned (Inr (pinned_as (profile_info demo_X (nd_profile (demo_node ''A'' ''a:1'')) None) [1, 2, 3] key 2)))"
    "nd_trust A2 = pin_peer demo_sink (pinned_as (profile_info demo_X (nd_profile (demo_node ''B'' ''b:1'')) None) [1, 2, 3] key 2)
       (nd_trust (demo_node ''A'' ''a:1''))"
    "nd_trust B2 = pin_peer demo_sink (pinned_as (profile_info demo_X (nd_profile (demo_node ''A'' ''a:1'')) None) [1, 2, 3] key 2)
       (nd_trust (demo_node ''B'' ''b:1''))"
    unfolding demo_node_facts adr by blast
  have "is_pinned (ts_pins (nd_trust A2)) [1, 2, 3]" "is_pinned (ts_pins (nd_trust B2)) [1, 2, 3]"
    unfolding run(3,4) by (simp_all add: pins)
  with run(1,2) show ?thesis by blast
qed

theorem wrong_pin_pins_nobody_witness:
  "\<exists>B1 A1 A2 B2 e.
     create_invite demo_X (node_net demo_X demo_sink demo_rnd ''b:1'') (\<lambda>i. demo_rnd) ''i'' 2 ''b:1''
       (demo_node ''B'' ''b:1'', demo_node ''A'' ''a:1'') = Some ((B1, A1), Returned (Inr (''i'', mint_pin 2))) \<and>
     submit_pin demo_X demo_sink (node_net demo_X demo_sink demo_rnd ''a:1'') (\<lambda>i. demo_rnd) ''i'' (mint_pin 1) (A1, B1) =
       Some ((A2, B2), Returned (Inl e)) \<and> nd_trust B2 = trust_sink_new [] [] None False"
proof -
  have n: "noob_from_pin (mint_pin 1) = replicate 15 0 @ [1]" "noob_from_pin (mint_pin 2) = replicate 15 0 @ [2]"
  proof -
    have "be_bytes (15 + 1) k = replicate 15 0 @ be_bytes 1 k" if "k < 256" for k
      by (rule be_bytes_leading_zeros) (use that in simp)
    from this [of 1] this [of 2]
    have "be_bytes 16 1 = replicate 15 0 @ be_bytes (Suc 0) 1" "be_bytes 16 2 = replicate 15 0 @ be_bytes (Suc 0) 2"
      by simp_all
    then show "noob_from_pin (mint_pin 1) = replicate 15 0 @ [1]" "noob_from_pin (mint_pin 2) = replicate 15 0 @ [2]"
      by (simp_all add: mint_pin_be)
  qed
  have adr: "np_advertised_addr (pairing_profile demo_identity ''A'' ''a:1'' [] []) = ''a:1''"
    by (simp add: pairing_profile_def)
  have diff: "compute_noob_id (cr (ce demo_X)) (jstr (ce demo_X) (b64 (ce demo_X) (noob_from_pin (mint_pin 1)))) \<noteq>
      compute_noob_id (cr (ce demo_X)) (jstr (ce demo_X) (b64 (ce demo_X) (noob_from_pin (mint_pin 2))))"
  proof -
    have j: "js_str (js (ce demo_X)) = demo_str" "b64url_encode (cr (ce demo_X)) = demo_chars" "cr (ce demo_X) = demo_crypto"
      by (simp_all add: demo_json_def)
    show ?thesis using demo_noob_ids_differ unfolding n j demo_crypto_simps .
  qed
  have pre: "codec_ok demo_X" "''i'' \<noteq> []" "hm_get (nd_joiners (demo_node ''B'' ''b:1'')) ''i'' = None"
    "\<not> is_clustered demo_sink (nd_trust (demo_node ''B'' ''b:1''))"
    "pi_valid demo_X (profile_info demo_X (nd_profile (demo_node ''A'' ''a:1'')) None) [1, 2, 3]"
    "np_advertised_addr (nd_profile (demo_node ''A'' ''a:1'')) \<noteq> []" "is_valid_pin (mint_pin 1)"
    using demo_X_ok demo_profile_valid adr by (simp_all add: hm_simps trust_sink_new_def mint_pin_valid)
  from wrong_pin_pins_nobody [OF pre diff, of demo_rnd "''b:1''" "\<lambda>i. demo_rnd" demo_sink demo_rnd "\<lambda>i. demo_rnd"]
  show ?thesis unfolding demo_node_facts adr by blast
qed

end
