(* ===== verification/Accept.thy ===== *)
theory Accept
  imports Ui Telemetry Pairing_End
begin

text \<open>
  The listeners of the daemon: the accept loops of the pairing channel (http.rs of pair-cluster),
  the dashboard (pair-ui), the proxy (live.rs and server.rs), the ingress receiver
  (ingress\_server.rs) and node-info (nodeinfo\_server.rs). They are one loop around six handlers.
  What the network does is a list of events; a request is handled in one step. A connection is
  served by a task of its own, so it outlives the loop that accepted it, and a panic of the
  handler ends that connection alone.
\<close>

section \<open>The loop\<close>

text \<open>
  \<open>Meanwhile\<close> is a step of the rest of the process. A connection is named by 'c, which holds what
  the handshake decides on; \<open>ready\<close> is the handshake, which may fail and may change the state.
\<close>

datatype ('c, 'q, 'w) net_event =
    Accepted 'c
  | AcceptFailed
  | ShutDown
  | Requested 'c 'q
  | Closed 'c
  | Meanwhile "'w \<Rightarrow> 'w"

datatype serve_result = ServeOk | ServeError

record ('c, 'w) listener =
  ls_result :: "serve_result option" \<comment> \<open>\<open>None\<close> while the loop runs\<close>
  ls_open :: "'c list"
  ls_world :: 'w

fun serve_event ::
  "('c \<Rightarrow> 'w \<Rightarrow> 'w option) \<Rightarrow> ('q \<Rightarrow> 'w \<Rightarrow> 'w \<times> 'r exec) \<Rightarrow> ('c, 'q, 'w) net_event \<Rightarrow> ('c, 'w) listener \<Rightarrow>
     ('c, 'w) listener \<times> ('c \<times> 'r) list" where
  "serve_event ready h (Accepted c) l =
     (if ls_result l = None
      then (case ready c (ls_world l) of
              Some w \<Rightarrow> l\<lparr>ls_open := c # ls_open l, ls_world := w\<rparr>
            | None \<Rightarrow> l)
      else l, [])"
| "serve_event ready h AcceptFailed l =
     (if ls_result l = None then l\<lparr>ls_result := Some ServeError\<rparr> else l, [])"
| "serve_event ready h ShutDown l =
     (if ls_result l = None then l\<lparr>ls_result := Some ServeOk\<rparr> else l, [])"
| "serve_event ready h (Requested c q) l =
     (if c \<in> set (ls_open l)
      then (case h q (ls_world l) of
              (w, Returned r) \<Rightarrow> (l\<lparr>ls_world := w\<rparr>, [(c, r)])
            | (w, _) \<Rightarrow> (l\<lparr>ls_world := w, ls_open := removeAll c (ls_open l)\<rparr>, []))
      else (l, []))"
| "serve_event ready h (Closed c) l = (l\<lparr>ls_open := removeAll c (ls_open l)\<rparr>, [])"
| "serve_event ready h (Meanwhile g) l = (l\<lparr>ls_world := g (ls_world l)\<rparr>, [])"

fun serve_run ::
  "('c \<Rightarrow> 'w \<Rightarrow> 'w option) \<Rightarrow> ('q \<Rightarrow> 'w \<Rightarrow> 'w \<times> 'r exec) \<Rightarrow> ('c, 'q, 'w) net_event list \<Rightarrow> ('c, 'w) listener \<Rightarrow>
     ('c, 'w) listener \<times> ('c \<times> 'r) list" where
  "serve_run ready h [] l = (l, [])"
| "serve_run ready h (e # es) l =
     (let (l1, out1) = serve_event ready h e l; (l2, out2) = serve_run ready h es l1 in (l2, out1 @ out2))"

text \<open>The loop never starts when the address cannot be bound.\<close>

definition listen :: "bool \<Rightarrow> 'w \<Rightarrow> ('c, 'w) listener" where
  "listen bound w = \<lparr>ls_result = (if bound then None else Some ServeError), ls_open = [], ls_world = w\<rparr>"

section \<open>The six listeners\<close>

definition serve_pairing ::
  "cluster_env \<Rightarrow> 't sink \<Rightarrow> bool \<Rightarrow> ('c, entropy \<times> string \<times> string \<times> bytes option, 't node) net_event list \<Rightarrow>
     't node \<Rightarrow> ('c, 't node) listener \<times> ('c \<times> nat \<times> bytes) list" where
  "serve_pairing X K bound es nd =
     serve_run (\<lambda>c w. Some w) (\<lambda>(rnd, path, meth, body). http_handle X K rnd path meth body) es (listen bound nd)"

definition serve_ui ::
  "('w, 'f) ui_host \<Rightarrow> ui_context \<Rightarrow> bool \<Rightarrow>
     ('c, string \<times> string \<times> bytes option, ('w, 'f) dstate) net_event list \<Rightarrow> ('w, 'f) dstate \<Rightarrow>
     ('c, ('w, 'f) dstate) listener \<times> ('c \<times> ui_resp) list" where
  "serve_ui h ctx bound es st =
     serve_run (\<lambda>c w. Some w)
       (\<lambda>(meth, path, body) w. case ui_route h ctx meth path body w of Some r \<Rightarrow> r | None \<Rightarrow> (w, Diverged))
       es (listen bound st)"

definition serve_routing ::
  "proxy_json \<Rightarrow> 'w engine \<Rightarrow> 'w link \<Rightarrow> string \<Rightarrow> bool \<Rightarrow>
     ('c, proxy_request, 'w \<times> routing_table) net_event list \<Rightarrow> 'w \<times> routing_table \<Rightarrow>
     ('c, 'w \<times> routing_table) listener \<times> ('c \<times> nat \<times> bytes) list" where
  "serve_routing J G L backend bound es st =
     serve_run (\<lambda>c w. Some w)
       (\<lambda>req (w, t). case route J G L backend t req w of (w1, r) \<Rightarrow> ((w1, t), Returned r))
       es (listen bound st)"

definition serve_local ::
  "(string \<Rightarrow> http_request \<Rightarrow> 'w \<Rightarrow> 'w \<times> (string + http_response)) \<Rightarrow> string \<Rightarrow> bool \<Rightarrow>
     ('c, http_request, 'w) net_event list \<Rightarrow> 'w \<Rightarrow> ('c, 'w) listener \<times> ('c \<times> http_response) list" where
  "serve_local send backend bound es w =
     serve_run (\<lambda>c w. Some w)
       (\<lambda>req w. case local_handle send backend req w of (w1, r) \<Rightarrow> (w1, Returned r)) es (listen bound w)"

text \<open>
  The TLS handshake of the receiver. In a full handshake the client must present a certificate that
  the verifier accepts against the pins of that moment. But the one ServerConfig keeps the defaults of
  rustls, a store of sessions and tickets among them: a client that offers a session of the store
  resumes it, and rustls then takes the certificate from the session without asking the verifier.
  The state has the certificates of the sessions that were made so far; \<open>rz_resume\<close> says which of them
  a connection resumes, if any, and \<open>rz_rest\<close> whether the rest of the handshake succeeds.
\<close>

record tls_conn =
  tn_id :: nat
  tn_client_cert :: "bytes option"

record resumption =
  rz_rest :: "tls_conn \<Rightarrow> bool"
  rz_resume :: "tls_conn \<Rightarrow> bytes list \<Rightarrow> bytes option"

definition resumption_ok :: "resumption \<Rightarrow> bool" where
  "resumption_ok Z \<longleftrightarrow> (\<forall>c certs cert. rz_resume Z c certs = Some cert \<longrightarrow> cert \<in> set certs)"

definition ingress_ready ::
  "resumption \<Rightarrow> tls_conn \<Rightarrow> ('w \<times> pin_store) \<times> bytes list \<Rightarrow> (('w \<times> pin_store) \<times> bytes list) option" where
  "ingress_ready Z c st =
     (if \<not> rz_rest Z c then None
      else (case rz_resume Z c (snd st) of
              Some cert \<Rightarrow> Some (fst st, cert # snd st)
            | None \<Rightarrow>
                (case tn_client_cert c of
                   None \<Rightarrow> None
                 | Some cert \<Rightarrow>
                     if verify_client_cert (Some (snd (fst st))) cert [] 0 = Inr ()
                     then Some (fst st, cert # snd st) else None)))"

text \<open>The rest of the process does not touch the sessions.\<close>

fun beside_sessions :: "('c, 'q, 'w) net_event \<Rightarrow> ('c, 'q, 'w \<times> 's) net_event" where
  "beside_sessions (Accepted c) = Accepted c"
| "beside_sessions AcceptFailed = AcceptFailed"
| "beside_sessions ShutDown = ShutDown"
| "beside_sessions (Requested c q) = Requested c q"
| "beside_sessions (Closed c) = Closed c"
| "beside_sessions (Meanwhile g) = Meanwhile (map_prod g id)"

definition serve_ingress ::
  "proxy_json \<Rightarrow> 'w engine \<Rightarrow> string \<Rightarrow> resumption \<Rightarrow> bool \<Rightarrow> bool \<Rightarrow>
     (tls_conn, string \<times> bytes option, 'w \<times> pin_store) net_event list \<Rightarrow> 'w \<times> pin_store \<Rightarrow>
     (tls_conn, ('w \<times> pin_store) \<times> bytes list) listener \<times> (tls_conn \<times> nat \<times> bytes) list" where
  "serve_ingress J G backend Z config_ok bound es st =
     serve_run (ingress_ready Z)
       (\<lambda>(path, body) ((w, pins), certs).
          case ingress_handle J G backend path body w of (w1, r) \<Rightarrow> (((w1, pins), certs), Returned r))
       (map beside_sessions es) (listen (config_ok \<and> bound) (st, []))"

text \<open>The world of node-info is the snapshot that is taken for a request.\<close>

definition serve_nodeinfo ::
  "(node_info \<Rightarrow> bytes option) \<Rightarrow> string \<Rightarrow> bool \<Rightarrow> ('c, string, node_info) net_event list \<Rightarrow> node_info \<Rightarrow>
     ('c, node_info) listener \<times> ('c \<times> nat \<times> bytes) list" where
  "serve_nodeinfo to_vec node_id bound es ni =
     serve_run (\<lambda>c w. Some w) (\<lambda>path w. (w, Returned (nodeinfo_handle to_vec node_id path w))) es (listen bound ni)"

section \<open>What every loop does\<close>

lemma serve_run_append:
  "serve_run ready h (es @ es') l =
     (let (l1, out1) = serve_run ready h es l; (l2, out2) = serve_run ready h es' l1 in (l2, out1 @ out2))"
  by (induction es arbitrary: l) (simp_all add: Let_def case_prod_beta)

lemma serve_event_stopped:
  "ls_result l \<noteq> None \<Longrightarrow>
   ls_result (fst (serve_event ready h e l)) = ls_result l \<and>
   set (ls_open (fst (serve_event ready h e l))) \<subseteq> set (ls_open l)"
  by (cases e) (auto split: prod.splits exec.splits option.splits)

lemma serve_event_answers: "fst ` set (snd (serve_event ready h e l)) \<subseteq> set (ls_open l)"
  by (cases e) (auto split: prod.splits exec.splits)

lemma serve_run_Cons:
  "serve_run ready h (e # es) l =
     (fst (serve_run ready h es (fst (serve_event ready h e l))),
      snd (serve_event ready h e l) @ snd (serve_run ready h es (fst (serve_event ready h e l))))"
  by (simp add: case_prod_beta Let_def)

declare serve_run.simps(2) [simp del]

lemma serve_run_stopped:
  "ls_result l \<noteq> None \<Longrightarrow>
   ls_result (fst (serve_run ready h es l)) = ls_result l \<and>
   fst ` set (snd (serve_run ready h es l)) \<subseteq> set (ls_open l)"
proof (induction es arbitrary: l)
  case (Cons e es)
  let ?l = "fst (serve_event ready h e l)"
  have l: "ls_result ?l = ls_result l" "set (ls_open ?l) \<subseteq> set (ls_open l)"
    using serve_event_stopped [OF Cons.prems, of ready h e] by simp_all
  then have "ls_result ?l \<noteq> None" using Cons.prems by metis
  note ih = Cons.IH [OF this]
  have "fst ` set (snd (serve_run ready h es ?l)) \<subseteq> set (ls_open l)"
    using ih l(2) by (meson subset_trans)
  then have "fst ` set (snd (serve_run ready h (e # es) l)) \<subseteq> set (ls_open l)"
    using serve_event_answers [of ready h e l] by (simp only: serve_run_Cons snd_conv set_append image_Un Un_subset_iff simp_thms)
  then show ?case using ih l(1) by (simp only: serve_run_Cons fst_conv simp_thms)
qed simp

text \<open>Every answer goes to a connection that was let in.\<close>

lemma serve_run_answers:
  assumes "(c, r) \<in> set (snd (serve_run ready h es l))" "c \<notin> set (ls_open l)"
  shows "\<exists>es1 es2. es = es1 @ Accepted c # es2 \<and> ready c (ls_world (fst (serve_run ready h es1 l))) \<noteq> None"
  using assms
proof (induction es arbitrary: l)
  case (Cons e es)
  let ?l = "fst (serve_event ready h e l)"
  have now: "(c, r) \<notin> set (snd (serve_event ready h e l))"
    using Cons.prems(2) serve_event_answers [of ready h e l] by force
  then have later: "(c, r) \<in> set (snd (serve_run ready h es ?l))"
    using Cons.prems(1) by (simp add: serve_run_Cons)
  show ?case
  proof (cases "c \<in> set (ls_open ?l)")
    case True
    then have "e = Accepted c \<and> ready c (ls_world l) \<noteq> None"
      using Cons.prems(2) by (cases e) (auto split: prod.splits exec.splits if_splits option.splits)
    then have "e # es = [] @ Accepted c # es \<and> ready c (ls_world (fst (serve_run ready h [] l))) \<noteq> None" by simp
    then show ?thesis by blast
  next
    case False
    from Cons.IH [OF later False] obtain es1 es2 where
      "es = es1 @ Accepted c # es2" "ready c (ls_world (fst (serve_run ready h es1 ?l))) \<noteq> None" by blast
    then have "e # es = (e # es1) @ Accepted c # es2 \<and> ready c (ls_world (fst (serve_run ready h (e # es1) l))) \<noteq> None"
      by (simp add: serve_run_Cons)
    then show ?thesis by blast
  qed
qed simp

text \<open>A handler that keeps an invariant, in a process that keeps it too.\<close>

locale guarded_handler =
  fixes h :: "'q \<Rightarrow> 'w \<Rightarrow> 'w \<times> 'r exec" and inv :: "'w \<Rightarrow> bool"
  assumes keeps: "inv w \<Longrightarrow> inv (fst (h q w))"
begin

lemma event_keeps:
  "inv (ls_world l) \<Longrightarrow> (\<forall>g. e = Meanwhile g \<longrightarrow> inv (g (ls_world l))) \<Longrightarrow>
   inv (ls_world (fst (serve_event (\<lambda>c w. Some w) h e l)))"
  using keeps [of "ls_world l"] by (cases e) (auto split: prod.splits exec.splits, (metis fst_conv)+)

lemma run_keeps:
  "inv (ls_world l) \<Longrightarrow> \<forall>g w. Meanwhile g \<in> set es \<longrightarrow> inv w \<longrightarrow> inv (g w) \<Longrightarrow>
   inv (ls_world (fst (serve_run (\<lambda>c w. Some w) h es l)))"
proof (induction es arbitrary: l)
  case (Cons e es)
  have "inv (ls_world (fst (serve_event (\<lambda>c w. Some w) h e l)))"
    using Cons.prems by (intro event_keeps) auto
  from Cons.IH [OF this] Cons.prems(2) show ?case by (simp add: serve_run_Cons)
qed simp

end

text \<open>The pairing handler keeps a clustered node clustered and out of new joins.\<close>

definition settled :: "'f trust_state node \<Rightarrow> 'f trust_state node \<Rightarrow> bool" where
  "settled nd nd' \<longleftrightarrow> ts_clustered (nd_trust nd') \<and>
     (\<forall>iid a. hm_get (nd_joiners nd') iid = Some a \<longrightarrow> hm_get (nd_joiners nd) iid = Some a)"

lemma http_handle_node:
  "fst (http_handle X K rnd path meth body nd) = nd \<or>
   (\<exists>env. fst (http_handle X K rnd path meth body nd) = fst (handle_request X K rnd env nd))"
  by (auto simp: http_handle_def split: option.splits sum.splits prod.splits exec.splits) (metis fst_conv)+

lemma http_handle_settled:
  assumes "settled nd nd'"
  shows "settled nd (fst (http_handle X (cluster_sink C P F) rnd path meth body nd'))"
proof -
  have c: "is_clustered (cluster_sink C P F) (nd_trust nd')" using assms by (simp add: settled_def)
  have "settled nd (fst (handle_request X (cluster_sink C P F) rnd env nd'))" for env
    using cts.request_stays_clustered [OF c, of X rnd env] cts.request_no_new_join [OF c, of X rnd env] assms
    by (simp add: settled_def)
  then show ?thesis
    using http_handle_node [of X "cluster_sink C P F" rnd path meth body nd'] assms by metis
qed

interpretation ph: guarded_handler
  "\<lambda>(rnd, path, meth, body). http_handle X (cluster_sink C P F) rnd path meth body" "settled nd"
  for X C P and F :: "'f fs_ops" and nd :: "'f trust_state node"
  by unfold_locales (auto split: prod.splits intro: http_handle_settled)

section \<open>Properties\<close>

lemma stopped_answers_nobody_new:
  assumes "c \<notin> set (ls_open (fst (serve_run ready h es l)))" "e = AcceptFailed \<or> e = ShutDown"
  shows "\<exists>rest. snd (serve_run ready h (es @ e # es') l) = snd (serve_run ready h es l) @ rest \<and>
    c \<notin> fst ` set rest"
proof -
  let ?l = "fst (serve_run ready h es l)"
  let ?m = "fst (serve_event ready h e ?l)"
  have m: "ls_result ?m \<noteq> None" "ls_open ?m = ls_open ?l" "snd (serve_event ready h e ?l) = []"
    using assms(2) by auto
  have "snd (serve_run ready h (es @ e # es') l) = snd (serve_run ready h es l) @ snd (serve_run ready h es' ?m)"
    using m(3) by (simp add: serve_run_append serve_run_Cons case_prod_beta Let_def)
  moreover have "c \<notin> fst ` set (snd (serve_run ready h es' ?m))"
    using serve_run_stopped [OF m(1), of ready h es'] m(2) assms(1) by auto
  ultimately show ?thesis by blast
qed

text \<open>
  C21: one failed \<open>accept\<close> ends the pairing channel: whatever happens afterwards, only connections
  that were open at that moment are answered, and a peer that connects later never is.
\<close>
theorem accept_error_ends_pairing:
  assumes "c \<notin> set (ls_open (fst (serve_pairing X K bound es nd)))"
  shows "\<exists>rest. snd (serve_pairing X K bound (es @ AcceptFailed # es') nd) =
      snd (serve_pairing X K bound es nd) @ rest \<and> c \<notin> fst ` set rest"
  using assms unfolding serve_pairing_def by (intro stopped_answers_nobody_new) simp_all

text \<open>The receiver, event by event.\<close>

lemma serve_ingress_append:
  "fst (serve_ingress J G backend Z config_ok bound (es @ es') st) =
   fst (serve_run (ingress_ready Z)
       (\<lambda>(path, body) ((w, pins), certs).
          case ingress_handle J G backend path body w of (w1, r) \<Rightarrow> (((w1, pins), certs), Returned r))
       (map beside_sessions es') (fst (serve_ingress J G backend Z config_ok bound es st)))"
  by (simp add: serve_ingress_def serve_run_append case_prod_beta Let_def)

text \<open>A full handshake: the verifier accepted the certificate against the pins of that moment.\<close>

definition verified_now :: "resumption \<Rightarrow> tls_conn \<Rightarrow> bytes \<Rightarrow> ('w \<times> pin_store) \<times> bytes list \<Rightarrow> bool" where
  "verified_now Z c cert st \<longleftrightarrow> rz_resume Z c (snd st) = None \<and> tn_client_cert c = Some cert \<and> is_pinned (snd (fst st)) cert"

lemma ingress_ready_cert:
  assumes "ingress_ready Z c st = Some st'"
  shows "\<exists>cert. st' = (fst st, cert # snd st) \<and> (verified_now Z c cert st \<or> rz_resume Z c (snd st) = Some cert)"
  using assms by (auto simp: ingress_ready_def verified_now_def verify_client_cert_def accept_cert_def
      split: if_splits option.splits)

lemma requests_keep_sessions:
  "snd (ls_world (fst (serve_event (ingress_ready Z)
       (\<lambda>(path, body) ((w, pins), certs).
          case ingress_handle J G backend path body w of (w1, r) \<Rightarrow> (((w1, pins), certs), Returned r))
       (beside_sessions e) l))) =
   (case e of Accepted c \<Rightarrow> if ls_result l = None then (case ingress_ready Z c (ls_world l) of Some w \<Rightarrow> snd w | None \<Rightarrow> snd (ls_world l))
      else snd (ls_world l)
    | _ \<Rightarrow> snd (ls_world l))"
  by (cases e) (auto split: option.splits prod.splits)

text \<open>Every session goes back to a full handshake.\<close>

lemma sessions_verified:
  assumes "resumption_ok Z" "cert \<in> set (snd (ls_world (fst (serve_ingress J G backend Z config_ok bound es st))))"
  shows "\<exists>es1 es2 c. es = es1 @ Accepted c # es2 \<and>
    verified_now Z c cert (ls_world (fst (serve_ingress J G backend Z config_ok bound es1 st)))"
  using assms(2)
proof (induction es rule: rev_induct)
  case Nil
  then show ?case by (simp add: serve_ingress_def listen_def)
next
  case (snoc e es)
  let ?run = "\<lambda>es. fst (serve_ingress J G backend Z config_ok bound es st)"
  have more: ?case if "cert \<in> set (snd (ls_world (?run es)))"
    using snoc.IH [OF that] by (metis append_Cons append_assoc)
  show ?case
  proof (cases "cert \<in> set (snd (ls_world (?run es)))")
    case False
    with snoc.prems obtain c st' where e: "e = Accepted c" "ingress_ready Z c (ls_world (?run es)) = Some st'"
        "cert \<in> set (snd st')"
      unfolding serve_ingress_append by (auto simp: serve_run_Cons requests_keep_sessions split: net_event.splits if_splits option.splits)
    with ingress_ready_cert [OF e(2)] False assms(1)
    have "verified_now Z c cert (ls_world (?run es))" unfolding resumption_ok_def by auto
    with e(1) show ?thesis by blast
  qed (rule more)
qed

text \<open>
  C19: every answer of the ingress receiver goes to a client whose certificate was pinned at the moment
  of a full handshake: that of the connection itself, or the one of an earlier connection whose session
  the connection resumes. This holds whatever the rest of the daemon did to the pins before and after.
\<close>
theorem ingress_answers_pinned:
  assumes "(c, r) \<in> set (snd (serve_ingress J G backend Z config_ok bound es st))" "resumption_ok Z"
  shows "\<exists>es1 es2 cert. es = es1 @ Accepted c # es2 \<and>
    (let st1 = ls_world (fst (serve_ingress J G backend Z config_ok bound es1 st))
     in verified_now Z c cert st1 \<or>
        rz_resume Z c (snd st1) = Some cert \<and>
        (\<exists>ea c0 eb. es1 = ea @ Accepted c0 # eb \<and>
           verified_now Z c0 cert (ls_world (fst (serve_ingress J G backend Z config_ok bound ea st)))))"
proof -
  let ?run = "\<lambda>es. fst (serve_ingress J G backend Z config_ok bound es st)"
  have new: "c \<notin> set (ls_open (listen (config_ok \<and> bound) (st, [])))" by (simp add: listen_def)
  obtain fs1 fs2 where f: "map beside_sessions es = fs1 @ Accepted c # fs2"
    and ready: "ingress_ready Z c (ls_world (fst (serve_run (ingress_ready Z)
       (\<lambda>(path, body) ((w, pins), certs).
          case ingress_handle J G backend path body w of (w1, r) \<Rightarrow> (((w1, pins), certs), Returned r))
       fs1 (listen (config_ok \<and> bound) (st, []))))) \<noteq> None"
    using serve_run_answers [OF assms(1) [unfolded serve_ingress_def] new] by (elim exE conjE)
  obtain es1 rest where rest: "es = es1 @ rest" "fs1 = map beside_sessions es1" "Accepted c # fs2 = map beside_sessions rest"
    using f unfolding map_eq_append_conv by metis
  then obtain e es2 where "rest = e # es2" by (cases rest) simp_all
  with rest have es: "es = es1 @ e # es2" "fs1 = map beside_sessions es1" and e: "e = Accepted c"
    by (cases e; simp)+
  obtain st' where "ingress_ready Z c (ls_world (?run es1)) = Some st'"
    using ready unfolding es(2) serve_ingress_def by blast
  from ingress_ready_cert [OF this] obtain cert where
    cert: "verified_now Z c cert (ls_world (?run es1)) \<or> rz_resume Z c (snd (ls_world (?run es1))) = Some cert" by blast
  show ?thesis
  proof (cases "verified_now Z c cert (ls_world (?run es1))")
    case True
    with es(1) e show ?thesis unfolding Let_def by blast
  next
    case False
    with cert have r: "rz_resume Z c (snd (ls_world (?run es1))) = Some cert" by blast
    then have "cert \<in> set (snd (ls_world (?run es1)))" using assms(2) by (simp add: resumption_ok_def)
    from sessions_verified [OF assms(2) this] es(1) e r show ?thesis unfolding Let_def by blast
  qed
qed

text \<open>
  C26: a pin that is replaced does not end the trust in the old certificate. A client that connected while
  its certificate was pinned, and resumes that session after the certificate of its UUID was replaced,
  is answered, though the verifier would refuse the certificate and no pin holds it any more.
\<close>
theorem replaced_pin_still_served:
  assumes "pins_inv C P pins" "is_pinned pins old" "node_uuid_from_cert P old = Some u"
    and "pin C P pins new = Some (u, pins')" "new \<noteq> old"
    and "rz_rest Z c1" "rz_resume Z c1 [] = None" "tn_client_cert c1 = Some old"
    and "rz_rest Z c2" "rz_resume Z c2 [old] = Some old"
    and "ingress_handle J G backend path body w = (w', r)"
  shows "snd (serve_ingress J G backend Z True True
      [Accepted c1, Meanwhile (\<lambda>(w, p). (w, pins')), Accepted c2, Requested c2 (path, body)] (w, pins)) = [(c2, r)] \<and>
    \<not> is_pinned pins' old \<and> verify_client_cert (Some pins') old [] 0 \<noteq> Inr ()"
proof -
  have gone: "\<not> is_pinned pins' old"
    using ps.add_accepts [OF assms(1,4), of old] assms(3,5) by blast
  have "verify_client_cert (Some pins) old [] 0 = Inr ()"
    using assms(2) by (simp add: verify_client_cert_def accept_cert_def)
  then have "snd (serve_ingress J G backend Z True True
      [Accepted c1, Meanwhile (\<lambda>(w, p). (w, pins')), Accepted c2, Requested c2 (path, body)] (w, pins)) = [(c2, r)]"
    using assms(6-11) by (simp add: serve_ingress_def serve_run_Cons listen_def ingress_ready_def)
  with gone show ?thesis by (simp add: verify_client_cert_def accept_cert_def)
qed

text \<open>
  C20: a clustered daemon stays clustered and joins nothing new whatever comes in over its pairing
  port: any connections, any paths, methods and bodies, failed accepts and panics included.
\<close>
theorem pairing_port_keeps_cluster:
  assumes "ts_clustered (nd_trust nd)"
    and "\<forall>g nd'. Meanwhile g \<in> set es \<longrightarrow> settled nd nd' \<longrightarrow> settled nd (g nd')"
  shows "settled nd (ls_world (fst (serve_pairing X (cluster_sink C P F) bound es nd)))"
  unfolding serve_pairing_def
proof (rule ph.run_keeps)
  show "settled nd (ls_world (listen bound nd))" using assms(1) by (simp add: settled_def listen_def)
qed (rule assms(2))

section \<open>Witnesses\<close>

definition demo_settled :: "unit trust_state node" where
  "demo_settled = node_new (pairing_profile demo_identity ''A'' ''a:1'' [] []) (trust_sink_new [] () None True)"

abbreviation demo_sink :: "unit trust_state sink" where
  "demo_sink \<equiv> cluster_sink demo_crypto demo_pki full_disk"

theorem accept_error_ends_pairing_witness:
  "\<exists>rest. snd (serve_pairing demo_X demo_sink True
       ([Accepted (0 :: nat)] @ AcceptFailed # [Accepted 1, Requested 1 (demo_rnd, ''/'', ''GET'', None)]) demo_settled) =
     snd (serve_pairing demo_X demo_sink True [Accepted 0] demo_settled) @ rest \<and> 1 \<notin> fst ` set rest"
  by (rule accept_error_ends_pairing) (simp add: serve_pairing_def serve_run_Cons listen_def)

text \<open>A pinned client is answered, and so was pinned.\<close>

definition demo_resumption :: resumption where
  "demo_resumption = \<lparr>rz_rest = (\<lambda>c. True),
     rz_resume = (\<lambda>c certs. if 0 < tn_id c then (case certs of [] \<Rightarrow> None | x # xs \<Rightarrow> Some x) else None)\<rparr>"

lemma demo_resumption_ok: "resumption_ok demo_resumption"
  by (auto simp: resumption_ok_def demo_resumption_def split: if_splits list.splits)

theorem ingress_answers_pinned_witness:
  "let c = \<lparr>tn_id = 0, tn_client_cert = Some [7]\<rparr>;
       es = [Meanwhile (\<lambda>(w, p). (w, [(''a'', \<lparr>pp_uuid = ''a'', pp_cert = [7], pp_fingerprint = []\<rparr>)])),
             Accepted c, Requested c (''/'', None)]
   in snd (serve_ingress demo_pj (\<lambda>b m p d w. (w, Inl [])) ''b'' demo_resumption True True es ((), [])) = [(c, 404, [])] \<and>
      (\<exists>es1 es2 cert. es = es1 @ Accepted c # es2 \<and>
         is_pinned (snd (fst (ls_world (fst (serve_ingress demo_pj (\<lambda>b m p d w. (w, Inl [])) ''b'' demo_resumption True True es1 ((), [])))))) cert)"
proof -
  let ?c = "\<lparr>tn_id = 0, tn_client_cert = Some [7]\<rparr>"
  let ?es = "[Meanwhile (\<lambda>(w, p). (w, [(''a'', \<lparr>pp_uuid = ''a'', pp_cert = [7], pp_fingerprint = []\<rparr>)])),
             Accepted ?c, Requested ?c (''/'', None)]"
  let ?run = "serve_ingress demo_pj (\<lambda>b m p d w. (w, Inl [])) ''b'' demo_resumption True True"
  have a: "snd (?run ?es ((), [])) = [(?c, 404, [])]"
    by (simp add: serve_ingress_def serve_run_Cons listen_def ingress_ready_def verify_client_cert_def demo_resumption_def
        accept_cert_def is_pinned_def hm_values_def ingress_handle_def INGRESS_def)
  then have "(?c, 404, []) \<in> set (snd (?run ?es ((), [])))" by simp
  from ingress_answers_pinned [OF this demo_resumption_ok]
  have "\<exists>es1 es2 cert. ?es = es1 @ Accepted ?c # es2 \<and> is_pinned (snd (fst (ls_world (fst (?run es1 ((), [])))))) cert"
    unfolding Let_def verified_now_def by (simp add: demo_resumption_def) blast
  with a show ?thesis by (simp add: Let_def)
qed

theorem replaced_pin_still_served_witness:
  "\<exists>pins'. pin demo_crypto demo_pki [] [1] = Some (''n1'', pins') \<and>
     (\<exists>pins2 r. snd (serve_ingress demo_pj (\<lambda>b m p d w. (w, Inl [])) ''b'' demo_resumption True True
        [Accepted \<lparr>tn_id = 0, tn_client_cert = Some [1]\<rparr>, Meanwhile (\<lambda>(w, p). (w, pins2)),
         Accepted \<lparr>tn_id = 1, tn_client_cert = None\<rparr>, Requested \<lparr>tn_id = 1, tn_client_cert = None\<rparr> (''/'', None)] ((), pins')) =
        [(\<lparr>tn_id = 1, tn_client_cert = None\<rparr>, r)] \<and> \<not> is_pinned pins2 [1])"
proof -
  obtain pins' where p: "pin demo_crypto demo_pki [] [1] = Some (''n1'', pins')" by (simp add: pin_def)
  obtain pins2 where p2: "pin demo_crypto demo_pki pins' [2] = Some (''n1'', pins2)" by (simp add: pin_def)
  obtain w r where h: "ingress_handle demo_pj (\<lambda>b m p d w. (w, Inl [])) ''b'' ''/'' None () = (w, r)"
    by (meson surj_pair)
  have i: "pins_inv demo_crypto demo_pki pins'" by (rule pin_inv [OF pins_inv_Nil p])
  have "is_pinned pins' [1]" using ps.add_accepts [OF pins_inv_Nil p] by blast
  have "snd (serve_ingress demo_pj (\<lambda>b m p d w. (w, Inl [])) ''b'' demo_resumption True True
      [Accepted \<lparr>tn_id = 0, tn_client_cert = Some [1]\<rparr>, Meanwhile (\<lambda>(w, p). (w, pins2)),
       Accepted \<lparr>tn_id = 1, tn_client_cert = None\<rparr>, Requested \<lparr>tn_id = 1, tn_client_cert = None\<rparr> (''/'', None)] ((), pins')) =
      [(\<lparr>tn_id = 1, tn_client_cert = None\<rparr>, r)] \<and> \<not> is_pinned pins2 [1] \<and> verify_client_cert (Some pins2) [1] [] 0 \<noteq> Inr ()"
    by (rule replaced_pin_still_served [OF i \<open>is_pinned pins' [1]\<close> _ p2 _ _ _ _ _ _ h])
      (simp_all add: demo_resumption_def)
  with p show ?thesis by blast
qed

theorem pairing_port_keeps_cluster_witness:
  "settled demo_settled (ls_world (fst (serve_pairing demo_X demo_sink True
     [Accepted (0 :: nat), Requested 0 (demo_rnd, ''/'', ''GET'', None), Meanwhile id] demo_settled)))"
  by (rule pairing_port_keeps_cluster) (auto simp: demo_settled_def node_new_def trust_sink_new_def)

end
