(* ===== verification/Discovery.thy ===== *)
theory Discovery
  imports Router Trust
begin

text \<open>
  LAN discovery: the TXT record (crates/pair-proto/src/discovery.rs), its conversion from and to
  mDNS properties (crates/pair-discovery/src/lib.rs) and the loop of the daemon that puts the
  peers it finds into the routing table (crates/pair-node/src/main.rs). The mDNS daemon is a
  parameter: what it delivers is a list of properties in no particular order.
\<close>

section \<open>Node records\<close>

definition MDNS_SERVICE_TYPE :: string where "MDNS_SERVICE_TYPE = ''_nvpair-node._tcp''"

record node_record =
  nr_node_uuid :: "string option"
  nr_cluster_uuid :: "string option"
  nr_addresses :: "string list"
  nr_extra :: "(string, string) hmap"

definition default_record :: node_record where
  "default_record = \<lparr>nr_node_uuid = None, nr_cluster_uuid = None, nr_addresses = [], nr_extra = []\<rparr>"

definition uuid_keys :: "string set" where
  "uuid_keys = {''uuid'', ''node'', ''nodeUuid'', ''node_uuid'', ''node-uuid''}"

definition cluster_keys :: "string set" where
  "cluster_keys = {''cluster'', ''cluster-uuid'', ''clusterUuid'', ''cluster_uuid''}"

definition address_keys :: "string set" where
  "address_keys = {''addr'', ''addresses''}"

definition txt_field :: "node_record \<Rightarrow> string \<times> string \<Rightarrow> node_record" where
  "txt_field rec kv =
     (case kv of (k, v) \<Rightarrow>
        if k \<in> uuid_keys then rec\<lparr>nr_node_uuid := Some v\<rparr>
        else if k \<in> cluster_keys then rec\<lparr>nr_cluster_uuid := Some v\<rparr>
        else if k \<in> address_keys then rec\<lparr>nr_addresses := nr_addresses rec @ [v]\<rparr>
        else rec\<lparr>nr_extra := hm_insert k v (nr_extra rec)\<rparr>)"

definition from_txt :: "string list \<Rightarrow> node_record" where
  "from_txt entries =
     foldl (\<lambda>rec e. case split_once (CHR ''='') e of Some kv \<Rightarrow> txt_field rec kv | None \<Rightarrow> rec)
       default_record entries"

section \<open>Advertising and resolving\<close>

definition TXT_VERSION :: string where "TXT_VERSION = ''v''"
definition TXT_NODE_UUID :: string where "TXT_NODE_UUID = ''uuid''"
definition TXT_IP :: string where "TXT_IP = ''ip''"
definition TXT_CLUSTER_UUID :: string where "TXT_CLUSTER_UUID = ''cluster-uuid''"

lemmas txt_keys_defs = TXT_VERSION_def TXT_NODE_UUID_def TXT_IP_def TXT_CLUSTER_UUID_def

definition record_to_txt :: "node_record \<Rightarrow> (string, string) hmap" where
  "record_to_txt r =
     (let p1 = hm_insert TXT_VERSION ''1'' [];
          p2 = (case nr_node_uuid r of Some u \<Rightarrow> hm_insert TXT_NODE_UUID u p1 | None \<Rightarrow> p1);
          p3 = (case nr_cluster_uuid r of Some c \<Rightarrow> hm_insert TXT_CLUSTER_UUID c p2 | None \<Rightarrow> p2);
          p4 = (case nr_addresses r of
                  ip # _ \<Rightarrow> hm_insert TXT_IP (hd (split_on (CHR '':'') ip)) p3
                | [] \<Rightarrow> p3)
      in foldl (\<lambda>p (k, v). hm_insert k v p) p4 (nr_extra r))"

definition mdns_host :: "string \<Rightarrow> string" where
  "mdns_host host_name = (if ends_with host_name ''.local.'' then host_name else host_name @ ''.local.'')"

text \<open>A resolved service: its properties, its host, its port and its addresses, in the daemon's order.\<close>

record service_info =
  si_fullname :: string
  si_hostname :: string
  si_port :: "16 word"
  si_addresses :: "string list"
  si_properties :: "(string \<times> string) list"

record discovered_peer =
  dp_instance :: string
  dp_host :: string
  dp_port :: "16 word"
  dp_addresses :: "string list"
  dp_record :: node_record

definition txt_to_record :: "service_info \<Rightarrow> node_record" where
  "txt_to_record i =
     (let rec = from_txt (map (\<lambda>(k, v). k @ ''='' @ v) (si_properties i))
      in rec\<lparr>nr_addresses := nr_addresses rec @
               map (\<lambda>a. a @ '':'' @ nat_str (unat (si_port i))) (si_addresses i)\<rparr>)"

definition resolved_peer :: "service_info \<Rightarrow> discovered_peer" where
  "resolved_peer i =
     \<lparr>dp_instance = si_fullname i, dp_host = si_hostname i, dp_port = si_port i,
      dp_addresses = si_addresses i, dp_record = txt_to_record i\<rparr>"

section \<open>Peers into the routing table\<close>

definition trim_dots :: "string \<Rightarrow> string" where
  "trim_dots s = rev (dropWhile (\<lambda>c. c = CHR ''.'') (rev s))"

definition on_discovered ::
  "string \<Rightarrow> pin_store \<Rightarrow> discovered_peer \<Rightarrow> routing_table \<Rightarrow> routing_table" where
  "on_discovered self_id pins p t =
     (case nr_node_uuid (dp_record p) of
        None \<Rightarrow> t
      | Some i \<Rightarrow>
          if i = self_id then t
          else upsert_peer_meta i (case dp_addresses p of a # _ \<Rightarrow> a | [] \<Rightarrow> trim_dots (dp_host p))
                 (dp_port p) (pin_get pins i \<noteq> None) t)"

section \<open>Round trip\<close>

lemma txt_entry: "CHR ''='' \<notin> set k \<Longrightarrow> split_once (CHR ''='') (k @ ''='' @ v) = Some (k, v)"
  using split_once_append [of "CHR ''=''" k v] by simp

lemma from_txt_fields:
  assumes "\<forall>(k, v) \<in> set ps. CHR ''='' \<notin> set k"
  shows "from_txt (map (\<lambda>(k, v). k @ ''='' @ v) ps) = foldl txt_field default_record ps"
proof -
  have "foldl (\<lambda>rec e. case split_once (CHR ''='') e of Some kv \<Rightarrow> txt_field rec kv | None \<Rightarrow> rec) r
      (map (\<lambda>(k, v). k @ ''='' @ v) ps) = foldl txt_field r ps" for r
    using assms by (induction ps arbitrary: r) (auto simp del: append_Cons simp: txt_entry)
  then show ?thesis by (simp add: from_txt_def)
qed

lemma keys_disjoint:
  "k \<in> uuid_keys \<Longrightarrow> k \<notin> cluster_keys" "k \<in> cluster_keys \<Longrightarrow> k \<notin> uuid_keys"
  "k \<in> address_keys \<Longrightarrow> k \<notin> uuid_keys \<union> cluster_keys"
  by (auto simp: uuid_keys_def cluster_keys_def address_keys_def)

lemma fold_uuid:
  "\<forall>(k, v) \<in> set ps. k \<in> uuid_keys \<longrightarrow> v = u \<Longrightarrow>
   nr_node_uuid (foldl txt_field r ps) = (if \<exists>(k, v) \<in> set ps. k \<in> uuid_keys then Some u else nr_node_uuid r)"
  by (induction ps arbitrary: r) (auto simp: txt_field_def keys_disjoint)

lemma fold_cluster:
  "\<forall>(k, v) \<in> set ps. k \<in> cluster_keys \<longrightarrow> v = u \<Longrightarrow>
   nr_cluster_uuid (foldl txt_field r ps) = (if \<exists>(k, v) \<in> set ps. k \<in> cluster_keys then Some u else nr_cluster_uuid r)"
  by (induction ps arbitrary: r) (auto simp: txt_field_def keys_disjoint)

lemma fold_addresses:
  "\<forall>(k, v) \<in> set ps. k \<notin> address_keys \<Longrightarrow> nr_addresses (foldl txt_field r ps) = nr_addresses r"
  by (induction ps arbitrary: r) (auto simp: txt_field_def)

definition known_keys :: "string set" where
  "known_keys = uuid_keys \<union> cluster_keys \<union> address_keys"

lemma fold_extra:
  assumes "distinct (map fst ps)"
  shows "hm_get (nr_extra (foldl txt_field r ps)) k =
    (if k \<notin> known_keys \<and> map_of ps k \<noteq> None then map_of ps k else hm_get (nr_extra r) k)"
  using assms
proof (induction ps arbitrary: r)
  case Nil
  then show ?case by simp
next
  case (Cons p ps)
  obtain j v where p: "p = (j, v)" by fastforce
  from Cons.prems p have j: "map_of ps j = None" by (simp add: map_of_eq_None_iff)
  have "hm_get (nr_extra (foldl txt_field r (p # ps))) k =
      (if k \<notin> known_keys \<and> map_of ps k \<noteq> None then map_of ps k else hm_get (nr_extra (txt_field r p)) k)"
    using Cons by simp
  also have "hm_get (nr_extra (txt_field r p)) k =
      (if j \<notin> known_keys \<and> j = k then Some v else hm_get (nr_extra r) k)"
    by (auto simp: txt_field_def p known_keys_def hm.get_put)
  finally show ?case using j by (auto simp: p)
qed

definition first_ip :: "node_record \<Rightarrow> string option" where
  "first_ip r = (case nr_addresses r of ip # _ \<Rightarrow> Some (hd (split_on (CHR '':'') ip)) | [] \<Rightarrow> None)"

lemma record_to_txt_get:
  assumes "hm_wf (nr_extra r)"
  shows "hm_get (record_to_txt r) k =
    (case hm_get (nr_extra r) k of
       Some v \<Rightarrow> Some v
     | None \<Rightarrow> if k = TXT_VERSION then Some ''1'' else if k = TXT_NODE_UUID then nr_node_uuid r
              else if k = TXT_CLUSTER_UUID then nr_cluster_uuid r else if k = TXT_IP then first_ip r else None)"
proof -
  have "distinct (map fst (nr_extra r))" using assms by (simp add: hm_wf_def)
  from hm_insert_all_get [OF this] show ?thesis
    by (simp add: record_to_txt_def Let_def hm.get_put hm.get_empty first_ip_def hm_get_def [of "nr_extra r"] txt_keys_defs
        split: option.split list.split)
qed

lemma record_to_txt_wf: "hm_wf (record_to_txt r)"
  unfolding record_to_txt_def Let_def
  by (intro hm_insert_all_wf) (auto simp: hm.wf_put hm.wf_empty split: option.split list.split)

lemma resolved_record:
  assumes "mset (si_properties i) = mset (record_to_txt r)" "hm_wf (nr_extra r)"
    and "\<forall>k \<in> set (map fst (nr_extra r)). k \<notin> known_keys \<and> k \<noteq> TXT_VERSION \<and> k \<noteq> TXT_IP \<and> CHR ''='' \<notin> set k"
  shows "nr_node_uuid (txt_to_record i) = nr_node_uuid r \<and>
    nr_cluster_uuid (txt_to_record i) = nr_cluster_uuid r \<and>
    nr_addresses (txt_to_record i) = map (\<lambda>a. a @ '':'' @ nat_str (unat (si_port i))) (si_addresses i) \<and>
    (\<lambda>k. hm_get (nr_extra (txt_to_record i)) k) =
      ((\<lambda>k. hm_get (nr_extra r) k)(TXT_VERSION \<mapsto> ''1''))(TXT_IP := first_ip r)"
proof -
  let ?ps = "si_properties i" and ?r = "foldl txt_field default_record (si_properties i)"
  have d: "distinct (map fst ?ps)"
    using record_to_txt_wf [of r] assms(1) unfolding hm_wf_def by (metis mset_eq_imp_distinct_iff mset_map)
  have m: "map_of ?ps k = hm_get (record_to_txt r) k" for k
    using record_to_txt_wf [of r] d mset_eq_setD [OF assms(1)] unfolding hm_wf_def hm_get_def
    by (metis map_of_inject_set)
  have mem: "(k, v) \<in> set ?ps \<longleftrightarrow> hm_get (record_to_txt r) k = Some v" for k v
    using d by (simp add: m [symmetric])
  have ex: "hm_get (nr_extra r) k = Some v \<Longrightarrow> k \<notin> known_keys \<and> k \<noteq> TXT_VERSION \<and> k \<noteq> TXT_IP \<and> CHR ''='' \<notin> set k" for k v
    using assms(3) by (force simp: hm_get_def dest: map_of_SomeD)
  have keys: "TXT_NODE_UUID \<in> uuid_keys" "TXT_CLUSTER_UUID \<in> cluster_keys" "TXT_VERSION \<notin> known_keys" "TXT_IP \<notin> known_keys"
    "TXT_CLUSTER_UUID \<notin> uuid_keys" "TXT_NODE_UUID \<notin> cluster_keys \<union> address_keys" "TXT_CLUSTER_UUID \<notin> address_keys"
    by (simp_all add: txt_keys_defs uuid_keys_def cluster_keys_def address_keys_def known_keys_def)
  have get: "hm_get (record_to_txt r) k = Some v \<longleftrightarrow> hm_get (nr_extra r) k = Some v \<or>
      (k, v) = (TXT_VERSION, ''1'') \<or> k = TXT_NODE_UUID \<and> nr_node_uuid r = Some v \<or>
      k = TXT_CLUSTER_UUID \<and> nr_cluster_uuid r = Some v \<or> k = TXT_IP \<and> first_ip r = Some v" for k v
    using ex [of k] keys unfolding record_to_txt_get [OF assms(2)]
    by (cases "hm_get (nr_extra r) k") (auto simp: txt_keys_defs known_keys_def)
  have eq: "\<forall>(k, v) \<in> set ?ps. CHR ''='' \<notin> set k"
    unfolding mem get using ex by (auto simp: mem get txt_keys_defs)
  have "\<forall>(k, v) \<in> set ?ps. k \<in> uuid_keys \<longrightarrow> v = the (nr_node_uuid r)"
    using ex keys by (auto simp: mem get known_keys_def)
  note u = fold_uuid [OF this, of default_record]
  have "(\<exists>k v. (k, v) \<in> set ?ps \<and> k \<in> uuid_keys) \<longleftrightarrow> nr_node_uuid r \<noteq> None"
    unfolding mem get using ex keys by (auto simp: known_keys_def)
  with u have nu: "nr_node_uuid ?r = nr_node_uuid r" by (auto simp: default_record_def)
  have "\<forall>(k, v) \<in> set ?ps. k \<in> cluster_keys \<longrightarrow> v = the (nr_cluster_uuid r)"
    using ex keys by (auto simp: mem get known_keys_def)
  note c = fold_cluster [OF this, of default_record]
  have "(\<exists>k v. (k, v) \<in> set ?ps \<and> k \<in> cluster_keys) \<longleftrightarrow> nr_cluster_uuid r \<noteq> None"
    unfolding mem get using ex keys by (auto simp: known_keys_def)
  with c have nc: "nr_cluster_uuid ?r = nr_cluster_uuid r" by (auto simp: default_record_def)
  have "\<forall>(k, v) \<in> set ?ps. k \<notin> address_keys"
    using ex keys keys_disjoint(3) by (auto simp: mem get known_keys_def)
  note na = fold_addresses [OF this, of default_record]
  have nx: "hm_get (nr_extra ?r) k = (((\<lambda>k. hm_get (nr_extra r) k)(TXT_VERSION \<mapsto> ''1''))(TXT_IP := first_ip r)) k" for k
  proof (cases "k \<in> known_keys")
    case True
    then have "k \<noteq> TXT_VERSION" "k \<noteq> TXT_IP" using keys by metis+
    moreover from True have "hm_get (nr_extra r) k = None" using ex [of k] by (metis not_None_eq)
    ultimately show ?thesis using True
      by (simp add: fold_extra [OF d] default_record_def hm.get_empty)
  next
    case False
    then have "k \<noteq> TXT_NODE_UUID" "k \<noteq> TXT_CLUSTER_UUID" using keys by (auto simp: known_keys_def)
    moreover have "hm_get (nr_extra r) TXT_VERSION = None" "hm_get (nr_extra r) TXT_IP = None"
      using ex by fastforce+
    moreover have "TXT_VERSION \<noteq> TXT_IP" by (simp add: txt_keys_defs)
    ultimately show ?thesis using False
      by (auto simp: fold_extra [OF d] m record_to_txt_get [OF assms(2)] default_record_def hm.get_empty
          split: option.split)
  qed
  have "txt_to_record i = ?r\<lparr>nr_addresses := nr_addresses ?r @
      map (\<lambda>a. a @ '':'' @ nat_str (unat (si_port i))) (si_addresses i)\<rparr>"
    by (simp only: txt_to_record_def from_txt_fields [OF eq] Let_def)
  with nu nc na nx show ?thesis by (simp add: default_record_def fun_eq_iff)
qed

text \<open>
  C35: what a node advertises is what its peers read, in whatever order mDNS delivers the
  properties: the node UUID, the cluster UUID and every extra property come back, the version
  and the primary address arrive as extra properties, and the addresses are the ones mDNS
  resolved, with the advertised port; for extra properties that do not use a name the code
  gives a meaning to.
\<close>
theorem txt_roundtrip:
  assumes "mset (si_properties i) = mset (record_to_txt r)" "hm_wf (nr_extra r)"
    and "\<forall>k \<in> set (map fst (nr_extra r)). k \<notin> known_keys \<and> k \<noteq> TXT_VERSION \<and> k \<noteq> TXT_IP \<and> CHR ''='' \<notin> set k"
  shows "nr_node_uuid (txt_to_record i) = nr_node_uuid r \<and>
    nr_cluster_uuid (txt_to_record i) = nr_cluster_uuid r \<and>
    nr_addresses (txt_to_record i) = map (\<lambda>a. a @ '':'' @ nat_str (unat (si_port i))) (si_addresses i) \<and>
    (\<lambda>k. hm_get (nr_extra (txt_to_record i)) k) =
      ((\<lambda>k. hm_get (nr_extra r) k)(TXT_VERSION \<mapsto> ''1''))(TXT_IP := first_ip r)"
  using resolved_record [OF assms] .

section \<open>Witnesses\<close>

definition demo_record :: node_record where
  "demo_record = \<lparr>nr_node_uuid = Some ''n1'', nr_cluster_uuid = None, nr_addresses = [''10.0.0.1:7071''],
     nr_extra = [(''weird'', ''42'')]\<rparr>"

theorem txt_roundtrip_witness:
  "nr_node_uuid (txt_to_record \<lparr>si_fullname = [], si_hostname = ''h.local.'', si_port = 7071, si_addresses = [''10.0.0.1''],
     si_properties = rev (record_to_txt demo_record)\<rparr>) = Some ''n1''"
proof -
  let ?i = "\<lparr>si_fullname = [], si_hostname = ''h.local.'', si_port = 7071, si_addresses = [''10.0.0.1''],
     si_properties = rev (record_to_txt demo_record)\<rparr>"
  have "mset (si_properties ?i) = mset (record_to_txt demo_record)" "hm_wf (nr_extra demo_record)"
    by (simp_all add: demo_record_def hm_wf_def)
  moreover have "\<forall>k \<in> set (map fst (nr_extra demo_record)).
      k \<notin> known_keys \<and> k \<noteq> TXT_VERSION \<and> k \<noteq> TXT_IP \<and> CHR ''='' \<notin> set k"
    by (simp add: demo_record_def known_keys_def uuid_keys_def cluster_keys_def address_keys_def txt_keys_defs)
  ultimately show ?thesis using txt_roundtrip [of ?i demo_record] by (simp add: demo_record_def)
qed

end
