(* ===== verification/Daemon.thy ===== *)
theory Daemon
  imports Ui Discovery Pairing_End
begin

text \<open>
  The daemon (crates/pair-node/src/main.rs): how it finds its identity and its pins, the state
  it starts with, the tasks that change that state afterwards (the pollers, discovery, the
  pairing endpoint, the dashboard) and the two pairing commands of the operator. Environment
  variables are a function; sockets and addresses of the host are parameters.
\<close>

section \<open>Configuration and start\<close>

definition DEFAULT_PAIRING_BIND :: string where
  "DEFAULT_PAIRING_BIND = ''0.0.0.0:14321''"

definition env_or :: "(string \<Rightarrow> string option) \<Rightarrow> string \<Rightarrow> string \<Rightarrow> string" where
  "env_or env key def = (case env key of Some v \<Rightarrow> v | None \<Rightarrow> def)"

definition daemon_hostname :: "(string \<Rightarrow> string option) \<Rightarrow> string option \<Rightarrow> string" where
  "daemon_hostname env etc_hostname =
     (case map_option trim etc_hostname of
        Some (c # s) \<Rightarrow> c # s
      | _ \<Rightarrow> (case env ''COMPUTERNAME'' of
                Some h \<Rightarrow> h
              | None \<Rightarrow> (case env ''HOSTNAME'' of Some h \<Rightarrow> h | None \<Rightarrow> ''openpair-node'')))"

definition load_identity_pins ::
  "crypto \<Rightarrow> pki \<Rightarrow> keygen \<Rightarrow> 'f fs_ops \<Rightarrow> bytes \<Rightarrow> (string \<Rightarrow> string option) \<Rightarrow> 'f \<Rightarrow>
     (id_error + identity \<times> pin_store \<times> string option) \<times> 'f" where
  "load_identity_pins C P K F rnd env f =
     (case env ''OPENPAIR_CLUSTER_DIR'' of
        Some cdir \<Rightarrow>
          (case load_or_init C P K F rnd f cdir of
             (Inl e, f1) \<Rightarrow> (Inl e, f1)
           | (Inr (i, store), f1) \<Rightarrow> (Inr (i, store, Some cdir), f1))
      | None \<Rightarrow>
          (case load_or_generate F P K rnd f (env_or env ''OPENPAIR_DATA_DIR'' ''./openpair-data'') of
             (Inl e, f1) \<Rightarrow> (Inl e, f1)
           | (Inr i, f1) \<Rightarrow> (Inr (i, [], None), f1)))"

definition advertised_addr :: "string option \<Rightarrow> 16 word \<Rightarrow> string" where
  "advertised_addr local_ip port =
     (case local_ip of Some ip \<Rightarrow> ip | None \<Rightarrow> ''127.0.0.1'') @ '':'' @ nat_str (unat port)"

text \<open>
  The node of the pairing channel over the loaded identity and pins; it counts as clustered from
  the start when anything is pinned.
\<close>

definition endpoint_node ::
  "string \<Rightarrow> string option \<Rightarrow> 16 word \<Rightarrow> identity \<Rightarrow> pin_store \<Rightarrow> string option \<Rightarrow> 'f \<Rightarrow> 'f trust_state node" where
  "endpoint_node host local_ip port i pins cluster_dir f =
     build_node (pairing_profile i host (advertised_addr local_ip port) [] [])
       (trust_sink_new pins f cluster_dir (pins \<noteq> []))"

definition pairing_endpoint ::
  "crypto \<Rightarrow> pki \<Rightarrow> keygen \<Rightarrow> 'f fs_ops \<Rightarrow> bytes \<Rightarrow> (string \<Rightarrow> string option) \<Rightarrow> string option \<Rightarrow> string option \<Rightarrow>
     16 word \<Rightarrow> 'f \<Rightarrow> (id_error + 'f trust_state node) \<times> 'f" where
  "pairing_endpoint C P K F rnd env etc_hostname local_ip port f =
     (case load_identity_pins C P K F rnd env f of
        (Inl e, f1) \<Rightarrow> (Inl e, f1)
      | (Inr (i, pins, dir), f1) \<Rightarrow>
          (Inr (endpoint_node (daemon_hostname env etc_hostname) local_ip port i pins dir f1), f1))"

text \<open>
  The state in which the daemon starts to serve: the development-time trust directory, when one
  is set, adds its pins before the pairing node is built.
\<close>

definition daemon_start ::
  "crypto \<Rightarrow> pki \<Rightarrow> keygen \<Rightarrow> 'f fs_ops \<Rightarrow> bytes \<Rightarrow> (string \<Rightarrow> string option) \<Rightarrow> string option \<Rightarrow> string option \<Rightarrow>
     16 word \<Rightarrow> 'w \<Rightarrow> 'f \<Rightarrow> id_error + ('w, 'f) dstate" where
  "daemon_start C P K F rnd env etc_hostname local_ip port w f =
     (case load_identity_pins C P K F rnd env f of
        (Inl e, _) \<Rightarrow> Inl e
      | (Inr (i, pins, dir), f1) \<Rightarrow>
          (let (f2, pins2) = (case env ''OPENPAIR_TRUST_DIR'' of
                 Some d \<Rightarrow> (case bootstrap_dev_trust C P F f1 d i pins of ((_, f2), p) \<Rightarrow> (f2, p))
               | None \<Rightarrow> (f1, pins))
           in Inr ((w, routing_new (id_uuid i)),
                   endpoint_node (daemon_hostname env etc_hostname) local_ip port i pins2 dir f2)))"

section \<open>The tasks of the daemon\<close>

definition poll_local ::
  "proxy_json \<Rightarrow> 'w engine \<Rightarrow> string \<Rightarrow> ('w, 'f) dstate \<Rightarrow> ('w, 'f) dstate" where
  "poll_local J G backend st =
     (case fetch_local_models J G backend (fst (fst st)) of
        (w1, Inr models) \<Rightarrow> ((w1, set_local_models models (ds_routing st)), snd st)
      | (w1, Inl _) \<Rightarrow> ((w1, ds_routing st), snd st))"

fun poll_each ::
  "proxy_json \<Rightarrow> 'w link \<Rightarrow> (string \<times> string \<times> 16 word) list \<Rightarrow> ('w, 'f) dstate \<Rightarrow> ('w, 'f) dstate" where
  "poll_each J L [] st = st"
| "poll_each J L ((nid, host, port) # ps) st =
     (case fetch_peer_models J L host port (fst (fst st)) of
        (w1, Inr models) \<Rightarrow> poll_each J L ps ((w1, set_peer_models nid models (ds_routing st)), snd st)
      | (w1, Inl _) \<Rightarrow> poll_each J L ps ((w1, ds_routing st), snd st))"

definition poll_peers :: "proxy_json \<Rightarrow> 'w link \<Rightarrow> ('w, 'f) dstate \<Rightarrow> ('w, 'f) dstate" where
  "poll_peers J L st = poll_each J L (pinned_peers (ds_routing st)) st"

definition discover :: "string \<Rightarrow> discovered_peer \<Rightarrow> ('w, 'f) dstate \<Rightarrow> ('w, 'f) dstate" where
  "discover self_id p st = ds_map_routing (on_discovered self_id (ds_pins st) p) st"

definition advertise_port :: "(string \<Rightarrow> string option) \<Rightarrow> 16 word \<Rightarrow> 16 word" where
  "advertise_port env nodeinfo_port =
     (case Option.bind (env ''OPENPAIR_ADVERTISE_PORT'') (parse_uint 65535) of
        Some n \<Rightarrow> word_of_nat n
      | None \<Rightarrow> nodeinfo_port)"

definition own_record :: "string \<Rightarrow> string option \<Rightarrow> node_record" where
  "own_record node_id local_ip =
     default_record\<lparr>nr_node_uuid := Some node_id,
       nr_addresses := (case local_ip of Some ip \<Rightarrow> [ip] | None \<Rightarrow> [])\<rparr>"

section \<open>The operator's commands\<close>

definition normalize_pairing_addr :: "string \<Rightarrow> string" where
  "normalize_pairing_addr input =
     (case rsplit_once (CHR '':'') input of
        Some (_, p) \<Rightarrow> if parse_uint 65535 p \<noteq> None then input else input @ '':'' @ nat_str DEFAULT_PAIRING_PORT
      | None \<Rightarrow> input @ '':'' @ nat_str DEFAULT_PAIRING_PORT)"

text \<open>
  What the operator types; \<open>None\<close> is an error of standard input. Anything may happen on the node until
  the line is there.
\<close>

type_synonym 's prompt = "'s \<Rightarrow> 's \<times> string option"

definition prompt_pin :: "'s prompt \<Rightarrow> 's \<Rightarrow> 's \<times> string option" where
  "prompt_pin ask st = (case ask st of (st1, line) \<Rightarrow> (st1, map_option trim line))"

text \<open>
  The wait of \<open>run_invite\<close>: up to \<open>n\<close> looks at the membership flag, half a second apart. What
  happens on the node during a wait is the parameter \<open>tick\<close>.
\<close>

fun await_clustered :: "'t sink \<Rightarrow> ('w \<times> 't node \<Rightarrow> 'w \<times> 't node) \<Rightarrow> nat \<Rightarrow> 'w \<times> 't node \<Rightarrow> ('w \<times> 't node) \<times> bool" where
  "await_clustered K tick 0 st = (st, False)"
| "await_clustered K tick (Suc n) st =
     (if is_clustered K (nd_trust (snd st)) then (st, True) else await_clustered K tick n (tick st))"

datatype command_error = Usage | LoadFailed id_error | Drive drive_error | TimedOut | PromptFailed

definition run_invite ::
  "cluster_env \<Rightarrow> 't sink \<Rightarrow> ('w, 't) net \<Rightarrow> (nat \<Rightarrow> entropy) \<Rightarrow> string \<Rightarrow> nat \<Rightarrow> ('w \<times> 't node \<Rightarrow> 'w \<times> 't node) \<Rightarrow>
     string option \<Rightarrow> id_error + 'w \<times> 't node \<Rightarrow> (('w \<times> 't node) option \<times> (command_error + unit) exec) option" where
  "run_invite X K N rnd iid n tick joiner endpoint =
     (case joiner of
        None \<Rightarrow> Some (None, Returned (Inl Usage))
      | Some j \<Rightarrow>
          (case endpoint of
             Inl e \<Rightarrow> Some (None, Returned (Inl (LoadFailed e)))
           | Inr st \<Rightarrow>
               (case create_invite X N rnd iid n (normalize_pairing_addr j) st of
                  None \<Rightarrow> None
                | Some (st1, Panicked) \<Rightarrow> Some (Some st1, Panicked)
                | Some (st1, Diverged) \<Rightarrow> Some (Some st1, Diverged)
                | Some (st1, Returned (Inl e)) \<Rightarrow> Some (Some st1, Returned (Inl (Drive e)))
                | Some (st1, Returned (Inr _)) \<Rightarrow>
                    (case await_clustered K tick 600 st1 of
                       (st2, joined) \<Rightarrow> Some (Some st2, Returned (if joined then Inr () else Inl TimedOut))))))"

text \<open>The wait of \<open>run_join\<close> has no bound: \<open>None\<close> is waiting for ever.\<close>

partial_function (option) await_invite ::
  "'t sink \<Rightarrow> (nat \<Rightarrow> 'w \<times> 't node \<Rightarrow> 'w \<times> 't node) \<Rightarrow> nat \<Rightarrow> 'w \<times> 't node \<Rightarrow>
     (('w \<times> 't node) \<times> pending_invite option) option" where
  "await_invite K tick i st =
     (if is_clustered K (nd_trust (snd st)) then Some (st, None)
      else (case pending_invites (snd st) of
              p # _ \<Rightarrow> Some (st, Some p)
            | [] \<Rightarrow> await_invite K tick (Suc i) (tick i st)))"

text \<open>\<open>None\<close> as the result of a join is "already clustered".\<close>

definition run_join ::
  "cluster_env \<Rightarrow> 't sink \<Rightarrow> ('w, 't) net \<Rightarrow> (nat \<Rightarrow> entropy) \<Rightarrow> (nat \<Rightarrow> 'w \<times> 't node \<Rightarrow> 'w \<times> 't node) \<Rightarrow>
     ('w \<times> 't node) prompt \<Rightarrow> id_error + 'w \<times> 't node \<Rightarrow> (('w \<times> 't node) option \<times> (command_error + paired option) exec) option" where
  "run_join X K N rnd tick ask endpoint =
     (case endpoint of
        Inl e \<Rightarrow> Some (None, Returned (Inl (LoadFailed e)))
      | Inr st \<Rightarrow>
          (case await_invite K tick 0 st of
             None \<Rightarrow> None
           | Some (st1, None) \<Rightarrow> Some (Some st1, Returned (Inr None))
           | Some (st1, Some p) \<Rightarrow>
               (case prompt_pin ask st1 of
                  (st2, None) \<Rightarrow> Some (Some st2, Returned (Inl PromptFailed))
                | (st2, Some pn) \<Rightarrow>
                    (case submit_pin X K N rnd (pn_invite_id p) pn st2 of
                       None \<Rightarrow> None
                     | Some (st3, Panicked) \<Rightarrow> Some (Some st3, Panicked)
                     | Some (st3, Diverged) \<Rightarrow> Some (Some st3, Diverged)
                     | Some (st3, Returned (Inl e)) \<Rightarrow> Some (Some st3, Returned (Inl (Drive e)))
                     | Some (st3, Returned (Inr pd)) \<Rightarrow> Some (Some st3, Returned (Inr (Some pd)))))))"

section \<open>Addresses\<close>

lemma normalize_same: "ui_normalize_addr s = normalize_pairing_addr s"
  by (auto simp: ui_normalize_addr_def normalize_pairing_addr_def split: option.split prod.split)

text \<open>
  The address of an invite always ends with a port that parses: an address that names one
  keeps it, any other gets the pairing port, and normalizing again changes nothing. The
  dashboard and the command line agree.
\<close>
theorem normalize_addr_has_port:
  "\<exists>h p n. rsplit_once (CHR '':'') (normalize_pairing_addr s) = Some (h, p) \<and> parse_uint 65535 p = Some n \<and>
     normalize_pairing_addr (normalize_pairing_addr s) = normalize_pairing_addr s \<and>
     (normalize_pairing_addr s = s \<or> h = s \<and> n = DEFAULT_PAIRING_PORT) \<and>
     ui_normalize_addr s = normalize_pairing_addr s"
proof -
  let ?d = "nat_str DEFAULT_PAIRING_PORT"
  have d: "parse_uint 65535 ?d = Some DEFAULT_PAIRING_PORT"
    by (rule parse_uint_nat_str) (simp add: DEFAULT_PAIRING_PORT_def)
  have "CHR '':'' \<notin> set ?d"
    using nat_str_digits [of DEFAULT_PAIRING_PORT] by (auto simp: is_digit_def)
  from rsplit_once_append [OF this, of s]
  have app: "rsplit_once (CHR '':'') (s @ '':'' @ ?d) = Some (s, ?d)" by simp
  have again: "normalize_pairing_addr t = t" if "rsplit_once (CHR '':'') t = Some (h, p)" "parse_uint 65535 p = Some n" for t h p n
    using that by (simp add: normalize_pairing_addr_def)
  consider (port) h p n where "rsplit_once (CHR '':'') s = Some (h, p)" "parse_uint 65535 p = Some n"
      "normalize_pairing_addr s = s"
    | (bare) "normalize_pairing_addr s = s @ '':'' @ ?d"
  proof (cases "normalize_pairing_addr s = s @ '':'' @ ?d")
    case False
    then obtain h p where hp: "rsplit_once (CHR '':'') s = Some (h, p)"
      by (cases "rsplit_once (CHR '':'') s") (auto simp: normalize_pairing_addr_def)
    with False obtain n where "parse_uint 65535 p = Some n" "normalize_pairing_addr s = s"
      by (cases "parse_uint 65535 p") (auto simp: normalize_pairing_addr_def)
    with hp port show ?thesis by blast
  qed (use bare in blast)
  then show ?thesis
  proof cases
    case port
    then show ?thesis using again by (auto simp: normalize_same)
  next
    case bare
    with app d again [OF app d] show ?thesis by (auto simp: normalize_same)
  qed
qed

section \<open>What a node advertises and its peers use\<close>

text \<open>
  A node that is discovered is entered in the routing table of its peers with its node-info
  port as the ingress port: that port is what the daemon advertises unless
  \<open>OPENPAIR_ADVERTISE_PORT\<close> holds another, so the requests routed to the node do not go to the
  port its ingress receiver listens on.
\<close>
theorem discovered_at_nodeinfo_port:
  assumes "Option.bind (env ''OPENPAIR_ADVERTISE_PORT'') (parse_uint 65535) = None"
    and "mset (si_properties i) = mset (record_to_txt (own_record node_id ip))"
    and "si_port i = advertise_port env nodeinfo_port" "self \<noteq> node_id"
  shows "\<exists>e. hm_get (rt_peers (on_discovered self pins (resolved_peer i) t)) node_id = Some e \<and>
    pe_ingress_port e = nodeinfo_port \<and> (pe_pinned e \<longleftrightarrow> pin_get pins node_id \<noteq> None)"
proof -
  have x: "nr_extra (own_record node_id ip) = []" by (simp add: own_record_def default_record_def)
  have "nr_node_uuid (txt_to_record i) = nr_node_uuid (own_record node_id ip)"
    using resolved_record [OF assms(2)] unfolding x by (simp add: hm_wf_def)
  then have "nr_node_uuid (dp_record (resolved_peer i)) = Some node_id" "dp_port (resolved_peer i) = nodeinfo_port"
    using assms(1,3) by (simp_all add: resolved_peer_def own_record_def advertise_port_def)
  then have "on_discovered self pins (resolved_peer i) t = upsert_peer_meta node_id
      (case dp_addresses (resolved_peer i) of a # _ \<Rightarrow> a | [] \<Rightarrow> trim_dots (dp_host (resolved_peer i)))
      nodeinfo_port (pin_get pins node_id \<noteq> None) t"
    using assms(4) by (simp add: on_discovered_def)
  with upsert_meta_get [of node_id _ nodeinfo_port "pin_get pins node_id \<noteq> None" t] show ?thesis
    by (simp only:) blast
qed

section \<open>An invite of a node that is already in a cluster\<close>

lemma await_at_once: "is_clustered K (nd_trust (snd st)) \<Longrightarrow> 0 < n \<Longrightarrow> await_clustered K tick n st = (st, True)"
  by (cases n) simp_all

text \<open>
  C32: \<open>openpair-node invite\<close> on a node that is already in a cluster reports that the peer has
  joined as soon as the invite exists: nobody has entered the PIN, neither node has pinned
  anything, and the process that would have to serve the Completion exchange ends.
\<close>
theorem run_invite_reports_early:
  assumes "codec_ok X" "iid \<noteq> []" "hm_get (nd_joiners B) iid = None" "\<not> is_clustered KB (nd_trust B)"
    and "pi_valid X (profile_info X (nd_profile A) None) dera" "is_clustered KA (nd_trust A)"
  shows "\<exists>A1 B1. run_invite X KA (node_net X KB rb (normalize_pairing_addr j)) rnd iid n tick (Some j) (Inr (B, A)) =
      Some (Some (B1, A1), Returned (Inr ())) \<and>
    nd_trust A1 = nd_trust A \<and> nd_trust B1 = nd_trust B \<and> hm_get (nd_inviters A1) iid \<noteq> None \<and>
    hm_get (nd_pending B1) iid \<noteq> None"
proof -
  let ?pia = "profile_info X (nd_profile A) None" and ?pib = "profile_info X (nd_profile B) None"
  obtain z where z: "create_invite X (node_net X KB rb (normalize_pairing_addr j)) rnd iid n (normalize_pairing_addr j) (B, A) =
     Some ((invited_node iid (invited_joiner X (rnd 0) (rnd 1) rb ?pia dera ?pib z) ?pia dera B,
            add_inviter iid \<lparr>v_server = with_noob (ce X) (noob_from_pin (mint_pin n))
              (server3 (ce X) (rnd 0) (rnd 1) rb (pi_to (cj X) ?pia) (pi_to (cj X) ?pib) z), v_joiner = None\<rparr> A),
       Returned (Inr (iid, mint_pin n)))"
    by (rule create_invite_run [OF assms(1-5)])
  let ?A1 = "add_inviter iid \<lparr>v_server = with_noob (ce X) (noob_from_pin (mint_pin n))
      (server3 (ce X) (rnd 0) (rnd 1) rb (pi_to (cj X) ?pia) (pi_to (cj X) ?pib) z), v_joiner = None\<rparr> A"
  have t: "nd_trust ?A1 = nd_trust A" "hm_get (nd_inviters ?A1) iid \<noteq> None"
    by (simp_all add: add_inviter_def hm_simps)
  then have "await_clustered KA tick 600 (b, ?A1) = ((b, ?A1), True)" for b
    using assms(6) by (intro await_at_once) simp_all
  with z have "run_invite X KA (node_net X KB rb (normalize_pairing_addr j)) rnd iid n tick (Some j) (Inr (B, A)) =
      Some (Some (invited_node iid (invited_joiner X (rnd 0) (rnd 1) rb ?pia dera ?pib z) ?pia dera B, ?A1), Returned (Inr ()))"
    by (simp add: run_invite_def)
  moreover have "nd_trust (invited_node iid q ?pia dera B) = nd_trust B"
    "hm_get (nd_pending (invited_node iid q ?pia dera B)) iid \<noteq> None" for q
    by (simp_all add: invited_node_def hm_simps)
  ultimately show ?thesis using t by blast
qed

section \<open>The state of the daemon\<close>

text \<open>
  What the tasks do to the state: requests of the pairing channel, the pins of the drivers the
  dashboard starts and whatever else they do to the sessions, discovery, both pollers, and every
  request to the dashboard. Pairing by certificates waits for the other node three times, so what it
  does to the state is two steps: it pins a certificate, and it enters the peer under the UUID that
  the peer reported. The set has the UUIDs that were entered so.
\<close>

inductive daemon_reach ::
  "cluster_env \<Rightarrow> 'f fs_ops \<Rightarrow> string \<Rightarrow> ('w, 'f) dstate \<Rightarrow> string set \<Rightarrow> ('w, 'f) dstate \<Rightarrow> bool"
  for X F self st0 where
  start: "daemon_reach X F self st0 {} st0"
| world: "daemon_reach X F self st0 B st \<Longrightarrow> daemon_reach X F self st0 B ((w, ds_routing st), snd st)"
| request: "daemon_reach X F self st0 B st \<Longrightarrow>
    daemon_reach X F self st0 B
      (fst st, fst (handle_request X (cluster_sink (cr (ce X)) (cp X) F) rnd env (snd st)))"
| driver: "daemon_reach X F self st0 B st \<Longrightarrow> nd_trust nd = nd_trust (snd st) \<Longrightarrow>
    daemon_reach X F self st0 B (fst st, pin_paired (cluster_sink (cr (ce X)) (cp X) F) po nd)"
| found: "daemon_reach X F self st0 B st \<Longrightarrow> daemon_reach X F self st0 B (discover self p st)"
| local: "daemon_reach X F self st0 B st \<Longrightarrow> daemon_reach X F self st0 B (poll_local J G backend st)"
| peers: "daemon_reach X F self st0 B st \<Longrightarrow> daemon_reach X F self st0 B (poll_peers J L st)"
| trust: "daemon_reach X F self st0 B st \<Longrightarrow>
    daemon_reach X F self st0 B (fst (add_cert (cr (ce X)) (cp X) U pem st))"
| exchanged: "daemon_reach X F self st0 B st \<Longrightarrow> pin (cr (ce X)) (cp X) (ds_pins st) der = Some (i, pins) \<Longrightarrow>
    daemon_reach X F self st0 B (ds_set_pins pins st)"
| entered: "daemon_reach X F self st0 B st \<Longrightarrow>
    daemon_reach X F self st0 (insert i B) (ds_map_routing (upsert_peer_meta i host port True) st)"

text \<open>
  With these two steps pairing by certificates stays in the relation, whatever the other tasks do
  while it waits; the UUID that it adds is the one that it reports to the dashboard.
\<close>

lemma ui_pair_reach:
  fixes H :: "('w, 'f) ui_net"
  assumes reach: "daemon_reach X F self st0 B st"
    and H: "\<And>h p m pa b s. daemon_reach X F self st0 B s \<Longrightarrow> daemon_reach X F self st0 B (fst (H h p m pa b s))"
    and run: "ui_pair (cr (ce X)) (cp X) U H ctx body st = (st', q)"
  shows "daemon_reach X F self st0 B st' \<or>
    (\<exists>i v. q = Inr v \<and> jget ''node_uuid'' v = Some (JStr i) \<and> daemon_reach X F self st0 (insert i B) st')"
proof -
  have via: "daemon_reach X F self st0 B s'" if "H h p m pa b s = (s', r)" "daemon_reach X F self st0 B s" for h p m pa b s s' r
    using H [OF that(2), of h p m pa b] that(1) by simp
  show ?thesis
    using run reach unfolding ui_pair_def
    by (auto simp: Let_def split: sum.splits option.splits prod.splits if_splits
        intro: daemon_reach.exchanged daemon_reach.entered dest!: via)
qed

text \<open>
  The table is well formed, and but for the UUIDs that were believed the node itself is not in it and
  a peer that is marked as pinned has a pin.
\<close>

definition daemon_inv :: "string \<Rightarrow> string set \<Rightarrow> ('w, 'f) dstate \<Rightarrow> bool" where
  "daemon_inv self B st \<longleftrightarrow> rt_wf (ds_routing st) \<and> rt_local_id (ds_routing st) = self \<and>
     (self \<notin> B \<longrightarrow> hm_get (rt_peers (ds_routing st)) self = None) \<and>
     hm.all_entries (\<lambda>i p. pe_pinned p \<longrightarrow> i \<in> B \<or> pin_get (ds_pins st) i \<noteq> None) (rt_peers (ds_routing st))"

lemma daemon_inv_mono: "daemon_inv self B st \<Longrightarrow> B \<subseteq> B' \<Longrightarrow> daemon_inv self B' st"
  by (auto simp: daemon_inv_def hm.all_entries_def)

text \<open>Pins are never forgotten: each task leaves every UUID that has a pin with one.\<close>

definition keeps_pins :: "pin_store \<Rightarrow> pin_store \<Rightarrow> bool" where
  "keeps_pins p q \<longleftrightarrow> (\<forall>u. pin_get p u \<noteq> None \<longrightarrow> pin_get q u \<noteq> None)"

lemma keeps_refl [simp]: "keeps_pins p p"
  by (simp add: keeps_pins_def)

lemma pin_keeps: "pin C P p d = Some (u, q) \<Longrightarrow> keeps_pins p q"
  by (auto simp: keeps_pins_def pin_get_def dest: pin_get_store)

lemma sink_pin_keeps: "keeps_pins (ts_pins t) (ts_pins (sink_pin_peer C P F p t))"
proof -
  have "keeps_pins (ts_pins t) (ts_pins (snd (sink_store C P F p t)))"
    by (auto simp: sink_store_def add_trusted_peer_def split: option.split intro: pin_keeps)
  then show ?thesis
    by (auto simp: sink_pin_peer_def split: prod.split bool.split)
qed

lemma daemon_inv_pins:
  assumes "daemon_inv self B st" "ds_routing st' = ds_routing st" "keeps_pins (ds_pins st) (ds_pins st')"
  shows "daemon_inv self B st'"
  using assms unfolding daemon_inv_def hm.all_entries_def keeps_pins_def by metis

lemma daemon_inv_entry:
  assumes "daemon_inv self B st" "pe_node_id p = i" "i \<noteq> self \<or> i \<in> B" "pe_pinned p \<longrightarrow> i \<in> B \<or> pin_get (ds_pins st) i \<noteq> None"
    and "ds_routing st' = (ds_routing st)\<lparr>rt_peers := hm_insert i p (rt_peers (ds_routing st))\<rparr>" "ds_pins st' = ds_pins st"
  shows "daemon_inv self B st'"
  using assms rt_wf_insert [of "ds_routing st" p i]
  by (auto simp: daemon_inv_def hm.all_entries_put hm.get_put)

lemma set_peer_models_inv:
  assumes "daemon_inv self B st"
  shows "daemon_inv self B (ds_map_routing (set_peer_models i ms) st)"
proof (cases "hm_get (rt_peers (ds_routing st)) i")
  case None
  then have "ds_map_routing (set_peer_models i ms) st = st"
    by (simp add: set_peer_models_def ds_map_routing_def ds_routing_def)
  with assms show ?thesis by simp
next
  case (Some p)
  with assms have "i \<noteq> self \<or> i \<in> B" "pe_node_id p = i" "pe_pinned p \<longrightarrow> i \<in> B \<or> pin_get (ds_pins st) i \<noteq> None"
    by (auto simp: daemon_inv_def hm.all_entries_def dest: rt_wf_entry)
  then show ?thesis
    by (intro daemon_inv_entry [OF assms, of "p\<lparr>pe_models := set ms\<rparr>" i]) (simp_all add: set_peer_models_def Some)
qed

lemma upsert_entry:
  assumes "rt_wf t"
  obtains e where "upsert_peer_meta i host port b t = t\<lparr>rt_peers := hm_insert i e (rt_peers t)\<rparr>"
    "pe_node_id e = i" "pe_pinned e = b"
proof (cases "hm_get (rt_peers t) i")
  case None
  then show thesis
    by (intro that [of "\<lparr>pe_node_id = i, pe_host = host, pe_ingress_port = port, pe_models = {},
        pe_pinned = b, pe_priority_rank = None, pe_manually_selected = False\<rparr>"])
      (simp_all add: upsert_peer_meta_def)
next
  case (Some q)
  moreover from Some assms have "pe_node_id q = i" by (auto dest: rt_wf_entry)
  ultimately show thesis
    by (intro that [of "q\<lparr>pe_host := host, pe_ingress_port := port, pe_pinned := b\<rparr>"])
      (simp_all add: upsert_peer_meta_def)
qed

lemma upsert_inv:
  assumes "daemon_inv self B st" "i \<noteq> self \<or> i \<in> B" "b \<longrightarrow> i \<in> B \<or> pin_get (ds_pins st) i \<noteq> None"
  shows "daemon_inv self B (ds_map_routing (upsert_peer_meta i host port b) st)"
proof -
  have "rt_wf (ds_routing st)" using assms(1) by (simp add: daemon_inv_def)
  then obtain e where "upsert_peer_meta i host port b (ds_routing st) =
      (ds_routing st)\<lparr>rt_peers := hm_insert i e (rt_peers (ds_routing st))\<rparr>" "pe_node_id e = i" "pe_pinned e = b"
    by (rule upsert_entry)
  with assms(2,3) show ?thesis by (intro daemon_inv_entry [OF assms(1), of e i]) simp_all
qed

lemma discover_inv:
  assumes "daemon_inv self B st"
  shows "daemon_inv self B (discover self p st)"
proof (cases "nr_node_uuid (dp_record p) = None \<or> nr_node_uuid (dp_record p) = Some self")
  case True
  then have "discover self p st = st" by (auto simp: discover_def on_discovered_def ds_map_routing_def)
  with assms show ?thesis by simp
next
  case False
  then obtain i where i: "nr_node_uuid (dp_record p) = Some i" "i \<noteq> self" by auto
  then have "discover self p st = ds_map_routing (upsert_peer_meta i
      (case dp_addresses p of a # _ \<Rightarrow> a | [] \<Rightarrow> trim_dots (dp_host p)) (dp_port p) (pin_get (ds_pins st) i \<noteq> None)) st"
    by (simp add: discover_def on_discovered_def ds_map_routing_def)
  with upsert_inv [OF assms, of i "pin_get (ds_pins st) i \<noteq> None"] i(2) show ?thesis by simp
qed

lemma poll_each_inv:
  "daemon_inv self B st \<Longrightarrow> daemon_inv self B (poll_each J L ps st)"
proof (induction J L ps st rule: poll_each.induct)
  case (1 J L st)
  then show ?case by simp
next
  case (2 J L nid host port ps st)
  obtain w r where f: "fetch_peer_models J L host port (fst (fst st)) = (w, r)" by fastforce
  show ?case
  proof (cases r)
    case (Inl e)
    have "daemon_inv self B ((w, ds_routing st), snd st)"
      by (rule daemon_inv_pins [OF "2.prems"]) (simp_all add: ds_routing_def ds_pins_def)
    with "2.IH" f Inl show ?thesis by simp
  next
    case (Inr ms)
    have "daemon_inv self B ((w, set_peer_models nid ms (ds_routing st)), snd st)"
      by (rule daemon_inv_pins [OF set_peer_models_inv [OF "2.prems"]]) (simp_all add: ds_routing_def ds_pins_def ds_map_routing_def)
    with "2.IH" f Inr show ?thesis by simp
  qed
qed

lemma request_keeps_pins:
  "keeps_pins (ts_pins (nd_trust nd))
     (ts_pins (nd_trust (fst (handle_request X (cluster_sink C P F) rnd env nd))))"
proof -
  from request_pins_by [of X "cluster_sink C P F" rnd env nd] show ?thesis
  proof
    assume "\<exists>p. nd_trust (fst (handle_request X (cluster_sink C P F) rnd env nd)) =
        pin_peer (cluster_sink C P F) p (nd_trust nd)"
    then obtain p where "nd_trust (fst (handle_request X (cluster_sink C P F) rnd env nd)) =
        sink_pin_peer C P F p (nd_trust nd)" by auto
    then show ?thesis using sink_pin_keeps by metis
  qed simp
qed

lemma daemon_reach_inv:
  "daemon_reach X F self st0 B st \<Longrightarrow> daemon_inv self {} st0 \<Longrightarrow> daemon_inv self B st"
proof (induction rule: daemon_reach.induct)
  case start
  then show ?case .
next
  case (world B st w)
  then have i: "daemon_inv self B st" by blast
  show ?case by (rule daemon_inv_pins [OF i]) (simp_all add: ds_routing_def ds_pins_def)
next
  case (request B st rnd env)
  then have i: "daemon_inv self B st" by blast
  show ?case
    by (rule daemon_inv_pins [OF i]) (use request_keeps_pins in \<open>simp_all add: ds_routing_def ds_pins_def\<close>)
next
  case (driver B st nd po)
  then have i: "daemon_inv self B st" by blast
  have "keeps_pins (ds_pins st) (ts_pins (nd_trust (pin_paired (cluster_sink (cr (ce X)) (cp X) F) po nd)))"
    using driver.hyps(2) sink_pin_keeps by (cases po) (simp_all add: pin_paired_def ds_pins_def)
  then show ?case
    by (intro daemon_inv_pins [OF i]) (simp_all add: ds_routing_def ds_pins_def)
next
  case (found B st p)
  then show ?case by (simp add: discover_inv)
next
  case (local B st J G backend)
  then have i: "daemon_inv self B st" by blast
  obtain w r where f: "fetch_local_models J G backend (fst (fst st)) = (w, r)" by fastforce
  have "daemon_inv self B ((w, ds_routing st), snd st)" "daemon_inv self B ((w, set_local_models ms (ds_routing st)), snd st)" for ms
    using i by (simp_all add: daemon_inv_def ds_routing_def ds_pins_def set_local_models_def rt_wf_def)
  then show ?case using f by (cases r) (simp_all add: poll_local_def)
next
  case (peers B st J L)
  then show ?case by (simp add: poll_peers_def poll_each_inv)
next
  case (trust B st U pem)
  then have i: "daemon_inv self B st" by blast
  have "keeps_pins (ds_pins st) (ds_pins (fst (add_cert (cr (ce X)) (cp X) U pem st)))"
    "ds_routing (fst (add_cert (cr (ce X)) (cp X) U pem st)) = ds_routing st"
    by (auto simp: add_cert_def split: option.split intro: pin_keeps)
  then show ?case by (intro daemon_inv_pins [OF i])
next
  case (exchanged B st der i pins)
  then have "daemon_inv self B st" by blast
  then show ?case by (rule daemon_inv_pins) (use exchanged.hyps(2) in \<open>simp_all add: pin_keeps\<close>)
next
  case (entered B st i host port)
  then have "daemon_inv self (insert i B) st" by (blast intro: daemon_inv_mono)
  then show ?case by (rule upsert_inv) simp_all
qed

lemma daemon_start_inv:
  assumes "daemon_start C P K F r env etc ip port w f = Inr st0"
  shows "daemon_inv (rt_local_id (ds_routing st0)) {} st0"
proof -
  obtain i where "ds_routing st0 = routing_new i"
    using assms by (auto simp: daemon_start_def Let_def ds_routing_def split: prod.splits sum.splits)
  then show ?thesis
    by (simp add: daemon_inv_def routing_new_def rt_wf_def hm.wf_empty hm.get_empty hm.all_entries_empty)
qed

text \<open>
  Whatever the tasks of a daemon have done since it started, a request that the proxy does not keep
  local goes to a peer that is marked as pinned in the table: another node for whose UUID the pin
  store holds a certificate, unless the UUID is one that a peer reported when it was paired from the
  dashboard.
\<close>
theorem daemon_routes_to_pinned:
  assumes "daemon_start (cr (ce X)) (cp X) K F r env etc ip port w f = Inr st0"
    and "daemon_reach X F (rt_local_id (ds_routing st0)) st0 B st"
    and "select (candidates_for model backend (ds_routing st)) = Some c" "\<not> c_is_self c"
  shows "c_pinned c \<and> (c_node_id c \<in> B \<or>
    c_node_id c \<noteq> rt_local_id (ds_routing st) \<and> pin_get (ds_pins st) (c_node_id c) \<noteq> None)"
proof -
  let ?self = "rt_local_id (ds_routing st0)"
  have "daemon_inv ?self {} st0" by (rule daemon_start_inv [OF assms(1)])
  then have inv: "daemon_inv ?self B st" by (rule daemon_reach_inv [OF assms(2)])
  then have wf: "rt_wf (ds_routing st)" by (simp add: daemon_inv_def)
  from select_eligible [OF assms(3)] have c: "c \<in> set (candidates_for model backend (ds_routing st))" "eligible c"
    by simp_all
  then obtain m where m: "model = Some m"
    using assms(4) by (cases model) (auto simp: candidates_for_def)
  from c(1) candidates_in [OF wf, of c m backend] assms(4) m
  obtain i p where p: "hm_get (rt_peers (ds_routing st)) i = Some p" "c = peer_candidate m p" by auto
  have "pe_node_id p = i" using rt_wf_entry [OF wf p(1)] .
  moreover have "pe_pinned p" using c(2) p(2) assms(4) by (simp add: eligible_def peer_candidate_def)
  ultimately show ?thesis
    using inv p by (auto simp: daemon_inv_def hm.all_entries_def peer_candidate_def)
qed

section \<open>Whom a starting daemon trusts\<close>

text \<open>
  C36: a daemon that starts trusts nobody but the certificates in the \<open>crt\<close> and \<open>pem\<close> files of the
  \<open>trusted\<close> directory of its cluster directory, when one is set, and those in the \<open>pem\<close> files of
  \<open>OPENPAIR_TRUST_DIR\<close> but for its own, when that is set; each under the UUID it names.
\<close>
theorem start_trusts_only_files:
  assumes "daemon_start C P K F r env etc ip port w f = Inr st"
    and "load_identity_pins C P K F r env f = (Inr (i, pins, dir), f1)"
  defines "f2 \<equiv> ts_fs (nd_trust (snd st))"
  shows "pins_inv C P (ds_pins st) \<and> {e. is_pinned (ds_pins st) e} \<subseteq>
    {e. \<exists>d names name. env ''OPENPAIR_CLUSTER_DIR'' = Some d \<and> fs_list F f1 (trusted_dir d) = Some names \<and>
       name \<in> set names \<and> trusted_cert F f1 (trusted_dir d) CERT_EXTS name = Some e} \<union>
    {e. \<exists>d names name. env ''OPENPAIR_TRUST_DIR'' = Some d \<and> fs_list F f2 d = Some names \<and>
       name \<in> set names \<and> name \<noteq> id_uuid i @ ''.pem'' \<and> trusted_cert F f2 d [''pem''] name = Some e}"
proof -
  have loaded: "pins_inv C P pins \<and> {e. is_pinned pins e} \<subseteq>
    {e. \<exists>d names name. env ''OPENPAIR_CLUSTER_DIR'' = Some d \<and> fs_list F f1 (trusted_dir d) = Some names \<and>
       name \<in> set names \<and> trusted_cert F f1 (trusted_dir d) CERT_EXTS name = Some e}"
  proof (cases "env ''OPENPAIR_CLUSTER_DIR''")
    case None
    then have "pins = []" using assms(2) by (auto simp: load_identity_pins_def split: prod.splits sum.splits)
    then show ?thesis by (simp add: is_pinned_def hm_values_def)
  next
    case (Some d)
    then have "load_or_init C P K F r f d = (Inr (i, pins), f1)"
      using assms(2) by (auto simp: load_identity_pins_def split: prod.splits sum.splits)
    from load_or_init_trusts_only_files [OF this] Some show ?thesis by simp
  qed
  show ?thesis
  proof (cases "env ''OPENPAIR_TRUST_DIR''")
    case None
    then have "ds_pins st = pins"
      using assms(1,2) by (auto simp: daemon_start_def endpoint_node_def build_node_def node_new_def trust_sink_new_def ds_pins_def)
    with loaded show ?thesis by blast
  next
    case (Some d)
    obtain n f3 p where b: "bootstrap_dev_trust C P F f1 d i pins = ((n, f3), p)" by (metis surj_pair)
    then have st: "ds_pins st = p" "f2 = f3"
      using assms(1,2) Some by (auto simp: daemon_start_def f2_def endpoint_node_def build_node_def node_new_def
          trust_sink_new_def ds_pins_def)
    have "pins_inv C P p \<and> (is_pinned p e \<longrightarrow> is_pinned pins e \<or> (\<exists>names name. fs_list F f2 d = Some names \<and>
       name \<in> set names \<and> name \<noteq> id_uuid i @ ''.pem'' \<and> trusted_cert F f2 d [''pem''] name = Some e))" for e
      using bootstrap_pins [OF b, of e] loaded unfolding st(2) by blast
    with loaded Some show ?thesis unfolding st(1) by blast
  qed
qed

section \<open>Witnesses\<close>

theorem run_invite_reports_early_witness:
  "\<exists>A1 B1. run_invite demo_X demo_sink (node_net demo_X demo_sink demo_rnd ''b:1'') (\<lambda>i. demo_rnd) ''i'' 42 id (Some ''b:1'')
       (Inr (demo_node ''B'' ''b:1'', (demo_node ''A'' ''a:1'')\<lparr>nd_trust := trust_sink_new [] [] None True\<rparr>)) =
     Some (Some (B1, A1), Returned (Inr ())) \<and>
   \<not> is_pinned (ts_pins (nd_trust A1)) [1, 2, 3] \<and> \<not> is_pinned (ts_pins (nd_trust B1)) [1, 2, 3]"
proof -
  let ?A = "(demo_node ''A'' ''a:1'')\<lparr>nd_trust := trust_sink_new [] [] None True\<rparr>"
  have "parse_uint 65535 (nat_str 1) = Some 1" by (rule parse_uint_nat_str) simp
  moreover have "nat_str 1 = ''1''" by code_simp
  ultimately have n: "normalize_pairing_addr ''b:1'' = ''b:1''"
    by (simp add: normalize_pairing_addr_def rsplit_once_def)
  have pre: "codec_ok demo_X" "''i'' \<noteq> []" "hm_get (nd_joiners (demo_node ''B'' ''b:1'')) ''i'' = None"
    "\<not> is_clustered demo_sink (nd_trust (demo_node ''B'' ''b:1''))"
    "pi_valid demo_X (profile_info demo_X (nd_profile ?A) None) [1, 2, 3]" "is_clustered demo_sink (nd_trust ?A)"
    using demo_X_ok demo_profile_valid by (simp_all add: hm_simps trust_sink_new_def)
  from run_invite_reports_early [OF pre, of demo_rnd "''b:1''" "\<lambda>i. demo_rnd" 42 id]
  obtain A1 B1 where r: "run_invite demo_X demo_sink (node_net demo_X demo_sink demo_rnd ''b:1'') (\<lambda>i. demo_rnd) ''i'' 42 id
      (Some ''b:1'') (Inr (demo_node ''B'' ''b:1'', ?A)) = Some (Some (B1, A1), Returned (Inr ()))"
    "nd_trust A1 = nd_trust ?A" "nd_trust B1 = nd_trust (demo_node ''B'' ''b:1'')"
    unfolding n by blast
  have "\<not> is_pinned (ts_pins (nd_trust A1)) [1, 2, 3]" "\<not> is_pinned (ts_pins (nd_trust B1)) [1, 2, 3]"
    unfolding r(2,3) by (simp_all add: trust_sink_new_def is_pinned_def hm_values_def)
  with r(1) show ?thesis by blast
qed

theorem discovered_at_nodeinfo_port_witness:
  "\<exists>e. hm_get (rt_peers (on_discovered ''self'' [] (resolved_peer
      \<lparr>si_fullname = [], si_hostname = ''h.local.'', si_port = 7071, si_addresses = [''10.0.0.1''],
       si_properties = record_to_txt (own_record ''n1'' None)\<rparr>) (routing_new ''self''))) ''n1'' = Some e \<and>
     pe_ingress_port e = 7071"
proof -
  let ?i = "\<lparr>si_fullname = [], si_hostname = ''h.local.'', si_port = 7071, si_addresses = [''10.0.0.1''],
       si_properties = record_to_txt (own_record ''n1'' None)\<rparr>"
  have "Option.bind ((\<lambda>k. None) ''OPENPAIR_ADVERTISE_PORT'') (parse_uint 65535) = None"
    "mset (si_properties ?i) = mset (record_to_txt (own_record ''n1'' None))"
    "si_port ?i = advertise_port (\<lambda>k. None) 7071" "''self'' \<noteq> ''n1''"
    by (simp_all add: advertise_port_def)
  from discovered_at_nodeinfo_port [OF this, of "[]" "routing_new ''self''"] show ?thesis by blast
qed

definition demo_self :: keygen where
  "demo_self = demo_keygen\<lparr>kg_mint := (\<lambda>rnd u. Some (demo_identity\<lparr>id_uuid := ''s''\<rparr>))\<rparr>"

definition demo_vars :: "string \<Rightarrow> string option" where
  "demo_vars k = (if k = ''OPENPAIR_DATA_DIR'' then Some ''d'' else None)"

definition demo_found :: discovered_peer where
  "demo_found = \<lparr>dp_instance = [], dp_host = ''h.local.'', dp_port = 7443, dp_addresses = [''10.0.0.2''],
     dp_record = default_record\<lparr>nr_node_uuid := Some ''n1''\<rparr>\<rparr>"

definition demo_models :: proxy_json where
  "demo_models = \<lparr>pj_value = (\<lambda>b. Some (JObj [(''models'', JArr [JObj [(''name'', JStr ''m'')]])])),
     pj_to = (\<lambda>e. Some []), pj_of = (\<lambda>b. Inr default_ingress), pj_status = nat_str\<rparr>"

lemma demo_daemon_starts:
  "\<exists>st0. daemon_start demo_crypto demo_pki demo_self demo_fs [] demo_vars None None 14321 () [] = Inr st0 \<and>
     ds_routing st0 = routing_new ''s'' \<and> ds_pins st0 = []"
proof -
  have "load_or_generate demo_fs demo_pki demo_self [] [] ''d'' = (Inr (demo_identity\<lparr>id_uuid := ''s''\<rparr>),
      AList.update (''d'', CERT_FILE) demo_pem (AList.update (''d'', KEY_FILE) ''key'' []))"
    by (simp add: load_or_generate_def identity_generate_def identity_save_def demo_self_def demo_fs_def demo_identity_def)
  then show ?thesis
    by (simp add: daemon_start_def load_identity_pins_def demo_vars_def env_or_def endpoint_node_def
        build_node_def node_new_def trust_sink_new_def ds_routing_def ds_pins_def)
qed

lemma demo_daemon_run:
  assumes st0: "ds_routing st0 = routing_new ''s''" "ds_pins st0 = []"
  shows "\<exists>st c. daemon_reach demo_X demo_fs ''s'' st0 {} st \<and> select (candidates_for (Some ''m'') ''e'' (ds_routing st)) = Some c \<and>
    c_node_id c = ''n1'' \<and> \<not> c_is_self c"
proof -
  let ?U = "demo_ui_env (\<lambda>b. Inl [])"
  let ?st1 = "fst (add_cert demo_crypto demo_pki ?U demo_pem st0)"
  let ?st2 = "discover ''s'' demo_found ?st1"
  let ?st3 = "poll_peers demo_models (\<lambda>h p b w. (w, Inr (200, []))) ?st2"
  have "daemon_reach demo_X demo_fs ''s'' st0 {} (fst (add_cert (cr (ce demo_X)) (cp demo_X) ?U demo_pem st0))"
    by (intro daemon_reach.intros)
  then have "daemon_reach demo_X demo_fs ''s'' st0 {} ?st1" by simp
  then have reach: "daemon_reach demo_X demo_fs ''s'' st0 {} ?st3" by (intro daemon_reach.intros)
  have "ds_pins ?st1 = [(''n1'', \<lparr>pp_uuid = ''n1'', pp_cert = [1, 2, 3], pp_fingerprint = cert_fingerprint demo_crypto demo_pki [1, 2, 3]\<rparr>)]"
    "ds_routing ?st1 = routing_new ''s''"
    using st0 by (simp_all add: add_cert_def pin_def hm_insert_def)
  then have t2: "ds_routing ?st2 = (routing_new ''s'')\<lparr>rt_peers := [(''n1'',
      \<lparr>pe_node_id = ''n1'', pe_host = ''10.0.0.2'', pe_ingress_port = 7443, pe_models = {}, pe_pinned = True,
       pe_priority_rank = None, pe_manually_selected = False\<rparr>)]\<rparr>"
    by (simp add: discover_def on_discovered_def demo_found_def default_record_def upsert_peer_meta_def routing_new_def
        hm_get_def hm_insert_def pin_get_def)
  have t3: "ds_routing ?st3 = (routing_new ''s'')\<lparr>rt_peers := [(''n1'',
      \<lparr>pe_node_id = ''n1'', pe_host = ''10.0.0.2'', pe_ingress_port = 7443, pe_models = {''m''}, pe_pinned = True,
       pe_priority_rank = None, pe_manually_selected = False\<rparr>)]\<rparr>"
    unfolding poll_peers_def t2
    by (simp add: pinned_peers_def hm_values_def fetch_peer_models_def forward_to_peer_def demo_models_def
        parse_ollama_tags_def List.map_filter_def set_peer_models_def hm_get_def hm_insert_def t2)
       (simp add: ds_routing_def)
  let ?c = "peer_candidate ''m'' \<lparr>pe_node_id = ''n1'', pe_host = ''10.0.0.2'', pe_ingress_port = 7443, pe_models = {''m''},
      pe_pinned = True, pe_priority_rank = None, pe_manually_selected = False\<rparr>"
  have "select (candidates_for (Some ''m'') ''e'' (ds_routing ?st3)) = Some ?c"
    unfolding t3 by (simp add: select_def Let_def candidates_for_def hm_values_def eligible_def self_candidate_def
        peer_candidate_def routing_new_def)
  then show ?thesis using reach by (intro exI [of _ ?st3] exI [of _ ?c]) (simp add: peer_candidate_def)
qed

theorem daemon_routes_to_pinned_witness:
  "\<exists>st0 st c. daemon_start demo_crypto demo_pki demo_self demo_fs [] demo_vars None None 14321 () [] = Inr st0 \<and>
     daemon_reach demo_X demo_fs ''s'' st0 {} st \<and> select (candidates_for (Some ''m'') ''e'' (ds_routing st)) = Some c \<and>
     c_node_id c = ''n1'' \<and> pin_get (ds_pins st) ''n1'' \<noteq> None"
proof -
  obtain st0 where st0: "daemon_start demo_crypto demo_pki demo_self demo_fs [] demo_vars None None 14321 () [] = Inr st0"
    "ds_routing st0 = routing_new ''s''" "ds_pins st0 = []"
    using demo_daemon_starts by blast
  obtain st c where st: "daemon_reach demo_X demo_fs ''s'' st0 {} st"
    "select (candidates_for (Some ''m'') ''e'' (ds_routing st)) = Some c" "c_node_id c = ''n1''" "\<not> c_is_self c"
    using demo_daemon_run [OF st0(2,3)] by blast
  have a: "daemon_start (cr (ce demo_X)) (cp demo_X) demo_self demo_fs [] demo_vars None None 14321 () [] = Inr st0"
    using st0(1) by simp
  have b: "daemon_reach demo_X demo_fs (rt_local_id (ds_routing st0)) st0 {} st"
    using st(1) st0(2) by (simp add: routing_new_def)
  from daemon_routes_to_pinned [OF a b st(2,4)] st(3) have "pin_get (ds_pins st) ''n1'' \<noteq> None" by simp
  with st0(1) st(1-3) show ?thesis by blast
qed

text \<open>A file in the trust directory and one that is not a certificate.\<close>

definition demo_two_dirs :: "string \<Rightarrow> string option" where
  "demo_two_dirs k = (if k = ''OPENPAIR_DATA_DIR'' then Some ''d'' else if k = ''OPENPAIR_TRUST_DIR'' then Some ''t'' else None)"

theorem start_trusts_only_files_witness:
  "\<exists>st. daemon_start demo_crypto demo_pki demo_self demo_fs [] demo_two_dirs None None 14321 ()
       [((''t'', ''n1.pem''), demo_pem), ((''t'', ''x.txt''), demo_pem)] = Inr st \<and> pins_inv demo_crypto demo_pki (ds_pins st)"
proof -
  let ?f = "[((''t'', ''n1.pem''), demo_pem), ((''t'', ''x.txt''), demo_pem)]"
  obtain i f1 where l: "load_identity_pins demo_crypto demo_pki demo_self demo_fs [] demo_two_dirs ?f = (Inr (i, [], None), f1)"
    by (simp add: load_identity_pins_def demo_two_dirs_def env_or_def load_or_generate_def identity_generate_def
        identity_save_def demo_self_def demo_fs_def demo_identity_def KEY_FILE_def CERT_FILE_def)
  then obtain st where "daemon_start demo_crypto demo_pki demo_self demo_fs [] demo_two_dirs None None 14321 () ?f = Inr st"
    by (cases "daemon_start demo_crypto demo_pki demo_self demo_fs [] demo_two_dirs None None 14321 () ?f")
      (simp_all add: daemon_start_def Let_def case_prod_beta)
  with start_trusts_only_files [OF this l] show ?thesis by blast
qed

end
