(* ===== verification/Boot.thy ===== *)
theory Boot
  imports Daemon Telemetry
begin

text \<open>
  The entry point of the daemon (\<open>main\<close> of crates/pair-node/src/main.rs): the choice of the
  command, the order in which the daemon reads its configuration and starts its services, and
  the snapshot of the host it reports (lib.rs and gpu\_os.rs of crates/pair-nodeinfo). Reading a
  socket address, the mDNS daemon and the sysinfo crate are parameters.
\<close>

section \<open>The host\<close>

datatype platform = Windows | MacOs | OtherOs

definition windows_gpus :: "(string \<Rightarrow> jval option) \<Rightarrow> (string \<Rightarrow> string) \<Rightarrow> commands \<Rightarrow> gpu list" where
  "windows_gpus json upper cmd =
     (case run_command cmd ''powershell'' [''-NoProfile'', ''-Command'',
         ''Get-CimInstance Win32_VideoController | Select-Object Name,AdapterRAM,PNPDeviceID | ConvertTo-Json -Compress''] of
        Some out \<Rightarrow> parse_win32_video json upper out
      | None \<Rightarrow> [])"

definition macos_gpus :: "(string \<Rightarrow> jval option) \<Rightarrow> (string \<Rightarrow> string) \<Rightarrow> commands \<Rightarrow> gpu list" where
  "macos_gpus json lower cmd =
     (case run_command cmd ''system_profiler'' [''SPDisplaysDataType'', ''-json''] of
        Some out \<Rightarrow> parse_macos_displays json lower out
      | None \<Rightarrow> [])"

definition os_gpus ::
  "platform \<Rightarrow> (string \<Rightarrow> jval option) \<Rightarrow> (string \<Rightarrow> string) \<Rightarrow> (string \<Rightarrow> string) \<Rightarrow> commands \<Rightarrow> gpu list" where
  "os_gpus os json upper lower cmd =
     (case os of
        Windows \<Rightarrow> windows_gpus json upper cmd
      | MacOs \<Rightarrow> macos_gpus json lower cmd
      | OtherOs \<Rightarrow> [])"

text \<open>
  What sysinfo reports: brand and vendor of each processor, the number of cores, and the total
  and used memory in bytes.
\<close>

record sys_info =
  si_cpus :: "(string \<times> string) list"
  si_cores :: "nat option"
  si_total :: "64 word"
  si_used :: "64 word"

definition host_cpu :: "sys_info \<Rightarrow> cpu option" where
  "host_cpu s =
     (case si_cpus s of
        [] \<Rightarrow> None
      | (brand, vendor) # _ \<Rightarrow>
          (let name = (if trim brand = [] then trim vendor else trim brand)
           in Some \<lparr>cpu_name = (if name = [] then ''unknown'' else name),
                    cpu_cores = map_option word_of_nat (si_cores s),
                    cpu_total_threads = Some (word_of_nat (length (si_cpus s))),
                    cpu_utilization = None\<rparr>))"

definition host_memory :: "sys_info \<Rightarrow> memory_info option" where
  "host_memory s =
     (if si_total s = 0 then None
      else Some \<lparr>mem_total_bytes = si_total s, mem_used_bytes = Some (si_used s)\<rparr>)"

section \<open>The command\<close>

text \<open>The arguments, the name of the program included.\<close>

datatype command = GpuCheck | Invite "string option" | Join | RunDaemon

definition arg :: "nat \<Rightarrow> string list \<Rightarrow> string option" where
  "arg n args = (if n < length args then Some (args ! n) else None)"

definition command_of :: "string list \<Rightarrow> command" where
  "command_of args =
     (if ''--gpucheck'' \<in> set args then GpuCheck
      else if arg 1 args = Some ''invite'' then Invite (arg 2 args)
      else if arg 1 args = Some ''join'' then Join
      else RunDaemon)"

section \<open>The daemon\<close>

datatype service = NodeInfoService | IngressService | PairingService | DashboardService | ProxyService | Discovering

datatype boot_error = BadAddress string | NoIdentity id_error | NoMdns | NoBrowse

text \<open>The reading of a socket address (host and port), and whether mDNS can be started and browsed.\<close>

record boot_env =
  be_addr :: "string \<Rightarrow> (string \<times> 16 word) option"
  be_mdns :: bool
  be_browse :: bool

text \<open>
  A failure ends the process with what had been started by then: the services that were already
  running and the files that were already written.
\<close>

definition daemon_main ::
  "crypto \<Rightarrow> pki \<Rightarrow> keygen \<Rightarrow> 'f fs_ops \<Rightarrow> boot_env \<Rightarrow> bytes \<Rightarrow> (string \<Rightarrow> string option) \<Rightarrow> string option \<Rightarrow>
     string option \<Rightarrow> 'w \<Rightarrow> 'f \<Rightarrow> (boot_error + ui_context \<times> ('w, 'f) dstate) \<times> service list \<times> 'f" where
  "daemon_main C P K F B rnd env etc_hostname local_ip w f =
     (case be_addr B (env_or env ''OPENPAIR_PROXY_BIND'' ''127.0.0.1:11435'') of
        None \<Rightarrow> (Inl (BadAddress ''OPENPAIR_PROXY_BIND''), [], f)
      | Some _ \<Rightarrow>
     (case be_addr B (env_or env ''OPENPAIR_NODEINFO_BIND'' ''127.0.0.1:7071'') of
        None \<Rightarrow> (Inl (BadAddress ''OPENPAIR_NODEINFO_BIND''), [], f)
      | Some _ \<Rightarrow>
     (case load_identity_pins C P K F rnd env f of
        (Inl e, f1) \<Rightarrow> (Inl (NoIdentity e), [], f1)
      | (Inr (i, pins, dir), f1) \<Rightarrow>
     (let (f2, pins2) = (case env ''OPENPAIR_TRUST_DIR'' of
            Some d \<Rightarrow> (case bootstrap_dev_trust C P F f1 d i pins of ((_, f2), p) \<Rightarrow> (f2, p))
          | None \<Rightarrow> (f1, pins))
      in case be_addr B (env_or env ''OPENPAIR_INGRESS_BIND'' ''0.0.0.0:7443'') of
        None \<Rightarrow> (Inl (BadAddress ''OPENPAIR_INGRESS_BIND''), [NodeInfoService], f2)
      | Some (_, ingress_port) \<Rightarrow>
     (case be_addr B (env_or env ''OPENPAIR_PAIRING_BIND'' DEFAULT_PAIRING_BIND) of
        None \<Rightarrow> (Inl (BadAddress ''OPENPAIR_PAIRING_BIND''), [NodeInfoService, IngressService], f2)
      | Some (_, pairing_port) \<Rightarrow>
     (case be_addr B (env_or env ''OPENPAIR_UI_BIND'' ''127.0.0.1:7070'') of
        None \<Rightarrow> (Inl (BadAddress ''OPENPAIR_UI_BIND''), [NodeInfoService, IngressService, PairingService], f2)
      | Some _ \<Rightarrow>
     (let started = [NodeInfoService, IngressService, PairingService, DashboardService, ProxyService] in
      if \<not> be_mdns B then (Inl NoMdns, started, f2)
      else if \<not> be_browse B then (Inl NoBrowse, started, f2)
      else (Inr (\<lparr>ui_node_id = id_uuid i, ui_identity = i, ui_ingress_port = ingress_port\<rparr>,
                 ((w, routing_new (id_uuid i)),
                  endpoint_node (daemon_hostname env etc_hostname) local_ip pairing_port i pins2 dir f2)),
            started @ [Discovering], f2))))))))"

section \<open>When the daemon starts\<close>

lemma main_running:
  assumes "daemon_main C P K F B rnd env etc ip w f = (Inr (ctx, st), services, f')"
  shows "\<exists>port addr. be_addr B (env_or env ''OPENPAIR_PAIRING_BIND'' DEFAULT_PAIRING_BIND) = Some (addr, port) \<and>
    daemon_start C P K F rnd env etc ip port w f = Inr st \<and> ui_node_id ctx = rt_local_id (ds_routing st)"
  using assms
  by (auto simp: daemon_main_def daemon_start_def Let_def ds_routing_def routing_new_def
      split: option.splits sum.splits prod.splits if_splits)

definition addresses_ok :: "boot_env \<Rightarrow> (string \<Rightarrow> string option) \<Rightarrow> bool" where
  "addresses_ok B env \<longleftrightarrow>
     list_all (\<lambda>(key, def). be_addr B (env_or env key def) \<noteq> None)
       [(''OPENPAIR_PROXY_BIND'', ''127.0.0.1:11435''), (''OPENPAIR_NODEINFO_BIND'', ''127.0.0.1:7071''),
        (''OPENPAIR_INGRESS_BIND'', ''0.0.0.0:7443''), (''OPENPAIR_PAIRING_BIND'', DEFAULT_PAIRING_BIND),
        (''OPENPAIR_UI_BIND'', ''127.0.0.1:7070'')]"

text \<open>
  The daemon runs exactly when every address can be read, an identity is found or minted and mDNS
  works; it then serves from the state of \<open>daemon_start\<close>.
\<close>
theorem daemon_main_iff:
  "(\<exists>x. fst (daemon_main C P K F B rnd env etc ip w f) = Inr x) \<longleftrightarrow>
     addresses_ok B env \<and> be_mdns B \<and> be_browse B \<and> (\<exists>i. fst (load_identity_pins C P K F rnd env f) = Inr i)"
  by (auto simp: daemon_main_def addresses_ok_def Let_def split: option.splits sum.splits prod.splits)

end
