(* ===== verification/Mdns.thy ===== *)
theory Mdns
  imports Boot
begin

text \<open>
  Discovery as it runs: \<open>advertise\<close> and \<open>browse\<close> (crates/pair-discovery/src/lib.rs) over the mDNS
  library, a record of functions, and the end of \<open>main\<close> that uses them
  (crates/pair-node/src/main.rs).
\<close>

section \<open>The library\<close>

text \<open>
  \<open>md_info\<close> builds the description of a service from its type, instance, host, addresses, port and
  properties; the addresses are filled in when the service is registered.
\<close>

record 'w mdns =
  md_new :: "'w \<Rightarrow> 'w \<times> (string + unit)"
  md_info :: "string \<Rightarrow> string \<Rightarrow> string \<Rightarrow> string \<Rightarrow> 16 word \<Rightarrow> (string, string) hmap \<Rightarrow> string + service_info"
  md_register :: "service_info \<Rightarrow> 'w \<Rightarrow> 'w \<times> (string + unit)"
  md_browse :: "string \<Rightarrow> 'w \<Rightarrow> 'w \<times> (string + unit)"
  md_local_addr :: "'w \<Rightarrow> string option" \<comment> \<open>the address of a socket that was connected to 8.8.8.8\<close>

definition service_type :: string where
  "service_type = MDNS_SERVICE_TYPE @ ''.local.''"

definition advertise ::
  "'w mdns \<Rightarrow> string \<Rightarrow> string \<Rightarrow> 16 word \<Rightarrow> node_record \<Rightarrow> 'w \<Rightarrow> 'w \<times> (string + unit)" where
  "advertise M instance_name host_name port record w =
     (case md_info M service_type instance_name (mdns_host host_name) [] port (record_to_txt record) of
        Inl e \<Rightarrow> (w, Inl e)
      | Inr info \<Rightarrow> md_register M info w)"

text \<open>
  The thread of \<open>browse\<close>: the events of the daemon until its channel closes or the receiver is
  gone; with each event comes whether the receiver still listens.
\<close>

datatype service_event = ServiceResolved service_info | OtherEvent

fun browse_thread :: "(service_event \<times> bool) list \<Rightarrow> discovered_peer list" where
  "browse_thread [] = []"
| "browse_thread ((OtherEvent, listening) # es) = browse_thread es"
| "browse_thread ((ServiceResolved i, listening) # es) =
     (if listening then resolved_peer i # browse_thread es else [])"

section \<open>The last part of main\<close>

text \<open>A node that cannot advertise goes on; one that cannot browse ends.\<close>

definition discovery_up ::
  "'w mdns \<Rightarrow> string \<Rightarrow> string \<Rightarrow> 16 word \<Rightarrow> 'w \<Rightarrow> 'w \<times> (boot_error + bool)" where
  "discovery_up M node_id host port w =
     (case md_new M w of
        (w1, Inl e) \<Rightarrow> (w1, Inl NoMdns)
      | (w1, Inr _) \<Rightarrow>
          (case advertise M node_id host port (own_record node_id (md_local_addr M w1)) w1 of
             (w2, adv) \<Rightarrow>
               (case md_browse M service_type w2 of
                  (w3, Inl e) \<Rightarrow> (w3, Inl NoBrowse)
                | (w3, Inr _) \<Rightarrow> (w3, Inr (case adv of Inr _ \<Rightarrow> True | Inl _ \<Rightarrow> False)))))"

definition discovery_loop :: "string \<Rightarrow> discovered_peer list \<Rightarrow> ('w, 'f) dstate \<Rightarrow> ('w, 'f) dstate" where
  "discovery_loop self_id ps st = foldl (\<lambda>st p. discover self_id p st) st ps"

section \<open>What the loop leaves in the routing table\<close>

text \<open>The description of a service holds what it was built from.\<close>

definition mdns_ok :: "'w mdns \<Rightarrow> bool" where
  "mdns_ok M \<longleftrightarrow>
     (\<forall>t n h a port props i. md_info M t n h a port props = Inr i \<longrightarrow>
        si_port i = port \<and> mset (si_properties i) = mset props)"

definition entry_of :: "pin_store \<Rightarrow> discovered_peer \<Rightarrow> string \<times> 16 word \<times> bool" where
  "entry_of pins p =
     (case dp_addresses p of a # _ \<Rightarrow> a | [] \<Rightarrow> trim_dots (dp_host p), dp_port p,
      case nr_node_uuid (dp_record p) of Some u \<Rightarrow> pin_get pins u \<noteq> None | None \<Rightarrow> False)"

lemma discover_pins [simp]: "ds_pins (discover self p st) = ds_pins st" "fst (fst (discover self p st)) = fst (fst st)"
  by (simp_all add: discover_def ds_map_routing_def ds_pins_def)

lemma discovery_loop_pins [simp]: "ds_pins (discovery_loop self ps st) = ds_pins st"
  unfolding discovery_loop_def by (induction ps arbitrary: st) simp_all

lemma discovery_loop_Nil [simp]: "discovery_loop self [] st = st"
  by (simp add: discovery_loop_def)

lemma discovery_loop_snoc:
  "discovery_loop self (ps @ [p]) st = discover self p (discovery_loop self ps st)"
  by (simp add: discovery_loop_def)

definition advert_of :: "string \<Rightarrow> discovered_peer \<Rightarrow> bool" where
  "advert_of u p \<longleftrightarrow> nr_node_uuid (dp_record p) = Some u"

lemma ds_routing_discover [simp]:
  "ds_routing (discover self p st) = on_discovered self (ds_pins st) p (ds_routing st)"
  by (simp add: discover_def ds_map_routing_def ds_routing_def ds_pins_def)

lemma discovered_other:
  "u = self \<or> \<not> advert_of u p \<Longrightarrow> hm_get (rt_peers (on_discovered self pins p t)) u = hm_get (rt_peers t) u"
  by (auto simp: on_discovered_def advert_of_def upsert_peer_meta_def hm.get_put split: option.split)

lemma discovered_entry:
  assumes "u \<noteq> self" "advert_of u p"
  shows "\<exists>e. hm_get (rt_peers (on_discovered self pins p t)) u = Some e \<and>
    (pe_host e, pe_ingress_port e, pe_pinned e) = entry_of pins p \<and>
    pe_models e = (case hm_get (rt_peers t) u of Some e0 \<Rightarrow> pe_models e0 | None \<Rightarrow> {})"
  using assms
  by (cases "hm_get (rt_peers t) u")
    (auto simp: on_discovered_def advert_of_def entry_of_def upsert_peer_meta_def hm.get_put)

text \<open>
  C34: after any sequence of adverts, the routing entry of another node is what the last advert
  with its UUID says (host and port), pinned exactly when a certificate with that UUID is pinned,
  with the models it had; entries without an advert, and the node's own, are as before. Adverts are
  not authenticated: any host on the network moves a pinned peer's entry to itself.
\<close>
theorem last_advert_wins:
  "let mine = filter (advert_of u) ps in
    if u = self \<or> mine = []
    then hm_get (rt_peers (ds_routing (discovery_loop self ps st))) u = hm_get (rt_peers (ds_routing st)) u
    else \<exists>e. hm_get (rt_peers (ds_routing (discovery_loop self ps st))) u = Some e \<and>
      (pe_host e, pe_ingress_port e, pe_pinned e) = entry_of (ds_pins st) (last mine) \<and>
      pe_models e = (case hm_get (rt_peers (ds_routing st)) u of Some e0 \<Rightarrow> pe_models e0 | None \<Rightarrow> {})"
  unfolding Let_def
proof (induction ps rule: rev_induct)
  case (snoc p ps)
  let ?st = "discovery_loop self ps st"
  show ?case
  proof (cases "u = self \<or> \<not> advert_of u p")
    case True
    with snoc show ?thesis by (auto simp: discovery_loop_snoc discovered_other)
  next
    case False
    then obtain e where e: "hm_get (rt_peers (on_discovered self (ds_pins st) p (ds_routing ?st))) u = Some e"
      "(pe_host e, pe_ingress_port e, pe_pinned e) = entry_of (ds_pins st) p"
      "pe_models e = (case hm_get (rt_peers (ds_routing ?st)) u of Some e0 \<Rightarrow> pe_models e0 | None \<Rightarrow> {})"
      using discovered_entry [of u self p "ds_pins st" "ds_routing ?st"] by blast
    moreover have "(case hm_get (rt_peers (ds_routing ?st)) u of Some e0 \<Rightarrow> pe_models e0 | None \<Rightarrow> {}) =
        (case hm_get (rt_peers (ds_routing st)) u of Some e0 \<Rightarrow> pe_models e0 | None \<Rightarrow> {})"
    proof (cases "filter (advert_of u) ps = []")
      case True
      with snoc have "hm_get (rt_peers (ds_routing ?st)) u = hm_get (rt_peers (ds_routing st)) u"
        by (simp only: simp_thms if_True)
      then show ?thesis by (simp only:)
    next
      case filled: False
      with False have "\<not> (u = self \<or> filter (advert_of u) ps = [])" by simp
      from snoc [unfolded if_not_P [OF this]] obtain e0 where "hm_get (rt_peers (ds_routing ?st)) u = Some e0"
        "pe_models e0 = (case hm_get (rt_peers (ds_routing st)) u of Some e0 \<Rightarrow> pe_models e0 | None \<Rightarrow> {})"
        by blast
      then show ?thesis by (simp only: option.case)
    qed
    ultimately have "\<exists>e. hm_get (rt_peers (ds_routing (discovery_loop self (ps @ [p]) st))) u = Some e \<and>
        (pe_host e, pe_ingress_port e, pe_pinned e) = entry_of (ds_pins st) p \<and>
        pe_models e = (case hm_get (rt_peers (ds_routing st)) u of Some e0 \<Rightarrow> pe_models e0 | None \<Rightarrow> {})"
      unfolding discovery_loop_snoc ds_routing_discover discovery_loop_pins by (metis (no_types, lifting))
    moreover have "filter (advert_of u) (ps @ [p]) = filter (advert_of u) ps @ [p]" using False by simp
    moreover have "\<not> (u = self \<or> filter (advert_of u) ps @ [p] = [])" using False by simp
    ultimately show ?thesis by (simp only: last_snoc if_False)
  qed
qed simp

text \<open>
  C33: a node that advertises and is resolved by mDNS gets an entry in the table of every other node
  whose discovery loop sees it, whatever else the loop saw before: with the first address that was
  resolved, pinned when that node has pinned it, and with its node-info port as ingress port,
  unless \<open>OPENPAIR_ADVERTISE_PORT\<close> holds another; so the requests routed to it do not go to the
  port its ingress receiver listens on.
\<close>
theorem advertised_is_discovered:
  assumes "mdns_ok M" "Option.bind (env ''OPENPAIR_ADVERTISE_PORT'') (parse_uint 65535) = None"
    and "md_info M service_type node_id (mdns_host host) [] (advertise_port env nodeinfo_port)
      (record_to_txt (own_record node_id ip)) = Inr i"
    and "si_port j = si_port i" "mset (si_properties j) = mset (si_properties i)" "si_addresses j = a # as"
    and "self \<noteq> node_id"
  shows "\<exists>e. hm_get (rt_peers (ds_routing
        (discovery_loop self (ps @ browse_thread [(ServiceResolved j, True)]) st))) node_id = Some e \<and>
    pe_host e = a \<and> pe_ingress_port e = nodeinfo_port \<and>
    (pe_pinned e \<longleftrightarrow> pin_get (ds_pins st) node_id \<noteq> None)"
proof -
  have "si_port i = nodeinfo_port \<and> mset (si_properties i) = mset (record_to_txt (own_record node_id ip))"
    using assms(1,3) assms(2) unfolding mdns_ok_def advertise_port_def by fastforce
  then have m: "mset (si_properties j) = mset (record_to_txt (own_record node_id ip))" "si_port j = nodeinfo_port"
    using assms(4,5) by simp_all
  have x: "nr_extra (own_record node_id ip) = []" "nr_node_uuid (own_record node_id ip) = Some node_id"
    by (simp_all add: own_record_def default_record_def)
  have u: "nr_node_uuid (txt_to_record j) = Some node_id"
    using resolved_record [OF m(1)] unfolding x by (simp add: hm_wf_def)
  then have "advert_of node_id (resolved_peer j)" by (simp add: advert_of_def resolved_peer_def)
  moreover have "entry_of (ds_pins st) (resolved_peer j) = (a, nodeinfo_port, pin_get (ds_pins st) node_id \<noteq> None)"
    using u assms(6) m(2) by (simp add: entry_of_def resolved_peer_def)
  ultimately show ?thesis
    using discovered_entry [of node_id self "resolved_peer j" "ds_pins st" "ds_routing (discovery_loop self ps st)"]
      assms(7) by (auto simp: discovery_loop_snoc)
qed

section \<open>Witness\<close>

definition demo_mdns :: "unit mdns" where
  "demo_mdns =
     \<lparr>md_new = (\<lambda>w. (w, Inr ())),
      md_info = (\<lambda>t n h a port props. Inr \<lparr>si_fullname = n @ ''.'' @ t, si_hostname = h, si_port = port,
        si_addresses = [], si_properties = props\<rparr>),
      md_register = (\<lambda>i w. (w, Inr ())), md_browse = (\<lambda>t w. (w, Inr ())), md_local_addr = (\<lambda>w. Some ''10.0.0.1'')\<rparr>"

lemma demo_mdns_ok: "mdns_ok demo_mdns"
  by (auto simp: mdns_ok_def demo_mdns_def)

definition demo_resolved :: service_info where
  "demo_resolved = \<lparr>si_fullname = ''n'', si_hostname = ''h.local.'', si_port = 7071, si_addresses = [''10.0.0.1''],
     si_properties = rev (record_to_txt (own_record ''n'' (Some ''10.0.0.1'')))\<rparr>"

theorem advertised_is_discovered_witness:
  "\<exists>e. hm_get (rt_peers (ds_routing (discovery_loop ''s'' ([] @ browse_thread [(ServiceResolved demo_resolved, True)])
      (((), routing_new ''s''), demo_node ''B'' ''b:1'')))) ''n'' = Some e \<and> pe_host e = ''10.0.0.1'' \<and> pe_ingress_port e = 7071"
proof -
  let ?t = "record_to_txt (own_record ''n'' (Some ''10.0.0.1''))" and ?env = "\<lambda>k. None :: string option"
  have i: "md_info demo_mdns service_type ''n'' (mdns_host ''h'') [] (advertise_port ?env 7071) ?t =
      Inr \<lparr>si_fullname = ''n'' @ ''.'' @ service_type, si_hostname = mdns_host ''h'', si_port = 7071,
        si_addresses = [], si_properties = ?t\<rparr>"
    by (simp add: demo_mdns_def advertise_port_def)
  show ?thesis
    using advertised_is_discovered [OF demo_mdns_ok _ i, of demo_resolved "''10.0.0.1''" "[]" "''s''" "[]"
        "(((), routing_new ''s''), demo_node ''B'' ''b:1'')"]
    by (simp only: demo_resolved_def service_info.simps mset_rev) auto
qed

end
