(* ===== verification/Http_Client.thy ===== *)
theory Http_Client
  imports Ui Proxy
begin

text \<open>
  The HTTP clients of the program, down to the calls they make into tokio, rustls and hyper:
  \<open>forward_raw\<close> to the engine (backend.rs of crates/pair-proxy), \<open>forward_to_peer\<close> over mutual TLS
  (peer.rs), \<open>http\<close> of the dashboard (crates/pair-ui) and the connection of \<open>post_pairing\<close>
  (http.rs of crates/pair-cluster); and the TLS configurations of both sides
  (mtls.rs of crates/pair-trust). The libraries are two records of functions. The engine, link and
  network that the rest of the model takes as parameters are these clients.
\<close>

section \<open>The libraries\<close>

text \<open>Steps that change the world and may fail, one after the other.\<close>

definition and_then ::
  "('w \<Rightarrow> 'w \<times> ('e + 'a)) \<Rightarrow> ('a \<Rightarrow> 'w \<Rightarrow> 'w \<times> ('e + 'b)) \<Rightarrow> 'w \<Rightarrow> 'w \<times> ('e + 'b)" where
  "and_then m f w = (case m w of (w1, Inl e) \<Rightarrow> (w1, Inl e) | (w1, Inr x) \<Rightarrow> f x w1)"

definition done_with :: "'e + 'a \<Rightarrow> 'w \<Rightarrow> 'w \<times> ('e + 'a)" where
  "done_with r w = (w, r)"

text \<open>Connections, HTTP/1 and the request builder, which refuses what is no request.\<close>

record ('c, 'b, 'w) net_lib =
  nl_connect :: "string \<Rightarrow> 'w \<Rightarrow> 'w \<times> (string + 'c)" \<comment> \<open>an authority\<close>
  nl_connect_to :: "string \<Rightarrow> 16 word \<Rightarrow> 'w \<Rightarrow> 'w \<times> (string + 'c)" \<comment> \<open>a host and a port\<close>
  nl_handshake :: "'c \<Rightarrow> 'w \<Rightarrow> 'w \<times> (string + 'c)"
  nl_build :: "http_request \<Rightarrow> string + http_request"
  nl_send :: "'c \<Rightarrow> http_request \<Rightarrow> 'w \<Rightarrow> 'w \<times> (string + nat \<times> 'b)"
  nl_collect :: "'b \<Rightarrow> 'w \<Rightarrow> 'w \<times> (string + bytes)"

text \<open>
  rustls: what its builders accept, and the connection of a client, which asks the verifier about
  the certificate that the other side presents.
\<close>

datatype tls_version = TLS12 | TLS13

type_synonym server_check = "bytes \<Rightarrow> bytes list \<Rightarrow> string \<Rightarrow> bytes \<Rightarrow> nat \<Rightarrow> tls_error + unit"

record tls_config =
  tc_versions :: "tls_version list"
  tc_chain :: "bytes list"
  tc_key :: bytes
  tc_client_auth :: bool \<comment> \<open>a server that requires a certificate\<close>

record ('c, 'w) tls_lib =
  tl_versions :: "tls_version list \<Rightarrow> string + unit"
  tl_single_cert :: "bytes list \<Rightarrow> bytes \<Rightarrow> string + unit"
  tl_schemes :: "string list"
  tl_verify13 :: "bytes \<Rightarrow> bytes \<Rightarrow> bytes \<Rightarrow> tls_error + unit"
  tl_server_name :: "string \<Rightarrow> string option"
  tl_connect :: "tls_config \<Rightarrow> server_check \<Rightarrow> string \<Rightarrow> 'c \<Rightarrow> 'w \<Rightarrow> 'w \<times> (string + 'c)"
  tl_presented :: "'c \<Rightarrow> bytes" \<comment> \<open>the certificate of the other side\<close>

section \<open>The TLS configurations\<close>

definition verify_tls13_signature ::
  "('c, 'w) tls_lib \<Rightarrow> bytes \<Rightarrow> bytes \<Rightarrow> bytes \<Rightarrow> tls_error + unit" where
  "verify_tls13_signature R message cert dss = tl_verify13 R message cert dss"

definition supported_verify_schemes :: "('c, 'w) tls_lib \<Rightarrow> string list" where
  "supported_verify_schemes R = tl_schemes R"

definition root_hint_subjects :: "bytes list" where
  "root_hint_subjects = []"

definition cert_and_key :: "identity \<Rightarrow> bytes list \<times> bytes" where
  "cert_and_key me = ([id_cert_der me], id_key_der me)"

text \<open>The verifier of both is the pin store, which they share with the rest of the process.\<close>

definition server_config :: "('c, 'w) tls_lib \<Rightarrow> identity \<Rightarrow> string + tls_config" where
  "server_config R me =
     (let (chain, key) = cert_and_key me
      in case tl_versions R [TLS13] of
           Inl e \<Rightarrow> Inl e
         | Inr _ \<Rightarrow>
             (case tl_single_cert R chain key of
                Inl e \<Rightarrow> Inl e
              | Inr _ \<Rightarrow> Inr \<lparr>tc_versions = [TLS13], tc_chain = chain, tc_key = key, tc_client_auth = True\<rparr>))"

definition client_config :: "('c, 'w) tls_lib \<Rightarrow> identity \<Rightarrow> string + tls_config" where
  "client_config R me =
     (let (chain, key) = cert_and_key me
      in case tl_versions R [TLS13] of
           Inl e \<Rightarrow> Inl e
         | Inr _ \<Rightarrow>
             (case tl_single_cert R chain key of
                Inl e \<Rightarrow> Inl e
              | Inr _ \<Rightarrow> Inr \<lparr>tc_versions = [TLS13], tc_chain = chain, tc_key = key, tc_client_auth = False\<rparr>))"

section \<open>The clients\<close>

text \<open>The part they share: the HTTP/1 handshake, the request and the whole answer.\<close>

definition exchange ::
  "('c, 'b, 'w) net_lib \<Rightarrow> 'c \<Rightarrow> string + http_request \<Rightarrow> 'w \<Rightarrow> 'w \<times> (string + nat \<times> bytes)" where
  "exchange N c req =
     and_then (nl_handshake N c) (\<lambda>sender.
     and_then (done_with req) (\<lambda>r.
     and_then (done_with (nl_build N r)) (\<lambda>r.
     and_then (nl_send N sender r) (\<lambda>(status, body).
     and_then (nl_collect N body) (\<lambda>b. done_with (Inr (status, b)))))))"

definition JSON_TYPE :: "string \<times> bytes" where
  "JSON_TYPE = (''content-type'', str_bytes ''application/json'')"

definition host_header :: "string \<Rightarrow> string \<times> bytes" where
  "host_header h = (''host'', str_bytes h)"

definition forward_raw :: "('c, 'b, 'w) net_lib \<Rightarrow> 'w engine" where
  "forward_raw N backend meth path body =
     and_then (nl_connect N backend) (\<lambda>c. exchange N c (Inr
       \<lparr>hr_method = meth, hr_uri = path, hr_headers = [host_header backend, JSON_TYPE], hr_body = Inr body\<rparr>))"

definition ui_http ::
  "('c, 'b, 'w) net_lib \<Rightarrow> string \<Rightarrow> 16 word \<Rightarrow> string \<Rightarrow> string \<Rightarrow> bytes \<Rightarrow> 'w \<Rightarrow> 'w \<times> (string + nat \<times> bytes)" where
  "ui_http N host port meth path body =
     and_then (nl_connect_to N host port) (\<lambda>c. exchange N c (Inr
       \<lparr>hr_method = meth, hr_uri = path, hr_headers = [host_header (host @ '':'' @ nat_str (unat port))],
        hr_body = Inr body\<rparr>))"

definition pairing_post ::
  "('c, 'b, 'w) net_lib \<Rightarrow> string \<Rightarrow> bytes \<Rightarrow> 'w \<Rightarrow> 'w \<times> (string + nat \<times> bytes)" where
  "pairing_post N addr body =
     and_then (nl_connect N addr) (\<lambda>c. exchange N c (Inr
       \<lparr>hr_method = ''POST'', hr_uri = PAIRING_PATH, hr_headers = [host_header addr, JSON_TYPE], hr_body = Inr body\<rparr>))"

definition server_name :: "('c, 'w) tls_lib \<Rightarrow> string \<Rightarrow> string" where
  "server_name R host = (case tl_server_name R host of Some n \<Rightarrow> n | None \<Rightarrow> ''peer.local'')"

definition ingress_request :: "string \<Rightarrow> bytes \<Rightarrow> http_request" where
  "ingress_request host body =
     \<lparr>hr_method = ''POST'', hr_uri = INGRESS, hr_headers = [JSON_TYPE, host_header host], hr_body = Inr body\<rparr>"

text \<open>The pins are those of the moment in which the handshake reads them.\<close>

definition peer_connect ::
  "('c, 'b, 'w) net_lib \<Rightarrow> ('c, 'w) tls_lib \<Rightarrow> identity \<Rightarrow> pin_store option \<Rightarrow> string \<Rightarrow> 16 word \<Rightarrow> 'w \<Rightarrow>
     'w \<times> (string + 'c)" where
  "peer_connect N R me pins host port =
     and_then (done_with (client_config R me)) (\<lambda>config.
     and_then (nl_connect_to N host port) (\<lambda>tcp.
       tl_connect R config (verify_server_cert pins) (server_name R host) tcp))"

definition forward_over_tls ::
  "proxy_json \<Rightarrow> ('c, 'b, 'w) net_lib \<Rightarrow> ('c, 'w) tls_lib \<Rightarrow> identity \<Rightarrow> pin_store option \<Rightarrow>
     string \<Rightarrow> 16 word \<Rightarrow> ingress_envelope \<Rightarrow> 'w \<Rightarrow> 'w \<times> (string + ingress_envelope)" where
  "forward_over_tls J N R me pins host port env =
     and_then (peer_connect N R me pins host port) (\<lambda>tls.
     and_then (exchange N tls
         (case pj_to J env of None \<Rightarrow> Inl ''encode'' | Some body \<Rightarrow> Inr (ingress_request host body)))
       (\<lambda>(status, b).
          if \<not> (200 \<le> status \<and> status < 300)
          then done_with (Inl (''peer /ingress returned '' @ pj_status J status))
          else done_with (pj_of J b)))"

section \<open>The link of the routing model\<close>

definition peer_link ::
  "('c, 'b, 'w) net_lib \<Rightarrow> ('c, 'w) tls_lib \<Rightarrow> identity \<Rightarrow> pin_store option \<Rightarrow> 'w link" where
  "peer_link N R me pins host port body =
     and_then (peer_connect N R me pins host port) (\<lambda>tls. exchange N tls (Inr (ingress_request host body)))"

text \<open>
  Forwarding to a peer is the forwarding of the routing model over the link that connects
  with mutual TLS and posts the envelope.
\<close>
theorem forwarding_is_over_tls:
  assumes "proxy_json_ok J"
  shows "forward_over_tls J N R me pins host port env w = forward_to_peer J (peer_link N R me pins) host port env w"
proof -
  obtain b where "pj_to J env = Some b" using assms by (auto simp: proxy_json_ok_def)
  then show ?thesis
    by (auto simp: forward_over_tls_def forward_to_peer_def peer_link_def and_then_def done_with_def
        split: prod.splits sum.splits)
qed

section \<open>What is sent\<close>

text \<open>The same library, keeping the requests that are sent and over which connection.\<close>

definition recording :: "('c, 'b, 'w) net_lib \<Rightarrow> ('c, 'b, 'w \<times> ('c \<times> http_request) list) net_lib" where
  "recording N =
     \<lparr>nl_connect = (\<lambda>a (w, l). case nl_connect N a w of (w1, r) \<Rightarrow> ((w1, l), r)),
      nl_connect_to = (\<lambda>h p (w, l). case nl_connect_to N h p w of (w1, r) \<Rightarrow> ((w1, l), r)),
      nl_handshake = (\<lambda>c (w, l). case nl_handshake N c w of (w1, r) \<Rightarrow> ((w1, l), r)),
      nl_build = nl_build N,
      nl_send = (\<lambda>c q (w, l). case nl_send N c q w of (w1, r) \<Rightarrow> ((w1, l @ [(c, q)]), r)),
      nl_collect = (\<lambda>b (w, l). case nl_collect N b w of (w1, r) \<Rightarrow> ((w1, l), r))\<rparr>"

definition recording_tls :: "('c, 'w) tls_lib \<Rightarrow> ('c, 'w \<times> 'l) tls_lib" where
  "recording_tls R =
     \<lparr>tl_versions = tl_versions R, tl_single_cert = tl_single_cert R, tl_schemes = tl_schemes R,
      tl_verify13 = tl_verify13 R, tl_server_name = tl_server_name R,
      tl_connect = (\<lambda>cfg v n c (w, l). case tl_connect R cfg v n c w of (w1, r) \<Rightarrow> ((w1, l), r)),
      tl_presented = tl_presented R\<rparr>"

text \<open>
  A connection is made only when the verifier let in the certificate of the other side and its
  signature of the handshake is right; HTTP runs over the connection it is given, and a request
  that is built is the one that was described.
\<close>

definition tls_ok :: "('c, 'w) tls_lib \<Rightarrow> bool" where
  "tls_ok R \<longleftrightarrow>
     (\<forall>cfg v n c w w1 s. tl_connect R cfg v n c w = (w1, Inr s) \<longrightarrow>
        (\<exists>chain ocsp now. v (tl_presented R s) chain n ocsp now = Inr ()) \<and>
        (\<exists>m dss. verify_tls13_signature R m (tl_presented R s) dss = Inr ()))"

definition http_ok :: "('c, 'b, 'w) net_lib \<Rightarrow> bool" where
  "http_ok N \<longleftrightarrow>
     (\<forall>c w w1 s. nl_handshake N c w = (w1, Inr s) \<longrightarrow> s = c) \<and>
     (\<forall>q r. nl_build N q = Inr r \<longrightarrow> r = q)"

lemma and_then_cases:
  assumes "and_then m f w = (w2, r)"
  obtains (failed) e where "m w = (w2, Inl e)" "r = Inl e"
  | (went_on) w1 x where "m w = (w1, Inr x)" "f x w1 = (w2, r)"
  using assms by (auto simp: and_then_def split: prod.splits sum.splits)

lemma recording_simps:
  "nl_connect (recording N) a (w, l) = (case nl_connect N a w of (w1, r) \<Rightarrow> ((w1, l), r))"
  "nl_connect_to (recording N) h p (w, l) = (case nl_connect_to N h p w of (w1, r) \<Rightarrow> ((w1, l), r))"
  "nl_handshake (recording N) c (w, l) = (case nl_handshake N c w of (w1, r) \<Rightarrow> ((w1, l), r))"
  "nl_build (recording N) = nl_build N"
  "nl_send (recording N) c q (w, l) = (case nl_send N c q w of (w1, r) \<Rightarrow> ((w1, l @ [(c, q)]), r))"
  "nl_collect (recording N) b (w, l) = (case nl_collect N b w of (w1, r) \<Rightarrow> ((w1, l), r))"
  by (simp_all add: recording_def)

lemma exchange_sends:
  assumes "http_ok N" "exchange (recording N) c req (w, l) = ((w2, l2), r)"
  shows "l2 = l \<and> (\<exists>e. r = Inl e) \<or> (\<exists>q. req = Inr q \<and> l2 = l @ [(c, q)])"
proof (cases "nl_handshake N c w")
  case (Pair w1 h)
  show ?thesis
  proof (cases "\<exists>s q. h = Inr s \<and> req = Inr q \<and> nl_build N q = Inr q")
    case True
    then obtain s q where *: "h = Inr s" "req = Inr q" "nl_build N q = Inr q" by blast
    with Pair assms(1) have "s = c" by (auto simp: http_ok_def)
    with * Pair assms(2) show ?thesis
      by (auto simp: exchange_def and_then_def done_with_def recording_simps split: prod.splits sum.splits)
  next
    case False
    have "nl_build N q = Inr q'' \<Longrightarrow> q'' = q" for q q'' using assms(1) by (simp add: http_ok_def)
    with False Pair assms(2) show ?thesis
      by (auto simp: exchange_def and_then_def done_with_def recording_simps split: prod.splits sum.splits)
  qed
qed

lemma peer_connect_recorded:
  "peer_connect (recording N) (recording_tls R) me pins host port (w, l) =
    (case peer_connect N R me pins host port w of (w1, r) \<Rightarrow> ((w1, l), r))"
  by (auto simp: peer_connect_def client_config_def server_name_def and_then_def done_with_def recording_simps
      recording_tls_def Let_def split: prod.splits sum.splits option.splits)

lemma peer_connect_pinned:
  assumes "tls_ok R" "peer_connect N R me pins host port w = (w1, Inr c)"
  shows "accept_cert pins (tl_presented R c) \<and> (\<exists>m dss. verify_tls13_signature R m (tl_presented R c) dss = Inr ())"
proof -
  obtain cfg tcp w0 where "tl_connect R cfg (verify_server_cert pins) (server_name R host) tcp w0 = (w1, Inr c)"
    using assms(2) by (auto simp: peer_connect_def and_then_def done_with_def split: prod.splits sum.splits)
  with assms(1) obtain chain ocsp now m dss
    where "verify_server_cert pins (tl_presented R c) chain (server_name R host) ocsp now = Inr ()"
      and "verify_tls13_signature R m (tl_presented R c) dss = Inr ()"
    unfolding tls_ok_def by blast
  then show ?thesis by (auto simp: verify_server_cert_def split: if_splits)
qed

text \<open>
  C9: whatever the network does, forwarding a request to a peer sends at most one request, the
  envelope posted to \<open>/ingress\<close>, and only over a connection whose other side presented a pinned
  certificate and signed the handshake with its key; an answer means that it was sent.
\<close>
theorem peer_traffic_pinned:
  assumes "http_ok N" "tls_ok R"
    and "forward_over_tls J (recording N) (recording_tls R) me pins host port env (w, []) = ((w2, reqs), r)"
  shows "(reqs = [] \<and> (\<exists>e. r = Inl e)) \<or>
    (\<exists>c b. reqs = [(c, ingress_request host b)] \<and> pj_to J env = Some b \<and> accept_cert pins (tl_presented R c) \<and>
       (\<exists>m dss. verify_tls13_signature R m (tl_presented R c) dss = Inr ()))"
proof (cases "peer_connect N R me pins host port w")
  case (Pair w1 h)
  show ?thesis
  proof (cases h)
    case (Inl e)
    with Pair assms(3) show ?thesis by (auto simp: forward_over_tls_def and_then_def peer_connect_recorded)
  next
    case (Inr c)
    let ?req = "case pj_to J env of None \<Rightarrow> Inl ''encode'' | Some body \<Rightarrow> Inr (ingress_request host body)"
    obtain w3 l3 x where x: "exchange (recording N) c ?req (w1, []) = ((w3, l3), x)" by (metis prod.exhaust)
    have reqs: "reqs = l3" "\<forall>e. x = Inl e \<longrightarrow> r = Inl e"
      using assms(3) Pair Inr x
      by (auto simp: forward_over_tls_def and_then_def done_with_def peer_connect_recorded
          split: sum.splits prod.splits if_splits)
    have p: "accept_cert pins (tl_presented R c) \<and> (\<exists>m dss. verify_tls13_signature R m (tl_presented R c) dss = Inr ())"
      using assms(2) Pair Inr by (intro peer_connect_pinned) simp_all
    from exchange_sends [OF assms(1) x] show ?thesis
    proof
      assume "l3 = [] \<and> (\<exists>e. x = Inl e)"
      with reqs show ?thesis by auto
    next
      assume "\<exists>q. ?req = Inr q \<and> l3 = [] @ [(c, q)]"
      then obtain b where "pj_to J env = Some b" "l3 = [(c, ingress_request host b)]"
        by (auto split: option.splits)
      with reqs p show ?thesis by blast
    qed
  qed
qed

text \<open>
  The engine gets exactly one request with two headers, the host and the JSON content type,
  or none; no header of the client reaches it, its authorization in particular.
\<close>
theorem engine_gets_two_headers:
  assumes "http_ok N" "forward_raw (recording N) backend meth path body (w, []) = ((w2, reqs), r)"
  shows "reqs = [] \<and> (\<exists>e. r = Inl e) \<or>
    map snd reqs = [\<lparr>hr_method = meth, hr_uri = path, hr_headers = [host_header backend, JSON_TYPE], hr_body = Inr body\<rparr>]"
proof (cases "nl_connect N backend w")
  case (Pair w1 h)
  show ?thesis
  proof (cases h)
    case (Inl e)
    with Pair assms(2) show ?thesis by (auto simp: forward_raw_def and_then_def recording_simps)
  next
    case (Inr c)
    with Pair assms(2) have "exchange (recording N) c (Inr \<lparr>hr_method = meth, hr_uri = path,
        hr_headers = [host_header backend, JSON_TYPE], hr_body = Inr body\<rparr>) (w1, []) = ((w2, reqs), r)"
      by (simp add: forward_raw_def and_then_def recording_simps)
    from exchange_sends [OF assms(1) this] show ?thesis by auto
  qed
qed

text \<open>
  The local proxy takes the \<open>Host\<close> header out of a request and puts none in, so that the
  engine gets an HTTP/1.1 request without the header it must have.
\<close>
theorem local_proxy_sends_no_host:
  assumes "local_handle (\<lambda>b q (w, l). case send b q w of (w1, r) \<Rightarrow> ((w1, l @ [(b, q)]), r)) backend req (w, []) =
    ((w2, reqs), r)"
  shows "\<forall>(b, q) \<in> set reqs. b = backend \<and> hr_uri q = hr_uri req \<and> ''host'' \<notin> fst ` set (hr_headers q)"
  using assms by (auto simp: local_handle_def forward_local_def split: prod.splits sum.splits)

section \<open>Witnesses\<close>

text \<open>A network in which every connection reaches a node with the certificate \<open>[2]\<close> that echoes bodies.\<close>

definition demo_net :: "(bytes, bytes, nat) net_lib" where
  "demo_net =
     \<lparr>nl_connect = (\<lambda>a w. (w, Inr [2])), nl_connect_to = (\<lambda>h p w. (w, Inr [2])), nl_handshake = (\<lambda>c w. (w, Inr c)),
      nl_build = Inr, nl_send = (\<lambda>c q w. (Suc w, Inr (200, case hr_body q of Inr b \<Rightarrow> b | Inl e \<Rightarrow> []))),
      nl_collect = (\<lambda>b w. (w, Inr b))\<rparr>"

definition demo_tls :: "(bytes, nat) tls_lib" where
  "demo_tls =
     \<lparr>tl_versions = (\<lambda>v. Inr ()), tl_single_cert = (\<lambda>c k. Inr ()), tl_schemes = [], tl_verify13 = (\<lambda>m c d. Inr ()),
      tl_server_name = Some,
      tl_connect = (\<lambda>cfg v n c w. (w, case v c [] n [] 0 of Inr u \<Rightarrow> Inr c | Inl e \<Rightarrow> Inl ''refused'')),
      tl_presented = (\<lambda>c. c)\<rparr>"

lemma demo_net_simps:
  "nl_connect demo_net a w = (w, Inr [2])" "nl_handshake demo_net c w = (w, Inr c)" "nl_build demo_net q = Inr q"
  "nl_send demo_net c q w = (Suc w, Inr (200, case hr_body q of Inr b \<Rightarrow> b | Inl e \<Rightarrow> []))"
  "nl_collect demo_net b w = (w, Inr b)"
  by (simp_all add: demo_net_def)

lemma demo_net_ok: "http_ok demo_net"
  by (simp add: http_ok_def demo_net_def)

lemma demo_tls_ok: "tls_ok demo_tls"
  by (auto simp: tls_ok_def demo_tls_def verify_tls13_signature_def split: sum.splits)

theorem forwarding_is_over_tls_witness:
  "forward_over_tls demo_pj demo_net demo_tls demo_identity (Some (demo_pin [2])) ''h'' 9 default_ingress 0 =
   forward_to_peer demo_pj (peer_link demo_net demo_tls demo_identity (Some (demo_pin [2]))) ''h'' 9 default_ingress 0"
  by (rule forwarding_is_over_tls [OF demo_pj_ok])

theorem peer_traffic_pinned_witness:
  "\<exists>b. snd (fst (forward_over_tls demo_pj (recording demo_net) (recording_tls demo_tls) demo_identity
       (Some (demo_pin [2])) ''h'' 9 default_ingress (0, []))) = [([2], ingress_request ''h'' b)]"
proof -
  let ?f = "forward_over_tls demo_pj (recording demo_net) (recording_tls demo_tls) demo_identity
    (Some (demo_pin [2])) ''h'' 9 default_ingress (0, [])"
  have p: "peer_connect demo_net demo_tls demo_identity (Some (demo_pin [2])) ''h'' 9 0 = (0, Inr [2])"
    by (simp add: peer_connect_def client_config_def cert_and_key_def and_then_def done_with_def demo_net_def
        demo_tls_def verify_server_cert_def accept_cert_def)
  obtain b where "pj_to demo_pj default_ingress = Some b" using demo_pj_ok by (auto simp: proxy_json_ok_def)
  then have n: "snd (fst ?f) \<noteq> []"
    by (simp add: forward_over_tls_def and_then_def peer_connect_recorded p exchange_def recording_simps done_with_def
        demo_net_simps)
  obtain w2 reqs r where f: "?f = ((w2, reqs), r)" by (metis prod.exhaust)
  from peer_traffic_pinned [OF demo_net_ok demo_tls_ok f] n f
  obtain c b where "reqs = [(c, ingress_request ''h'' b)]" "accept_cert (Some (demo_pin [2])) (tl_presented demo_tls c)"
    by auto
  moreover from this(2) have "c = [2]" by (simp add: accept_cert_def demo_tls_def)
  ultimately show ?thesis using f by auto
qed

theorem engine_gets_two_headers_witness:
  "map snd (snd (fst (forward_raw (recording demo_net) ''e'' ''GET'' ''/p'' [] (0, [])))) =
     [\<lparr>hr_method = ''GET'', hr_uri = ''/p'', hr_headers = [host_header ''e'', JSON_TYPE], hr_body = Inr []\<rparr>]"
proof -
  obtain w2 reqs r where f: "forward_raw (recording demo_net) ''e'' ''GET'' ''/p'' [] (0, []) = ((w2, reqs), r)"
    by (metis prod.exhaust)
  then have "reqs \<noteq> []"
    by (auto simp: forward_raw_def and_then_def exchange_def recording_simps done_with_def demo_net_simps)
  with engine_gets_two_headers [OF demo_net_ok f] f show ?thesis by simp
qed

theorem local_proxy_sends_no_host_witness:
  "snd (fst (local_handle
     (\<lambda>b q (w, l). case (Suc w, Inr \<lparr>hs_status = 200, hs_headers = [], hs_body = Inr []\<rparr>) of (w1, r) \<Rightarrow> ((w1, l @ [(b, q)]), r))
     ''e'' \<lparr>hr_method = ''GET'', hr_uri = ''/p'', hr_headers = [host_header ''a''], hr_body = Inr []\<rparr> (0, []))) =
   [(''e'', \<lparr>hr_method = ''GET'', hr_uri = ''/p'', hr_headers = [], hr_body = Inr []\<rparr>)]"
  (is "snd (fst (local_handle ?send ''e'' ?q (0, []))) = ?l")
proof -
  obtain w2 reqs r where f: "local_handle ?send ''e'' ?q (0, []) = ((w2, reqs), r)" by (metis prod.exhaust)
  have "\<forall>(b, q) \<in> set reqs. b = ''e'' \<and> hr_uri q = hr_uri ?q \<and> ''host'' \<notin> fst ` set (hr_headers q)"
    by (rule local_proxy_sends_no_host [OF f])
  with f show ?thesis by (simp add: local_handle_def forward_local_def host_header_def) auto
qed

end
