(* ===== verification/Framing.thy ===== *)
theory Framing
  imports Utf8 Json_Value
begin

text \<open>
  Message framing over a byte stream (crates/pair-rpc/src/framing.rs), the JSON-RPC messages
  (crates/pair-proto/src/jsonrpc.rs) and their transport (crates/pair-rpc/src/lib.rs). A
  \<open>usize\<close> has 64 bits. Memory for a body is always available.
\<close>

section \<open>Byte streams\<close>

text \<open>What a reader will still deliver, and how it ends: at the end of file or with an error.\<close>

record stream =
  st_bytes :: bytes
  st_end :: "string option"

datatype io_error = UnexpectedEof | IoError string

datatype frame_error = FIo io_error | HeaderTooLarge | MissingLength

definition read_exact :: "nat \<Rightarrow> stream \<Rightarrow> stream \<times> (io_error + bytes)" where
  "read_exact n r =
     (if n \<le> length (st_bytes r) then (r\<lparr>st_bytes := drop n (st_bytes r)\<rparr>, Inr (take n (st_bytes r)))
      else (r\<lparr>st_bytes := []\<rparr>, Inl (case st_end r of None \<Rightarrow> UnexpectedEof | Some e \<Rightarrow> IoError e)))"

text \<open>A read of one byte at the end of the stream: no byte, or the error.\<close>

definition at_end :: "stream \<Rightarrow> bytes option \<Rightarrow> frame_error + bytes option" where
  "at_end r res = (case st_end r of None \<Rightarrow> Inr res | Some e \<Rightarrow> Inl (FIo (IoError e)))"

section \<open>The three framings\<close>

datatype framing = JsonLines | LengthPrefixedBE | ContentLength

definition default_framing :: framing where "default_framing = JsonLines"

definition encode :: "framing \<Rightarrow> bytes \<Rightarrow> bytes" where
  "encode f body =
     (case f of
        JsonLines \<Rightarrow> body @ [10]
      | LengthPrefixedBE \<Rightarrow> be_bytes 4 (length body mod 2 ^ 32) @ body
      | ContentLength \<Rightarrow> str_bytes (''Content-Length: '' @ nat_str (length body) @ [cr, nl, cr, nl]) @ body)"

text \<open>The loop of \<open>read_line\<close>: the bytes of the line so far and the bytes still to come.\<close>

fun read_line_from :: "bytes \<Rightarrow> bytes \<Rightarrow> bytes \<times> bytes \<times> bool" where
  "read_line_from buf [] = ([], buf, False)"
| "read_line_from buf (b # bs) =
     (if b = 10
      then (let line = if buf \<noteq> [] \<and> last buf = 13 then butlast buf else buf
            in if line = [] then read_line_from [] bs else (bs, line, True))
      else read_line_from (buf @ [b]) bs)"

definition read_line :: "stream \<Rightarrow> (stream \<times> (frame_error + bytes option)) exec" where
  "read_line r =
     (case read_line_from [] (st_bytes r) of
        (bs, line, complete) \<Rightarrow>
          Returned (r\<lparr>st_bytes := bs\<rparr>,
            if complete then Inr (Some line)
            else at_end r (if line = [] then None else Some line)))"

definition read_len_prefixed :: "stream \<Rightarrow> (stream \<times> (frame_error + bytes option)) exec" where
  "read_len_prefixed r =
     (case read_exact 4 r of
        (r1, Inl e) \<Rightarrow> Returned (r1, if e = UnexpectedEof then Inr None else Inl (FIo e))
      | (r1, Inr len_buf) \<Rightarrow>
          (case read_exact (be_val len_buf) r1 of
             (r2, Inl e) \<Rightarrow> Returned (r2, Inl (FIo e))
           | (r2, Inr body) \<Rightarrow> Returned (r2, Inr (Some body))))"

datatype header_end = HComplete | HEof | HTooLarge

definition CRLF2 :: bytes where "CRLF2 = [13, 10, 13, 10]"

fun read_header :: "bytes \<Rightarrow> bytes \<Rightarrow> bytes \<times> bytes \<times> header_end" where
  "read_header header [] = ([], header, HEof)"
| "read_header header (b # bs) =
     (let h = header @ [b]
      in if ends_with h CRLF2 then (bs, h, HComplete)
         else if 8192 < length h then (bs, h, HTooLarge)
         else read_header h bs)"

text \<open>\<open>split\<close> at every \<open>\r\n\<close>.\<close>

fun split_crlf :: "string \<Rightarrow> string list" where
  "split_crlf (a # b # s) =
     (if a = cr \<and> b = nl then [] # split_crlf s
      else (case split_crlf (b # s) of [] \<Rightarrow> [[a]] | l # ls \<Rightarrow> (a # l) # ls))"
| "split_crlf [a] = [[a]]"
| "split_crlf [] = [[]]"

definition USIZE_MAX :: nat where "USIZE_MAX = 2 ^ 64 - 1"

text \<open>The last line with the field decides, even when its value is no number.\<close>

definition header_length :: "bytes \<Rightarrow> nat option" where
  "header_length header =
     foldl (\<lambda>len line. case strip_prefix ''Content-Length:'' line of
              Some v \<Rightarrow> parse_uint USIZE_MAX (trim v) | None \<Rightarrow> len)
       None (split_crlf (from_utf8_lossy header))"

text \<open>A vector of more than \<open>isize::MAX\<close> bytes is a capacity overflow, which panics.\<close>

definition read_content_length :: "stream \<Rightarrow> (stream \<times> (frame_error + bytes option)) exec" where
  "read_content_length r =
     (case read_header [] (st_bytes r) of
        (bs, header, HEof) \<Rightarrow>
          Returned (r\<lparr>st_bytes := bs\<rparr>, at_end r (if header = [] then None else Some []))
      | (bs, header, HTooLarge) \<Rightarrow> Returned (r\<lparr>st_bytes := bs\<rparr>, Inl HeaderTooLarge)
      | (bs, header, HComplete) \<Rightarrow>
          (case header_length header of
             None \<Rightarrow> Returned (r\<lparr>st_bytes := bs\<rparr>, Inl MissingLength)
           | Some len \<Rightarrow>
               if 2 ^ 63 \<le> len then Panicked
               else (case read_exact len (r\<lparr>st_bytes := bs\<rparr>) of
                       (r2, Inl e) \<Rightarrow> Returned (r2, Inl (FIo e))
                     | (r2, Inr body) \<Rightarrow> Returned (r2, Inr (Some body)))))"

definition read_frame :: "framing \<Rightarrow> stream \<Rightarrow> (stream \<times> (frame_error + bytes option)) exec" where
  "read_frame f r =
     (case f of
        JsonLines \<Rightarrow> read_line r
      | LengthPrefixedBE \<Rightarrow> read_len_prefixed r
      | ContentLength \<Rightarrow> read_content_length r)"

section \<open>JSON-RPC messages\<close>

datatype rpc_id = IdNum "64 word" | IdStr string

record rpc_request =
  rq_method :: string
  rq_params :: "jval option"
  rq_id :: rpc_id

record rpc_notification =
  rn_method :: string
  rn_params :: "jval option"

record rpc_error =
  re_code :: "64 word"
  re_message :: string
  re_data :: "jval option"

record rpc_response =
  rr_result :: "jval option"
  rr_error :: "rpc_error option"
  rr_id :: rpc_id

datatype rpc_message = Request rpc_request | Response rpc_response | Notification rpc_notification

definition request_new :: "string \<Rightarrow> jval option \<Rightarrow> rpc_id \<Rightarrow> rpc_request" where
  "request_new method params i = \<lparr>rq_method = method, rq_params = params, rq_id = i\<rparr>"

definition notification_new :: "string \<Rightarrow> jval option \<Rightarrow> rpc_notification" where
  "notification_new method params = \<lparr>rn_method = method, rn_params = params\<rparr>"

text \<open>The version field: serialized as this string, and accepted when a string was read and is it.\<close>

definition version_to :: string where "version_to = ''2.0''"

definition version_of :: "string + string \<Rightarrow> string + unit" where
  "version_of s =
     (case s of
        Inl e \<Rightarrow> Inl e
      | Inr v \<Rightarrow> if v = ''2.0'' then Inr () else Inl (''unsupported jsonrpc version: '' @ v))"

text \<open>serde\_json on messages.\<close>

record rpc_codec =
  rpc_to :: "rpc_message \<Rightarrow> bytes option"
  rpc_of :: "bytes \<Rightarrow> string + rpc_message"

datatype rpc_failure = Encode | Decode string | Write string | Frame frame_error

text \<open>A writer is its \<open>write_all\<close> and its \<open>flush\<close>.\<close>

definition write_message ::
  "(bytes \<Rightarrow> 'w \<Rightarrow> 'w \<times> (string + unit)) \<Rightarrow> ('w \<Rightarrow> 'w \<times> (string + unit)) \<Rightarrow> rpc_codec \<Rightarrow> framing \<Rightarrow>
     rpc_message \<Rightarrow> 'w \<Rightarrow> 'w \<times> (rpc_failure + unit)" where
  "write_message write_all flush J f m w =
     (case rpc_to J m of
        None \<Rightarrow> (w, Inl Encode)
      | Some body \<Rightarrow>
          (case write_all (encode f body) w of
             (w1, Inl e) \<Rightarrow> (w1, Inl (Write e))
           | (w1, Inr _) \<Rightarrow>
               (case flush w1 of
                  (w2, Inl e) \<Rightarrow> (w2, Inl (Write e))
                | (w2, Inr _) \<Rightarrow> (w2, Inr ()))))"

definition read_message ::
  "rpc_codec \<Rightarrow> framing \<Rightarrow> stream \<Rightarrow> (stream \<times> (rpc_failure + rpc_message option)) exec" where
  "read_message J f r =
     (case read_frame f r of
        Panicked \<Rightarrow> Panicked
      | Diverged \<Rightarrow> Diverged
      | Returned (r1, Inl e) \<Rightarrow> Returned (r1, Inl (Frame e))
      | Returned (r1, Inr None) \<Rightarrow> Returned (r1, Inr None)
      | Returned (r1, Inr (Some bytes)) \<Rightarrow>
          (case rpc_of J bytes of
             Inl e \<Rightarrow> Returned (r1, Inl (Decode e))
           | Inr m \<Rightarrow> Returned (r1, Inr (Some m))))"

section \<open>Reading what was written\<close>

text \<open>The bodies a framing can carry.\<close>

definition framable :: "framing \<Rightarrow> bytes \<Rightarrow> bool" where
  "framable f body =
     (case f of
        JsonLines \<Rightarrow> body \<noteq> [] \<and> 10 \<notin> set body \<and> last body \<noteq> 13
      | LengthPrefixedBE \<Rightarrow> length body < 2 ^ 32
      | ContentLength \<Rightarrow> length body < 2 ^ 63)"

lemma read_line_from_line:
  "10 \<notin> set body \<Longrightarrow> buf @ body \<noteq> [] \<Longrightarrow> last (buf @ body) \<noteq> 13 \<Longrightarrow>
   read_line_from buf (body @ 10 # rest) = (rest, buf @ body, True)"
  by (induction body arbitrary: buf) auto

lemma read_line_from_partial:
  "10 \<notin> set body \<Longrightarrow> read_line_from buf body = ([], buf @ body, False)"
  by (induction body arbitrary: buf) auto

lemma read_header_until:
  assumes "\<forall>k < length t. \<not> ends_with (h @ take (Suc k) t) CRLF2" "length h + length t \<le> 8192"
  shows "read_header h (t @ rest) = read_header (h @ t) rest"
  using assms
proof (induction t arbitrary: h)
  case Nil
  then show ?case by simp
next
  case (Cons b t)
  from Cons.prems(1) have "\<not> ends_with (h @ [b]) CRLF2" by (auto dest: spec [where x = 0])
  moreover have "\<forall>k < length t. \<not> ends_with ((h @ [b]) @ take (Suc k) t) CRLF2"
    using Cons.prems(1) by (auto dest: spec [where x = "Suc k" for k])
  ultimately show ?case using Cons.IH [of "h @ [b]"] Cons.prems(2) by (simp add: Let_def)
qed

lemma nat_str_length: "n < 10 ^ Suc k \<Longrightarrow> length (nat_str n) \<le> Suc k"
proof (induction k arbitrary: n)
  case 0
  then show ?case by (simp add: nat_str.simps)
next
  case (Suc k)
  then have "n div 10 < 10 ^ Suc k" by simp
  from Suc.IH [OF this] show ?case by (subst nat_str.simps) simp
qed

lemma split_crlf_append: "cr \<notin> set s \<Longrightarrow> split_crlf (s @ cr # nl # t) = s # split_crlf t"
proof (induction s)
  case Nil
  then show ?case by simp
next
  case (Cons a s)
  then have IH: "split_crlf (s @ cr # nl # t) = s # split_crlf t" by simp
  from Cons.prems have "a \<noteq> cr" by auto
  with IH show ?case by (cases s) simp_all
qed

lemma trim_space_digits:
  assumes "list_all is_digit ds"
  shows "trim (CHR '' '' # ds) = ds"
proof -
  have g: "\<forall>c \<in> set ds. graphic c" using assms by (auto simp: list_all_iff intro: digit_graphic)
  then have "ws_len ds = 0" by (cases ds) (simp_all add: ws_len_graphic)
  moreover have "ws_len (CHR '' '' # ds) = 1" by (simp add: ws_len_def)
  ultimately have "trim_start (CHR '' '' # ds) = ds"
    by (subst trim_start.simps, simp) (subst trim_start.simps, simp)
  moreover from \<open>ws_len ds = 0\<close> have "trim_start ds = ds" by (subst trim_start.simps) simp
  ultimately show ?thesis using trim_graphic [OF g] by (simp add: trim_def)
qed

definition content_header :: "nat \<Rightarrow> string" where
  "content_header n = ''Content-Length: '' @ nat_str n"

lemma length_content_header [simp]: "length (content_header n) = 16 + length (nat_str n)"
  by (simp add: content_header_def)

lemma content_header_not_Nil [simp]: "content_header n \<noteq> []"
  by (simp add: content_header_def)

lemma content_header_chars:
  assumes "c \<in> set (content_header n)"
  shows "32 \<le> (of_char c :: nat) \<and> (of_char c :: nat) < 128"
proof -
  have "32 \<le> (of_char d :: nat) \<and> (of_char d :: nat) < 128" if "d \<in> set (nat_str n)" for d
    using nat_str_digits [of n] that by (auto simp: is_digit_def)
  with assms show ?thesis by (auto simp: content_header_def)
qed

lemma content_header_bytes:
  assumes "b \<in> set (str_bytes (content_header n))"
  shows "32 \<le> unat b \<and> unat b < 128"
proof -
  from assms obtain c where c: "c \<in> set (content_header n)" "b = word_of_nat (of_char c)"
    by (auto simp: str_bytes_def)
  from content_header_chars [OF c(1)] show ?thesis
    by (simp add: c(2) unat_of_nat)
qed

lemma crlf_bytes [simp]: "str_bytes [cr, nl, cr, nl] = CRLF2" "str_bytes (cr # s) = 13 # str_bytes s"
  "str_bytes (nl # s) = 10 # str_bytes s"
  by (simp_all add: str_bytes_def cr_def nl_def CRLF2_def)

lemma no_early_header_end:
  assumes "10 \<notin> set p"
  shows "\<not> ends_with (take k (p @ [13, 10, 13])) CRLF2"
proof
  assume "ends_with (take k (p @ [13, 10, 13])) CRLF2"
  then obtain y where "take k (p @ [13, 10, 13]) = y @ CRLF2" by (auto simp: ends_with_iff)
  then have y: "length (filter (\<lambda>b. b = 10) (take k (p @ [13, 10, 13]))) = length (filter (\<lambda>b. b = 10) y) + 2"
    by (simp add: CRLF2_def)
  let ?l = "p @ [13, 10, 13]"
  have "filter (\<lambda>b. b = 10) p = []" using assms by (auto simp: filter_empty_conv)
  then have "length (filter (\<lambda>b. b = 10) ?l) = 1" by simp
  moreover have "filter (\<lambda>b. b = 10) ?l = filter (\<lambda>b. b = 10) (take k ?l) @ filter (\<lambda>b. b = 10) (drop k ?l)"
    unfolding filter_append [symmetric] by (simp only: append_take_drop_id)
  ultimately have "length (filter (\<lambda>b. b = 10) (take k ?l)) \<le> 1" by (simp only: length_append)
  with y show False by simp
qed

lemma read_header_content:
  assumes "n < 10 ^ 20"
  shows "read_header [] (str_bytes (content_header n) @ CRLF2 @ rest) =
    (rest, str_bytes (content_header n) @ CRLF2, HComplete)"
proof -
  let ?p = "str_bytes (content_header n)"
  have "10 \<notin> set ?p" using content_header_bytes [of 10 n] by auto
  then have "\<forall>k < length (?p @ [13, 10, 13]). \<not> ends_with ([] @ take (Suc k) (?p @ [13, 10, 13])) CRLF2"
    using no_early_header_end [of ?p] by (simp del: take_append)
  moreover have "length (nat_str n) \<le> 20" using nat_str_length [of n 19] assms by simp
  ultimately have "read_header [] ((?p @ [13, 10, 13]) @ 10 # rest) = read_header ([] @ ?p @ [13, 10, 13]) (10 # rest)"
    by (intro read_header_until) simp_all
  moreover have "ends_with (?p @ [13, 10, 13, 10]) CRLF2" unfolding ends_with_iff CRLF2_def by blast
  ultimately show ?thesis by (simp add: CRLF2_def)
qed

lemma header_length_content:
  assumes "n \<le> USIZE_MAX"
  shows "header_length (str_bytes (content_header n) @ CRLF2) = Some n"
proof -
  let ?s = "content_header n"
  have "\<forall>b \<in> set (str_bytes ?s @ CRLF2). unat b < 128"
    using content_header_bytes [of _ n] by (auto simp: CRLF2_def)
  moreover have "str_bytes ?s @ CRLF2 = str_bytes (?s @ [cr, nl, cr, nl])"
    by (simp only: str_bytes_append crlf_bytes(1))
  ultimately have "from_utf8_lossy (str_bytes ?s @ CRLF2) = ?s @ [cr, nl, cr, nl]"
    unfolding from_utf8_lossy_def using utf8_lossy_valid [OF utf8_valid_ascii] by (metis bytes_str_str_bytes)
  moreover have "cr \<notin> set ?s"
    using content_header_chars [of cr n] by (auto simp: cr_def)
  then have "split_crlf (?s @ [cr, nl, cr, nl]) = [?s, [], []]"
    using split_crlf_append [of ?s "[cr, nl]"] split_crlf_append [of "[]" "[]"] by simp
  moreover have "strip_prefix ''Content-Length:'' ?s = Some (CHR '' '' # nat_str n)"
    by (simp add: strip_prefix_Some_iff content_header_def)
  moreover have "strip_prefix ''Content-Length:'' [] = None" by (simp add: strip_prefix_def)
  moreover have "list_all is_digit (nat_str n)" using nat_str_digits by (simp add: list_all_iff)
  ultimately show ?thesis
    using parse_uint_nat_str [OF assms] by (simp add: header_length_def trim_space_digits)
qed

lemma encode_content: "encode ContentLength body = str_bytes (content_header (length body)) @ CRLF2 @ body"
  unfolding encode_def framing.case content_header_def append_assoc str_bytes_append crlf_bytes(1) by simp

lemma read_exact_take [simp]:
  "read_exact (length b) \<lparr>st_bytes = b @ rest, st_end = e\<rparr> = (\<lparr>st_bytes = rest, st_end = e\<rparr>, Inr b)"
  by (simp add: read_exact_def)

lemma read_exact_prefix:
  "read_exact 4 \<lparr>st_bytes = be_bytes 4 n @ r, st_end = e\<rparr> = (\<lparr>st_bytes = r, st_end = e\<rparr>, Inr (be_bytes 4 n))"
  using read_exact_take [of "be_bytes 4 n" r e] by simp

lemma read_len_prefixed_encoded:
  "read_frame LengthPrefixedBE \<lparr>st_bytes = encode LengthPrefixedBE body @ rest, st_end = e\<rparr> =
     Returned (\<lparr>st_bytes = drop (length body mod 2 ^ 32) body @ rest, st_end = e\<rparr>,
       Inr (Some (take (length body mod 2 ^ 32) body)))"
proof -
  let ?n = "length body mod 2 ^ 32"
  have "be_val (be_bytes 4 ?n) = ?n" by (simp add: be_val_be_bytes)
  moreover have "?n \<le> length body" by simp
  ultimately show ?thesis
    by (simp add: read_frame_def read_len_prefixed_def encode_def read_exact_prefix read_exact_def)
qed

text \<open>
  A body of any length sent with a length prefix is read back as its first
  \<open>length mod 2 ^ 32\<close> bytes, and the rest of it stays in the stream as the next frames: the
  length is cut to 32 bits without a check.
\<close>
theorem length_prefix_truncates:
  "read_frame LengthPrefixedBE \<lparr>st_bytes = encode LengthPrefixedBE body @ rest, st_end = e\<rparr> =
     Returned (\<lparr>st_bytes = drop (length body mod 2 ^ 32) body @ rest, st_end = e\<rparr>,
       Inr (Some (take (length body mod 2 ^ 32) body)))"
  by (rule read_len_prefixed_encoded)

lemma frame_roundtrip:
  assumes "framable f body"
  shows "read_frame f \<lparr>st_bytes = encode f body @ rest, st_end = e\<rparr> =
    Returned (\<lparr>st_bytes = rest, st_end = e\<rparr>, Inr (Some body))"
proof (cases f)
  case JsonLines
  with assms show ?thesis
    by (simp add: framable_def read_frame_def read_line_def encode_def read_line_from_line)
next
  case LengthPrefixedBE
  with assms have "length body mod 2 ^ 32 = length body" by (simp add: framable_def)
  with LengthPrefixedBE read_len_prefixed_encoded [of body rest e] show ?thesis by simp
next
  case ContentLength
  with assms have l: "length body < 2 ^ 63" by (simp add: framable_def)
  then have "read_header [] (encode ContentLength body @ rest) =
      (body @ rest, str_bytes (content_header (length body)) @ CRLF2, HComplete)"
    using read_header_content [of "length body" "body @ rest"] by (simp add: encode_content)
  moreover have "header_length (str_bytes (content_header (length body)) @ CRLF2) = Some (length body)"
    using l by (intro header_length_content) (simp add: USIZE_MAX_def)
  ultimately show ?thesis
    using ContentLength l by (simp add: read_frame_def read_content_length_def)
qed

text \<open>A stream that ends after \<open>k\<close> bytes of a frame, and the length of a frame's header.\<close>

definition header_size :: "framing \<Rightarrow> bytes \<Rightarrow> nat" where
  "header_size f body = length (encode f body) - length body - (if f = JsonLines then 1 else 0)"

text \<open>
  C40: a stream that ends inside a frame is not always an error: a partial line is delivered as
  a frame, a partial length prefix counts as a clean end of the stream, and a partial
  \<open>Content-Length\<close> header yields an empty frame; only a partial body after a complete header is
  refused.
\<close>
theorem truncated_frame:
  assumes "framable f body" "0 < k" "k < length (encode f body)"
  shows "read_frame f \<lparr>st_bytes = take k (encode f body), st_end = None\<rparr> =
    Returned (\<lparr>st_bytes = [], st_end = None\<rparr>,
      case f of
        JsonLines \<Rightarrow> Inr (Some (take k body))
      | LengthPrefixedBE \<Rightarrow> if k < header_size f body then Inr None else Inl (FIo UnexpectedEof)
      | ContentLength \<Rightarrow> if k < header_size f body then Inr (Some []) else Inl (FIo UnexpectedEof))"
proof (cases f)
  case JsonLines
  with assms have "take k (encode f body) = take k body" "10 \<notin> set (take k body)" "take k body \<noteq> []"
    by (auto simp: encode_def framable_def dest: in_set_takeD)
  with JsonLines read_line_from_partial [of "take k body" "[]"] show ?thesis
    by (simp add: read_frame_def read_line_def at_end_def)
next
  case LengthPrefixedBE
  with assms have l: "length body mod 2 ^ 32 = length body" "k < 4 + length body"
    by (simp_all add: framable_def encode_def)
  have h: "header_size f body = 4" using LengthPrefixedBE by (simp add: header_size_def encode_def)
  show ?thesis
  proof (cases "k < 4")
    case True
    then show ?thesis using LengthPrefixedBE h l
      by (simp add: read_frame_def read_len_prefixed_def read_exact_def encode_def)
  next
    case False
    then have t: "take k (encode f body) = be_bytes 4 (length body) @ take (k - 4) body"
      using LengthPrefixedBE l(1) by (simp add: encode_def)
    moreover have "be_val (be_bytes 4 (length body)) = length body"
      using l(1) by (simp add: be_val_be_bytes)
    ultimately show ?thesis using LengthPrefixedBE h l False
      by (simp add: read_frame_def read_len_prefixed_def read_exact_prefix) (simp add: read_exact_def)
  qed
next
  case ContentLength
  let ?p = "str_bytes (content_header (length body))"
  from ContentLength assms have l: "length body < 2 ^ 63" by (simp add: framable_def)
  have h: "header_size f body = length (?p @ CRLF2)"
    using ContentLength by (simp add: header_size_def encode_content)
  have p: "10 \<notin> set ?p" using content_header_bytes [of 10 "length body"] by auto
  show ?thesis
  proof (cases "k < length (?p @ CRLF2)")
    case True
    then have "take k (encode f body) = take k (?p @ [13, 10, 13])" (is "_ = ?t")
      using ContentLength by (simp add: encode_content CRLF2_def take_Cons' split: nat.splits)
    have "?t \<noteq> []" using assms(2) by simp
    have "read_header [] (?t @ []) = read_header ([] @ ?t) []"
    proof (rule read_header_until)
      show "\<forall>j < length ?t. \<not> ends_with ([] @ take (Suc j) ?t) CRLF2"
        using no_early_header_end [OF p] by (simp only: take_take append_Nil) simp
      have "length (nat_str (length body)) \<le> 20" using nat_str_length [of "length body" 19] l by simp
      then show "length [] + length ?t \<le> 8192" by simp
    qed
    then show ?thesis using ContentLength h True \<open>?t \<noteq> []\<close> \<open>take k (encode f body) = ?t\<close>
      by (simp add: read_frame_def read_content_length_def at_end_def del: take_append)
  next
    case False
    then have t: "take k (encode f body) = ?p @ CRLF2 @ take (k - length (?p @ CRLF2)) body"
    proof -
      have "take k ((?p @ CRLF2) @ body) = take k (?p @ CRLF2) @ take (k - length (?p @ CRLF2)) body"
        by (rule take_append)
      moreover have "take k (?p @ CRLF2) = ?p @ CRLF2" using False by (intro take_all) simp
      ultimately show ?thesis using ContentLength by (simp only: encode_content append_assoc)
    qed
    moreover have "read_header [] (?p @ CRLF2 @ take (k - length (?p @ CRLF2)) body) =
        (take (k - length (?p @ CRLF2)) body, ?p @ CRLF2, HComplete)"
      using l by (intro read_header_content) simp
    moreover have "header_length (?p @ CRLF2) = Some (length body)"
      using l by (intro header_length_content) (simp add: USIZE_MAX_def)
    moreover have "k - length (?p @ CRLF2) < length body"
      using assms(3) False ContentLength by (simp add: encode_content)
    ultimately show ?thesis using ContentLength h l False
      by (simp add: read_frame_def read_content_length_def read_exact_def)
  qed
qed

text \<open>
  A peer that announces a body of \<open>2 ^ 63\<close> bytes or more in a \<open>Content-Length\<close> header makes
  the reader panic before it reads any of the body.
\<close>
theorem content_length_panics:
  assumes "2 ^ 63 \<le> n" "n < 2 ^ 64"
  shows "read_frame ContentLength \<lparr>st_bytes = str_bytes (''Content-Length: '' @ nat_str n @ [cr, nl, cr, nl]) @ rest,
    st_end = e\<rparr> = Panicked"
proof -
  have "str_bytes (''Content-Length: '' @ nat_str n @ [cr, nl, cr, nl]) @ rest =
      str_bytes (content_header n) @ CRLF2 @ rest"
    unfolding content_header_def append_assoc str_bytes_append crlf_bytes(1) by simp
  moreover have "read_header [] (str_bytes (content_header n) @ CRLF2 @ rest) =
      (rest, str_bytes (content_header n) @ CRLF2, HComplete)"
    using assms by (intro read_header_content) simp
  moreover have "header_length (str_bytes (content_header n) @ CRLF2) = Some n"
    using assms by (intro header_length_content) (simp add: USIZE_MAX_def)
  ultimately show ?thesis using assms by (simp add: read_frame_def read_content_length_def)
qed

section \<open>Messages\<close>

text \<open>
  A message that every framing can carry, and that the reader's end reads as another: \<open>g\<close> says as
  which.
\<close>

definition carried :: "rpc_codec \<Rightarrow> (rpc_message \<Rightarrow> rpc_message) \<Rightarrow> rpc_message \<Rightarrow> bool" where
  "carried J g m \<longleftrightarrow> (case rpc_to J m of
     None \<Rightarrow> False
   | Some b \<Rightarrow> b \<noteq> [] \<and> 10 \<notin> set b \<and> last b \<noteq> 13 \<and> length b < 2 ^ 32 \<and> rpc_of J b = Inr (g m))"

text \<open>Writing a list of messages to a buffer, and reading as many from a stream.\<close>

fun write_messages :: "rpc_codec \<Rightarrow> framing \<Rightarrow> rpc_message list \<Rightarrow> bytes \<Rightarrow> bytes" where
  "write_messages J f [] w = w"
| "write_messages J f (m # ms) w =
     write_messages J f ms (fst (write_message (\<lambda>b w. (w @ b, Inr ())) (\<lambda>w. (w, Inr ())) J f m w))"

fun read_messages :: "nat \<Rightarrow> rpc_codec \<Rightarrow> framing \<Rightarrow> stream \<Rightarrow> (rpc_failure + rpc_message option) list" where
  "read_messages 0 J f r = []"
| "read_messages (Suc n) J f r =
     (case read_message J f r of
        Returned (r1, x) \<Rightarrow> x # read_messages n J f r1
      | _ \<Rightarrow> [])"

lemma write_messages_append:
  "write_messages J f ms w = w @ write_messages J f ms []"
proof (induction ms arbitrary: w)
  case Nil
  then show ?case by simp
next
  case (Cons m ms)
  obtain b where b: "fst (write_message (\<lambda>b w. (w @ b, Inr ())) (\<lambda>w. (w, Inr ())) J f m w) = w @ b" for w
  proof (cases "rpc_to J m")
    case None
    then show ?thesis by (intro that [of "[]"]) (simp add: write_message_def)
  next
    case (Some b)
    then show ?thesis by (intro that [of "encode f b"]) (simp add: write_message_def)
  qed
  show ?case unfolding write_messages.simps b
    by (subst Cons.IH, subst (2) Cons.IH) simp
qed

lemma carried_framable: "carried J g m \<Longrightarrow> \<exists>b. rpc_to J m = Some b \<and> framable f b \<and> rpc_of J b = Inr (g m)"
  by (cases f) (auto simp: carried_def framable_def split: option.splits)

lemma end_of_stream: "read_frame f \<lparr>st_bytes = [], st_end = None\<rparr> = Returned (\<lparr>st_bytes = [], st_end = None\<rparr>, Inr None)"
  by (cases f) (simp_all add: read_frame_def read_line_def read_len_prefixed_def read_content_length_def
      read_exact_def at_end_def)

text \<open>
  A transport keeps messages apart and in order with each of the three framings, and then the
  reader sees the end of the stream.
\<close>
lemma messages_transport:
  assumes "list_all (carried J g) ms"
  shows "read_messages (length ms + 1) J f \<lparr>st_bytes = write_messages J f ms [], st_end = None\<rparr> =
    map (Inr \<circ> Some \<circ> g) ms @ [Inr None]"
  using assms
proof (induction ms)
  case Nil
  then show ?case by (simp add: read_message_def end_of_stream)
next
  case (Cons m ms)
  then obtain b where b: "rpc_to J m = Some b" "framable f b" "rpc_of J b = Inr (g m)"
    using carried_framable by fastforce
  then have "write_messages J f (m # ms) [] = encode f b @ write_messages J f ms []"
    by (simp add: write_message_def write_messages_append [of J f ms "encode f b"])
  with b frame_roundtrip [OF b(2)] Cons show ?case by (simp add: read_message_def)
qed

section \<open>Witnesses\<close>

theorem truncated_frame_witness:
  "read_frame LengthPrefixedBE \<lparr>st_bytes = take 2 (encode LengthPrefixedBE [7, 8]), st_end = None\<rparr> =
     Returned (\<lparr>st_bytes = [], st_end = None\<rparr>, Inr None)"
proof -
  have "framable LengthPrefixedBE [7, 8]" "2 < length (encode LengthPrefixedBE [7, 8])"
    "header_size LengthPrefixedBE [7, 8] = 4"
    by (simp_all add: framable_def encode_def header_size_def)
  with truncated_frame [of LengthPrefixedBE "[7, 8]" 2] show ?thesis by simp
qed

theorem content_length_panics_witness:
  "read_frame ContentLength \<lparr>st_bytes = str_bytes (''Content-Length: '' @ nat_str (2 ^ 63) @ [cr, nl, cr, nl]),
     st_end = None\<rparr> = Panicked"
  using content_length_panics [of "2 ^ 63" "[]" None] by simp

end
