(* ===== verification/Serde.thy ===== *)
theory Serde
  imports Json_Value
begin

text \<open>
  How the structs of the program become JSON and back: what \<open>derive(Serialize, Deserialize)\<close> with
  the attributes \<open>rename\<close>, \<open>default\<close> and \<open>skip_serializing_if\<close> generates, on values. A struct is
  read from an object, where unknown keys are ignored and a known key that occurs twice is an
  error, or from an array of its fields in order. The printing and parsing of the text is
  serde\_json, a record of functions.
\<close>

fun on_some :: "('a \<Rightarrow> bool) \<Rightarrow> 'a option \<Rightarrow> bool" where
  "on_some p None = True"
| "on_some p (Some x) = p x"

section \<open>Reading fields\<close>

definition struct_fields :: "string list \<Rightarrow> jval \<Rightarrow> jval option list option" where
  "struct_fields names v =
     (case v of
        JObj kvs \<Rightarrow>
          if list_ex (\<lambda>n. 1 < length (filter (\<lambda>kv. fst kv = n) kvs)) names then None
          else Some (map (map_of kvs) names)
      | JArr vs \<Rightarrow>
          if length names < length vs then None
          else Some (map Some vs @ replicate (length names - length vs) None)
      | _ \<Rightarrow> None)"

text \<open>
  A field that must be there, one with a default, and an optional one (\<open>null\<close> is \<open>None\<close>).
\<close>

definition req_field :: "(jval \<Rightarrow> 'a option) \<Rightarrow> jval option \<Rightarrow> 'a option" where
  "req_field r x = Option.bind x r"

definition def_field :: "'a \<Rightarrow> (jval \<Rightarrow> 'a option) \<Rightarrow> jval option \<Rightarrow> 'a option" where
  "def_field d r x = (case x of None \<Rightarrow> Some d | Some v \<Rightarrow> r v)"

definition opt_field :: "(jval \<Rightarrow> 'a option) \<Rightarrow> jval option \<Rightarrow> 'a option option" where
  "opt_field r x =
     (case x of None \<Rightarrow> Some None | Some v \<Rightarrow> if v = JNull then Some None else map_option Some (r v))"

fun j_bool :: "jval \<Rightarrow> bool option" where
  "j_bool (JBool b) = Some b"
| "j_bool _ = None"

definition j_word :: "jval \<Rightarrow> 'a::len word option" where
  "j_word v =
     (case j_u64 v of
        Some n \<Rightarrow> if n < 2 ^ LENGTH('a) then Some (word_of_nat n) else None
      | None \<Rightarrow> None)"

text \<open>
  A signed 64-bit number, two's complement: the number \<open>-0\<close> and one outside the range are read as
  floating-point numbers, which are refused.
\<close>

definition j_i64 :: "jval \<Rightarrow> 64 word option" where
  "j_i64 v =
     (case v of
        JNum s \<Rightarrow>
          if s \<noteq> [] \<and> hd s = CHR ''-''
          then (case j_u64 (JNum (tl s)) of
                  Some n \<Rightarrow> if 0 < n \<and> n \<le> 2 ^ 63 then Some (word_of_int (- int n)) else None
                | None \<Rightarrow> None)
          else (case j_u64 v of
                  Some n \<Rightarrow> if n < 2 ^ 63 then Some (word_of_nat n) else None
                | None \<Rightarrow> None)
      | _ \<Rightarrow> None)"

fun read_all :: "(jval \<Rightarrow> 'a option) \<Rightarrow> jval list \<Rightarrow> 'a list option" where
  "read_all r [] = Some []"
| "read_all r (v # vs) = Option.bind (r v) (\<lambda>x. map_option (\<lambda>xs. x # xs) (read_all r vs))"

definition j_list :: "(jval \<Rightarrow> 'a option) \<Rightarrow> jval \<Rightarrow> 'a list option" where
  "j_list r v = Option.bind (j_arr v) (read_all r)"

section \<open>Writing fields\<close>

text \<open>An object of the fields that are not skipped.\<close>

fun some_fields :: "(string \<times> jval option) list \<Rightarrow> (string \<times> jval) list" where
  "some_fields [] = []"
| "some_fields ((k, None) # fs) = some_fields fs"
| "some_fields ((k, Some v) # fs) = (k, v) # some_fields fs"

definition jobj :: "(string \<times> jval option) list \<Rightarrow> jval" where
  "jobj fs = JObj (some_fields fs)"

lemma structs_not_null: "jobj fs \<noteq> JNull" by (simp add: jobj_def)

definition jword :: "'a::len word \<Rightarrow> jval" where
  "jword w = JNum (nat_str (unat w))"

definition ji64 :: "64 word \<Rightarrow> jval" where
  "ji64 w = JNum (int_str (sint w))"

definition skip_empty :: "string \<Rightarrow> jval option" where
  "skip_empty s = (if s = [] then None else Some (JStr s))"

definition skip_zero :: "64 word \<Rightarrow> jval option" where
  "skip_zero w = (if w = 0 then None else Some (jword w))"

definition skip_false :: "bool \<Rightarrow> jval option" where
  "skip_false b = (if b then Some (JBool b) else None)"

section \<open>What is written is read\<close>

named_theorems serde

lemma some_fields_keys: "fst ` set (some_fields fs) \<subseteq> fst ` set fs"
  by (induction fs rule: some_fields.induct) auto

lemma some_fields_absent: "n \<notin> fst ` set fs \<Longrightarrow> filter (\<lambda>kv. fst kv = n) (some_fields fs) = []"
  using some_fields_keys [of fs] by (auto simp: filter_empty_conv image_subset_iff)

lemma some_fields_once:
  "distinct (map fst fs) \<Longrightarrow> length (filter (\<lambda>kv. fst kv = n) (some_fields fs)) \<le> 1"
  by (induction fs rule: some_fields.induct) (auto simp: some_fields_absent)

lemma some_fields_get:
  "distinct (map fst fs) \<Longrightarrow> (n, x) \<in> set fs \<Longrightarrow> map_of (some_fields fs) n = x"
proof (induction fs rule: some_fields.induct)
  case (2 k fs)
  then have "n = k \<Longrightarrow> map_of (some_fields fs) n = None"
    using some_fields_keys [of fs] by (auto simp: map_of_eq_None_iff)
  with 2 show ?case by auto
next
  case (3 k v fs)
  have "(k, y) \<notin> set fs" for y using 3(2) by force
  with 3 show ?case by auto
qed simp

text \<open>Read as another struct: the fields that it has by that name.\<close>

lemma struct_fields_other:
  assumes "distinct (map fst fs)"
  shows "struct_fields names (jobj fs) = Some (map (map_of (some_fields fs)) names)"
proof -
  have "\<not> 1 < length (filter (\<lambda>kv. fst kv = n) (some_fields fs))" for n
    using some_fields_once [OF assms, of n] by simp
  then show ?thesis by (simp add: struct_fields_def jobj_def list_ex_iff)
qed

lemma some_fields_none: "n \<notin> fst ` set fs \<Longrightarrow> map_of (some_fields fs) n = None"
  using some_fields_keys [of fs] by (auto simp: map_of_eq_None_iff)

lemma struct_fields_jobj [serde]:
  assumes "distinct (map fst fs)" "names = map fst fs"
  shows "struct_fields names (jobj fs) = Some (map snd fs)"
proof -
  have "map (map_of (some_fields fs)) names = map snd fs"
    unfolding assms(2) using some_fields_get [OF assms(1)] by simp
  with struct_fields_other [OF assms(1), of names] show ?thesis by simp
qed

lemma j_word_jword [serde, simp]: "j_word (jword w :: jval) = Some (w :: 'a::len word)"
  if "LENGTH('a) \<le> 64"
proof -
  have l: "unat w < 2 ^ LENGTH('a)" by (rule unsigned_less)
  also have "(2 :: nat) ^ LENGTH('a) \<le> 2 ^ 64" using that by (intro power_increasing) simp_all
  finally have "j_u64 (JNum (nat_str (unat w))) = Some (unat w)" by (rule j_u64_nat_str)
  with l show ?thesis by (simp add: j_word_def jword_def)
qed

lemma hd_nat_str: "hd (nat_str n) \<noteq> CHR ''-''"
  using nat_str_no_sign(1) [of n "tl (nat_str n)"] by (metis list.collapse nat_str_not_Nil)

lemma j_i64_ji64 [serde, simp]: "j_i64 (ji64 w) = Some w"
proof -
  have r: "- (2 ^ 63) \<le> sint w" "sint w < 2 ^ 63"
    using sint_ge [of w] sint_lt [of w] by simp_all
  show ?thesis
  proof (cases "sint w < 0")
    case True
    have "j_u64 (JNum (nat_str (nat (- sint w)))) = Some (nat (- sint w))"
      using r by (intro j_u64_nat_str) simp
    moreover have "0 < nat (- sint w)" "nat (- sint w) \<le> 2 ^ 63" "- int (nat (- sint w)) = sint w"
      using True r by simp_all
    ultimately show ?thesis
      by (simp only: j_i64_def ji64_def int_str_def True if_True jval.case list.distinct list.sel
          option.case simp_thms not_False_eq_True) simp
  next
    case False
    have u: "j_u64 (JNum (nat_str (nat (sint w)))) = Some (nat (sint w))"
      using r by (intro j_u64_nat_str) simp
    have n: "nat (sint w) < 2 ^ 63" using r False by simp
    have "(word_of_nat (nat (sint w)) :: 64 word) = word_of_int (int (nat (sint w)))" by simp
    also have "int (nat (sint w)) = sint w" using False by simp
    finally have "(word_of_nat (nat (sint w)) :: 64 word) = w" by simp
    then show ?thesis
      using u n False by (simp add: j_i64_def ji64_def int_str_def hd_nat_str del: j_u64.simps)
  qed
qed

lemma field_simps [serde, simp]:
  "req_field r (Some v) = r v" "req_field r None = None"
  "def_field d r (Some v) = r v" "def_field d r None = Some d"
  "opt_field r None = Some None" "opt_field r (Some JNull) = Some None"
  by (simp_all add: req_field_def def_field_def opt_field_def)

lemma opt_str [serde, simp]: "opt_field j_str (map_option JStr x) = Some x"
  by (cases x) (simp_all add: opt_field_def)

lemma opt_word [serde, simp]: "LENGTH('a) \<le> 64 \<Longrightarrow> opt_field j_word (map_option jword x) = Some (x :: 'a::len word option)"
  by (cases x) (simp_all add: opt_field_def jword_def [symmetric], simp add: jword_def)

lemma opt_i64 [serde, simp]: "opt_field j_i64 (map_option ji64 x) = Some x"
  by (cases x) (simp_all add: opt_field_def ji64_def [symmetric], simp add: ji64_def)

lemma def_skips [serde, simp]:
  "def_field [] j_str (skip_empty s) = Some s" "def_field 0 j_word (skip_zero w) = Some w"
  "def_field False j_bool (skip_false b) = Some b"
  by (simp_all add: skip_empty_def skip_zero_def skip_false_def)

lemma read_all_map [serde]: "(\<And>x. x \<in> set xs \<Longrightarrow> r (f x) = Some (g x)) \<Longrightarrow> read_all r (map f xs) = Some (map g xs)"
  by (induction xs) simp_all

section \<open>Values\<close>

text \<open>
  A \<open>Value\<close> keeps the last entry of a key; the order of its keys is not observed. The second
  function says which values the text layer carries without loss: integers of 64 bits as numbers,
  objects without repeated keys, and at most so many levels of arrays and objects.
\<close>

fun keep_last :: "(string \<times> 'a) list \<Rightarrow> (string \<times> 'a) list" where
  "keep_last [] = []"
| "keep_last (kv # kvs) = (if fst kv \<in> fst ` set kvs then keep_last kvs else kv # keep_last kvs)"

primrec jnorm :: "jval \<Rightarrow> jval" where
  "jnorm JNull = JNull"
| "jnorm (JBool b) = JBool b"
| "jnorm (JNum s) = JNum s"
| "jnorm (JStr s) = JStr s"
| "jnorm (JArr vs) = JArr (map jnorm vs)"
| "jnorm (JObj kvs) = JObj (keep_last (map (map_prod id jnorm) kvs))"

primrec jval_ok :: "jval \<Rightarrow> nat \<Rightarrow> bool" where
  "jval_ok JNull = (\<lambda>d. True)"
| "jval_ok (JBool b) = (\<lambda>d. True)"
| "jval_ok (JNum s) = (\<lambda>d. \<exists>i. - (2 ^ 63) \<le> i \<and> i < 2 ^ 64 \<and> s = int_str i)"
| "jval_ok (JStr s) = (\<lambda>d. True)"
| "jval_ok (JArr vs) = (\<lambda>d. 0 < d \<and> list_all (\<lambda>p. p (d - 1)) (map jval_ok vs))"
| "jval_ok (JObj kvs) = (\<lambda>d. 0 < d \<and> distinct (map fst kvs) \<and>
     list_all (\<lambda>p. snd p (d - 1)) (map (map_prod id jval_ok) kvs))"

abbreviation level_ok :: "nat \<Rightarrow> jval option \<Rightarrow> bool" where
  "level_ok d \<equiv> on_some (\<lambda>v. jval_ok v d)"

lemma keep_last_distinct: "distinct (map fst kvs) \<Longrightarrow> keep_last kvs = kvs"
  by (induction kvs) auto

lemma jnorm_ok: "jval_ok v d \<Longrightarrow> jnorm v = v"
proof (induction v arbitrary: d)
  case (JArr vs)
  then show ?case by (auto simp: list_all_iff intro!: map_idI)
next
  case (JObj kvs)
  have "map (map_prod id jnorm) kvs = kvs"
    using JObj by (intro map_idI) (auto simp: list_all_iff map_prod_def split: prod.splits)
  with JObj.prems show ?case by (simp add: keep_last_distinct)
qed simp_all

lemma jval_ok_mono: "jval_ok v d \<Longrightarrow> d \<le> e \<Longrightarrow> jval_ok v e"
proof (induction v arbitrary: d e)
  case (JArr vs)
  have "jval_ok w (e - 1)" if "w \<in> set vs" for w
    using JArr.IH [OF that, of "d - 1" "e - 1"] JArr.prems that by (simp add: list_all_iff)
  with JArr.prems show ?case by (simp add: list_all_iff)
next
  case (JObj kvs)
  have "jval_ok (snd kv) (e - 1)" if "kv \<in> set kvs" for kv
    using JObj.IH [OF that, of "snd kv" "d - 1" "e - 1"] JObj.prems that
    by (cases kv) (force simp: list_all_iff)
  with JObj.prems show ?case by (simp add: list_all_iff)
qed simp_all

text \<open>A field that holds any value: \<open>null\<close> is read as absent.\<close>

definition j_value :: "jval \<Rightarrow> jval option" where
  "j_value v = Some (jnorm v)"

definition no_null :: "jval option \<Rightarrow> jval option" where
  "no_null x = (if x = Some JNull then None else x)"

lemma opt_value: "level_ok d x \<Longrightarrow> opt_field j_value x = Some (no_null x)"
  by (cases x) (auto simp: opt_field_def j_value_def no_null_def jnorm_ok)

lemma jnum_ok: "- (2 ^ 63) \<le> i \<Longrightarrow> i < 2 ^ 64 \<Longrightarrow> jval_ok (JNum (int_str i)) d"
  by auto

lemma jword_ok [simp]:
  "LENGTH('a) \<le> 64 \<Longrightarrow> jval_ok (jword (w :: 'a::len word)) d" "jval_ok (ji64 i) d"
proof -
  assume "LENGTH('a) \<le> 64"
  then have "(2 :: nat) ^ LENGTH('a) \<le> 2 ^ 64" by (intro power_increasing) simp_all
  moreover have "unat w < 2 ^ LENGTH('a)" by (rule unsigned_less)
  ultimately have "unat w < 2 ^ 64" by (rule less_le_trans [rotated])
  then have "int (unat w) < 2 ^ 64" using of_nat_less_iff [of "unat w" "2 ^ 64", where 'a = int] by simp
  moreover have "nat_str (unat w) = int_str (int (unat w))" by (simp add: int_str_def)
  ultimately show "jval_ok (jword w) d"
    unfolding jword_def using jnum_ok [of "int (unat w)" d] by (metis of_nat_0_le_iff neg_le_0_iff_le order_trans zero_le_numeral zero_le_power)
next
  show "jval_ok (ji64 i) d"
    using jnum_ok [of "sint i" d] sint_ge [of i] sint_lt [of i] by (simp add: ji64_def del: jval_ok.simps)
qed

lemma skips_ok [simp]:
  "level_ok d (skip_empty s)" "level_ok d (skip_zero w)" "level_ok d (skip_false b)"
  "level_ok d (map_option JStr x)" "LENGTH('a) \<le> 64 \<Longrightarrow> level_ok d (map_option jword (y :: 'a::len word option))"
  "level_ok d (map_option ji64 z)"
  by (simp_all add: skip_empty_def skip_zero_def skip_false_def, (cases x; simp), (cases y; simp), (cases z; simp))

lemma jobj_ok [serde]:
  assumes d: "distinct (map fst fs)" and ok: "list_all (\<lambda>f. level_ok d (snd f)) fs"
  shows "jval_ok (jobj fs) (Suc d)"
proof -
  have "distinct (map fst (some_fields fs))"
    using d
  proof (induction fs rule: some_fields.induct)
    case (3 k v fs)
    then show ?case using some_fields_keys [of fs] by auto
  qed simp_all
  moreover have "list_all (\<lambda>kv. jval_ok (snd kv) d) (some_fields fs)"
    using ok by (induction fs rule: some_fields.induct) simp_all
  ultimately show ?thesis by (simp add: jobj_def list_all_iff)
qed

section \<open>Text\<close>

record json_text =
  jt_print :: "jval \<Rightarrow> bytes" \<comment> \<open>the compact form\<close>
  jt_parse :: "bytes \<Rightarrow> string + jval" \<comment> \<open>the parse tree, with repeated keys\<close>
  jt_why :: "jval \<Rightarrow> string" \<comment> \<open>the message when a value does not have the shape of the type\<close>

text \<open>
  The compact form is not empty, has no line breaks and reads back, up to the parser's limit of
  127 levels.
\<close>

definition text_ok :: "json_text \<Rightarrow> bool" where
  "text_ok T \<longleftrightarrow>
     (\<forall>v. jval_ok v 127 \<longrightarrow> jt_parse T (jt_print T v) = Inr v \<and> jt_print T v \<noteq> [] \<and>
        10 \<notin> set (jt_print T v) \<and> 13 \<notin> set (jt_print T v))"

lemma text_okD:
  assumes "text_ok T" "jval_ok v 127"
  shows "jt_parse T (jt_print T v) = Inr v" "jt_print T v \<noteq> []"
    "10 \<notin> set (jt_print T v)" "13 \<notin> set (jt_print T v)"
  using assms by (simp_all add: text_ok_def)

definition from_slice :: "json_text \<Rightarrow> (jval \<Rightarrow> 'a option) \<Rightarrow> bytes \<Rightarrow> string + 'a" where
  "from_slice T r b =
     (case jt_parse T b of
        Inl e \<Rightarrow> Inl e
      | Inr v \<Rightarrow> (case r v of Some x \<Rightarrow> Inr x | None \<Rightarrow> Inl (jt_why T v)))"

text \<open>
  A format: what its values are written as is read as the same value, and is at most \<open>deep\<close>
  levels deep.
\<close>

locale json_format =
  fixes to_j :: "'a \<Rightarrow> jval" and of_j :: "jval \<Rightarrow> 'a option" and deep :: nat and good :: "'a \<Rightarrow> bool"
  assumes read_back: "good x \<Longrightarrow> of_j (to_j x) = Some x"
    and plain: "good x \<Longrightarrow> jval_ok (to_j x) deep"
begin

lemma text_read_back:
  assumes "text_ok T" "good x" "deep \<le> 127"
  shows "from_slice T of_j (jt_print T (to_j x)) = Inr x"
proof -
  have "jval_ok (to_j x) 127" using plain [OF assms(2)] assms(3) by (rule jval_ok_mono)
  with assms show ?thesis by (simp add: from_slice_def text_okD read_back)
qed

lemma write_inj: "good x \<Longrightarrow> good y \<Longrightarrow> to_j x = to_j y \<Longrightarrow> x = y"
  using read_back by (metis option.inject)

text \<open>A list, an optional field and a field that must be there of this format.\<close>

lemma list_read_back: "list_all good xs \<Longrightarrow> j_list of_j (JArr (map to_j xs)) = Some xs"
  using read_all_map [of xs of_j to_j id] read_back by (simp add: j_list_def list_all_iff)

lemma opt_read_back:
  "on_some good x \<Longrightarrow> (\<And>y. to_j y \<noteq> JNull) \<Longrightarrow> opt_field of_j (map_option to_j x) = Some x"
  by (cases x) (simp_all add: opt_field_def read_back)

lemma plain_at: "good x \<Longrightarrow> deep \<le> d \<Longrightarrow> jval_ok (to_j x) d"
  using plain by (rule jval_ok_mono)

lemma plains:
  "list_all good xs \<Longrightarrow> deep < d \<Longrightarrow> jval_ok (JArr (map to_j xs)) d"
  "on_some good x \<Longrightarrow> deep \<le> d \<Longrightarrow> level_ok d (map_option to_j x)"
  using plain_at by (simp add: list_all_iff, cases x) (simp_all add: plain_at)

end

interpretation strings: json_format JStr j_str 0 "\<lambda>s. True"
  by unfold_locales simp_all

end
