(* ===== verification/Demo_Text.thy ===== *)
theory Demo_Text
  imports Serde
begin

text \<open>
  A concrete text form of JSON values that satisfies \<open>text_ok\<close>, for the witnesses: a tag for each
  value, and 20 before and 21 after the items of a sequence.
\<close>

definition nibble :: "nat \<Rightarrow> byte" where
  "nibble n = word_of_nat (n + 32)"

fun put_chars :: "string \<Rightarrow> bytes" where
  "put_chars [] = [21]"
| "put_chars (c # cs) = 20 # nibble (of_char c div 16) # nibble (of_char c mod 16) # put_chars cs"

fun get_chars :: "bytes \<Rightarrow> (string \<times> bytes) option" where
  "get_chars (t # h # l # r) =
     (if t = 21 then Some ([], h # l # r)
      else map_option (map_prod (\<lambda>cs. char_of (16 * (unat h - 32) + (unat l - 32)) # cs) id) (get_chars r))"
| "get_chars (t # r) = (if t = 21 then Some ([], r) else None)"
| "get_chars [] = None"

lemma nibbles: "unat (nibble (of_char c div 16)) = of_char c div 16 + 32" "unat (nibble (of_char c mod 16)) = of_char c mod 16 + 32"
proof -
  have n: "unat (nibble k) = k + 32" if "k < 16" for k
    using that by (simp only: nibble_def unat_of_nat) simp
  have "(of_char c :: nat) mod 256 < 256" by simp
  then have "(of_char c :: nat) < 256" by simp
  then show "unat (nibble (of_char c div 16)) = of_char c div 16 + 32"
    "unat (nibble (of_char c mod 16)) = of_char c mod 16 + 32"
    by (simp_all add: n less_mult_imp_div_less)
qed

lemma get_chars_stop: "get_chars (21 # r) = Some ([], r)"
  by (cases "21 # r" rule: get_chars.cases) simp_all

lemma get_put_chars: "get_chars (put_chars s @ r) = Some (s, r)"
proof (induction s)
  case (Cons c s)
  then show ?case by (simp add: nibbles)
qed (simp add: get_chars_stop)

fun put_json :: "jval \<Rightarrow> bytes" and put_items :: "jval list \<Rightarrow> bytes"
  and put_fields :: "(string \<times> jval) list \<Rightarrow> bytes" where
  "put_json JNull = [1]"
| "put_json (JBool b) = [if b then 3 else 2]"
| "put_json (JNum s) = 4 # put_chars s"
| "put_json (JStr s) = 5 # put_chars s"
| "put_json (JArr vs) = 6 # put_items vs"
| "put_json (JObj kvs) = 7 # put_fields kvs"
| "put_items [] = [21]"
| "put_items (v # vs) = 20 # put_json v @ put_items vs"
| "put_fields [] = [21]"
| "put_fields ((k, v) # kvs) = 20 # put_chars k @ put_json v @ put_fields kvs"

fun get_json :: "nat \<Rightarrow> bytes \<Rightarrow> (jval \<times> bytes) option"
  and get_items :: "nat \<Rightarrow> bytes \<Rightarrow> (jval list \<times> bytes) option"
  and get_fields :: "nat \<Rightarrow> bytes \<Rightarrow> ((string \<times> jval) list \<times> bytes) option" where
  "get_json 0 b = None"
| "get_json (Suc n) b =
     (case b of
        [] \<Rightarrow> None
      | t # r \<Rightarrow>
          if t = 1 then Some (JNull, r)
          else if t = 2 then Some (JBool False, r)
          else if t = 3 then Some (JBool True, r)
          else if t = 4 then map_option (map_prod JNum id) (get_chars r)
          else if t = 5 then map_option (map_prod JStr id) (get_chars r)
          else if t = 6 then map_option (map_prod JArr id) (get_items n r)
          else if t = 7 then map_option (map_prod JObj id) (get_fields n r)
          else None)"
| "get_items 0 b = None"
| "get_items (Suc n) b =
     (case b of
        [] \<Rightarrow> None
      | t # r \<Rightarrow>
          if t = 21 then Some ([], r)
          else (case get_json n r of
                  None \<Rightarrow> None
                | Some (v, r1) \<Rightarrow> map_option (map_prod (\<lambda>vs. v # vs) id) (get_items n r1)))"
| "get_fields 0 b = None"
| "get_fields (Suc n) b =
     (case b of
        [] \<Rightarrow> None
      | t # r \<Rightarrow>
          if t = 21 then Some ([], r)
          else (case get_chars r of
                  None \<Rightarrow> None
                | Some (k, r1) \<Rightarrow>
                    (case get_json n r1 of
                       None \<Rightarrow> None
                     | Some (v, r2) \<Rightarrow> map_option (map_prod (\<lambda>kvs. (k, v) # kvs) id) (get_fields n r2))))"

lemma get_put_json:
  "length (put_json v) \<le> n \<Longrightarrow> get_json n (put_json v @ r) = Some (v, r)"
  "length (put_items vs) \<le> n \<Longrightarrow> get_items n (put_items vs @ r) = Some (vs, r)"
  "length (put_fields kvs) \<le> n \<Longrightarrow> get_fields n (put_fields kvs @ r) = Some (kvs, r)"
proof (induction v and vs and kvs arbitrary: n r and n r and n r rule: put_json_put_items_put_fields.induct)
qed ((case_tac n; simp add: get_put_chars)+)

lemma put_chars_range: "\<forall>b \<in> set (put_chars s). 19 < unat b"
proof (induction s)
  case (Cons c s)
  then show ?case by (simp add: nibbles)
qed simp

lemma put_chars_plain: "10 \<notin> set (put_chars s)" "13 \<notin> set (put_chars s)"
  using put_chars_range [of s] by auto

lemma put_json_range:
  "10 \<notin> set (put_json v) \<and> 13 \<notin> set (put_json v)"
  "10 \<notin> set (put_items vs) \<and> 13 \<notin> set (put_items vs)"
  "10 \<notin> set (put_fields kvs) \<and> 13 \<notin> set (put_fields kvs)"
  by (induction v and vs and kvs rule: put_json_put_items_put_fields.induct)
     (simp_all add: put_chars_plain)

definition demo_text :: json_text where
  "demo_text = \<lparr>jt_print = put_json,
     jt_parse = (\<lambda>b. case get_json (length b) b of Some (v, []) \<Rightarrow> Inr v | _ \<Rightarrow> Inl ''syntax''),
     jt_why = (\<lambda>v. ''shape'')\<rparr>"

lemma demo_text_ok: "text_ok demo_text"
proof -
  have "put_json v \<noteq> []" for v by (cases v) simp_all
  moreover have "get_json (length (put_json v)) (put_json v) = Some (v, [])" for v
    using get_put_json(1) [of v "length (put_json v)" "[]"] by simp
  ultimately show ?thesis using put_json_range(1) by (simp add: text_ok_def demo_text_def)
qed

end
