(* ===== verification/Rpc_Json.thy ===== *)
theory Rpc_Json
  imports Framing Demo_Text "HOL-Library.Monad_Syntax"
begin

text \<open>
  The JSON form of the JSON-RPC messages (crates/pair-proto/src/jsonrpc.rs): the shapes that
  \<open>derive(Serialize, Deserialize)\<close> generates, with the untagged enums tried in the order of their
  variants, and the transport of crates/pair-rpc over them.
\<close>

section \<open>Writing\<close>

fun id_json :: "rpc_id \<Rightarrow> jval" where
  "id_json (IdNum n) = ji64 n"
| "id_json (IdStr s) = JStr s"

definition error_json :: "rpc_error \<Rightarrow> jval" where
  "error_json e = jobj
     [(''code'', Some (ji64 (re_code e))), (''message'', Some (JStr (re_message e))), (''data'', re_data e)]"

definition request_json :: "rpc_request \<Rightarrow> jval" where
  "request_json r = jobj
     [(''jsonrpc'', Some (JStr version_to)), (''method'', Some (JStr (rq_method r))),
      (''params'', rq_params r), (''id'', Some (id_json (rq_id r)))]"

definition notification_json :: "rpc_notification \<Rightarrow> jval" where
  "notification_json n = jobj
     [(''jsonrpc'', Some (JStr version_to)), (''method'', Some (JStr (rn_method n))), (''params'', rn_params n)]"

definition response_json :: "rpc_response \<Rightarrow> jval" where
  "response_json r = jobj
     [(''jsonrpc'', Some (JStr version_to)), (''result'', rr_result r),
      (''error'', map_option error_json (rr_error r)), (''id'', Some (id_json (rr_id r)))]"

fun message_json :: "rpc_message \<Rightarrow> jval" where
  "message_json (Request r) = request_json r"
| "message_json (Response r) = response_json r"
| "message_json (Notification n) = notification_json n"

section \<open>Reading\<close>

definition id_of :: "jval \<Rightarrow> rpc_id option" where
  "id_of v = (case j_i64 v of Some n \<Rightarrow> Some (IdNum n) | None \<Rightarrow> map_option IdStr (j_str v))"

definition j_version :: "jval \<Rightarrow> unit option" where
  "j_version v =
     (case j_str v of
        None \<Rightarrow> None
      | Some s \<Rightarrow> (case version_of (Inr s) of Inr u \<Rightarrow> Some u | Inl e \<Rightarrow> None))"

definition error_of :: "jval \<Rightarrow> rpc_error option" where
  "error_of v =
     (case struct_fields [''code'', ''message'', ''data''] v of
        Some [c, m, d] \<Rightarrow> do {
          c \<leftarrow> req_field j_i64 c; m \<leftarrow> req_field j_str m; d \<leftarrow> opt_field j_value d;
          Some \<lparr>re_code = c, re_message = m, re_data = d\<rparr>}
      | _ \<Rightarrow> None)"

definition request_of :: "jval \<Rightarrow> rpc_request option" where
  "request_of v =
     (case struct_fields [''jsonrpc'', ''method'', ''params'', ''id''] v of
        Some [j, m, p, i] \<Rightarrow> do {
          j \<leftarrow> req_field j_version j; m \<leftarrow> req_field j_str m; p \<leftarrow> opt_field j_value p; i \<leftarrow> req_field id_of i;
          Some \<lparr>rq_method = m, rq_params = p, rq_id = i\<rparr>}
      | _ \<Rightarrow> None)"

definition response_of :: "jval \<Rightarrow> rpc_response option" where
  "response_of v =
     (case struct_fields [''jsonrpc'', ''result'', ''error'', ''id''] v of
        Some [j, r, e, i] \<Rightarrow> do {
          j \<leftarrow> req_field j_version j; r \<leftarrow> opt_field j_value r; e \<leftarrow> opt_field error_of e; i \<leftarrow> req_field id_of i;
          Some \<lparr>rr_result = r, rr_error = e, rr_id = i\<rparr>}
      | _ \<Rightarrow> None)"

definition notification_of :: "jval \<Rightarrow> rpc_notification option" where
  "notification_of v =
     (case struct_fields [''jsonrpc'', ''method'', ''params''] v of
        Some [j, m, p] \<Rightarrow> do {
          j \<leftarrow> req_field j_version j; m \<leftarrow> req_field j_str m; p \<leftarrow> opt_field j_value p;
          Some \<lparr>rn_method = m, rn_params = p\<rparr>}
      | _ \<Rightarrow> None)"

definition message_of :: "jval \<Rightarrow> rpc_message option" where
  "message_of v =
     (case request_of v of
        Some r \<Rightarrow> Some (Request r)
      | None \<Rightarrow> (case response_of v of
                  Some r \<Rightarrow> Some (Response r)
                | None \<Rightarrow> map_option Notification (notification_of v)))"

section \<open>What is written is read\<close>

text \<open>The message that comes back: its \<open>null\<close> values are absent.\<close>

definition settle_error :: "rpc_error \<Rightarrow> rpc_error" where
  "settle_error e = e\<lparr>re_data := no_null (re_data e)\<rparr>"

fun settle :: "rpc_message \<Rightarrow> rpc_message" where
  "settle (Request r) = Request (r\<lparr>rq_params := no_null (rq_params r)\<rparr>)"
| "settle (Response r) = Response (r\<lparr>rr_result := no_null (rr_result r), rr_error := map_option settle_error (rr_error r)\<rparr>)"
| "settle (Notification n) = Notification (n\<lparr>rn_params := no_null (rn_params n)\<rparr>)"

text \<open>The values inside a message are ones that the text layer carries.\<close>

fun rpc_values_ok :: "rpc_message \<Rightarrow> bool" where
  "rpc_values_ok (Request r) = level_ok 126 (rq_params r)"
| "rpc_values_ok (Response r) = (level_ok 126 (rr_result r) \<and> on_some (\<lambda>e. level_ok 125 (re_data e)) (rr_error r))"
| "rpc_values_ok (Notification n) = level_ok 126 (rn_params n)"

lemma j_i64_str: "j_i64 (JStr s) = None"
  by (simp add: j_i64_def)

lemma id_back [simp]: "id_of (id_json i) = Some i" "jval_ok (id_json i) d"
  by (cases i; simp add: id_of_def j_i64_str)+

lemma version_back [simp]: "j_version (JStr version_to) = Some ()"
  by (simp add: j_version_def version_of_def version_to_def)

lemma error_back: "level_ok d (re_data e) \<Longrightarrow> error_of (error_json e) = Some (settle_error e)"
  unfolding error_of_def error_json_def settle_error_def
  by (subst struct_fields_jobj) (simp_all add: opt_value [where d = d])

lemma error_field:
  assumes "on_some (\<lambda>e. level_ok d (re_data e)) x"
  shows "opt_field error_of (map_option error_json x) = Some (map_option settle_error x)"
proof (cases x)
  case (Some e)
  have "error_json e \<noteq> JNull" by (simp add: error_json_def jobj_def)
  with Some assms error_back [of d e] show ?thesis by (simp add: opt_field_def)
qed simp

lemma requests_read:
  "level_ok d (rq_params r) \<Longrightarrow> request_of (request_json r) = Some (r\<lparr>rq_params := no_null (rq_params r)\<rparr>)"
  unfolding request_of_def request_json_def
  by (subst struct_fields_jobj) (simp_all add: opt_value [where d = d])

lemma notifications_read:
  "level_ok d (rn_params n) \<Longrightarrow> notification_of (notification_json n) = Some (n\<lparr>rn_params := no_null (rn_params n)\<rparr>)"
  unfolding notification_of_def notification_json_def
  by (subst struct_fields_jobj) (simp_all add: opt_value [where d = d])

lemma responses_read:
  assumes "level_ok d (rr_result r)" "on_some (\<lambda>e. level_ok d (re_data e)) (rr_error r)"
  shows "response_of (response_json r) =
    Some (r\<lparr>rr_result := no_null (rr_result r), rr_error := map_option settle_error (rr_error r)\<rparr>)"
  unfolding response_of_def response_json_def
  by (subst struct_fields_jobj) (simp_all add: opt_value [OF assms(1)] error_field [OF assms(2)])

text \<open>The shapes exclude each other in the order in which they are tried.\<close>

lemma response_not_request: "request_of (response_json r) = None"
  unfolding response_json_def request_of_def
  by (subst struct_fields_other) (simp_all add: some_fields_none)

lemma notification_not_request: "request_of (notification_json n) = None" "response_of (notification_json n) = None"
  unfolding notification_json_def request_of_def response_of_def
  by (subst struct_fields_other; simp add: some_fields_none Option.bind_eq_None_conv)+

lemma message_read: "rpc_values_ok m \<Longrightarrow> message_of (message_json m) = Some (settle m)"
proof (cases m)
  case (Response r)
  assume "rpc_values_ok m"
  with Response have "level_ok 126 (rr_result r)" "on_some (\<lambda>e. level_ok 125 (re_data e)) (rr_error r)" by simp_all
  moreover from this(2) have "on_some (\<lambda>e. level_ok 126 (re_data e)) (rr_error r)"
    by (cases "rr_error r"; simp; cases "re_data (the (rr_error r))"; simp add: jval_ok_mono [of _ 125])
  ultimately show ?thesis using Response responses_read [of 126 r]
    by (simp add: message_of_def response_not_request)
qed (simp_all add: message_of_def requests_read notifications_read notification_not_request)

lemma error_plain: "level_ok d (re_data e) \<Longrightarrow> jval_ok (error_json e) (Suc d)"
  unfolding error_json_def by (rule jobj_ok) simp_all

lemma message_plain: "rpc_values_ok m \<Longrightarrow> jval_ok (message_json m) 127"
proof (cases m)
  case (Request r)
  assume "rpc_values_ok m"
  with Request have "jval_ok (request_json r) (Suc 126)"
    unfolding request_json_def by (intro jobj_ok) simp_all
  with Request show ?thesis by simp
next
  case (Response r)
  assume ok: "rpc_values_ok m"
  have "level_ok 126 (map_option error_json (rr_error r))"
    using ok Response error_plain [of 125] by (cases "rr_error r") simp_all
  with ok Response have "jval_ok (response_json r) (Suc 126)"
    unfolding response_json_def by (intro jobj_ok) simp_all
  with Response show ?thesis by simp
next
  case (Notification n)
  assume "rpc_values_ok m"
  with Notification have "jval_ok (notification_json n) (Suc 126)"
    unfolding notification_json_def by (intro jobj_ok) simp_all
  with Notification show ?thesis by simp
qed

section \<open>The transport over these messages\<close>

definition serde_rpc :: "json_text \<Rightarrow> rpc_codec" where
  "serde_rpc T = \<lparr>rpc_to = (\<lambda>m. Some (jt_print T (message_json m))), rpc_of = from_slice T message_of\<rparr>"

definition rpc_fits :: "json_text \<Rightarrow> rpc_message \<Rightarrow> bool" where
  "rpc_fits T m \<longleftrightarrow> rpc_values_ok m \<and> length (jt_print T (message_json m)) < 2 ^ 32"

lemma rpc_fits_carried: "text_ok T \<Longrightarrow> rpc_fits T m \<Longrightarrow> carried (serde_rpc T) settle m"
proof -
  assume T: "text_ok T" and m: "rpc_fits T m"
  let ?b = "jt_print T (message_json m)"
  have "jval_ok (message_json m) 127" using m message_plain by (simp add: rpc_fits_def)
  note b = text_okD [OF T this]
  have "last ?b \<noteq> 13" using b(2,4) last_in_set [of ?b] by metis
  moreover have "from_slice T message_of ?b = Inr (settle m)"
    using m by (simp add: from_slice_def b(1) message_read rpc_fits_def)
  ultimately show ?thesis using b m by (simp add: carried_def serde_rpc_def rpc_fits_def)
qed

text \<open>
  C29: messages written one after the other with any of the three framings are read back in order,
  each as it was except that a \<open>null\<close> value is absent, and then the end of the stream; for any text
  layer that reads what it prints, and messages of less than \<open>2 ^ 32\<close> bytes.
\<close>
theorem rpc_stream_roundtrip:
  assumes "text_ok T" "list_all (rpc_fits T) ms"
  shows "read_messages (length ms + 1) (serde_rpc T) f
      \<lparr>st_bytes = write_messages (serde_rpc T) f ms [], st_end = None\<rparr> =
    map (Inr \<circ> Some \<circ> settle) ms @ [Inr None]"
  using messages_transport [of "serde_rpc T" settle ms f] rpc_fits_carried [OF assms(1)] assms(2)
  by (simp add: list_all_iff)

section \<open>What other messages are read as\<close>

lemma version_field: "req_field j_version x = (if x = Some (JStr ''2.0'') then Some () else None)"
proof (cases x)
  case (Some v)
  then show ?thesis by (cases v) (auto simp: j_version_def version_of_def)
qed simp

lemma struct_fields_obj: "struct_fields names (JObj kvs) = Some xs \<Longrightarrow> xs = map (map_of kvs) names"
  by (auto simp: struct_fields_def split: if_splits)

text \<open>A message of another version of the protocol, or of none, is refused.\<close>
lemma other_version_refused:
  assumes "jget ''jsonrpc'' (JObj kvs) \<noteq> Some (JStr ''2.0'')"
  shows "message_of (JObj kvs) = None"
proof -
  have none: "request_of (JObj kvs) = None" "response_of (JObj kvs) = None" "notification_of (JObj kvs) = None"
    using assms unfolding request_of_def response_of_def notification_of_def
    by (auto split: option.split dest!: struct_fields_obj simp: version_field)
  then show ?thesis by (simp add: message_of_def)
qed

lemma struct_fields_distinct:
  "distinct (map fst kvs) \<Longrightarrow> struct_fields names (JObj kvs) = Some (map (map_of kvs) names)"
proof -
  assume "distinct (map fst kvs)"
  then have "length (filter (\<lambda>kv. fst kv = n) kvs) \<le> 1" for n
    by (induction kvs) (force simp: filter_empty_conv)+
  then show ?thesis by (simp add: struct_fields_def list_ex_iff leD)
qed

text \<open>The parameters of a call: \<open>null\<close> is the same as none.\<close>

definition params_read :: "(string \<times> jval) list \<Rightarrow> jval option" where
  "params_read kvs = (case map_of kvs ''params'' of None \<Rightarrow> None | Some v \<Rightarrow> if v = JNull then None else Some (jnorm v))"

lemma params_field: "opt_field j_value (map_of kvs ''params'') = Some (params_read kvs)"
  by (simp add: params_read_def opt_field_def j_value_def split: option.split)

lemma method_field: "req_field j_str x = Some m \<longleftrightarrow> x = Some (JStr m)"
  by (cases x; simp; case_tac a; simp)

text \<open>
  C30: how a message of version 2.0 that has an id is read, whatever else is in it and in whatever
  order. With a method it is a call when its id is a string or an integer of 64 bits; with any other id
  (\<open>null\<close>, a fraction, a number out of range, a list) it is read as a notification, so that its sender
  waits for a response that nobody owes it. Without a method it is refused when it has such an id.
\<close>
theorem odd_id_reads_as_notification:
  assumes "distinct (map fst kvs)" "map_of kvs ''jsonrpc'' = Some (JStr ''2.0'')" "map_of kvs ''id'' = Some i"
  shows "(map_of kvs ''method'' = Some (JStr m) \<longrightarrow>
      message_of (JObj kvs) = Some (case id_of i of
         Some n \<Rightarrow> Request \<lparr>rq_method = m, rq_params = params_read kvs, rq_id = n\<rparr>
       | None \<Rightarrow> Notification \<lparr>rn_method = m, rn_params = params_read kvs\<rparr>)) \<and>
    (id_of i = None \<longrightarrow> (\<forall>m. map_of kvs ''method'' \<noteq> Some (JStr m)) \<longrightarrow> message_of (JObj kvs) = None)"
proof (intro conjI impI)
  note fields = struct_fields_distinct [OF assms(1)] version_field params_field assms(2,3) version_back [unfolded version_to_def]
  assume m: "map_of kvs ''method'' = Some (JStr m)"
  have n: "notification_of (JObj kvs) = Some \<lparr>rn_method = m, rn_params = params_read kvs\<rparr>"
    using m by (simp add: notification_of_def fields)
  have r: "request_of (JObj kvs) = map_option (\<lambda>n. \<lparr>rq_method = m, rq_params = params_read kvs, rq_id = n\<rparr>) (id_of i)"
    using m by (cases "id_of i") (simp_all add: request_of_def fields)
  have "response_of (JObj kvs) = None" if "id_of i = None"
    using that by (simp add: response_of_def fields Option.bind_eq_None_conv)
  with n r show "message_of (JObj kvs) = Some (case id_of i of
       Some n \<Rightarrow> Request \<lparr>rq_method = m, rq_params = params_read kvs, rq_id = n\<rparr>
     | None \<Rightarrow> Notification \<lparr>rn_method = m, rn_params = params_read kvs\<rparr>)"
    by (cases "id_of i") (simp_all add: message_of_def)
next
  note fields = struct_fields_distinct [OF assms(1)] version_field params_field assms(2,3) version_back [unfolded version_to_def]
  assume i: "id_of i = None" and m: "\<forall>m. map_of kvs ''method'' \<noteq> Some (JStr m)"
  then have "req_field j_str (map_of kvs ''method'') = None"
    using method_field [of "map_of kvs ''method''"] by (metis not_Some_eq)
  with i have "request_of (JObj kvs) = None" "response_of (JObj kvs) = None" "notification_of (JObj kvs) = None"
    by (simp_all add: request_of_def response_of_def notification_of_def fields Option.bind_eq_None_conv)
  then show "message_of (JObj kvs) = None" by (simp add: message_of_def)
qed

section \<open>Witnesses\<close>

definition demo_call :: rpc_message where
  "demo_call = Request (request_new ''add'' (Some (JArr [JNum ''1'', JNull])) (IdNum 7))"

definition demo_done :: rpc_message where
  "demo_done = Response \<lparr>rr_result = Some JNull, rr_error = None, rr_id = IdNum 7\<rparr>"

lemma demo_fit: "rpc_fits demo_text demo_call" "rpc_fits demo_text demo_done"
proof -
  have "int_str 1 = ''1''" by code_simp
  with jnum_ok [of 1 124] have "\<exists>i. - (2 ^ 63) \<le> i \<and> i < 2 ^ 64 \<and> ''1'' = int_str i" by auto
  then have "rpc_values_ok demo_call" "rpc_values_ok demo_done"
    by (simp_all add: demo_call_def demo_done_def request_new_def)
  moreover have "length (jt_print demo_text (message_json demo_call)) < 2 ^ 32"
    "length (jt_print demo_text (message_json demo_done)) < 2 ^ 32"
    by (simp_all add: demo_text_def demo_call_def demo_done_def request_new_def request_json_def response_json_def
        jobj_def version_to_def ji64_def int_str_def nat_str.simps digit_char_def)
  ultimately show "rpc_fits demo_text demo_call" "rpc_fits demo_text demo_done"
    by (simp_all add: rpc_fits_def)
qed

theorem rpc_stream_roundtrip_witness:
  "read_messages 3 (serde_rpc demo_text) ContentLength
     \<lparr>st_bytes = write_messages (serde_rpc demo_text) ContentLength [demo_call, demo_done] [], st_end = None\<rparr> =
   [Inr (Some demo_call), Inr (Some (Response \<lparr>rr_result = None, rr_error = None, rr_id = IdNum 7\<rparr>)), Inr None]"
proof -
  have "list_all (rpc_fits demo_text) [demo_call, demo_done]" by (simp add: demo_fit)
  from rpc_stream_roundtrip [OF demo_text_ok this, of ContentLength] show ?thesis
    by (simp add: numeral_3_eq_3 demo_call_def demo_done_def no_null_def request_new_def)
qed

theorem odd_id_reads_as_notification_witness:
  "message_of (JObj [(''id'', JNum ''1.5''), (''params'', JArr [JBool True]), (''jsonrpc'', JStr ''2.0''), (''method'', JStr ''a'')]) =
     Some (Notification \<lparr>rn_method = ''a'', rn_params = Some (JArr [JBool True])\<rparr>) \<and>
   message_of (JObj [(''jsonrpc'', JStr ''2.0''), (''id'', JNull), (''result'', JNull)]) = None"
proof
  let ?k = "[(''id'', JNum ''1.5''), (''params'', JArr [JBool True]), (''jsonrpc'', JStr ''2.0''), (''method'', JStr ''a'')]"
  have "id_of (JNum ''1.5'') = None" by (simp add: id_of_def j_i64_def is_digit_def)
  moreover have "params_read ?k = Some (JArr [JBool True])" by (simp add: params_read_def)
  moreover note odd_id_reads_as_notification [of ?k "JNum ''1.5''" "''a''"]
  ultimately show "message_of (JObj ?k) = Some (Notification \<lparr>rn_method = ''a'', rn_params = Some (JArr [JBool True])\<rparr>)" by simp
  have "id_of JNull = None" by (simp add: id_of_def j_i64_def)
  with odd_id_reads_as_notification [of "[(''jsonrpc'', JStr ''2.0''), (''id'', JNull), (''result'', JNull)]" JNull]
  show "message_of (JObj [(''jsonrpc'', JStr ''2.0''), (''id'', JNull), (''result'', JNull)]) = None" by simp
qed

end
