(* ===== verification/Formats.thy ===== *)
theory Formats
  imports Demo_Text Proxy Pairing_Info Membership Telemetry "HOL-Library.Monad_Syntax"
begin

text \<open>
  The JSON formats of the structs that cross the network: the ingress envelope
  (crates/pair-proxy/src/ingress.rs), the identity object and the envelope of the pairing channel
  (info.rs and wire.rs of crates/pair-cluster), the signed membership entries
  (crates/pair-trust/src/membership.rs), the node-info snapshot (telemetry.rs) and the discovery
  notifications (discovery.rs of crates/pair-proto).
  Each is a writer and a reader on values, and an instance of \<open>json_format\<close>. With them the
  codecs that the proxy and the pairing node take as parameters are the program's own formats
  over any text layer.
\<close>

section \<open>The ingress envelope\<close>

definition ingress_keys :: "string list" where
  "ingress_keys = [''host'', ''port'', ''path'', ''method'', ''name'', ''data'', ''txt'', ''code'']"

definition ingress_json :: "ingress_envelope \<Rightarrow> jval" where
  "ingress_json e = jobj
     [(''host'', map_option JStr (ig_host e)), (''port'', map_option jword (ig_port e)),
      (''path'', map_option JStr (ig_path e)), (''method'', map_option JStr (ig_method e)),
      (''name'', map_option JStr (ig_name e)), (''data'', map_option JStr (ig_data e)),
      (''txt'', map_option JStr (ig_txt e)), (''code'', map_option jword (ig_code e))]"

definition ingress_of :: "jval \<Rightarrow> ingress_envelope option" where
  "ingress_of v =
     (case struct_fields ingress_keys v of
        Some [h, p, a, m, n, d, t, c] \<Rightarrow> do {
          h \<leftarrow> opt_field j_str h; p \<leftarrow> opt_field j_word p; a \<leftarrow> opt_field j_str a; m \<leftarrow> opt_field j_str m;
          n \<leftarrow> opt_field j_str n; d \<leftarrow> opt_field j_str d; t \<leftarrow> opt_field j_str t; c \<leftarrow> opt_field j_word c;
          Some \<lparr>ig_host = h, ig_port = p, ig_path = a, ig_method = m, ig_name = n, ig_data = d, ig_txt = t, ig_code = c\<rparr>}
      | _ \<Rightarrow> None)"

interpretation ingress: json_format ingress_json ingress_of 1 "\<lambda>e. True"
proof
  fix e
  show "ingress_of (ingress_json e) = Some e"
    unfolding ingress_of_def ingress_json_def by (subst struct_fields_jobj) (simp_all add: ingress_keys_def)
  show "jval_ok (ingress_json e) 1" unfolding ingress_json_def One_nat_def by (rule jobj_ok) simp_all
qed

section \<open>The pairing channel\<close>

definition envelope_json :: "envelope \<Rightarrow> jval" where
  "envelope_json e = jobj
     [(''inviteId'', Some (JStr (e_invite_id e))), (''phase'', Some (JStr (e_phase e))),
      (''msg'', skip_empty (e_msg e)), (''rejected'', skip_false (e_rejected e)), (''reason'', skip_empty (e_reason e))]"

definition envelope_of :: "jval \<Rightarrow> envelope option" where
  "envelope_of v =
     (case struct_fields [''inviteId'', ''phase'', ''msg'', ''rejected'', ''reason''] v of
        Some [i, p, m, r, t] \<Rightarrow> do {
          i \<leftarrow> req_field j_str i; p \<leftarrow> req_field j_str p; m \<leftarrow> def_field [] j_str m;
          r \<leftarrow> def_field False j_bool r; t \<leftarrow> def_field [] j_str t;
          Some \<lparr>e_invite_id = i, e_phase = p, e_msg = m, e_rejected = r, e_reason = t\<rparr>}
      | _ \<Rightarrow> None)"

interpretation envelopes: json_format envelope_json envelope_of 1 "\<lambda>e. True"
proof
  fix e
  show "envelope_of (envelope_json e) = Some e"
    unfolding envelope_of_def envelope_json_def by (subst struct_fields_jobj) simp_all
  show "jval_ok (envelope_json e) 1" unfolding envelope_json_def One_nat_def by (rule jobj_ok) simp_all
qed

definition info_keys :: "string list" where
  "info_keys = [''v'', ''nodeUuid'', ''nodeId'', ''name'', ''clusterId'', ''admissionEpoch'',
     ''clusterFriendlyName'', ''addr'', ''cert'']"

definition info_json :: "pairing_info \<Rightarrow> jval" where
  "info_json p = jobj
     [(''v'', Some (jword (pi_v p))), (''nodeUuid'', Some (JStr (pi_node_uuid p))),
      (''nodeId'', Some (JStr (pi_node_id p))), (''name'', Some (JStr (pi_name p))),
      (''clusterId'', Some (JStr (pi_cluster_id p))), (''admissionEpoch'', skip_zero (pi_admission_epoch p)),
      (''clusterFriendlyName'', Some (JStr (pi_cluster_friendly_name p))), (''addr'', skip_empty (pi_addr p)),
      (''cert'', Some (JStr (pi_cert p)))]"

definition info_of :: "jval \<Rightarrow> pairing_info option" where
  "info_of x =
     (case struct_fields info_keys x of
        Some [v, u, i, n, c, e, f, a, p] \<Rightarrow> do {
          v \<leftarrow> req_field j_word v; u \<leftarrow> req_field j_str u; i \<leftarrow> req_field j_str i; n \<leftarrow> req_field j_str n;
          c \<leftarrow> req_field j_str c; e \<leftarrow> def_field 0 j_word e; f \<leftarrow> req_field j_str f; a \<leftarrow> def_field [] j_str a;
          p \<leftarrow> req_field j_str p;
          Some \<lparr>pi_v = v, pi_node_uuid = u, pi_node_id = i, pi_name = n, pi_cluster_id = c, pi_admission_epoch = e,
                pi_cluster_friendly_name = f, pi_addr = a, pi_cert = p\<rparr>}
      | _ \<Rightarrow> None)"

interpretation infos: json_format info_json info_of 1 "\<lambda>p. True"
proof
  fix p
  show "info_of (info_json p) = Some p"
    unfolding info_of_def info_json_def by (subst struct_fields_jobj) (simp_all add: info_keys_def)
  show "jval_ok (info_json p) 1" unfolding info_json_def One_nat_def by (rule jobj_ok) simp_all
qed

section \<open>Membership\<close>

text \<open>The times are \<open>i64\<close>, here as the words that hold them.\<close>

record endorsement =
  en_by :: string
  en_fingerprint :: string
  en_cluster_id :: string
  en_admission_epoch :: "64 word"
  en_by_admission_epoch :: "64 word"
  en_issued_at :: "64 word"
  en_sig :: string
  en_sig_v2 :: string

record tombstone =
  tb_node_uuid :: string
  tb_cluster_id :: string
  tb_admission_epoch :: "64 word"
  tb_by :: string
  tb_by_admission_epoch :: "64 word"
  tb_removed_at :: "64 word"
  tb_sig :: string
  tb_sig_v2 :: string

definition endorsement_keys :: "string list" where
  "endorsement_keys = [''by'', ''fingerprint'', ''clusterId'', ''admissionEpoch'', ''byAdmissionEpoch'',
     ''issuedAt'', ''sig'', ''sigV2'']"

definition endorsement_json :: "endorsement \<Rightarrow> jval" where
  "endorsement_json e = jobj
     [(''by'', Some (JStr (en_by e))), (''fingerprint'', Some (JStr (en_fingerprint e))),
      (''clusterId'', Some (JStr (en_cluster_id e))), (''admissionEpoch'', skip_zero (en_admission_epoch e)),
      (''byAdmissionEpoch'', skip_zero (en_by_admission_epoch e)), (''issuedAt'', Some (ji64 (en_issued_at e))),
      (''sig'', skip_empty (en_sig e)), (''sigV2'', skip_empty (en_sig_v2 e))]"

definition endorsement_of :: "jval \<Rightarrow> endorsement option" where
  "endorsement_of v =
     (case struct_fields endorsement_keys v of
        Some [b, f, c, a, ba, t, g, g2] \<Rightarrow> do {
          b \<leftarrow> req_field j_str b; f \<leftarrow> req_field j_str f; c \<leftarrow> req_field j_str c; a \<leftarrow> def_field 0 j_word a;
          ba \<leftarrow> def_field 0 j_word ba; t \<leftarrow> req_field j_i64 t; g \<leftarrow> def_field [] j_str g; g2 \<leftarrow> def_field [] j_str g2;
          Some \<lparr>en_by = b, en_fingerprint = f, en_cluster_id = c, en_admission_epoch = a, en_by_admission_epoch = ba,
                en_issued_at = t, en_sig = g, en_sig_v2 = g2\<rparr>}
      | _ \<Rightarrow> None)"

interpretation endorsements: json_format endorsement_json endorsement_of 1 "\<lambda>e. True"
proof
  fix e
  show "endorsement_of (endorsement_json e) = Some e"
    unfolding endorsement_of_def endorsement_json_def by (subst struct_fields_jobj) (simp_all add: endorsement_keys_def)
  show "jval_ok (endorsement_json e) 1" unfolding endorsement_json_def One_nat_def by (rule jobj_ok) simp_all
qed

definition tombstone_keys :: "string list" where
  "tombstone_keys = [''nodeUuid'', ''clusterId'', ''admissionEpoch'', ''by'', ''byAdmissionEpoch'', ''removedAt'',
     ''sig'', ''sigV2'']"

definition tombstone_json :: "tombstone \<Rightarrow> jval" where
  "tombstone_json t = jobj
     [(''nodeUuid'', Some (JStr (tb_node_uuid t))), (''clusterId'', Some (JStr (tb_cluster_id t))),
      (''admissionEpoch'', skip_zero (tb_admission_epoch t)), (''by'', Some (JStr (tb_by t))),
      (''byAdmissionEpoch'', skip_zero (tb_by_admission_epoch t)), (''removedAt'', Some (ji64 (tb_removed_at t))),
      (''sig'', skip_empty (tb_sig t)), (''sigV2'', skip_empty (tb_sig_v2 t))]"

definition tombstone_of :: "jval \<Rightarrow> tombstone option" where
  "tombstone_of v =
     (case struct_fields tombstone_keys v of
        Some [u, c, a, b, ba, t, g, g2] \<Rightarrow> do {
          u \<leftarrow> req_field j_str u; c \<leftarrow> req_field j_str c; a \<leftarrow> def_field 0 j_word a; b \<leftarrow> req_field j_str b;
          ba \<leftarrow> def_field 0 j_word ba; t \<leftarrow> req_field j_i64 t; g \<leftarrow> def_field [] j_str g; g2 \<leftarrow> def_field [] j_str g2;
          Some \<lparr>tb_node_uuid = u, tb_cluster_id = c, tb_admission_epoch = a, tb_by = b, tb_by_admission_epoch = ba,
                tb_removed_at = t, tb_sig = g, tb_sig_v2 = g2\<rparr>}
      | _ \<Rightarrow> None)"

interpretation tombstones: json_format tombstone_json tombstone_of 1 "\<lambda>t. True"
proof
  fix t
  show "tombstone_of (tombstone_json t) = Some t"
    unfolding tombstone_of_def tombstone_json_def by (subst struct_fields_jobj) (simp_all add: tombstone_keys_def)
  show "jval_ok (tombstone_json t) 1" unfolding tombstone_json_def One_nat_def by (rule jobj_ok) simp_all
qed

section \<open>Node-info\<close>

text \<open>The three fields of a GPU that stay inside the process are neither written nor read.\<close>

definition gpu_json :: "gpu \<Rightarrow> jval" where
  "gpu_json g = jobj
     [(''name'', Some (JStr (g_name g))), (''vram_bytes'', map_option jword (g_vram_bytes g)),
      (''vram_used_bytes'', map_option jword (g_vram_used_bytes g)),
      (''utilization_percent'', map_option jword (g_utilization_percent g))]"

definition gpu_of :: "jval \<Rightarrow> gpu option" where
  "gpu_of v =
     (case struct_fields [''name'', ''vram_bytes'', ''vram_used_bytes'', ''utilization_percent''] v of
        Some [n, b, u, p] \<Rightarrow> do {
          n \<leftarrow> req_field j_str n; b \<leftarrow> opt_field j_word b; u \<leftarrow> opt_field j_word u; p \<leftarrow> opt_field j_word p;
          Some \<lparr>g_name = n, g_vram_bytes = b, g_vram_used_bytes = u, g_utilization_percent = p,
                g_uuid = [], g_vendor = Other, g_vendor_id = None\<rparr>}
      | _ \<Rightarrow> None)"

definition public_gpu :: "gpu \<Rightarrow> gpu" where
  "public_gpu g = g\<lparr>g_uuid := [], g_vendor := Other, g_vendor_id := None\<rparr>"

lemma gpu_read_back: "gpu_of (gpu_json g) = Some (public_gpu g)"
  unfolding gpu_of_def gpu_json_def by (subst struct_fields_jobj) (simp_all add: public_gpu_def)

lemma gpu_plain: "jval_ok (gpu_json g) 1"
  unfolding gpu_json_def One_nat_def by (rule jobj_ok) simp_all

definition cpu_json :: "cpu \<Rightarrow> jval" where
  "cpu_json c = jobj
     [(''name'', Some (JStr (cpu_name c))), (''cores'', map_option jword (cpu_cores c)),
      (''total_threads'', map_option jword (cpu_total_threads c)),
      (''utilization_percent'', map_option jword (cpu_utilization c))]"

definition cpu_of :: "jval \<Rightarrow> cpu option" where
  "cpu_of v =
     (case struct_fields [''name'', ''cores'', ''total_threads'', ''utilization_percent''] v of
        Some [n, c, t, u] \<Rightarrow> do {
          n \<leftarrow> req_field j_str n; c \<leftarrow> opt_field j_word c; t \<leftarrow> opt_field j_word t; u \<leftarrow> opt_field j_word u;
          Some \<lparr>cpu_name = n, cpu_cores = c, cpu_total_threads = t, cpu_utilization = u\<rparr>}
      | _ \<Rightarrow> None)"

definition memory_json :: "memory_info \<Rightarrow> jval" where
  "memory_json m = jobj
     [(''total_bytes'', Some (jword (mem_total_bytes m))), (''used_bytes'', map_option jword (mem_used_bytes m))]"

definition memory_of :: "jval \<Rightarrow> memory_info option" where
  "memory_of v =
     (case struct_fields [''total_bytes'', ''used_bytes''] v of
        Some [t, u] \<Rightarrow> do {
          t \<leftarrow> req_field j_word t; u \<leftarrow> opt_field j_word u;
          Some \<lparr>mem_total_bytes = t, mem_used_bytes = u\<rparr>}
      | _ \<Rightarrow> None)"

interpretation cpus: json_format cpu_json cpu_of 1 "\<lambda>c. True"
proof
  fix c
  show "cpu_of (cpu_json c) = Some c"
    unfolding cpu_of_def cpu_json_def by (subst struct_fields_jobj) simp_all
  show "jval_ok (cpu_json c) 1" unfolding cpu_json_def One_nat_def by (rule jobj_ok) simp_all
qed

interpretation memories: json_format memory_json memory_of 1 "\<lambda>m. True"
proof
  fix m
  show "memory_of (memory_json m) = Some m"
    unfolding memory_of_def memory_json_def by (subst struct_fields_jobj) simp_all
  show "jval_ok (memory_json m) 1" unfolding memory_json_def One_nat_def by (rule jobj_ok) simp_all
qed

definition node_info_keys :: "string list" where
  "node_info_keys = [''GPUs'', ''cpu'', ''memory'', ''telemetryValid'', ''msSince'', ''hostUuid'', ''nodeUuid'',
     ''clusterUuid'']"

definition node_info_json :: "node_info \<Rightarrow> jval" where
  "node_info_json n = jobj
     [(''GPUs'', Some (JArr (map gpu_json (ni_gpus n)))), (''cpu'', map_option cpu_json (ni_cpu n)),
      (''memory'', map_option memory_json (ni_memory n)), (''telemetryValid'', Some (JBool (ni_telemetry_valid n))),
      (''msSince'', Some (jword (ni_ms_since n))), (''hostUuid'', map_option JStr (ni_host_uuid n)),
      (''nodeUuid'', map_option JStr (ni_node_uuid n)), (''clusterUuid'', map_option JStr (ni_cluster_uuid n))]"

definition node_info_of :: "jval \<Rightarrow> node_info option" where
  "node_info_of v =
     (case struct_fields node_info_keys v of
        Some [g, c, m, t, s, h, n, k] \<Rightarrow> do {
          g \<leftarrow> def_field [] (j_list gpu_of) g; c \<leftarrow> opt_field cpu_of c; m \<leftarrow> opt_field memory_of m;
          t \<leftarrow> def_field False j_bool t; s \<leftarrow> def_field 0 j_word s; h \<leftarrow> opt_field j_str h;
          n \<leftarrow> opt_field j_str n; k \<leftarrow> opt_field j_str k;
          Some \<lparr>ni_gpus = g, ni_cpu = c, ni_memory = m, ni_telemetry_valid = t, ni_ms_since = s,
                ni_host_uuid = h, ni_node_uuid = n, ni_cluster_uuid = k\<rparr>}
      | _ \<Rightarrow> None)"

definition public_info :: "node_info \<Rightarrow> node_info" where
  "public_info n = n\<lparr>ni_gpus := map public_gpu (ni_gpus n)\<rparr>"

lemma opt_structs:
  "opt_field cpu_of (map_option cpu_json c) = Some c" "opt_field memory_of (map_option memory_json m) = Some m"
  by (rule cpus.opt_read_back memories.opt_read_back;
      cases c; cases m; simp add: cpu_json_def memory_json_def structs_not_null)+

lemma opt_structs_plain:
  "level_ok 2 (map_option cpu_json c)" "level_ok 2 (map_option memory_json m)"
  by (cases c; simp add: cpus.plain_at) (cases m; simp add: memories.plain_at)

lemma gpus_read_back: "j_list gpu_of (JArr (map gpu_json gs)) = Some (map public_gpu gs)"
  by (simp add: j_list_def read_all_map [where g = public_gpu] gpu_read_back)

lemma node_info_read_back: "node_info_of (node_info_json n) = Some (public_info n)"
  unfolding node_info_of_def node_info_json_def
  by (subst struct_fields_jobj) (simp_all add: node_info_keys_def opt_structs gpus_read_back public_info_def)

lemma node_info_plain: "jval_ok (node_info_json n) 3"
proof -
  have "jval_ok (node_info_json n) (Suc 2)"
    unfolding node_info_json_def
    by (rule jobj_ok) (simp_all add: opt_structs_plain gpu_plain [simplified] list_all_iff)
  then show ?thesis by simp
qed

section \<open>Discovery notifications\<close>

record node_advert =
  nv_host_uuid :: "string option"
  nv_name :: "string option"
  nv_ip :: "string option"
  nv_ips :: "string list"
  nv_trusted :: bool
  nv_services :: "jval option"
  nv_last_seen :: "64 word option"

record cluster_member =
  cm_id :: "string option"
  cm_node_uuid :: "string option"
  cm_name :: "string option"
  cm_ip_address :: "string option"
  cm_port :: "16 word option"
  cm_cluster_id :: "string option"
  cm_admission_epoch :: "64 word option"
  cm_state :: "string option"
  cm_joined_at :: "64 word option"
  cm_last_seen :: "64 word option"

definition node_advert_json :: "node_advert \<Rightarrow> jval" where
  "node_advert_json a = jobj
     [(''hostUuid'', map_option JStr (nv_host_uuid a)), (''name'', map_option JStr (nv_name a)),
      (''ip'', map_option JStr (nv_ip a)), (''ips'', Some (JArr (map JStr (nv_ips a)))),
      (''trusted'', Some (JBool (nv_trusted a))), (''services'', nv_services a),
      (''lastSeen'', map_option ji64 (nv_last_seen a))]"

definition node_advert_of :: "jval \<Rightarrow> node_advert option" where
  "node_advert_of v =
     (case struct_fields [''hostUuid'', ''name'', ''ip'', ''ips'', ''trusted'', ''services'', ''lastSeen''] v of
        Some [h, n, i, l, t, s, z] \<Rightarrow> do {
          h \<leftarrow> opt_field j_str h; n \<leftarrow> opt_field j_str n; i \<leftarrow> opt_field j_str i; l \<leftarrow> def_field [] (j_list j_str) l;
          t \<leftarrow> def_field False j_bool t; s \<leftarrow> opt_field j_value s; z \<leftarrow> opt_field j_i64 z;
          Some \<lparr>nv_host_uuid = h, nv_name = n, nv_ip = i, nv_ips = l, nv_trusted = t, nv_services = s, nv_last_seen = z\<rparr>}
      | _ \<Rightarrow> None)"

definition member_keys :: "string list" where
  "member_keys = [''id'', ''nodeUuid'', ''name'', ''ipAddress'', ''port'', ''clusterId'', ''admissionEpoch'', ''state'',
     ''joinedAt'', ''lastSeen'']"

definition cluster_member_json :: "cluster_member \<Rightarrow> jval" where
  "cluster_member_json m = jobj
     [(''id'', map_option JStr (cm_id m)), (''nodeUuid'', map_option JStr (cm_node_uuid m)),
      (''name'', map_option JStr (cm_name m)), (''ipAddress'', map_option JStr (cm_ip_address m)),
      (''port'', map_option jword (cm_port m)), (''clusterId'', map_option JStr (cm_cluster_id m)),
      (''admissionEpoch'', map_option jword (cm_admission_epoch m)), (''state'', map_option JStr (cm_state m)),
      (''joinedAt'', map_option ji64 (cm_joined_at m)), (''lastSeen'', map_option ji64 (cm_last_seen m))]"

definition cluster_member_of :: "jval \<Rightarrow> cluster_member option" where
  "cluster_member_of v =
     (case struct_fields member_keys v of
        Some [i, u, n, a, p, c, e, s, j, l] \<Rightarrow> do {
          i \<leftarrow> opt_field j_str i; u \<leftarrow> opt_field j_str u; n \<leftarrow> opt_field j_str n; a \<leftarrow> opt_field j_str a;
          p \<leftarrow> opt_field j_word p; c \<leftarrow> opt_field j_str c; e \<leftarrow> opt_field j_word e; s \<leftarrow> opt_field j_str s;
          j \<leftarrow> opt_field j_i64 j; l \<leftarrow> opt_field j_i64 l;
          Some \<lparr>cm_id = i, cm_node_uuid = u, cm_name = n, cm_ip_address = a, cm_port = p, cm_cluster_id = c,
                cm_admission_epoch = e, cm_state = s, cm_joined_at = j, cm_last_seen = l\<rparr>}
      | _ \<Rightarrow> None)"

text \<open>A value that is not \<open>null\<close> and that the text layer carries inside an object.\<close>

definition plain_value :: "jval \<Rightarrow> bool" where
  "plain_value v \<longleftrightarrow> jval_ok v 126 \<and> v \<noteq> JNull"

lemma opt_plain_value [simp]: "on_some plain_value x \<Longrightarrow> opt_field j_value x = Some x"
  by (cases x) (simp_all add: opt_field_def j_value_def plain_value_def jnorm_ok [of _ 126])

lemma plain_value_level [simp]: "on_some plain_value x \<Longrightarrow> level_ok 126 x"
  by (cases x) (simp_all add: plain_value_def)

lemma strings_read_back [simp]: "j_list j_str (JArr (map JStr xs)) = Some xs"
  by (rule strings.list_read_back) (simp add: list_all_iff)

interpretation adverts: json_format node_advert_json node_advert_of 127 "\<lambda>a. on_some plain_value (nv_services a)"
proof
  fix a :: node_advert
  assume ok: "on_some plain_value (nv_services a)"
  then show "node_advert_of (node_advert_json a) = Some a"
    unfolding node_advert_of_def node_advert_json_def by (subst struct_fields_jobj) simp_all
  have "jval_ok (node_advert_json a) (Suc 126)"
    unfolding node_advert_json_def using ok by (intro jobj_ok) (simp_all add: list_all_iff)
  then show "jval_ok (node_advert_json a) 127" by simp
qed

interpretation cluster_members: json_format cluster_member_json cluster_member_of 1 "\<lambda>m. True"
proof
  fix m
  show "cluster_member_of (cluster_member_json m) = Some m"
    unfolding cluster_member_of_def cluster_member_json_def by (subst struct_fields_jobj) (simp_all add: member_keys_def)
  show "jval_ok (cluster_member_json m) 1" unfolding cluster_member_json_def One_nat_def by (rule jobj_ok) simp_all
qed

section \<open>The codecs of the program\<close>

text \<open>
  The proxy's codec, the one of the pairing node and the body of the node-info answer, over a text
  layer. The parts of the pairing codec that do not read or write these structs stay as they are.
\<close>

definition value_of :: "json_text \<Rightarrow> bytes \<Rightarrow> jval option" where
  "value_of T b = (case jt_parse T b of Inr v \<Rightarrow> Some (jnorm v) | Inl e \<Rightarrow> None)"

definition serde_proxy :: "json_text \<Rightarrow> (nat \<Rightarrow> string) \<Rightarrow> proxy_json" where
  "serde_proxy T st =
     \<lparr>pj_value = value_of T, pj_to = (\<lambda>e. Some (jt_print T (ingress_json e))), pj_of = from_slice T ingress_of,
      pj_status = st\<rparr>"

definition serde_codec :: "json_text \<Rightarrow> codec \<Rightarrow> codec" where
  "serde_codec T J = J
     \<lparr>pi_to := (\<lambda>p. bytes_str (jt_print T (info_json p))), pi_of := (\<lambda>s. from_slice T info_of (str_bytes s)),
      env_to := (\<lambda>e. Some (jt_print T (envelope_json e))), env_of := from_slice T envelope_of\<rparr>"

definition serde_node_info :: "json_text \<Rightarrow> node_info \<Rightarrow> bytes option" where
  "serde_node_info T n = Some (jt_print T (node_info_json n))"

lemma serde_proxy_ok: "text_ok T \<Longrightarrow> proxy_json_ok (serde_proxy T st)"
  by (simp add: proxy_json_ok_def serde_proxy_def ingress.text_read_back)

text \<open>A raw fragment is kept as it is when it is a JSON text other than \<open>null\<close>.\<close>

definition raw_text :: "json_text \<Rightarrow> json \<Rightarrow> bool" where
  "raw_text T J \<longleftrightarrow> (\<forall>v. jval_ok v 127 \<and> v \<noteq> JNull \<longrightarrow> raw_ok J (bytes_str (jt_print T v)))"

lemma serde_codec_ok:
  assumes "codec_ok X" "text_ok T" "raw_text T (js (ce X))"
  shows "codec_ok (X\<lparr>cj := serde_codec T (cj X)\<rparr>)"
proof -
  have "raw_ok (js (ce X)) (bytes_str (jt_print T (info_json p)))" for p
    using assms(3) infos.plain_at [where x = p and d = 127] by (simp add: raw_text_def info_json_def structs_not_null)
  moreover have "from_slice T info_of (jt_print T (info_json p)) = Inr p" for p
    using assms(2) by (rule infos.text_read_back) simp_all
  moreover have "from_slice T envelope_of (jt_print T (envelope_json e)) = Inr e" for e
    using assms(2) by (rule envelopes.text_read_back) simp_all
  ultimately show ?thesis
    using codec_okD [OF assms(1)] by (simp add: codec_ok_def serde_codec_def)
qed

lemma node_info_served:
  assumes "text_ok T" "nodeinfo_handle (serde_node_info T) node_id path ni = (200, body)"
  shows "from_slice T node_info_of body = Inr (public_info (ni\<lparr>ni_host_uuid := Some node_id, ni_node_uuid := None\<rparr>))"
proof -
  let ?n = "ni\<lparr>ni_host_uuid := Some node_id, ni_node_uuid := None\<rparr>"
  have "body = jt_print T (node_info_json ?n)"
    using assms(2) by (simp add: nodeinfo_handle_def serde_node_info_def split: if_splits)
  moreover have "jval_ok (node_info_json ?n) 127"
    using node_info_plain by (rule jval_ok_mono) simp
  ultimately show ?thesis by (simp add: from_slice_def text_okD [OF assms(1)] node_info_read_back)
qed

text \<open>
  C25: these structs are read back from their JSON text: the ingress envelope, the envelope and the
  identity object of the pairing channel, endorsements, removals, cluster members and node adverts as
  they were (an advert with services that are not \<open>null\<close> and that the text layer carries), and of the
  node-info snapshot all but the three fields of a GPU that are private to the process; for any text
  layer that reads what it prints. The EAP-NOOB message is not among them: it holds raw fragments of
  text, and that it reads back is the hypothesis \<open>json_ok\<close>.
\<close>
theorem wire_structs_roundtrip:
  assumes "text_ok T" "on_some plain_value (nv_services a)"
  shows "from_slice T ingress_of (jt_print T (ingress_json g)) = Inr g \<and>
    from_slice T envelope_of (jt_print T (envelope_json e)) = Inr e \<and>
    from_slice T info_of (jt_print T (info_json p)) = Inr p \<and>
    from_slice T endorsement_of (jt_print T (endorsement_json d)) = Inr d \<and>
    from_slice T tombstone_of (jt_print T (tombstone_json t)) = Inr t \<and>
    from_slice T cluster_member_of (jt_print T (cluster_member_json c)) = Inr c \<and>
    from_slice T node_advert_of (jt_print T (node_advert_json a)) = Inr a \<and>
    from_slice T node_info_of (jt_print T (node_info_json n)) = Inr (public_info n)"
proof (intro conjI)
  have "jval_ok (node_info_json n) 127" using node_info_plain by (rule jval_ok_mono) simp
  then show "from_slice T node_info_of (jt_print T (node_info_json n)) = Inr (public_info n)"
    by (simp add: from_slice_def text_okD [OF assms(1)] node_info_read_back)
  show "from_slice T node_advert_of (jt_print T (node_advert_json a)) = Inr a"
    by (rule adverts.text_read_back) (simp_all add: assms)
qed (simp_all add: assms(1) ingress.text_read_back envelopes.text_read_back infos.text_read_back
    endorsements.text_read_back tombstones.text_read_back cluster_members.text_read_back)

section \<open>Witness\<close>

definition demo_advert :: node_advert where
  "demo_advert = \<lparr>nv_host_uuid = Some ''h'', nv_name = None, nv_ip = None, nv_ips = [''10.0.0.1''], nv_trusted = True,
     nv_services = Some (JArr [JStr ''x'']), nv_last_seen = Some (-1)\<rparr>"

theorem wire_structs_roundtrip_witness:
  "from_slice demo_text ingress_of (jt_print demo_text (ingress_json default_ingress)) = Inr default_ingress \<and>
   from_slice demo_text node_advert_of (jt_print demo_text (node_advert_json demo_advert)) = Inr demo_advert \<and>
   from_slice demo_text node_info_of (jt_print demo_text (node_info_json (collect [] None None None None None))) =
     Inr (collect [] None None None None None)"
proof -
  have "on_some plain_value (nv_services demo_advert)" by (simp add: demo_advert_def plain_value_def)
  from wire_structs_roundtrip [OF demo_text_ok this, of default_ingress _ _ _ _ _ "collect [] None None None None None"]
  show ?thesis by (simp add: public_info_def collect_def)
qed

end
