(* ===== verification/Contract.thy ===== *)
theory Contract
  imports Rpc_Json Formats Discovery Accept
begin

text \<open>
  The names of the protocol (crates/pair-proto/src/contract.rs): the JSON-RPC methods, the HTTP
  paths and the TXT keys, each with the name of its constant. The program uses three of the paths
  and the TXT keys, which are constants of the theories that use them.
\<close>

definition methods :: "(string \<times> string) list" where
  "methods =
     [(''DISCOVERY_SUBSCRIBE'', ''discovery:subscribe''), (''DISCOVERY_GET_NODES'', ''discovery:get-nodes''),
      (''DISCOVERY_NODES_CHANGED'', ''discovery:nodes-changed''), (''DISCOVERY_REGISTER'', ''discovery:register''),
      (''NODE_ADD'', ''node/add''), (''NODE_ADD_MANUAL'', ''node/add-manual''), (''NODE_DISCOVERED'', ''node/discovered''),
      (''NODE_UPDATED'', ''node/updated''), (''NODE_REMOVED'', ''node/removed''),
      (''NODE_SET_PRIORITY'', ''node/set-priority''),
      (''SCHEDULE_PRIORITY'', ''schedule:priority''),
      (''ENGINE_SUBSCRIBE'', ''engine:subscribe''), (''ENGINE_STATE_CHANGED'', ''engine:state-changed''),
      (''ENGINE_START'', ''engine:start''), (''ENGINE_STOP'', ''engine:stop''), (''ENGINE_INSTALL'', ''engine:install''),
      (''ENGINE_INSTALL_PROGRESS'', ''engine:install-progress''), (''ENGINE_READY'', ''engine:ready''),
      (''ENGINE_GET_INSTALLED'', ''engine:get-installed''),
      (''CLUSTER_INVITE_NODE'', ''cluster:invite-node''), (''CLUSTER_RESPOND_TO_INVITE'', ''cluster:respond-to-invite''),
      (''CLUSTER_INVITE_STATUS'', ''cluster:invite-status''), (''CLUSTER_INVITE_RECEIVED'', ''cluster:invite-received''),
      (''CLUSTER_GET_INITIAL'', ''cluster:get-initial''), (''CLUSTER_LEAVE'', ''cluster:leave''),
      (''CLUSTER_SET_IDENTITY'', ''cluster:set-identity''), (''CLUSTER_IDENTITY_CHANGED'', ''cluster:identity-changed''),
      (''ERRORS_REPORT'', ''errors:report''), (''ERRORS_UPDATE'', ''errors:update''),
      (''SETTINGS_GET_CLUSTER_ID'', ''settings/get-cluster-id''), (''SETTINGS_SET_CLUSTER_ID'', ''settings/set-cluster-id''),
      (''LOG_SET_LEVEL'', ''log/set-level''), (''PROXY_SUBSCRIBE'', ''proxy:subscribe''),
      (''SERVICE_BRIDGE_INVOKE'', ''service-bridge:invoke''), (''SERVICE_BRIDGE_PUSH'', ''service-bridge:push'')]"

definition endpoints :: "(string \<times> string) list" where
  "endpoints =
     [(''OLLAMA_API_PREFIX'', ''/api/''), (''OPENAI_V1_PREFIX'', ''/v1/''), (''INGRESS'', ''/ingress''),
      (''SET_PRIORITY'', ''/set-priority''), (''NODE_ACTIVITY'', ''/nodeactivity''),
      (''NODE_INFO'', ''/v1/node-info''),
      (''PAIRING'', ''/pairing''), (''INVITE'', ''/invite''), (''INVITE_STATUS'', ''/invite_status''),
      (''INVITE_EXPIRY'', ''/invite_expiry''), (''INVITE_PROVENANCE'', ''/invite_provenance''),
      (''CLUSTER_PAIRING'', ''/v1/cluster/pairing''), (''CLUSTER_ROSTER'', ''/v1/cluster/roster''),
      (''CLUSTER_MEMBERS_REMOVE'', ''/v1/cluster/members/remove''),
      (''CLUSTERTRUST_MEMBERSHIP'', ''/clustertrust/membership''), (''CLUSTERTRUST_MESH'', ''/clustertrust/mesh''),
      (''CLUSTERTRUST_PEERCLIENT'', ''/clustertrust/peerclient''), (''CLUSTERTRUST_WATCH'', ''/clustertrust/watch''),
      (''V1_ENGINES'', ''/v1/engines''), (''MODELOPS'', ''/modelops''), (''REMOTEPEERS'', ''/remotepeers''),
      (''WORKLOAD_EVENTS'', ''/v1/workloads/events''), (''PEERSYNC'', ''/peersync'')]"

text \<open>No name stands for two things, and the paths that the servers compare with are the ones of the table.\<close>

lemma names_distinct:
  "distinct (map snd methods)" "distinct (map snd endpoints)"
  "distinct [TXT_VERSION, TXT_NODE_UUID, TXT_IP, TXT_CLUSTER_UUID]"
  by (simp_all add: methods_def endpoints_def txt_keys_defs)

lemma served_paths:
  "map_of endpoints ''INGRESS'' = Some INGRESS" "map_of endpoints ''NODE_INFO'' = Some NODE_INFO"
  "map_of endpoints ''CLUSTER_PAIRING'' = Some PAIRING_PATH"
  by (simp_all add: endpoints_def INGRESS_def NODE_INFO_def PAIRING_PATH_def)

end
