(* ===== verification/Messages.thy ===== *)
theory Messages
  imports Serde Wire "HOL-Library.Monad_Syntax"
begin

text \<open>
  The public types of EAP-NOOB that other programs use: the roles and phases
  (crates/pair-pairing/src/lib.rs), the typed message and the base64url helpers
  (crates/pair-pairing/src/messages.rs). The machines of this program have their own record of
  the wire.
\<close>

section \<open>Roles and phases\<close>

datatype noob_role = ServerRole | PeerRole

datatype phase = PDiscovery | PNegotiation | PKeyExchange | PWaitingForOob | PNoobId | PCompletion | PDone

fun phase_next :: "phase \<Rightarrow> phase" where
  "phase_next PDiscovery = PNegotiation"
| "phase_next PNegotiation = PKeyExchange"
| "phase_next PKeyExchange = PWaitingForOob"
| "phase_next PWaitingForOob = PNoobId"
| "phase_next PNoobId = PCompletion"
| "phase_next PCompletion = PDone"
| "phase_next PDone = PDone"

text \<open>The phases in the order of RFC 9140.\<close>

fun phase_rank :: "phase \<Rightarrow> nat" where
  "phase_rank PDiscovery = 0"
| "phase_rank PNegotiation = 1"
| "phase_rank PKeyExchange = 2"
| "phase_rank PWaitingForOob = 3"
| "phase_rank PNoobId = 4"
| "phase_rank PCompletion = 5"
| "phase_rank PDone = 6"

lemma phase_rank_inj: "phase_rank p = phase_rank q \<Longrightarrow> p = q"
  by (cases p; cases q) simp_all

instantiation phase :: linorder
begin

definition less_eq_phase :: "phase \<Rightarrow> phase \<Rightarrow> bool" where
  "p \<le> q \<longleftrightarrow> phase_rank p \<le> phase_rank q"

definition less_phase :: "phase \<Rightarrow> phase \<Rightarrow> bool" where
  "p < q \<longleftrightarrow> phase_rank p < phase_rank q"

instance
  by standard (auto simp: less_eq_phase_def less_phase_def intro: phase_rank_inj)

end

lemma phase_next_later: "p \<noteq> PDone \<Longrightarrow> p < phase_next p" "p < q \<Longrightarrow> phase_next p \<le> q"
  by (cases p; simp add: less_phase_def) (cases p; cases q; simp add: less_phase_def less_eq_phase_def)

section \<open>The typed EAP-NOOB message\<close>

datatype msg_type = MDiscovery | MNegotiation | MKeyExchange | MWaiting | MNoobId | MCompletion

definition msg_type_from :: "8 word \<Rightarrow> msg_type option" where
  "msg_type_from v =
     (if v = 1 then Some MDiscovery else if v = 2 then Some MNegotiation else if v = 3 then Some MKeyExchange
      else if v = 4 then Some MWaiting else if v = 5 then Some MNoobId else if v = 6 then Some MCompletion
      else None)"

fun msg_type_code :: "msg_type \<Rightarrow> 8 word" where
  "msg_type_code MDiscovery = 1"
| "msg_type_code MNegotiation = 2"
| "msg_type_code MKeyExchange = 3"
| "msg_type_code MWaiting = 4"
| "msg_type_code MNoobId = 5"
| "msg_type_code MCompletion = 6"

text \<open>The type of a message is the number of its phase; after the sixth the exchange is done.\<close>

fun phase_of_type :: "msg_type \<Rightarrow> phase" where
  "phase_of_type MDiscovery = PDiscovery"
| "phase_of_type MNegotiation = PNegotiation"
| "phase_of_type MKeyExchange = PKeyExchange"
| "phase_of_type MWaiting = PWaitingForOob"
| "phase_of_type MNoobId = PNoobId"
| "phase_of_type MCompletion = PCompletion"

lemma phase_number: "phase_of_type t = (phase_next ^^ (unat (msg_type_code t) - 1)) PDiscovery"
  by (cases t; simp; simp add: numeral_eq_Suc)

lemma phases_end: "6 \<le> n \<Longrightarrow> (phase_next ^^ n) p = PDone"
proof (induction n rule: dec_induct)
  case base
  show ?case by (cases p) (simp_all add: numeral_eq_Suc)
qed simp

lemma msg_type_roundtrip: "msg_type_from v = Some t \<longleftrightarrow> v = msg_type_code t"
  by (cases t) (auto simp: msg_type_from_def)

definition jwk_json :: "jwk \<Rightarrow> jval" where
  "jwk_json k = jobj
     [(''kty'', Some (JStr (kty k))), (''crv'', Some (JStr (crv k))), (''x'', Some (JStr (jx k))),
      (''y'', map_option JStr (jy k))]"

definition jwk_of :: "jval \<Rightarrow> jwk option" where
  "jwk_of v =
     (case struct_fields [''kty'', ''crv'', ''x'', ''y''] v of
        Some [t, c, x, y] \<Rightarrow> do {
          t \<leftarrow> req_field j_str t; c \<leftarrow> req_field j_str c; x \<leftarrow> req_field j_str x; y \<leftarrow> opt_field j_str y;
          Some \<lparr>kty = t, crv = c, jx = x, jy = y\<rparr>}
      | _ \<Rightarrow> None)"

interpretation jwks: json_format jwk_json jwk_of 1 "\<lambda>k. True"
proof
  fix k
  show "jwk_of (jwk_json k) = Some k"
    unfolding jwk_of_def jwk_json_def by (subst struct_fields_jobj) simp_all
  show "jval_ok (jwk_json k) 1" unfolding jwk_json_def One_nat_def by (rule jobj_ok) simp_all
qed

record wire_message =
  wm_type :: "8 word"
  wm_peer_id :: "string option"
  wm_vers :: "32 word list option"
  wm_verp :: "32 word option"
  wm_cryptosuites :: "8 word list option"
  wm_cryptosuitep :: "8 word option"
  wm_dirs :: "8 word option"
  wm_dirp :: "8 word option"
  wm_nai :: "string option"
  wm_pks :: "jwk option"
  wm_pkp :: "jwk option"
  wm_ns :: "string option"
  wm_np :: "string option"
  wm_noob_id :: "string option"
  wm_macs :: "string option"
  wm_macp :: "string option"

definition wire_keys :: "string list" where
  "wire_keys = [''Type'', ''PeerId'', ''Vers'', ''Verp'', ''Cryptosuites'', ''Cryptosuitep'', ''Dirs'', ''Dirp'', ''NAI'',
     ''PKs'', ''PKp'', ''Ns'', ''Np'', ''NoobId'', ''MACs'', ''MACp'']"

definition jwords :: "'a::len word list \<Rightarrow> jval" where
  "jwords ws = JArr (map jword ws)"

definition wire_message_json :: "wire_message \<Rightarrow> jval" where
  "wire_message_json m = jobj
     [(''Type'', Some (jword (wm_type m))), (''PeerId'', map_option JStr (wm_peer_id m)),
      (''Vers'', map_option jwords (wm_vers m)), (''Verp'', map_option jword (wm_verp m)),
      (''Cryptosuites'', map_option jwords (wm_cryptosuites m)), (''Cryptosuitep'', map_option jword (wm_cryptosuitep m)),
      (''Dirs'', map_option jword (wm_dirs m)), (''Dirp'', map_option jword (wm_dirp m)),
      (''NAI'', map_option JStr (wm_nai m)), (''PKs'', map_option jwk_json (wm_pks m)),
      (''PKp'', map_option jwk_json (wm_pkp m)), (''Ns'', map_option JStr (wm_ns m)), (''Np'', map_option JStr (wm_np m)),
      (''NoobId'', map_option JStr (wm_noob_id m)), (''MACs'', map_option JStr (wm_macs m)),
      (''MACp'', map_option JStr (wm_macp m))]"

definition wire_message_of :: "jval \<Rightarrow> wire_message option" where
  "wire_message_of v =
     (case struct_fields wire_keys v of
        Some [mt, i, vs, vp, cs, ct, ds, dp, n, ks, kp, a, b, o', ms, mp] \<Rightarrow> do {
          mt \<leftarrow> req_field j_word mt; i \<leftarrow> opt_field j_str i; vs \<leftarrow> opt_field (j_list j_word) vs; vp \<leftarrow> opt_field j_word vp;
          cs \<leftarrow> opt_field (j_list j_word) cs; ct \<leftarrow> opt_field j_word ct; ds \<leftarrow> opt_field j_word ds;
          dp \<leftarrow> opt_field j_word dp; n \<leftarrow> opt_field j_str n; ks \<leftarrow> opt_field jwk_of ks; kp \<leftarrow> opt_field jwk_of kp;
          a \<leftarrow> opt_field j_str a; b \<leftarrow> opt_field j_str b; o' \<leftarrow> opt_field j_str o'; ms \<leftarrow> opt_field j_str ms;
          mp \<leftarrow> opt_field j_str mp;
          Some \<lparr>wm_type = mt, wm_peer_id = i, wm_vers = vs, wm_verp = vp, wm_cryptosuites = cs, wm_cryptosuitep = ct,
                wm_dirs = ds, wm_dirp = dp, wm_nai = n, wm_pks = ks, wm_pkp = kp, wm_ns = a, wm_np = b,
                wm_noob_id = o', wm_macs = ms, wm_macp = mp\<rparr>}
      | _ \<Rightarrow> None)"

lemma opt_jwk [simp]: "opt_field jwk_of (map_option jwk_json x) = Some x"
  by (rule jwks.opt_read_back, cases x) (simp_all add: jwk_json_def structs_not_null)

lemma opt_jwords [simp]: "LENGTH('a) \<le> 64 \<Longrightarrow> opt_field (j_list j_word) (map_option jwords x) = Some (x :: 'a::len word list option)"
  by (cases x) (simp_all add: opt_field_def jwords_def j_list_def read_all_map [where g = id])

lemma lists_plain [simp]:
  "LENGTH('a) \<le> 64 \<Longrightarrow> level_ok (Suc 0) (map_option jwords (x :: 'a::len word list option))" "level_ok (Suc 0) (map_option jwk_json y)"
  by (cases x; simp add: jwords_def list_all_iff) (cases y; simp add: jwks.plain_at)

interpretation wire_messages: json_format wire_message_json wire_message_of 2 "\<lambda>m. True"
proof
  fix m
  show "wire_message_of (wire_message_json m) = Some m"
    unfolding wire_message_of_def wire_message_json_def by (subst struct_fields_jobj) (simp_all add: wire_keys_def)
  show "jval_ok (wire_message_json m) 2" unfolding wire_message_json_def Suc_1 [symmetric] by (rule jobj_ok) simp_all
qed

section \<open>base64url\<close>

definition b64u :: "crypto \<Rightarrow> bytes \<Rightarrow> string" where
  "b64u C b = b64url_encode C b"

definition unb64u :: "crypto \<Rightarrow> string \<Rightarrow> bytes option" where
  "unb64u C s = b64url_decode C s"

text \<open>The 16 random bytes are a parameter.\<close>

definition fresh_nonce :: "crypto \<Rightarrow> bytes \<Rightarrow> string \<times> bytes" where
  "fresh_nonce C n = (b64u C n, n)"

lemma nonce_reads_back: "crypto_ok C \<Longrightarrow> unb64u C (fst (fresh_nonce C n)) = Some (snd (fresh_nonce C n))"
  by (simp add: fresh_nonce_def b64u_def unb64u_def crypto_okD)

end
