(* ===== verification/Dev_Trust.thy ===== *)
theory Dev_Trust
  imports Cluster_Dir
begin

text \<open>
  The second copy of the PEM and base64 readers (crates/pair-node/src/trust.rs), which the
  development-time trust directory uses, loop by loop: the accumulators are the state of a fold,
  and \<open>break\<close> and the early return are a flag and \<open>None\<close>.
\<close>

definition rev_table :: "byte list" where
  "rev_table = foldl (\<lambda>tab (i, c). tab[of_char c := word_of_nat i]) (replicate 256 255) (enumerate 0 b64_table)"

definition dev_decode_char :: "(bytes \<times> 32 word \<times> nat) option \<Rightarrow> char \<Rightarrow> (bytes \<times> 32 word \<times> nat) option" where
  "dev_decode_char st c =
     (case st of
        None \<Rightarrow> None
      | Some (out, buf, bits) \<Rightarrow>
          if c = CHR ''='' \<or> ascii_ws c then Some (out, buf, bits)
          else
            (let v = rev_table ! of_char c
             in if v = 255 then None
                else
                  (let buf = or (push_bit 6 buf) (ucast v); bits = bits + 6
                   in if 8 \<le> bits then Some (out @ [ucast (drop_bit (bits - 8) buf)], buf, bits - 8)
                      else Some (out, buf, bits))))"

definition dev_base64_decode :: "string \<Rightarrow> bytes option" where
  "dev_base64_decode s = map_option fst (foldl dev_decode_char (Some ([], 0, 0)) s)"

definition dev_pem_line :: "string \<times> bool \<times> bool \<Rightarrow> string \<Rightarrow> string \<times> bool \<times> bool" where
  "dev_pem_line st line =
     (case st of
        (b64, in_block, stopped) \<Rightarrow>
          if stopped then st
          else if starts_with line BEGIN_CERT then (b64, True, False)
          else if starts_with line END_CERT then (b64, in_block, True)
          else if in_block then (b64 @ trim line, in_block, False)
          else st)"

definition dev_pem_cert_to_der :: "string \<Rightarrow> bytes option" where
  "dev_pem_cert_to_der pem =
     (let b64 = fst (foldl dev_pem_line ([], False, False) (str_lines pem))
      in if b64 = [] then None else dev_base64_decode b64)"

section \<open>The copies agree\<close>

lemma char_less: "(of_char (c :: char) :: nat) < 256"
  using of_char_mod_256 [of c, where 'a = nat] by (metis mod_less_divisor zero_less_numeral)

lemma table_fold:
  "length tab = 256 \<Longrightarrow> distinct cs \<Longrightarrow>
   foldl (\<lambda>tab (i, c). tab[of_char c := word_of_nat i]) tab (enumerate k cs) ! of_char c =
     (case map_of (zip cs [k..<k + length cs]) c of Some i \<Rightarrow> word_of_nat i | None \<Rightarrow> tab ! of_char (c :: char))"
proof (induction cs arbitrary: tab k)
  case (Cons d cs)
  have u: "[k..<k + length (d # cs)] = k # [Suc k..<Suc k + length cs]"
    by (subst upt_conv_Cons) simp_all
  have "(of_char c :: nat) < 256" by (rule char_less)
  moreover have "of_char c = (of_char d :: nat) \<longleftrightarrow> c = d" by simp
  moreover have "map_of (zip cs [Suc k..<Suc k + length cs]) d = None"
    using Cons.prems(2) by (auto simp: map_of_eq_None_iff dest: set_zip_leftD)
  ultimately show ?case
    using Cons.IH [of "tab[of_char d := word_of_nat k]" "Suc k"] Cons.prems unfolding u
    by (auto simp: nth_list_update split: option.split)
qed simp

lemma rev_table_nth: "rev_table ! of_char c = b64_rev c"
proof -
  have "(of_char c :: nat) < 256" by (rule char_less)
  moreover have "rev_table ! of_char c =
      (case map_of (zip b64_table [0..<64]) c of Some i \<Rightarrow> word_of_nat i | None \<Rightarrow> replicate 256 255 ! of_char c)"
    unfolding rev_table_def
    using table_fold [of "replicate 256 255" b64_table 0 c] distinct_b64_table length_b64_table by simp
  ultimately show ?thesis unfolding b64_rev_def by (cases "map_of (zip b64_table [0..<64]) c") simp_all
qed

lemma decode_failed: "foldl dev_decode_char None s = None"
  by (induction s) (simp_all add: dev_decode_char_def [of None])

lemma decode_fold: "map_option fst (foldl dev_decode_char (Some (out, buf, bits)) s) = base64_loop buf bits out s"
proof (induction s arbitrary: out buf bits)
  case (Cons c s)
  have "foldl dev_decode_char (Some (out, buf, bits)) (c # s) =
      foldl dev_decode_char (dev_decode_char (Some (out, buf, bits)) c) s" by simp
  then show ?case
    by (simp only: dev_decode_char_def [of "Some (out, buf, bits)"] base64_loop.simps rev_table_nth Let_def
        option.case prod.case if_distrib [of "\<lambda>x. map_option fst (foldl dev_decode_char x s)"] Cons.IH decode_failed)
      simp
qed simp

lemma pem_stopped: "foldl dev_pem_line (b, i, True) ls = (b, i, True)"
  by (induction ls) (simp_all add: dev_pem_line_def [of "(b, i, True)"])

lemma pem_fold: "fst (foldl dev_pem_line (b, i, False) ls) = b @ pem_body i ls"
proof (induction ls arbitrary: b i)
  case (Cons l ls)
  then show ?case by (simp add: dev_pem_line_def [of "(b, i, False)"] pem_stopped)
qed simp

text \<open>
  The two copies of the certificate reader are the same function, so that a certificate that
  the trust directory takes is one that the cluster directory takes.
\<close>
theorem dev_reader_agrees: "dev_pem_cert_to_der pem = pem_to_der pem"
proof -
  have "dev_base64_decode s = base64_decode s" for s
    by (simp add: dev_base64_decode_def decode_fold base64_decode_def)
  then show ?thesis by (simp add: dev_pem_cert_to_der_def pem_to_der_def pem_fold Let_def)
qed

end
