(* ===== verification/Locks.thy ===== *)
theory Locks
  imports Prelude
begin

text \<open>
  The locks of the daemon: what each operation of the pairing endpoint
  (crates/pair-cluster/src/node.rs), the trust sink (crates/pair-node/src/pairing.rs), the dashboard
  (crates/pair-ui), the proxy and the tasks of \<open>main\<close> takes and gives back, path by path, and where
  it waits for the network. A read lock is treated as exclusive, which only adds waiting. An async
  mutex and a lock of the standard library are the same here.
\<close>

section \<open>Threads and locks\<close>

text \<open>
  A session has its own lock; the others are those of the maps and of the shared state. \<open>Again\<close> is a
  loop without a bound: each time its task comes to it, it does the body and comes back, or leaves.
\<close>

datatype lock = SessionLock nat | JoinersLock | PendingLock | InvitersLock | PinsLock | ClusterIdLock | RoutingLock

datatype lock_op = Acquire lock | Release lock | Await | Again "lock_op list"

text \<open>A task is the locks that it holds and the operations that it still has to do.\<close>

type_synonym lock_task = "lock list \<times> lock_op list"

text \<open>What tasks do on their own, and the network answering one that waits for it, which it may never do.\<close>

inductive lock_step :: "lock_task list \<Rightarrow> lock_task list \<Rightarrow> bool" where
  acquire: "i < length ts \<Longrightarrow> ts ! i = (h, Acquire l # p) \<Longrightarrow> \<forall>t \<in> set ts. l \<notin> set (fst t) \<Longrightarrow>
    lock_step ts (ts[i := (l # h, p)])"
| release: "i < length ts \<Longrightarrow> ts ! i = (h, Release l # p) \<Longrightarrow> lock_step ts (ts[i := (remove1 l h, p)])"
| again: "i < length ts \<Longrightarrow> ts ! i = (h, Again b # p) \<Longrightarrow> lock_step ts (ts[i := (h, b @ Again b # p)])"
| leave: "i < length ts \<Longrightarrow> ts ! i = (h, Again b # p) \<Longrightarrow> lock_step ts (ts[i := (h, p)])"

inductive net_step :: "lock_task list \<Rightarrow> lock_task list \<Rightarrow> bool" where
  answered: "i < length ts \<Longrightarrow> ts ! i = (h, Await # p) \<Longrightarrow> net_step ts (ts[i := (h, p)])"

inductive_cases lock_stepE: "lock_step ts ts'"
inductive_cases net_stepE: "net_step ts ts'"

section \<open>The paths of the operations\<close>

text \<open>A critical section.\<close>

definition locked :: "lock \<Rightarrow> lock_op list \<Rightarrow> lock_op list" where
  "locked l ops = Acquire l # ops @ [Release l]"

definition pin_peer_paths :: "lock_op list list" where
  "pin_peer_paths = [locked PinsLock [], locked PinsLock [] @ locked ClusterIdLock []]"

text \<open>
  The request handlers: refused; answered; answered with a pending invite; failed, with the session
  still locked while it is removed from the map.
\<close>

definition on_initial_paths :: "nat \<Rightarrow> lock_op list list" where
  "on_initial_paths s =
     [locked JoinersLock [],
      locked JoinersLock [] @ locked (SessionLock s) [],
      locked JoinersLock [] @ locked (SessionLock s) [] @ locked PendingLock [],
      locked JoinersLock [] @ locked (SessionLock s) (locked JoinersLock [])]"

definition on_completion_paths :: "nat \<Rightarrow> lock_op list list" where
  "on_completion_paths s =
     [locked InvitersLock [], locked InvitersLock [] @ locked (SessionLock s) []] @
     map (\<lambda>p. locked InvitersLock [] @ locked (SessionLock s) [] @ p) pin_peer_paths"

definition on_signal_paths :: "lock_op list list" where
  "on_signal_paths = [locked JoinersLock [] @ locked PendingLock [], locked InvitersLock [], []]"

text \<open>
  The drivers, whose loops go on for as long as the other node keeps answering; the session of an
  invite is in no map until it waits for the PIN.
\<close>

definition create_invite_paths :: "lock_op list list" where
  "create_invite_paths = [[Await, Again [Await]], [Await, Again [Await]] @ locked InvitersLock []]"

definition forget_path :: "lock_op list" where
  "forget_path = locked JoinersLock [] @ locked PendingLock []"

definition completion_round :: "nat \<Rightarrow> lock_op list" where
  "completion_round s = locked (SessionLock s) [] @ [Await]"

definition submit_pin_paths :: "nat \<Rightarrow> lock_op list list" where
  "submit_pin_paths s =
     (let start = locked JoinersLock [] @ locked (SessionLock s) [];
          rounds = start @ [Await, Again (completion_round s)];
          last = rounds @ locked (SessionLock s) []
      in [[], locked JoinersLock [], start, rounds, last,
          last @ [Await] @ forget_path,
          last @ locked (SessionLock s) []] @
         map (\<lambda>p. last @ locked (SessionLock s) [] @ p @ forget_path @ [Await]) pin_peer_paths)"

definition pending_invites_paths :: "lock_op list list" where
  "pending_invites_paths = [locked PendingLock []]"

text \<open>The tasks of the daemon, the proxy, the verifier of a handshake and the dashboard.\<close>

definition poll_local_paths :: "lock_op list list" where
  "poll_local_paths = [[Await], Await # locked RoutingLock []]"

text \<open>For each peer: whether it showed a certificate, and whether its models came back.\<close>

definition poll_peer_path :: "bool \<times> bool \<Rightarrow> lock_op list" where
  "poll_peer_path a =
     Await # (if fst a then locked PinsLock [] @ [Await] @ (if snd a then locked RoutingLock [] else []) else [])"

definition poll_peers_path :: "(bool \<times> bool) list \<Rightarrow> lock_op list" where
  "poll_peers_path answers = locked RoutingLock [] @ concat (map poll_peer_path answers)"

definition discover_paths :: "lock_op list list" where
  "discover_paths = [[], locked PinsLock [] @ locked RoutingLock []]"

definition route_paths :: "lock_op list list" where
  "route_paths = [[], [Await], Await # locked RoutingLock [], Await # locked RoutingLock [] @ [Await],
      Await # locked RoutingLock [] @ [Await] @ locked PinsLock [] @ [Await]]"

definition verify_paths :: "lock_op list list" where
  "verify_paths = [locked PinsLock []]"

definition ui_status_paths :: "lock_op list list" where
  "ui_status_paths = [locked PinsLock [] @ locked RoutingLock []]"

definition add_cert_paths :: "lock_op list list" where
  "add_cert_paths = [[], locked PinsLock []]"

definition ui_pair_paths :: "lock_op list list" where
  "ui_pair_paths =
     [[], [Await], [Await, Await], [Await, Await] @ locked PinsLock [], [Await, Await] @ locked PinsLock [] @ [Await],
      [Await, Await] @ locked PinsLock [] @ [Await] @ locked RoutingLock []]"

definition operation :: "lock_op list \<Rightarrow> bool" where
  "operation p \<longleftrightarrow>
     (\<exists>s. p \<in> set (on_initial_paths s @ on_completion_paths s @ on_signal_paths @ create_invite_paths @
        submit_pin_paths s @ pending_invites_paths @ poll_local_paths @ discover_paths @ route_paths @
        verify_paths @ ui_status_paths @ add_cert_paths @ ui_pair_paths)) \<or>
     (\<exists>answers. p = poll_peers_path answers)"

text \<open>
  Any operation may start at any time, any number of times, and a task may panic, which gives its
  locks back.
\<close>

inductive lock_reach :: "lock_task list \<Rightarrow> bool" where
  idle: "lock_reach []"
| begins: "lock_reach ts \<Longrightarrow> operation p \<Longrightarrow> lock_reach (ts @ [([], p)])"
| panics: "lock_reach ts \<Longrightarrow> i < length ts \<Longrightarrow> lock_reach (ts[i := ([], [])])"
| goes_on: "lock_reach ts \<Longrightarrow> lock_step ts ts' \<Longrightarrow> lock_reach ts'"
| resumes: "lock_reach ts \<Longrightarrow> net_step ts ts' \<Longrightarrow> lock_reach ts'"

section \<open>An order of the locks\<close>

fun lock_rank :: "lock \<Rightarrow> nat" where
  "lock_rank (SessionLock s) = 0"
| "lock_rank JoinersLock = 1"
| "lock_rank PendingLock = 2"
| "lock_rank InvitersLock = 3"
| "lock_rank PinsLock = 4"
| "lock_rank ClusterIdLock = 5"
| "lock_rank RoutingLock = 6"

text \<open>
  Locks are taken upwards, given back by who holds them, and none is held while waiting for the network
  or from one round of a loop to the next; a round waits for the network.
\<close>

fun disciplined :: "lock list \<Rightarrow> lock_op list \<Rightarrow> bool" where
  "disciplined h [] = (h = [])"
| "disciplined h (Acquire l # p) = ((\<forall>k \<in> set h. lock_rank k < lock_rank l) \<and> disciplined (l # h) p)"
| "disciplined h (Release l # p) = (l \<in> set h \<and> disciplined (remove1 l h) p)"
| "disciplined h (Await # p) = (h = [] \<and> disciplined [] p)"
| "disciplined h (Again b # p) = (h = [] \<and> Await \<in> set b \<and> disciplined [] b \<and> disciplined [] p)"

lemma disciplined_section [simp]: "disciplined [] (locked l [] @ p) = disciplined [] p"
  by (simp add: locked_def)

lemma disciplined_section_end [simp]: "disciplined [] (locked l [])"
  by (simp add: locked_def)

lemma disciplined_append: "disciplined h p \<Longrightarrow> disciplined [] q \<Longrightarrow> disciplined h (p @ q)"
  by (induction h p rule: disciplined.induct) simp_all

lemma disciplined_round [simp]: "disciplined [] (completion_round s)" "Await \<in> set (completion_round s)"
  by (simp_all add: completion_round_def)

lemma disciplined_pins: "p \<in> set pin_peer_paths \<Longrightarrow> disciplined [] p"
  by (auto simp: pin_peer_paths_def)

lemma disciplined_polls:
  "disciplined [] (concat (map poll_peer_path answers))"
  by (induction answers) (simp_all add: poll_peer_path_def)

lemma paths_disciplined:
  "p \<in> set (on_initial_paths s) \<Longrightarrow> disciplined [] p"
  "p \<in> set (on_completion_paths s) \<Longrightarrow> disciplined [] p"
  "p \<in> set on_signal_paths \<Longrightarrow> disciplined [] p"
  "p \<in> set create_invite_paths \<Longrightarrow> disciplined [] p"
  "p \<in> set (submit_pin_paths s) \<Longrightarrow> disciplined [] p"
  "p \<in> set (pending_invites_paths @ poll_local_paths @ discover_paths @ route_paths @ verify_paths @
     ui_status_paths @ add_cert_paths @ ui_pair_paths) \<Longrightarrow> disciplined [] p"
proof -
  show "disciplined [] p" if "p \<in> set (on_initial_paths s)"
    using that by (auto simp: on_initial_paths_def) (simp add: locked_def)
  show "disciplined [] p" if "p \<in> set (on_completion_paths s)"
    using that by (auto simp: on_completion_paths_def disciplined_pins)
  show "disciplined [] p" if "p \<in> set on_signal_paths"
    using that by (auto simp: on_signal_paths_def)
  show "disciplined [] p" if "p \<in> set create_invite_paths"
    using that by (auto simp: create_invite_paths_def)
  show "disciplined [] p" if "p \<in> set (submit_pin_paths s)"
    using that by (auto simp: submit_pin_paths_def Let_def forget_path_def disciplined_append disciplined_pins)
  show "disciplined [] p" if "p \<in> set (pending_invites_paths @ poll_local_paths @ discover_paths @ route_paths @
      verify_paths @ ui_status_paths @ add_cert_paths @ ui_pair_paths)"
    using that by (auto simp: pending_invites_paths_def poll_local_paths_def discover_paths_def route_paths_def
        verify_paths_def ui_status_paths_def add_cert_paths_def ui_pair_paths_def)
qed

lemma operations_disciplined: "operation p \<Longrightarrow> disciplined [] p"
proof -
  assume "operation p"
  then consider (path) s where "p \<in> set (on_initial_paths s) \<or> p \<in> set (on_completion_paths s) \<or>
      p \<in> set on_signal_paths \<or> p \<in> set create_invite_paths \<or> p \<in> set (submit_pin_paths s) \<or>
      p \<in> set (pending_invites_paths @ poll_local_paths @ discover_paths @ route_paths @ verify_paths @
        ui_status_paths @ add_cert_paths @ ui_pair_paths)"
    | (poll) answers where "p = poll_peers_path answers"
    unfolding operation_def set_append Un_iff by blast
  then show ?thesis
  proof cases
    case path
    then show ?thesis by (elim disjE) (fact paths_disciplined)+
  next
    case poll
    then show ?thesis by (simp add: poll_peers_path_def disciplined_polls)
  qed
qed

section \<open>No deadlock\<close>

definition tasks_disciplined :: "lock_task list \<Rightarrow> bool" where
  "tasks_disciplined ts \<longleftrightarrow> (\<forall>t \<in> set ts. disciplined (fst t) (snd t))"

lemma tasks_disciplined_update:
  "tasks_disciplined ts \<Longrightarrow> disciplined h p \<Longrightarrow> tasks_disciplined (ts[i := (h, p)])"
  unfolding tasks_disciplined_def using set_update_subset_insert [of ts i "(h, p)"] by auto

lemma task_disciplined:
  "tasks_disciplined ts \<Longrightarrow> i < length ts \<Longrightarrow> ts ! i = (h, q) \<Longrightarrow> disciplined h q"
  using nth_mem [of i ts] unfolding tasks_disciplined_def by fastforce

lemma step_disciplined:
  assumes "lock_step ts ts'" "tasks_disciplined ts"
  shows "tasks_disciplined ts'"
  using assms(1)
proof cases
  case (acquire i h l p)
  then show ?thesis using task_disciplined [OF assms(2)] assms(2) by (fastforce intro: tasks_disciplined_update)
next
  case (release i h l p)
  then show ?thesis using task_disciplined [OF assms(2)] assms(2) by (fastforce intro: tasks_disciplined_update)
next
  case (again i h b p)
  with task_disciplined [OF assms(2), of i h "Again b # p"] assms(2) show ?thesis
    by (simp add: tasks_disciplined_update disciplined_append)
next
  case (leave i h b p)
  with task_disciplined [OF assms(2), of i h "Again b # p"] assms(2) show ?thesis
    by (simp add: tasks_disciplined_update)
qed

lemma net_disciplined: "net_step ts ts' \<Longrightarrow> tasks_disciplined ts \<Longrightarrow> tasks_disciplined ts'"
proof (induction rule: net_step.induct)
  case (answered i ts h p)
  with task_disciplined [OF answered(3,1,2)] show ?case by (simp add: tasks_disciplined_update)
qed

lemma reach_disciplined: "lock_reach ts \<Longrightarrow> tasks_disciplined ts"
proof (induction rule: lock_reach.induct)
  case (begins ts p)
  then show ?case by (auto simp: tasks_disciplined_def operations_disciplined)
qed (simp_all add: tasks_disciplined_update step_disciplined net_disciplined, simp add: tasks_disciplined_def)

text \<open>A lock that is held is held once.\<close>

lemma exclude_update:
  assumes "\<And>i j. i < length ts \<Longrightarrow> j < length ts \<Longrightarrow> i \<noteq> j \<Longrightarrow> set (fst (ts ! i)) \<inter> set (fst (ts ! j)) = {}"
    and "\<And>j. j < length ts \<Longrightarrow> j \<noteq> k \<Longrightarrow> set h \<inter> set (fst (ts ! j)) = {}"
    and "i < length ts" "j < length ts" "i \<noteq> j"
  shows "set (fst (ts[k := (h, p)] ! i)) \<inter> set (fst (ts[k := (h, p)] ! j)) = {}"
  using assms(1) [of i j] assms(2) [of i] assms(2) [of j] assms(3-5)
  by (cases "i = k"; cases "j = k") (simp_all add: nth_list_update inf_commute)

lemma locks_exclude:
  "lock_reach ts \<Longrightarrow> i < length ts \<Longrightarrow> j < length ts \<Longrightarrow> i \<noteq> j \<Longrightarrow> set (fst (ts ! i)) \<inter> set (fst (ts ! j)) = {}"
proof (induction arbitrary: i j rule: lock_reach.induct)
  case (begins ts p)
  then show ?case by (auto simp: nth_append)
next
  case (panics ts k)
  then show ?case by (auto simp: nth_list_update)
next
  case (goes_on ts ts')
  note old = goes_on.IH
  from goes_on.hyps(2) show ?case
  proof cases
    case (acquire k h l p)
    have "set (l # h) \<inter> set (fst (ts ! m)) = {}" if "m < length ts" "m \<noteq> k" for m
      using acquire old [of m k] that by auto
    with exclude_update [of ts k "l # h" i j p] old goes_on.prems acquire(1) show ?thesis by simp
  next
    case (release k h l p)
    have "set (remove1 l h) \<inter> set (fst (ts ! m)) = {}" if "m < length ts" "m \<noteq> k" for m
      using release old [of m k] that set_remove1_subset [of l h] by auto
    with exclude_update [of ts k "remove1 l h" i j p] old goes_on.prems release(1) show ?thesis by simp
  next
    case (again k h b p)
    then have "set h \<inter> set (fst (ts ! m)) = {}" if "m < length ts" "m \<noteq> k" for m
      using old [of k m] that by auto
    with exclude_update [of ts k h i j "b @ Again b # p"] old goes_on.prems again(1) show ?thesis by simp
  next
    case (leave k h b p)
    then have "set h \<inter> set (fst (ts ! m)) = {}" if "m < length ts" "m \<noteq> k" for m
      using old [of k m] that by auto
    with exclude_update [of ts k h i j p] old goes_on.prems leave(1) show ?thesis by simp
  qed
next
  case (resumes ts ts')
  note old = resumes.IH
  from resumes.hyps(2) show ?case
  proof cases
    case (answered k h p)
    then have "set h \<inter> set (fst (ts ! m)) = {}" if "m < length ts" "m \<noteq> k" for m
      using old [of k m] that by auto
    with exclude_update [of ts k h i j p] old resumes.prems answered(1) show ?thesis by simp
  qed
qed simp

fun wanted :: "lock_task \<Rightarrow> nat" where
  "wanted (h, Acquire l # p) = lock_rank l"
| "wanted _ = 0"

lemma highest:
  fixes f :: "'a \<Rightarrow> nat"
  assumes "finite U" "U \<noteq> {}"
  obtains t where "t \<in> U" "\<forall>u \<in> U. f u \<le> f t"
proof -
  have "Max (f ` U) \<in> f ` U" using assms by simp
  then obtain t where "t \<in> U" "f t = Max (f ` U)" by (metis imageE)
  with assms(1) show ?thesis by (intro that [of t]) simp_all
qed

definition waits_for_net :: "lock_task \<Rightarrow> bool" where
  "waits_for_net t \<longleftrightarrow> (\<exists>p. snd t = Await # p)"

text \<open>
  Otherwise every task that has not ended and does not wait for the network waits for a lock, and the one
  that waits for the highest waits for one that waits higher.
\<close>

lemma someone_steps:
  assumes "tasks_disciplined ts" "\<exists>t \<in> set ts. snd t \<noteq> [] \<and> \<not> waits_for_net t"
  shows "\<exists>ts'. lock_step ts ts'"
proof (rule ccontr)
  assume stuck: "\<nexists>ts'. lock_step ts ts'"
  let ?U = "{t \<in> set ts. snd t \<noteq> [] \<and> \<not> waits_for_net t}"
  have waits: "\<exists>h l p. t = (h, Acquire l # p) \<and> (\<exists>u \<in> set ts. l \<in> set (fst u))" if m: "t \<in> ?U" for t
  proof -
    obtain i where i: "i < length ts" "ts ! i = t" using m by (auto simp: in_set_conv_nth)
    obtain h op p where t: "t = (h, op # p)" using m by (cases t; cases "snd t") auto
    show ?thesis
    proof (cases op)
      case (Acquire l)
      have "\<not> (\<forall>u \<in> set ts. l \<notin> set (fst u))" using stuck lock_step.acquire [of i ts h l p] i t Acquire by auto
      with t Acquire show ?thesis by blast
    next
      case (Release l)
      then show ?thesis using stuck lock_step.release [of i ts h l p] i t by auto
    next
      case Await
      then show ?thesis using m t by (simp add: waits_for_net_def)
    next
      case (Again b)
      then show ?thesis using stuck lock_step.leave [of i ts h b p] i t by auto
    qed
  qed
  have "finite ?U" "?U \<noteq> {}" using assms(2) by (simp, blast)
  from highest [OF this, of wanted] obtain t where t: "t \<in> ?U" "\<forall>u \<in> ?U. wanted u \<le> wanted t"
    by blast
  then obtain h l p u where l: "t = (h, Acquire l # p)" "u \<in> set ts" "l \<in> set (fst u)" using waits by blast
  have d: "disciplined (fst u) (snd u)" using assms(1) l(2) by (simp add: tasks_disciplined_def)
  with l(3) have "snd u \<noteq> []" "\<not> waits_for_net u" by (auto simp: waits_for_net_def)
  with l(2) have u: "u \<in> ?U" by simp
  then obtain h' l' p' where l': "u = (h', Acquire l' # p')" using waits by blast
  with d l(3) have "lock_rank l < lock_rank l'" by simp
  with t(2) u l(1) l' show False by fastforce
qed

text \<open>How many steps a task can do before it waits for the network or ends, at most.\<close>

fun burst :: "lock_op list \<Rightarrow> nat" where
  "burst [] = 0"
| "burst (Await # p) = 0"
| "burst (Again b # p) = Suc (burst b + burst p)"
| "burst (Acquire l # p) = Suc (burst p)"
| "burst (Release l # p) = Suc (burst p)"

lemma burst_append: "Await \<in> set b \<Longrightarrow> burst (b @ p) \<le> burst b"
  by (induction b rule: burst.induct) auto

definition bursts :: "lock_task list \<Rightarrow> nat" where
  "bursts ts = sum_list (map (burst \<circ> snd) ts)"

lemma bursts_update: "i < length ts \<Longrightarrow> burst q < burst (snd (ts ! i)) \<Longrightarrow> Suc (bursts (ts[i := (h, q)])) \<le> bursts ts"
proof (induction ts arbitrary: i)
  case (Cons t ts)
  then show ?case by (cases i) (auto simp: bursts_def)
qed simp

lemma step_bursts:
  assumes "lock_step ts ts'" "tasks_disciplined ts"
  shows "Suc (bursts ts') \<le> bursts ts"
  using assms(1)
proof cases
  case (again i h b p)
  with task_disciplined [OF assms(2), of i h "Again b # p"] have "burst (b @ Again b # p) < burst (Again b # p)"
    using burst_append [of b "Again b # p"] by simp
  with again show ?thesis by (simp add: bursts_update)
qed (simp_all add: bursts_update)

lemma steps_disciplined:
  "(lock_step ^^ k) ts ts' \<Longrightarrow> tasks_disciplined ts \<Longrightarrow> tasks_disciplined ts' \<and> k + bursts ts' \<le> bursts ts"
proof (induction k arbitrary: ts')
  case (Suc k)
  from Suc.prems(1) obtain ts1 where 1: "(lock_step ^^ k) ts ts1" "lock_step ts1 ts'" by auto
  with Suc have "tasks_disciplined ts1" "k + bursts ts1 \<le> bursts ts" by blast+
  with 1(2) step_bursts [of ts1 ts'] step_disciplined [of ts1 ts'] show ?case by auto
qed simp

text \<open>
  C15: the locks never block the daemon, even when the network never answers. In whatever state any
  number of concurrent operations are, panicked ones included: however they are scheduled, they do only
  a bounded number of steps without an answer of the network, and until no task can do another one, some
  task can; then every lock is free, and each operation has ended or waits for the network. At no
  moment does an operation hold a lock while it waits for the network. Whether an operation ends is up
  to the other side: the loops of the drivers go on as long as it answers.
\<close>
theorem locks_never_block:
  assumes "lock_reach ts" "(lock_step ^^ k) ts ts'"
  shows "k + bursts ts' \<le> bursts ts \<and>
    ((\<exists>ts''. lock_step ts' ts'') \<or> (\<forall>t \<in> set ts'. fst t = [] \<and> (snd t = [] \<or> waits_for_net t))) \<and>
    (\<forall>t \<in> set ts'. waits_for_net t \<longrightarrow> fst t = [])"
proof (intro conjI)
  have d: "tasks_disciplined ts'" "k + bursts ts' \<le> bursts ts"
    using steps_disciplined [OF assms(2) reach_disciplined [OF assms(1)]] by blast+
  then show "k + bursts ts' \<le> bursts ts" by simp
  have free: "fst t = []" if "t \<in> set ts'" "snd t = [] \<or> waits_for_net t" for t
    using that d(1) by (cases t) (auto simp: tasks_disciplined_def waits_for_net_def)
  then show "\<forall>t \<in> set ts'. waits_for_net t \<longrightarrow> fst t = []" by blast
  show "(\<exists>ts''. lock_step ts' ts'') \<or> (\<forall>t \<in> set ts'. fst t = [] \<and> (snd t = [] \<or> waits_for_net t))"
    using someone_steps [OF d(1)] free by blast
qed

text \<open>Two failing requests for one session: the first holds the session, the second the map.\<close>

theorem locks_never_block_witness:
  "\<exists>ts''. lock_step
     [([SessionLock 0], Acquire JoinersLock # [Release JoinersLock, Release (SessionLock 0)]),
      ([], locked JoinersLock [])] ts''"
proof -
  let ?p = "locked JoinersLock [] @ locked (SessionLock 0) (locked JoinersLock [])"
  let ?q = "locked JoinersLock []"
  have "operation ?p" "operation ?q"
    unfolding operation_def on_initial_paths_def by (rule disjI1, rule exI [of _ 0], simp)+
  from lock_reach.begins [OF lock_reach.begins [OF lock_reach.idle this(1)] this(2)]
  have r: "lock_reach [([], ?p), ([], ?q)]" by simp
  have 1: "lock_step [([], ?p), ([], ?q)] [([JoinersLock], tl ?p), ([], ?q)]"
    using lock_step.acquire [of 0 "[([], ?p), ([], ?q)]" "[]" JoinersLock "tl ?p"] by (simp add: locked_def)
  have 2: "lock_step [([JoinersLock], tl ?p), ([], ?q)] [([], tl (tl ?p)), ([], ?q)]"
    using lock_step.release [of 0 "[([JoinersLock], tl ?p), ([], ?q)]" "[JoinersLock]" JoinersLock "tl (tl ?p)"]
    by (simp add: locked_def)
  have 3: "lock_step [([], tl (tl ?p)), ([], ?q)] [([SessionLock 0], tl (tl (tl ?p))), ([], ?q)]"
    using lock_step.acquire [of 0 "[([], tl (tl ?p)), ([], ?q)]" "[]" "SessionLock 0" "tl (tl (tl ?p))"]
    by (simp add: locked_def)
  have "(lock_step ^^ 3) [([], ?p), ([], ?q)] [([SessionLock 0], tl (tl (tl ?p))), ([], ?q)]"
    using 1 2 3 by (auto simp: numeral_3_eq_3)
  from locks_never_block [OF r this]
  have "\<exists>ts''. lock_step [([SessionLock 0], tl (tl (tl ?p))), ([], ?q)] ts''"
    by (simp add: waits_for_net_def locked_def)
  then show ?thesis by (simp add: locked_def)
qed

end
