(* ===== verification/Sections.thy ===== *)
theory Sections
  imports Daemon
begin

text \<open>
  A handler of crates/pair-cluster/src/node.rs is several critical sections. \<open>on_initial_request\<close> finds
  or creates the session under the lock of the map of joiners, runs it under its own lock, and enters
  the pending invite under a third one. \<open>on_completion_request\<close> finds the session under the lock of the
  map of inviters, runs it under its own lock, and then pins the peer. A cancel drops the session and
  then the pending invite. This theory says what each section touches, and that sections for
  different invites commute up to the order in which the pending invites are listed.

  To pin a peer is one section here. \<open>pin_peer\<close> of crates/pair-node/src/pairing.rs takes the lock of the
  pins, then that of the cluster id, and then sets the flag. Of what it writes, a request of the pairing
  port reads the flag alone, and the flag is only ever set; so the model differs in which of two peers
  that pair at the same time leaves its cluster id, and no code reads the stored cluster id.
\<close>

section \<open>Nodes up to the order of the pending invites\<close>

definition same_node :: "'t node \<Rightarrow> 't node \<Rightarrow> bool" where
  "same_node nd nd' \<longleftrightarrow> nd\<lparr>nd_pending := []\<rparr> = nd'\<lparr>nd_pending := []\<rparr> \<and> hm_get (nd_pending nd) = hm_get (nd_pending nd')"

text \<open>The sessions of a node are in its store, each under one invite.\<close>

definition joiners_wf :: "'t node \<Rightarrow> bool" where
  "joiners_wf nd \<longleftrightarrow> (\<forall>i a. hm_get (nd_joiners nd) i = Some a \<longrightarrow> a < length (nd_jheap nd)) \<and>
     (\<forall>i j a. hm_get (nd_joiners nd) i = Some a \<longrightarrow> hm_get (nd_joiners nd) j = Some a \<longrightarrow> i = j)"

definition inviters_wf :: "'t node \<Rightarrow> bool" where
  "inviters_wf nd \<longleftrightarrow> (\<forall>i a. hm_get (nd_inviters nd) i = Some a \<longrightarrow> a < length (nd_iheap nd)) \<and>
     (\<forall>i j a. hm_get (nd_inviters nd) i = Some a \<longrightarrow> hm_get (nd_inviters nd) j = Some a \<longrightarrow> i = j)"

definition sessions_wf :: "'t node \<Rightarrow> bool" where
  "sessions_wf nd \<longleftrightarrow> joiners_wf nd \<and> inviters_wf nd"

section \<open>Requests in progress\<close>

text \<open>
  A handler between two of its sections: an Initial request that has its session, with its number, and
  one whose session has answered and that still has to enter the invite; a Completion request that has
  its session, and one whose session has accepted and that still has to pin the peer, with the session
  as it was before and the answer; a cancel that has dropped the session and still has to drop the
  pending invite. A panic ends a handler at once.
\<close>

datatype flight =
  Running nat entropy envelope nat
| Noting string "pending_invite option"
| Looked entropy envelope nat
| Pinning entropy envelope nat inviter paired reply
| Clearing string

fun flight_id :: "flight \<Rightarrow> string" where
  "flight_id (Running n rnd env a) = e_invite_id env"
| "flight_id (Noting iid po) = iid"
| "flight_id (Looked rnd env a) = e_invite_id env"
| "flight_id (Pinning rnd env a v p r) = e_invite_id env"
| "flight_id (Clearing iid) = iid"

fun joins :: "flight \<Rightarrow> bool" where
  "joins (Running n rnd env a) = True"
| "joins (Noting iid po) = True"
| "joins (Looked rnd env a) = False"
| "joins (Pinning rnd env a v p r) = False"
| "joins (Clearing iid) = True"

fun to_note :: "(reply \<times> pending_invite option) exec \<Rightarrow> pending_invite option" where
  "to_note (Returned (r, po)) = po"
| "to_note q = None"

fun to_pin :: "(reply \<times> paired option) exec \<Rightarrow> paired option" where
  "to_pin (Returned (r, po)) = po"
| "to_pin q = None"

definition drop_joiner :: "string \<Rightarrow> 't node \<Rightarrow> 't node" where
  "drop_joiner iid nd = nd\<lparr>nd_joiners := hm_remove iid (nd_joiners nd)\<rparr>"

definition clear_pending :: "string \<Rightarrow> 't node \<Rightarrow> 't node" where
  "clear_pending iid nd = nd\<lparr>nd_pending := hm_remove iid (nd_pending nd)\<rparr>"

definition put_inviter :: "nat \<Rightarrow> inviter \<Rightarrow> 't node \<Rightarrow> 't node" where
  "put_inviter a v nd = nd\<lparr>nd_iheap := (nd_iheap nd)[a := v]\<rparr>"

text \<open>
  The node without the request in progress. An Initial request counts from when it has its session, and
  a cancel from when it dropped the session, so what is left of them is done; a Completion request
  counts from when it ends, so what it did is undone.
\<close>

fun land :: "cluster_env \<Rightarrow> flight \<Rightarrow> 't node \<Rightarrow> 't node" where
  "land X (Running n rnd env a) nd =
     note_pending (to_note (snd (run_joiner X rnd env a nd))) (fst (run_joiner X rnd env a nd))"
| "land X (Noting iid po) nd = note_pending po nd"
| "land X (Looked rnd env a) nd = nd"
| "land X (Pinning rnd env a v p r) nd = put_inviter a v nd"
| "land X (Clearing iid) nd = clear_pending iid nd"

section \<open>What the sections touch\<close>

lemma same_nodeI: "hm_get m = hm_get m' \<Longrightarrow> same_node (nd\<lparr>nd_pending := m\<rparr>) (nd\<lparr>nd_pending := m'\<rparr>)"
  by (simp add: same_node_def)

lemma same_nodeE:
  assumes "same_node nd nd'"
  obtains m where "nd' = nd\<lparr>nd_pending := m\<rparr>" "hm_get m = hm_get (nd_pending nd)"
proof -
  from assms have "nd' = nd\<lparr>nd_pending := nd_pending nd'\<rparr>" by (cases nd; cases nd') (simp add: same_node_def)
  moreover from assms have "hm_get (nd_pending nd') = hm_get (nd_pending nd)" by (simp add: same_node_def)
  ultimately show thesis by (rule that)
qed

lemma same_node_refl [simp]: "same_node nd nd"
  by (simp add: same_node_def)

lemma same_node_sym: "same_node nd nd' \<Longrightarrow> same_node nd' nd"
  by (simp add: same_node_def)

lemma same_node_trans: "same_node a b \<Longrightarrow> same_node b c \<Longrightarrow> same_node a c"
  by (simp add: same_node_def)

lemma pending_same [simp]: "nd\<lparr>nd_pending := nd_pending nd\<rparr> = nd"
  by (cases nd) simp

text \<open>The run of a session writes the session, and takes it out of the map when it failed.\<close>

definition put_session :: "nat \<Rightarrow> joiner \<Rightarrow> bool \<Rightarrow> string \<Rightarrow> 't node \<Rightarrow> 't node" where
  "put_session a j gone iid nd =
     nd\<lparr>nd_jheap := (nd_jheap nd)[a := j],
        nd_joiners := if gone then hm_remove iid (nd_joiners nd) else nd_joiners nd\<rparr>"

lemma run_joiner_put:
  fixes nd :: "'t node"
  obtains j gone q where
    "\<And>nd' :: 't node. nd_jheap nd' ! a = nd_jheap nd ! a \<Longrightarrow>
       run_joiner X rnd env a nd' = (put_session a j gone (e_invite_id env) nd', q)"
    "\<And>r p. q = Returned (r, Some p) \<Longrightarrow> pn_invite_id p = e_invite_id env"
proof -
  have upd: "v\<lparr>nd_jheap := h, nd_joiners := nd_joiners v\<rparr> = v\<lparr>nd_jheap := h\<rparr>" for v :: "'t node" and h
    by (cases v) simp
  obtain j r where jr: "joiner_on_initial X rnd (nd_jheap nd ! a) (blob X env) = (j, r)" by fastforce
  show thesis
  proof (cases r)
    case (Returned v)
    then show thesis
    proof (cases v)
      case (Inl e)
      with jr Returned that [of j True "Returned (bad_request (e_invite_id env) INITIAL e, None)"]
      show thesis by (simp add: run_joiner_def put_session_def)
    next
      case (Inr out)
      with jr Returned that [of j False "Returned (reply_ok (with_msg X (e_invite_id env) INITIAL out),
          if p_state (j_peer j) = Waiting then map_option (pending_of (e_invite_id env)) (j_inviter j) else None)"]
      show thesis by (fastforce simp: run_joiner_def put_session_def pending_of_def upd split: if_splits)
    qed
  next
    case Panicked
    with jr that [of j False Panicked] show thesis by (simp add: run_joiner_def put_session_def upd)
  next
    case Diverged
    with jr that [of j False Diverged] show thesis by (simp add: run_joiner_def put_session_def upd)
  qed
qed

section \<open>Sections that do not meet\<close>

lemma hm_twist:
  "k \<noteq> l \<Longrightarrow> hm_remove l (hm_insert k v m) = hm_insert k v (hm_remove l m)"
  "hm_remove k (hm_remove l m) = hm_remove l (hm_remove k m)"
  by (simp_all add: hm_insert_def hm_remove_def delete_update delete_twist)

lemma clear_pending_fields [simp]:
  "nd_trust (clear_pending k nd) = nd_trust nd" "nd_joiners (clear_pending k nd) = nd_joiners nd"
  "nd_inviters (clear_pending k nd) = nd_inviters nd" "nd_jheap (clear_pending k nd) = nd_jheap nd"
  "nd_iheap (clear_pending k nd) = nd_iheap nd" "nd_profile (clear_pending k nd) = nd_profile nd"
  by (simp_all add: clear_pending_def)

lemma drop_joiner_fields [simp]:
  "nd_inviters (drop_joiner k nd) = nd_inviters nd" "nd_jheap (drop_joiner k nd) = nd_jheap nd"
  "nd_iheap (drop_joiner k nd) = nd_iheap nd" "nd_joiners (drop_joiner k nd) = hm_remove k (nd_joiners nd)"
  by (simp_all add: drop_joiner_def)

lemma put_session_fields [simp]:
  "nd_trust (put_session a j g iid nd) = nd_trust nd" "nd_inviters (put_session a j g iid nd) = nd_inviters nd"
  "nd_iheap (put_session a j g iid nd) = nd_iheap nd" "nd_pending (put_session a j g iid nd) = nd_pending nd"
  "nd_profile (put_session a j g iid nd) = nd_profile nd"
  "nd_jheap (put_session a j g iid nd) = (nd_jheap nd)[a := j]"
  "nd_joiners (put_session a j g iid nd) = (if g then hm_remove iid (nd_joiners nd) else nd_joiners nd)"
  by (simp_all add: put_session_def)

lemma put_session_get:
  "k \<noteq> iid \<Longrightarrow> hm_get (nd_joiners (put_session a j g iid nd)) k = hm_get (nd_joiners nd) k"
  by (simp add: hm_simps)

lemma put_session_twist:
  "a \<noteq> b \<Longrightarrow> put_session a j g iid (put_session b i h k nd) = put_session b i h k (put_session a j g iid nd)"
  by (simp add: put_session_def list_update_swap hm_twist)

lemma put_session_note: "note_pending po (put_session a j g iid nd) = put_session a j g iid (note_pending po nd)"
  by (simp add: note_pending_def put_session_def split: option.split)

lemma put_session_clear: "clear_pending k (put_session a j g iid nd) = put_session a j g iid (clear_pending k nd)"
  by (simp add: clear_pending_def put_session_def)

lemma put_session_pin: "pin_paired K po (put_session a j g iid nd) = put_session a j g iid (pin_paired K po nd)"
  by (simp add: pin_paired_def put_session_def split: option.split)

lemma put_session_find:
  assumes "e_invite_id env \<noteq> iid" "a < length (nd_jheap nd)"
  shows "find_joiner X K env (put_session a j g iid nd) =
    (put_session a j g iid (fst (find_joiner X K env nd)), snd (find_joiner X K env nd))"
proof (cases "hm_get (nd_joiners nd) (e_invite_id env)")
  case None
  then show ?thesis
    using assms by (auto simp: find_joiner_def put_session_get hm_simps)
      (auto simp: put_session_def hm_twist list_update_append)
qed (use assms in \<open>simp add: find_joiner_def put_session_get hm_simps\<close>)

lemma find_keeps_session:
  "a < length (nd_jheap nd) \<Longrightarrow> nd_jheap (fst (find_joiner X K env nd)) ! a = nd_jheap nd ! a"
  by (auto simp: find_joiner_def nth_append split: option.split)

lemma put_session_run:
  fixes nd :: "'t node"
  assumes "b \<noteq> a"
  shows "run_joiner X rnd env b (put_session a j g iid nd) =
    (put_session a j g iid (fst (run_joiner X rnd env b nd)), snd (run_joiner X rnd env b nd))"
proof -
  obtain i h q where r: "\<And>nd' :: 't node. nd_jheap nd' ! b = nd_jheap nd ! b \<Longrightarrow>
      run_joiner X rnd env b nd' = (put_session b i h (e_invite_id env) nd', q)"
    using run_joiner_put [of b nd X rnd env] by metis
  from r [of nd] r [of "put_session a j g iid nd"] assms show ?thesis
    by (simp add: put_session_twist)
qed

lemma run_keeps_session: "b \<noteq> a \<Longrightarrow> nd_jheap (fst (run_joiner X rnd env b nd)) ! a = nd_jheap nd ! a"
  by (simp add: run_joiner_def Let_def case_prod_beta split: exec.split sum.split)

lemma found_session:
  assumes "find_joiner X K env nd = (nd1, Inr b)" "joiners_wf nd"
  shows "hm_get (nd_joiners nd1) (e_invite_id env) = Some b" "joiners_wf nd1"
    "hm_get (nd_joiners nd) iid = Some a \<Longrightarrow> e_invite_id env \<noteq> iid \<Longrightarrow> hm_get (nd_joiners nd1) iid = Some a"
proof -
  show "hm_get (nd_joiners nd1) (e_invite_id env) = Some b"
    and "hm_get (nd_joiners nd) iid = Some a \<Longrightarrow> e_invite_id env \<noteq> iid \<Longrightarrow> hm_get (nd_joiners nd1) iid = Some a"
    using assms(1) by (auto simp: find_joiner_def hm_simps split: option.splits if_splits)
  show "joiners_wf nd1"
    using assms by (fastforce simp: find_joiner_def joiners_wf_def hm_simps split: option.splits if_splits)
qed

lemma session_apart:
  assumes "joiners_wf nd" "hm_get (nd_joiners nd) k = Some b" "hm_get (nd_joiners nd) iid = Some a" "k \<noteq> iid"
  shows "b \<noteq> a"
  using assms unfolding joiners_wf_def by blast

lemma on_initial_alt:
  "on_initial_request X K rnd env nd =
     (case find_joiner X K env nd of
        (nd1, Inl r) \<Rightarrow> (nd1, Returned r)
      | (nd1, Inr a) \<Rightarrow> (land X (Running n rnd env a) nd1, emap fst (snd (run_joiner X rnd env a nd1))))"
  by (cases "find_joiner X K env nd")
    (auto simp: on_initial_request_def case_prod_beta note_pending_def split: sum.split exec.split)

lemma put_session_initial:
  assumes "joiners_wf nd" "hm_get (nd_joiners nd) iid = Some a" "e_invite_id env \<noteq> iid"
  shows "on_initial_request X K rnd env (put_session a j g iid nd) =
    (put_session a j g iid (fst (on_initial_request X K rnd env nd)), snd (on_initial_request X K rnd env nd)) \<and>
    nd_jheap (fst (on_initial_request X K rnd env nd)) ! a = nd_jheap nd ! a"
proof -
  from assms have a: "a < length (nd_jheap nd)" by (simp add: joiners_wf_def)
  obtain nd1 q where f: "find_joiner X K env nd = (nd1, q)" by fastforce
  with find_keeps_session [OF a, of X K env] have k: "nd_jheap nd1 ! a = nd_jheap nd ! a" by simp
  show ?thesis
  proof (cases q)
    case (Inr b)
    with found_session [of X K env nd nd1 b] f assms have "b \<noteq> a"
      using session_apart [of nd1 "e_invite_id env" b iid a] by simp
    with f Inr k show ?thesis
      by (simp add: on_initial_alt [where n = 0] put_session_find assms a put_session_run put_session_note run_keeps_session)
  qed (use f k in \<open>simp add: on_initial_alt [where n = 0] put_session_find assms a\<close>)
qed

lemma put_session_inviter:
  "run_inviter X rnd env b (put_session a j g iid nd) =
    (put_session a j g iid (fst (run_inviter X rnd env b nd)), snd (run_inviter X rnd env b nd))"
  by (auto simp: run_inviter_def Let_def case_prod_beta put_session_def split: exec.split sum.split)

lemma put_session_completion:
  "on_completion_request X K rnd env (put_session a j g iid nd) =
    (put_session a j g iid (fst (on_completion_request X K rnd env nd)), snd (on_completion_request X K rnd env nd))"
  by (simp add: on_completion_request_def put_session_inviter put_session_pin case_prod_beta
      split: option.split exec.split)

lemma completion_keeps_joiners:
  "nd_jheap (fst (on_completion_request X K rnd env nd)) = nd_jheap nd"
  "nd_joiners (fst (on_completion_request X K rnd env nd)) = nd_joiners nd"
  by (auto simp: on_completion_request_def split: option.split prod.split exec.split dest: run_inviter_fields(3,4))

lemma put_session_signal:
  "e_invite_id env \<noteq> iid \<or> e_phase env \<noteq> CANCEL \<Longrightarrow>
   on_signal env (put_session a j g iid nd) = put_session a j g iid (on_signal env nd)"
  by (auto simp: on_signal_def put_session_def hm_twist)

lemma signal_keeps_sessions: "nd_jheap (on_signal env nd) = nd_jheap nd"
  by (simp add: on_signal_def)

lemma put_session_handle:
  assumes "joiners_wf nd" "hm_get (nd_joiners nd) iid = Some a"
    "e_invite_id env \<noteq> iid \<or> e_phase env \<notin> {INITIAL, CANCEL}"
  shows "handle_request X K rnd env (put_session a j g iid nd) =
    (put_session a j g iid (fst (handle_request X K rnd env nd)), snd (handle_request X K rnd env nd)) \<and>
    nd_jheap (fst (handle_request X K rnd env nd)) ! a = nd_jheap nd ! a"
  using assms(3) put_session_initial [OF assms(1,2), of env]
  by (auto simp: handle_request_def put_session_completion completion_keeps_joiners put_session_signal signal_keeps_sessions)

section \<open>The sessions of inviters\<close>

lemma put_inviter_fields [simp]:
  "nd_trust (put_inviter a v nd) = nd_trust nd" "nd_inviters (put_inviter a v nd) = nd_inviters nd"
  "nd_joiners (put_inviter a v nd) = nd_joiners nd" "nd_pending (put_inviter a v nd) = nd_pending nd"
  "nd_profile (put_inviter a v nd) = nd_profile nd" "nd_jheap (put_inviter a v nd) = nd_jheap nd"
  "nd_iheap (put_inviter a v nd) = (nd_iheap nd)[a := v]"
  by (simp_all add: put_inviter_def)

lemma put_inviter_twist: "a \<noteq> b \<Longrightarrow> put_inviter a v (put_inviter b w nd) = put_inviter b w (put_inviter a v nd)"
  by (simp add: put_inviter_def list_update_swap)

lemma put_inviter_again [simp]: "put_inviter a v (put_inviter a w nd) = put_inviter a v nd"
  by (simp add: put_inviter_def)

lemma put_inviter_same [simp]: "put_inviter a (nd_iheap nd ! a) nd = nd"
  by (cases nd) (simp add: put_inviter_def)

lemma put_inviter_session: "put_inviter a v (put_session b j g iid nd) = put_session b j g iid (put_inviter a v nd)"
  by (simp add: put_inviter_def put_session_def)

lemma put_inviter_note: "note_pending po (put_inviter a v nd) = put_inviter a v (note_pending po nd)"
  by (simp add: note_pending_def put_inviter_def split: option.split)

lemma put_inviter_clear: "clear_pending k (put_inviter a v nd) = put_inviter a v (clear_pending k nd)"
  by (simp add: clear_pending_def put_inviter_def)

lemma put_inviter_pin: "pin_paired K po (put_inviter a v nd) = put_inviter a v (pin_paired K po nd)"
  by (simp add: pin_paired_def put_inviter_def split: option.split)

lemma put_inviter_pending: "put_inviter a v (nd\<lparr>nd_pending := m\<rparr>) = (put_inviter a v nd)\<lparr>nd_pending := m\<rparr>"
  by (simp add: put_inviter_def)

lemma put_inviter_signal: "on_signal env (put_inviter a v nd) = put_inviter a v (on_signal env nd)"
  by (simp add: on_signal_def put_inviter_def)

lemma put_inviter_find:
  "find_joiner X K env (put_inviter a v nd) =
    (put_inviter a v (fst (find_joiner X K env nd)), snd (find_joiner X K env nd))"
  by (simp add: find_joiner_def put_inviter_def split: option.split)

lemma put_inviter_joiner:
  fixes nd :: "'t node"
  shows "run_joiner X rnd env b (put_inviter a v nd) =
    (put_inviter a v (fst (run_joiner X rnd env b nd)), snd (run_joiner X rnd env b nd))"
proof -
  obtain j g q where r: "\<And>nd' :: 't node. nd_jheap nd' ! b = nd_jheap nd ! b \<Longrightarrow>
      run_joiner X rnd env b nd' = (put_session b j g (e_invite_id env) nd', q)"
    using run_joiner_put [of b nd X rnd env] by metis
  from r [of nd] r [of "put_inviter a v nd"] show ?thesis by (simp add: put_inviter_session)
qed

lemma put_inviter_initial:
  "on_initial_request X K rnd env (put_inviter a v nd) =
    (put_inviter a v (fst (on_initial_request X K rnd env nd)), snd (on_initial_request X K rnd env nd))"
  by (cases "find_joiner X K env nd")
    (simp add: on_initial_alt [where n = 0] put_inviter_find put_inviter_joiner put_inviter_note split: sum.split)

lemma initial_keeps_inviters:
  "nd_iheap (fst (on_initial_request X K rnd env nd)) = nd_iheap nd"
  "nd_inviters (fst (on_initial_request X K rnd env nd)) = nd_inviters nd"
proof -
  obtain nd1 q where f: "find_joiner X K env nd = (nd1, q)" by fastforce
  have r: "nd_iheap (fst (run_joiner X rnd env b nd1)) = nd_iheap nd1" "nd_inviters (fst (run_joiner X rnd env b nd1)) = nd_inviters nd1" for b
    by (metis prod.collapse run_joiner_fields(3), metis prod.collapse run_joiner_fields(2))
  show "nd_iheap (fst (on_initial_request X K rnd env nd)) = nd_iheap nd"
    "nd_inviters (fst (on_initial_request X K rnd env nd)) = nd_inviters nd"
    using find_joiner_fields(2,3) [OF f] f r by (simp_all add: on_initial_alt [where n = 0] split: sum.split)
qed

text \<open>The run of a session of an inviter writes that session alone, and reads it alone.\<close>

lemma run_inviter_put:
  fixes nd :: "'t node"
  obtains v q where
    "\<And>nd' :: 't node. nd_iheap nd' ! a = nd_iheap nd ! a \<Longrightarrow> run_inviter X rnd env a nd' = (put_inviter a v nd', q)"
proof (cases "blob X env = []")
  case True
  let ?q = "Returned (reply_ok (with_msg X (e_invite_id env) COMPLETION (inviter_start X (nd_iheap nd ! a))), None) ::
      (reply \<times> paired option) exec"
  have "run_inviter X rnd env a nd' = (put_inviter a (nd_iheap nd ! a) nd', ?q)"
    if "nd_iheap nd' ! a = nd_iheap nd ! a" for nd' :: "'t node"
    using True put_inviter_same [of a nd'] unfolding that by (simp add: run_inviter_def Let_def that)
  then show thesis by (rule that)
next
  case False
  obtain v q where "inviter_on_completion X rnd (nd_iheap nd ! a) (blob X env) = (v, q)" by fastforce
  with False show thesis
    by (intro that [of v "snd (run_inviter X rnd env a nd)"])
      (auto simp: run_inviter_def Let_def put_inviter_def split: exec.split sum.split)
qed

lemma put_inviter_run:
  fixes nd :: "'t node"
  assumes "b \<noteq> a"
  shows "run_inviter X rnd env b (put_inviter a v nd) =
    (put_inviter a v (fst (run_inviter X rnd env b nd)), snd (run_inviter X rnd env b nd))"
    "nd_iheap (fst (run_inviter X rnd env b nd)) ! a = nd_iheap nd ! a"
proof -
  obtain w q where r: "\<And>nd' :: 't node. nd_iheap nd' ! b = nd_iheap nd ! b \<Longrightarrow>
      run_inviter X rnd env b nd' = (put_inviter b w nd', q)"
    using run_inviter_put [of b nd X rnd env] by metis
  from r [of nd] r [of "put_inviter a v nd"] assms
  show "run_inviter X rnd env b (put_inviter a v nd) =
      (put_inviter a v (fst (run_inviter X rnd env b nd)), snd (run_inviter X rnd env b nd))"
    "nd_iheap (fst (run_inviter X rnd env b nd)) ! a = nd_iheap nd ! a"
    by (simp_all add: put_inviter_twist)
qed

lemma completion_alt:
  "hm_get (nd_inviters nd) (e_invite_id env) = Some b \<Longrightarrow>
   on_completion_request X K rnd env nd =
     (pin_paired K (to_pin (snd (run_inviter X rnd env b nd))) (fst (run_inviter X rnd env b nd)),
      emap fst (snd (run_inviter X rnd env b nd)))"
  by (cases "run_inviter X rnd env b nd") (auto simp: on_completion_request_def pin_paired_def split: exec.split)

lemma inviter_apart:
  assumes "inviters_wf nd" "hm_get (nd_inviters nd) k = Some b" "hm_get (nd_inviters nd) iid = Some a" "k \<noteq> iid"
  shows "b \<noteq> a"
  using assms unfolding inviters_wf_def by blast

lemma put_inviter_completion:
  assumes "inviters_wf nd" "hm_get (nd_inviters nd) iid = Some a" "e_invite_id env \<noteq> iid"
  shows "on_completion_request X K rnd env (put_inviter a v nd) =
    (put_inviter a v (fst (on_completion_request X K rnd env nd)), snd (on_completion_request X K rnd env nd)) \<and>
    nd_iheap (fst (on_completion_request X K rnd env nd)) ! a = nd_iheap nd ! a"
proof (cases "hm_get (nd_inviters nd) (e_invite_id env)")
  case (Some b)
  with inviter_apart [OF assms(1) Some assms(2,3)] show ?thesis
    by (simp add: completion_alt put_inviter_run put_inviter_pin)
qed (simp add: on_completion_request_def)

lemma run_keeps_inviters:
  "nd_inviters (fst (run_inviter X rnd env b nd)) = nd_inviters nd"
  "length (nd_iheap (fst (run_inviter X rnd env b nd))) = length (nd_iheap nd)"
  by (simp_all add: run_inviter_def Let_def case_prod_beta split: exec.split sum.split)

lemma completion_keeps_inviters:
  "nd_inviters (fst (on_completion_request X K rnd env nd)) = nd_inviters nd"
  "length (nd_iheap (fst (on_completion_request X K rnd env nd))) = length (nd_iheap nd)"
proof -
  have "nd_inviters (fst (on_completion_request X K rnd env nd)) = nd_inviters nd \<and>
    length (nd_iheap (fst (on_completion_request X K rnd env nd))) = length (nd_iheap nd)"
  proof (cases "hm_get (nd_inviters nd) (e_invite_id env)")
    case None
    then show ?thesis by (simp add: on_completion_request_def)
  next
    case (Some b)
    then show ?thesis by (simp add: completion_alt run_keeps_inviters)
  qed
  then show "nd_inviters (fst (on_completion_request X K rnd env nd)) = nd_inviters nd"
    "length (nd_iheap (fst (on_completion_request X K rnd env nd))) = length (nd_iheap nd)" by simp_all
qed

lemma put_inviter_handle:
  assumes "inviters_wf nd" "hm_get (nd_inviters nd) iid = Some a"
    "e_invite_id env \<noteq> iid \<or> e_phase env \<noteq> COMPLETION"
  shows "handle_request X K rnd env (put_inviter a v nd) =
    (put_inviter a v (fst (handle_request X K rnd env nd)), snd (handle_request X K rnd env nd)) \<and>
    nd_iheap (fst (handle_request X K rnd env nd)) ! a = nd_iheap nd ! a"
proof -
  have "nd_iheap (on_signal env nd) = nd_iheap nd" by (simp add: on_signal_def)
  with assms(3) put_inviter_completion [OF assms(1,2), of env X K rnd v] show ?thesis
    by (auto simp: handle_request_def put_inviter_initial put_inviter_signal initial_keeps_inviters)
qed

lemma handle_inviters:
  assumes "inviters_wf nd"
  shows "inviters_wf (fst (handle_request X K rnd env nd))"
    "k \<noteq> e_invite_id env \<or> e_phase env \<notin> {DECLINE, FAIL, EXPIRED} \<Longrightarrow>
      hm_get (nd_inviters (fst (handle_request X K rnd env nd))) k = hm_get (nd_inviters nd) k"
proof -
  have c: "inviters_wf (fst (on_completion_request X K rnd env nd))" "inviters_wf (fst (on_initial_request X K rnd env nd))"
    using assms by (simp_all add: inviters_wf_def completion_keeps_inviters initial_keeps_inviters)
  have g: "inviters_wf (on_signal env nd)"
    using assms by (simp add: on_signal_def inviters_wf_def hm_simps)
  show "inviters_wf (fst (handle_request X K rnd env nd))"
    using assms c g by (simp add: handle_request_def)
  have "k \<noteq> e_invite_id env \<or> e_phase env \<notin> {DECLINE, FAIL, EXPIRED} \<Longrightarrow>
      hm_get (nd_inviters (on_signal env nd)) k = hm_get (nd_inviters nd) k"
    by (auto simp: on_signal_def hm_simps)
  then show "k \<noteq> e_invite_id env \<or> e_phase env \<notin> {DECLINE, FAIL, EXPIRED} \<Longrightarrow>
      hm_get (nd_inviters (fst (handle_request X K rnd env nd))) k = hm_get (nd_inviters nd) k"
    by (auto simp: handle_request_def completion_keeps_inviters initial_keeps_inviters)
qed

section \<open>Nothing depends on the pending invites\<close>

text \<open>How a request for an invite may change the pending ones.\<close>

definition pending_change :: "envelope \<Rightarrow> ((string, pending_invite) hmap \<Rightarrow> (string, pending_invite) hmap) \<Rightarrow> bool" where
  "pending_change env f \<longleftrightarrow> f = id \<or> e_phase env \<in> {INITIAL, CANCEL} \<and>
     (f = hm_remove (e_invite_id env) \<or> (\<exists>p. f = hm_insert (e_invite_id env) p))"

lemma find_pending:
  "find_joiner X K env (nd\<lparr>nd_pending := m\<rparr>) =
    ((fst (find_joiner X K env nd))\<lparr>nd_pending := m\<rparr>, snd (find_joiner X K env nd))"
  by (simp add: find_joiner_def split: option.split)

lemma put_session_pending: "put_session a j g iid (nd\<lparr>nd_pending := m\<rparr>) = (put_session a j g iid nd)\<lparr>nd_pending := m\<rparr>"
  by (simp add: put_session_def)

lemma run_pending:
  fixes nd :: "'t node"
  shows "run_joiner X rnd env a (nd\<lparr>nd_pending := m\<rparr>) =
    ((fst (run_joiner X rnd env a nd))\<lparr>nd_pending := m\<rparr>, snd (run_joiner X rnd env a nd))"
proof -
  obtain j g q where r: "\<And>nd' :: 't node. nd_jheap nd' ! a = nd_jheap nd ! a \<Longrightarrow>
      run_joiner X rnd env a nd' = (put_session a j g (e_invite_id env) nd', q)"
    using run_joiner_put [of a nd X rnd env] by metis
  from r [of nd] r [of "nd\<lparr>nd_pending := m\<rparr>"] show ?thesis by (simp add: put_session_pending)
qed

lemma run_noted:
  fixes nd :: "'t node"
  assumes "to_note (snd (run_joiner X rnd env a nd)) = Some p"
  shows "pn_invite_id p = e_invite_id env"
proof -
  obtain j g q where r: "\<And>nd' :: 't node. nd_jheap nd' ! a = nd_jheap nd ! a \<Longrightarrow>
      run_joiner X rnd env a nd' = (put_session a j g (e_invite_id env) nd', q)"
    and p: "\<And>r p. q = Returned (r, Some p) \<Longrightarrow> pn_invite_id p = e_invite_id env"
    using run_joiner_put [of a nd X rnd env] by metis
  from r [of nd] have "snd (run_joiner X rnd env a nd) = q" by simp
  with assms p show ?thesis by (cases q rule: to_note.cases) auto
qed

lemma note_pending_same:
  "note_pending po (nd\<lparr>nd_pending := m\<rparr>) =
    (note_pending po nd)\<lparr>nd_pending := (case po of None \<Rightarrow> m | Some p \<Rightarrow> hm_insert (pn_invite_id p) p m)\<rparr>"
  by (simp add: note_pending_def split: option.split)

lemma initial_pending:
  fixes nd :: "'t node"
  assumes "e_phase env = INITIAL"
  shows "\<exists>f. pending_change env f \<and> (\<forall>m. on_initial_request X K rnd env (nd\<lparr>nd_pending := m\<rparr>) =
    ((fst (on_initial_request X K rnd env nd))\<lparr>nd_pending := f m\<rparr>, snd (on_initial_request X K rnd env nd)))"
proof -
  obtain nd1 q where f: "find_joiner X K env nd = (nd1, q)" by fastforce
  show ?thesis
  proof (cases q)
    case (Inl r)
    with f show ?thesis
      by (intro exI [of _ id]) (simp add: pending_change_def on_initial_alt [where n = 0] find_pending)
  next
    case (Inr a)
    define po where "po = to_note (snd (run_joiner X rnd env a nd1))"
    have "pending_change env (\<lambda>m. case po of None \<Rightarrow> m | Some p \<Rightarrow> hm_insert (pn_invite_id p) p m)"
      using run_noted [of X rnd env a nd1] assms
      by (cases po) (auto simp: pending_change_def po_def id_def)
    with f Inr show ?thesis
      by (intro exI [of _ "\<lambda>m. case po of None \<Rightarrow> m | Some p \<Rightarrow> hm_insert (pn_invite_id p) p m"])
        (simp add: on_initial_alt [where n = 0] find_pending run_pending note_pending_same po_def)
  qed
qed

lemma completion_pending:
  "on_completion_request X K rnd env (nd\<lparr>nd_pending := m\<rparr>) =
    ((fst (on_completion_request X K rnd env nd))\<lparr>nd_pending := m\<rparr>, snd (on_completion_request X K rnd env nd))"
proof -
  have r: "run_inviter X rnd env b (nd\<lparr>nd_pending := m\<rparr>) =
      ((fst (run_inviter X rnd env b nd))\<lparr>nd_pending := m\<rparr>, snd (run_inviter X rnd env b nd))" for b
    by (auto simp: run_inviter_def Let_def case_prod_beta split: exec.split sum.split)
  have "pin_paired K po (v\<lparr>nd_pending := m\<rparr>) = (pin_paired K po v)\<lparr>nd_pending := m\<rparr>" for po v
    by (simp add: pin_paired_def split: option.split)
  then show ?thesis
    by (simp add: on_completion_request_def r case_prod_beta split: option.split exec.split)
qed

lemma handle_pending:
  fixes nd :: "'t node"
  obtains f where "pending_change env f"
    "\<And>m. handle_request X K rnd env (nd\<lparr>nd_pending := m\<rparr>) =
      ((fst (handle_request X K rnd env nd))\<lparr>nd_pending := f m\<rparr>, snd (handle_request X K rnd env nd))"
proof (cases "e_invite_id env \<noteq> [] \<and> e_phase env = INITIAL")
  case True
  with initial_pending [of env X K rnd nd] that show thesis by (auto simp: handle_request_def)
next
  case other: False
  show thesis
  proof (cases "e_invite_id env \<noteq> [] \<and> e_phase env = CANCEL")
    case True
    then show thesis
      by (intro that [of "hm_remove (e_invite_id env)"])
        (simp_all add: pending_change_def handle_request_def on_signal_def)
  next
    case False
    with other show thesis
      by (intro that [of id])
        (auto simp: pending_change_def handle_request_def on_signal_def completion_pending)
  qed
qed

lemma pending_change_cong: "pending_change env f \<Longrightarrow> hm_get m = hm_get m' \<Longrightarrow> hm_get (f m) = hm_get (f m')"
  by (auto simp: pending_change_def hm_simps)

lemma pending_change_twist:
  "pending_change env f \<Longrightarrow> e_invite_id env \<noteq> pn_invite_id p \<or> e_phase env \<notin> {INITIAL, CANCEL} \<Longrightarrow>
   hm_get (f (hm_insert (pn_invite_id p) p m)) = hm_get (hm_insert (pn_invite_id p) p (f m))"
  by (auto simp: pending_change_def hm_simps)

lemma pending_change_clear:
  "pending_change env f \<Longrightarrow> e_invite_id env \<noteq> k \<or> e_phase env \<notin> {INITIAL, CANCEL} \<Longrightarrow>
   hm_get (f (hm_remove k m)) = hm_get (hm_remove k (f m))"
  by (auto simp: pending_change_def hm_simps)

section \<open>Sessions stay apart\<close>

lemma put_session_wf: "joiners_wf nd \<Longrightarrow> joiners_wf (put_session a j g iid nd)"
  by (auto simp: joiners_wf_def hm_simps)

lemma joiners_wf_note [simp]: "joiners_wf (note_pending po nd) = joiners_wf nd"
  by (simp add: joiners_wf_def)

lemma joiners_wf_clear [simp]: "joiners_wf (clear_pending k nd) = joiners_wf nd"
  by (simp add: joiners_wf_def)

lemma run_wf:
  fixes nd :: "'t node"
  assumes "joiners_wf nd"
  shows "joiners_wf (fst (run_joiner X rnd env a nd))"
proof -
  obtain j g q where r: "\<And>nd' :: 't node. nd_jheap nd' ! a = nd_jheap nd ! a \<Longrightarrow>
      run_joiner X rnd env a nd' = (put_session a j g (e_invite_id env) nd', q)"
    using run_joiner_put [of a nd X rnd env] by metis
  with put_session_wf [OF assms] show ?thesis by simp
qed

lemma run_other_get:
  fixes nd :: "'t node"
  assumes "k \<noteq> e_invite_id env"
  shows "hm_get (nd_joiners (fst (run_joiner X rnd env a nd))) k = hm_get (nd_joiners nd) k"
  using run_joiner_fields(6) [of X rnd env a nd] assms by (cases "run_joiner X rnd env a nd") (auto simp: hm_simps)

lemma initial_sessions:
  assumes "joiners_wf nd"
  shows "joiners_wf (fst (on_initial_request X K rnd env nd))"
    "k \<noteq> e_invite_id env \<Longrightarrow> hm_get (nd_joiners nd) k = Some a \<Longrightarrow>
      hm_get (nd_joiners (fst (on_initial_request X K rnd env nd))) k = Some a"
proof -
  obtain nd1 q where f: "find_joiner X K env nd = (nd1, q)" by fastforce
  have "q = Inl r \<Longrightarrow> nd1 = nd" for r
    using f by (auto simp: find_joiner_def split: option.splits if_splits)
  with f found_session [of X K env nd nd1] assms
  show "joiners_wf (fst (on_initial_request X K rnd env nd))"
    and "k \<noteq> e_invite_id env \<Longrightarrow> hm_get (nd_joiners nd) k = Some a \<Longrightarrow>
      hm_get (nd_joiners (fst (on_initial_request X K rnd env nd))) k = Some a"
    by (auto simp: on_initial_alt [where n = 0] run_wf run_other_get split: sum.split)
qed

text \<open>Whatever request is handled, sessions of other invites stay where they are.\<close>

lemma handle_sessions:
  assumes "joiners_wf nd"
  shows "joiners_wf (fst (handle_request X K rnd env nd))"
    "k \<noteq> e_invite_id env \<or> e_phase env \<notin> {INITIAL, CANCEL} \<Longrightarrow> hm_get (nd_joiners nd) k = Some a \<Longrightarrow>
      hm_get (nd_joiners (fst (handle_request X K rnd env nd))) k = Some a"
proof -
  have c: "joiners_wf (fst (on_completion_request X K rnd env nd))"
    using assms by (simp add: joiners_wf_def completion_keeps_joiners)
  have g: "joiners_wf (on_signal env nd)"
    using assms by (simp add: on_signal_def joiners_wf_def hm_simps)
  show "joiners_wf (fst (handle_request X K rnd env nd))"
    using assms c g initial_sessions(1) [OF assms] by (simp add: handle_request_def)
  have "k \<noteq> e_invite_id env \<or> e_phase env \<noteq> CANCEL \<Longrightarrow> hm_get (nd_joiners nd) k = Some a \<Longrightarrow>
      hm_get (nd_joiners (on_signal env nd)) k = Some a"
    by (auto simp: on_signal_def hm_simps)
  then show "k \<noteq> e_invite_id env \<or> e_phase env \<notin> {INITIAL, CANCEL} \<Longrightarrow> hm_get (nd_joiners nd) k = Some a \<Longrightarrow>
      hm_get (nd_joiners (fst (handle_request X K rnd env nd))) k = Some a"
    using initial_sessions(2) [OF assms, of k env a] by (auto simp: handle_request_def completion_keeps_joiners)
qed

lemma joiners_wf_new: "joiners_wf (node_new pr t)"
  by (simp add: joiners_wf_def node_new_def hm_simps)

lemma handle_wf: "sessions_wf nd \<Longrightarrow> sessions_wf (fst (handle_request X K rnd env nd))"
  by (simp add: sessions_wf_def handle_sessions(1) handle_inviters(1))

lemma sessions_wf_new: "sessions_wf (node_new pr t)"
  by (simp add: sessions_wf_def inviters_wf_def joiners_wf_new) (simp add: node_new_def hm_simps)

lemma inviters_wf_cong:
  "nd_inviters nd' = nd_inviters nd \<Longrightarrow> length (nd_iheap nd') = length (nd_iheap nd) \<Longrightarrow> inviters_wf nd' = inviters_wf nd"
  by (simp add: inviters_wf_def)

lemma run_keeps_completions:
  "nd_inviters (fst (run_joiner X rnd env a nd)) = nd_inviters nd" "nd_iheap (fst (run_joiner X rnd env a nd)) = nd_iheap nd"
  by (metis prod.collapse run_joiner_fields(2), metis prod.collapse run_joiner_fields(3))

lemma land_wf: "sessions_wf nd \<Longrightarrow> sessions_wf (land X t nd)"
proof (cases t)
  case (Pinning rnd env a v p r)
  assume "sessions_wf nd"
  then show ?thesis using Pinning inviters_wf_cong [of "put_inviter a v nd" nd] by (simp add: sessions_wf_def joiners_wf_def)
qed (auto simp: sessions_wf_def run_wf run_keeps_completions intro: inviters_wf_cong [THEN iffD2])

end
