(* ===== verification/Interleave.thy ===== *)
theory Interleave
  imports Sections
begin

text \<open>
  Pairing requests that are handled at the same time, as steps over the critical sections of
  \<open>Sections\<close>: they give what they give one after the other, as long as no two of them use the session
  of one invite; and what happens when two do.
\<close>

section \<open>Handlers section by section\<close>

text \<open>
  A request may run beside one in progress when it is for another invite, or does not touch the
  sessions of the same side.
\<close>

definition apart :: "envelope \<Rightarrow> flight \<Rightarrow> bool" where
  "apart env t \<longleftrightarrow> e_invite_id env \<noteq> flight_id t \<or>
     e_phase env \<notin> (if joins t then {INITIAL, CANCEL} else {COMPLETION, DECLINE, FAIL, EXPIRED})"

text \<open>
  The node with the requests in progress; the requests in the order in which the Initial ones found or
  created their session, the cancels dropped it, the Completion ones ended, and the others were
  handled; the answers by number.
\<close>

inductive concurrent ::
  "cluster_env \<Rightarrow> 't sink \<Rightarrow> 't node \<Rightarrow> 't node \<Rightarrow> flight list \<Rightarrow> (entropy \<times> envelope) list \<Rightarrow>
     (nat \<times> reply exec) list \<Rightarrow> bool"
  for X :: cluster_env and K :: "'t sink" and nd0 :: "'t node" where
  start: "concurrent X K nd0 nd0 [] [] []"
| whole: "concurrent X K nd0 nd fl log ans \<Longrightarrow> \<forall>t \<in> set fl. apart env t \<Longrightarrow>
    handle_request X K rnd env nd = (nd', r) \<Longrightarrow>
    concurrent X K nd0 nd' fl (log @ [(rnd, env)]) ((length log, r) # ans)"
| find: "concurrent X K nd0 nd fl log ans \<Longrightarrow> \<forall>t \<in> set fl. e_invite_id env \<noteq> flight_id t \<Longrightarrow>
    e_invite_id env \<noteq> [] \<Longrightarrow> e_phase env = INITIAL \<Longrightarrow> find_joiner X K env nd = (nd', Inr a) \<Longrightarrow>
    concurrent X K nd0 nd' (Running (length log) rnd env a # fl) (log @ [(rnd, env)]) ans"
| run: "concurrent X K nd0 nd (xs @ Running n rnd env a # ys) log ans \<Longrightarrow>
    run_joiner X rnd env a nd = (nd', q) \<Longrightarrow>
    concurrent X K nd0 nd' (xs @ Noting (e_invite_id env) (to_note q) # ys) log ((n, emap fst q) # ans)"
| enter: "concurrent X K nd0 nd (xs @ Noting iid po # ys) log ans \<Longrightarrow>
    concurrent X K nd0 (note_pending po nd) (xs @ ys) log ans"
| look: "concurrent X K nd0 nd fl log ans \<Longrightarrow> \<forall>t \<in> set fl. e_invite_id env \<noteq> flight_id t \<Longrightarrow>
    e_invite_id env \<noteq> [] \<Longrightarrow> e_phase env = COMPLETION \<Longrightarrow> hm_get (nd_inviters nd) (e_invite_id env) = Some a \<Longrightarrow>
    concurrent X K nd0 nd (Looked rnd env a # fl) log ans"
| unpaired: "concurrent X K nd0 nd (xs @ Looked rnd env a # ys) log ans \<Longrightarrow>
    run_inviter X rnd env a nd = (nd', q) \<Longrightarrow> to_pin q = None \<Longrightarrow>
    concurrent X K nd0 nd' (xs @ ys) (log @ [(rnd, env)]) ((length log, emap fst q) # ans)"
| accept: "concurrent X K nd0 nd (xs @ Looked rnd env a # ys) log ans \<Longrightarrow>
    run_inviter X rnd env a nd = (nd', Returned (r, Some p)) \<Longrightarrow>
    concurrent X K nd0 nd' (xs @ Pinning rnd env a (nd_iheap nd ! a) p r # ys) log ans"
| pin: "concurrent X K nd0 nd (xs @ Pinning rnd env a v p r # ys) log ans \<Longrightarrow>
    concurrent X K nd0 (pin_paired K (Some p) nd) (xs @ ys) (log @ [(rnd, env)]) ((length log, Returned r) # ans)"
| cancel: "concurrent X K nd0 nd fl log ans \<Longrightarrow> \<forall>t \<in> set fl. e_invite_id env \<noteq> flight_id t \<Longrightarrow>
    e_invite_id env \<noteq> [] \<Longrightarrow> e_phase env = CANCEL \<Longrightarrow>
    concurrent X K nd0 (drop_joiner (e_invite_id env) nd) (Clearing (e_invite_id env) # fl) (log @ [(rnd, env)])
      ((length log, Returned (reply_ok default_envelope)) # ans)"
| clear: "concurrent X K nd0 nd (xs @ Clearing iid # ys) log ans \<Longrightarrow>
    concurrent X K nd0 (clear_pending iid nd) (xs @ ys) log ans"

text \<open>The answers of the same requests one after the other.\<close>

fun replies :: "cluster_env \<Rightarrow> 't sink \<Rightarrow> (entropy \<times> envelope) list \<Rightarrow> 't node \<Rightarrow> reply exec list" where
  "replies X K [] nd = []"
| "replies X K (q # qs) nd =
     snd (handle_request X K (fst q) (snd q) nd) # replies X K qs (fst (handle_request X K (fst q) (snd q) nd))"

lemma serve_snoc: "serve X K (qs @ [q]) nd = fst (handle_request X K (fst q) (snd q) (serve X K qs nd))"
  by (induction qs arbitrary: nd) simp_all

lemma replies_snoc:
  "replies X K (qs @ [q]) nd = replies X K qs nd @ [snd (handle_request X K (fst q) (snd q) (serve X K qs nd))]"
  by (induction qs arbitrary: nd) simp_all

lemma length_replies [simp]: "length (replies X K qs nd) = length qs"
  by (induction qs arbitrary: nd) simp_all

section \<open>What is left of a request can be done early\<close>

text \<open>What holds of a request in progress.\<close>

fun flying :: "cluster_env \<Rightarrow> 't node \<Rightarrow> flight \<Rightarrow> bool" where
  "flying X nd (Running n rnd env a) = (hm_get (nd_joiners nd) (e_invite_id env) = Some a)"
| "flying X nd (Noting iid po) = (\<forall>p. po = Some p \<longrightarrow> pn_invite_id p = iid)"
| "flying X nd (Looked rnd env a) =
     (e_invite_id env \<noteq> [] \<and> e_phase env = COMPLETION \<and> hm_get (nd_inviters nd) (e_invite_id env) = Some a)"
| "flying X nd (Pinning rnd env a v p r) =
     (e_invite_id env \<noteq> [] \<and> e_phase env = COMPLETION \<and> hm_get (nd_inviters nd) (e_invite_id env) = Some a \<and>
      (\<forall>nd' :: 't node. nd_iheap nd' ! a = v \<longrightarrow>
         run_inviter X rnd env a nd' = (put_inviter a (nd_iheap nd ! a) nd', Returned (r, Some p))))"
| "flying X nd (Clearing iid) = True"

lemma flying_cong:
  fixes nd nd' :: "'t node"
  assumes "joins t \<Longrightarrow> hm_get (nd_joiners nd') (flight_id t) = hm_get (nd_joiners nd) (flight_id t)"
    and "\<not> joins t \<Longrightarrow> hm_get (nd_inviters nd') (flight_id t) = hm_get (nd_inviters nd) (flight_id t)"
    and "\<And>a. \<not> joins t \<Longrightarrow> hm_get (nd_inviters nd) (flight_id t) = Some a \<Longrightarrow> nd_iheap nd' ! a = nd_iheap nd ! a"
  shows "flying X nd' t = flying X nd t"
proof (cases t)
  case (Pinning rnd env a v p r)
  with assms(2) assms(3) [of a] show ?thesis by (simp cong: conj_cong)
qed (use assms in simp_all)

lemma flying_inviter: "flying X nd t \<Longrightarrow> \<not> joins t \<Longrightarrow> \<exists>a. hm_get (nd_inviters nd) (flight_id t) = Some a"
  by (cases t) auto

lemma land_joiners: "k \<noteq> flight_id t \<Longrightarrow> hm_get (nd_joiners (land X t nd)) k = hm_get (nd_joiners nd) k"
  by (cases t) (simp_all add: run_other_get)

lemma land_inviters:
  assumes "sessions_wf nd" "flying X nd t" "flight_id t \<noteq> k"
  shows "nd_inviters (land X t nd) = nd_inviters nd"
    "hm_get (nd_inviters nd) k = Some a \<Longrightarrow> nd_iheap (land X t nd) ! a = nd_iheap nd ! a"
proof -
  show "nd_inviters (land X t nd) = nd_inviters nd" by (cases t) (simp_all add: run_keeps_completions)
  assume "hm_get (nd_inviters nd) k = Some a"
  with assms inviter_apart [of nd "flight_id t" _ k a] show "nd_iheap (land X t nd) ! a = nd_iheap nd ! a"
    by (cases t) (auto simp: run_keeps_completions sessions_wf_def)
qed

lemma land_flying:
  "sessions_wf nd \<Longrightarrow> flying X nd t \<Longrightarrow> flight_id t \<noteq> flight_id u \<Longrightarrow> flying X (land X t nd) u = flying X nd u"
  by (rule flying_cong) (simp_all add: land_joiners land_inviters)

definition slides :: "cluster_env \<Rightarrow> ('t node \<Rightarrow> 't node \<times> 'r) \<Rightarrow> ('t node \<Rightarrow> bool) \<Rightarrow> flight \<Rightarrow> bool" where
  "slides X g J t \<longleftrightarrow> (\<forall>nd. sessions_wf nd \<longrightarrow> J nd \<longrightarrow> flying X nd t \<longrightarrow>
     same_node (fst (g (land X t nd))) (land X t (fst (g nd))) \<and> snd (g (land X t nd)) = snd (g nd))"

lemma slidesI:
  fixes g :: "'t node \<Rightarrow> 't node \<times> 'r"
  assumes session: "\<And>nd a j gone. joins t \<Longrightarrow> sessions_wf nd \<Longrightarrow> J nd \<Longrightarrow> hm_get (nd_joiners nd) (flight_id t) = Some a \<Longrightarrow>
      g (put_session a j gone (flight_id t) nd) = (put_session a j gone (flight_id t) (fst (g nd)), snd (g nd)) \<and>
      nd_jheap (fst (g nd)) ! a = nd_jheap nd ! a"
    and noted: "\<And>nd p. joins t \<Longrightarrow> pn_invite_id p = flight_id t \<Longrightarrow>
      same_node (fst (g (note_pending (Some p) nd))) (note_pending (Some p) (fst (g nd))) \<and>
      snd (g (note_pending (Some p) nd)) = snd (g nd)"
    and cleared: "\<And>nd. joins t \<Longrightarrow>
      same_node (fst (g (clear_pending (flight_id t) nd))) (clear_pending (flight_id t) (fst (g nd))) \<and>
      snd (g (clear_pending (flight_id t) nd)) = snd (g nd)"
    and inviter: "\<And>nd a v. \<not> joins t \<Longrightarrow> sessions_wf nd \<Longrightarrow> J nd \<Longrightarrow> hm_get (nd_inviters nd) (flight_id t) = Some a \<Longrightarrow>
      g (put_inviter a v nd) = (put_inviter a v (fst (g nd)), snd (g nd))"
  shows "slides X g J t"
proof -
  have entry: "same_node (fst (g (note_pending po nd))) (note_pending po (fst (g nd))) \<and>
      snd (g (note_pending po nd)) = snd (g nd)" if "joins t" "\<forall>p. po = Some p \<longrightarrow> pn_invite_id p = flight_id t" for po nd
    using that noted by (cases po) (auto simp: note_pending_def)
  have "same_node (fst (g (land X t nd))) (land X t (fst (g nd))) \<and> snd (g (land X t nd)) = snd (g nd)"
    if wf: "sessions_wf nd" and J: "J nd" and fl: "flying X nd t" for nd
  proof (cases t)
    case (Running n rnd env a)
    obtain j gone q where r: "\<And>nd' :: 't node. nd_jheap nd' ! a = nd_jheap nd ! a \<Longrightarrow>
        run_joiner X rnd env a nd' = (put_session a j gone (e_invite_id env) nd', q)"
      using run_joiner_put [of a nd X rnd env] by metis
    have s: "g (put_session a j gone (e_invite_id env) nd) = (put_session a j gone (e_invite_id env) (fst (g nd)), snd (g nd))"
        "nd_jheap (fst (g nd)) ! a = nd_jheap nd ! a"
      using session [OF _ wf J, of a] fl Running by simp_all
    have "\<forall>p. to_note q = Some p \<longrightarrow> pn_invite_id p = flight_id t"
      using run_noted [of X rnd env a nd] r [of nd] Running by simp
    from entry [OF _ this, of "put_session a j gone (e_invite_id env) nd"] s r [of nd] r [of "fst (g nd)"] Running
    show ?thesis by simp
  next
    case (Noting iid po)
    with entry [of po nd] fl show ?thesis by simp
  next
    case (Looked rnd env a)
    then show ?thesis by simp
  next
    case (Pinning rnd env a v p r)
    with inviter [OF _ wf J, of a v] fl show ?thesis by simp
  next
    case (Clearing iid)
    with cleared [of nd] show ?thesis by simp
  qed
  then show ?thesis by (simp add: slides_def)
qed

lemma handle_slides:
  fixes K :: "'t sink"
  shows "apart env t \<Longrightarrow> slides X (handle_request X K rnd env) (\<lambda>nd. True) t"
proof (rule slidesI)
  assume a: "apart env t"
  fix nd :: "'t node" and b j gone
  assume "joins t" "sessions_wf nd" "hm_get (nd_joiners nd) (flight_id t) = Some b"
  with put_session_handle [of nd "flight_id t" b env X K rnd j gone] a
  show "handle_request X K rnd env (put_session b j gone (flight_id t) nd) =
      (put_session b j gone (flight_id t) (fst (handle_request X K rnd env nd)), snd (handle_request X K rnd env nd)) \<and>
      nd_jheap (fst (handle_request X K rnd env nd)) ! b = nd_jheap nd ! b"
    by (simp add: apart_def sessions_wf_def)
next
  assume a: "apart env t"
  fix nd :: "'t node" and b v
  assume "\<not> joins t" "sessions_wf nd" "hm_get (nd_inviters nd) (flight_id t) = Some b"
  with put_inviter_handle [of nd "flight_id t" b env X K rnd v] a
  show "handle_request X K rnd env (put_inviter b v nd) =
      (put_inviter b v (fst (handle_request X K rnd env nd)), snd (handle_request X K rnd env nd))"
    by (auto simp: apart_def sessions_wf_def)
next
  assume a: "apart env t"
  fix nd :: "'t node" and p :: pending_invite
  assume j: "joins t" and p: "pn_invite_id p = flight_id t"
  obtain f where f: "pending_change env f"
    "\<And>m. handle_request X K rnd env (nd\<lparr>nd_pending := m\<rparr>) =
      ((fst (handle_request X K rnd env nd))\<lparr>nd_pending := f m\<rparr>, snd (handle_request X K rnd env nd))"
    using handle_pending [of env X K rnd nd] by metis
  from f(2) [of "nd_pending nd"] have e: "nd_pending (fst (handle_request X K rnd env nd)) = f (nd_pending nd)"
    by (metis pending_same fst_conv node.select_convs(5) node.surjective node.update_convs(5))
  from pending_change_twist [OF f(1), of p "nd_pending nd"] a p j
  show "same_node (fst (handle_request X K rnd env (note_pending (Some p) nd)))
      (note_pending (Some p) (fst (handle_request X K rnd env nd))) \<and>
    snd (handle_request X K rnd env (note_pending (Some p) nd)) = snd (handle_request X K rnd env nd)"
    by (simp add: note_pending_def f(2) e same_nodeI apart_def)
next
  assume a: "apart env t"
  fix nd :: "'t node"
  assume j: "joins t"
  obtain f where f: "pending_change env f"
    "\<And>m. handle_request X K rnd env (nd\<lparr>nd_pending := m\<rparr>) =
      ((fst (handle_request X K rnd env nd))\<lparr>nd_pending := f m\<rparr>, snd (handle_request X K rnd env nd))"
    using handle_pending [of env X K rnd nd] by metis
  from f(2) [of "nd_pending nd"] have e: "nd_pending (fst (handle_request X K rnd env nd)) = f (nd_pending nd)"
    by (metis pending_same fst_conv node.select_convs(5) node.surjective node.update_convs(5))
  from pending_change_clear [OF f(1), of "flight_id t" "nd_pending nd"] a j
  show "same_node (fst (handle_request X K rnd env (clear_pending (flight_id t) nd)))
      (clear_pending (flight_id t) (fst (handle_request X K rnd env nd))) \<and>
    snd (handle_request X K rnd env (clear_pending (flight_id t) nd)) = snd (handle_request X K rnd env nd)"
    by (simp add: clear_pending_def f(2) e same_nodeI apart_def)
qed

lemma land_slides:
  assumes "flight_id u \<noteq> flight_id t"
  shows "slides X (\<lambda>nd :: 't node. (land X u nd, ())) (\<lambda>nd. flying X nd u) t"
proof (cases u)
  case (Running n rnd env b)
  show ?thesis
  proof (rule slidesI)
    fix nd :: "'t node" and a j gone
    assume "sessions_wf nd" "flying X nd u" "hm_get (nd_joiners nd) (flight_id t) = Some a"
    with assms Running have "b \<noteq> a"
      using session_apart [of nd "e_invite_id env" b "flight_id t" a] by (simp add: sessions_wf_def)
    then show "(land X u (put_session a j gone (flight_id t) nd), ()) =
        (put_session a j gone (flight_id t) (fst (land X u nd, ())), snd (land X u nd, ())) \<and>
        nd_jheap (fst (land X u nd, ())) ! a = nd_jheap nd ! a"
      using Running by (simp add: put_session_run run_keeps_session put_session_note)
  next
    fix nd :: "'t node" and a v
    show "(land X u (put_inviter a v nd), ()) = (put_inviter a v (fst (land X u nd, ())), snd (land X u nd, ()))"
      using Running by (simp add: put_inviter_joiner put_inviter_note)
  next
    fix nd :: "'t node" and p :: pending_invite
    assume p: "pn_invite_id p = flight_id t"
    have "nd_pending (fst (run_joiner X rnd env b nd)) = nd_pending nd"
      by (metis prod.collapse run_joiner_fields(4))
    moreover have "to_note (snd (run_joiner X rnd env b nd)) = Some q \<Longrightarrow> pn_invite_id q \<noteq> pn_invite_id p" for q
      using run_noted [of X rnd env b nd q] p assms Running by simp
    ultimately show "same_node (fst (land X u (note_pending (Some p) nd), ())) (note_pending (Some p) (fst (land X u nd, ()))) \<and>
        snd (land X u (note_pending (Some p) nd), ()) = snd (land X u nd, ())"
      using Running by (auto simp: note_pending_def run_pending same_node_def hm_simps fun_upd_twist split: option.split)
  next
    fix nd :: "'t node"
    have "nd_pending (fst (run_joiner X rnd env b nd)) = nd_pending nd"
      by (metis prod.collapse run_joiner_fields(4))
    moreover have "to_note (snd (run_joiner X rnd env b nd)) = Some q \<Longrightarrow> pn_invite_id q \<noteq> flight_id t" for q
      using run_noted [of X rnd env b nd q] assms Running by simp
    ultimately show "same_node (fst (land X u (clear_pending (flight_id t) nd), ())) (clear_pending (flight_id t) (fst (land X u nd, ()))) \<and>
        snd (land X u (clear_pending (flight_id t) nd), ()) = snd (land X u nd, ())"
      using Running by (auto simp: note_pending_def clear_pending_def run_pending same_node_def hm_simps split: option.split)
  qed
next
  case (Noting iid po)
  have "same_node (fst (land X u (land X t nd), ())) (land X t (fst (land X u nd, ())))"
    if "flying X nd u" "flying X nd t" for nd :: "'t node"
  proof (cases po)
    case None
    with Noting show ?thesis by (simp add: note_pending_def)
  next
    case (Some p)
    with that Noting have p: "pn_invite_id p = iid" by simp
    have "same_node (note_pending (Some p) (land X t nd)) (land X t (note_pending (Some p) nd))"
    proof (cases t)
      case (Running n rnd env a)
      have "nd_pending (fst (run_joiner X rnd env a nd)) = nd_pending nd"
        by (metis prod.collapse run_joiner_fields(4))
      moreover have "to_note (snd (run_joiner X rnd env a nd)) = Some q \<Longrightarrow> pn_invite_id q \<noteq> pn_invite_id p" for q
        using run_noted [of X rnd env a nd q] p assms Running Noting by auto
      ultimately show ?thesis
        using Running by (auto simp: note_pending_def run_pending same_node_def hm_simps fun_upd_twist split: option.split)
    next
      case (Noting iid' po')
      with that p assms \<open>u = Noting iid po\<close> show ?thesis
        by (cases po') (auto simp: note_pending_def same_node_def hm_simps fun_upd_twist)
    next
      case (Clearing iid')
      with p assms \<open>u = Noting iid po\<close> show ?thesis
        by (auto simp: note_pending_def clear_pending_def same_node_def hm_simps)
    qed (simp_all add: put_inviter_note)
    with Noting Some show ?thesis by simp
  qed
  then show ?thesis by (simp add: slides_def)
next
  case (Pinning rnd env b w p r)
  have "land X t (put_inviter b w nd) = put_inviter b w (land X t nd)"
    if "sessions_wf nd" "flying X nd u" "flying X nd t" for nd :: "'t node"
    using that assms Pinning inviter_apart [of nd "e_invite_id env" b "flight_id t"]
    by (cases t) (auto simp: put_inviter_joiner put_inviter_note put_inviter_twist put_inviter_clear sessions_wf_def)
  with Pinning show ?thesis by (simp add: slides_def)
next
  case (Clearing k)
  have "same_node (clear_pending k (land X t nd)) (land X t (clear_pending k nd))" if "flying X nd t" for nd :: "'t node"
  proof (cases t)
    case (Running n rnd env a)
    have "nd_pending (fst (run_joiner X rnd env a nd)) = nd_pending nd"
      by (metis prod.collapse run_joiner_fields(4))
    moreover have "to_note (snd (run_joiner X rnd env a nd)) = Some q \<Longrightarrow> pn_invite_id q \<noteq> k" for q
      using run_noted [of X rnd env a nd q] assms Running Clearing by auto
    ultimately show ?thesis
      using Running by (auto simp: note_pending_def clear_pending_def run_pending same_node_def hm_simps split: option.split)
  next
    case (Noting iid po)
    with that assms Clearing show ?thesis
      by (cases po) (auto simp: note_pending_def clear_pending_def same_node_def hm_simps)
  qed (auto simp: put_inviter_clear clear_pending_def same_node_def hm_simps)
  with Clearing show ?thesis by (simp add: slides_def)
qed (simp add: slides_def)

section \<open>All the requests in progress\<close>

definition land_all :: "cluster_env \<Rightarrow> flight list \<Rightarrow> 't node \<Rightarrow> 't node" where
  "land_all X fl nd = fold (land X) fl nd"

lemma land_all_simps [simp]:
  "land_all X [] nd = nd" "land_all X (t # fl) nd = land_all X fl (land X t nd)"
  "land_all X (fl @ fl') nd = land_all X fl' (land_all X fl nd)"
  by (simp_all add: land_all_def)

lemma land_cong: "same_node nd nd' \<Longrightarrow> same_node (land X t nd) (land X t nd')"
proof (elim same_nodeE)
  fix m
  assume m: "nd' = nd\<lparr>nd_pending := m\<rparr>" "hm_get m = hm_get (nd_pending nd)"
  show "same_node (land X t nd) (land X t nd')"
  proof (cases t)
    case (Running n rnd env a)
    have "nd_pending (fst (run_joiner X rnd env a nd)) = nd_pending nd"
      by (metis prod.collapse run_joiner_fields(4))
    with m Running show ?thesis
      by (simp add: run_pending note_pending_def same_node_def hm_simps split: option.split)
  qed (use m in \<open>simp_all add: note_pending_def clear_pending_def put_inviter_pending same_node_def hm_simps split: option.split\<close>)
qed

lemma land_all_cong: "same_node nd nd' \<Longrightarrow> same_node (land_all X fl nd) (land_all X fl nd')"
  by (induction fl arbitrary: nd nd') (simp_all add: land_cong)

lemma handle_cong:
  assumes "same_node nd nd'"
  shows "same_node (fst (handle_request X K rnd env nd)) (fst (handle_request X K rnd env nd')) \<and>
    snd (handle_request X K rnd env nd) = snd (handle_request X K rnd env nd')"
proof -
  obtain m where m: "nd' = nd\<lparr>nd_pending := m\<rparr>" "hm_get m = hm_get (nd_pending nd)"
    using assms by (rule same_nodeE)
  obtain f where f: "pending_change env f"
    "\<And>m. handle_request X K rnd env (nd\<lparr>nd_pending := m\<rparr>) =
      ((fst (handle_request X K rnd env nd))\<lparr>nd_pending := f m\<rparr>, snd (handle_request X K rnd env nd))"
    using handle_pending [of env X K rnd nd] by metis
  from f(2) [of "nd_pending nd"]
  have e: "fst (handle_request X K rnd env nd) = (fst (handle_request X K rnd env nd))\<lparr>nd_pending := f (nd_pending nd)\<rparr>"
    by (metis pending_same fst_conv)
  show ?thesis unfolding m(1) f(2)
    using same_nodeI [OF pending_change_cong [OF f(1) m(2)], THEN same_node_sym] by (subst e) simp
qed

text \<open>A step that each request in progress can overtake is overtaken by all of them.\<close>

lemma land_all_slides:
  assumes "\<And>nd nd'. same_node nd nd' \<Longrightarrow> same_node (fst (g nd)) (fst (g nd')) \<and> snd (g nd) = snd (g nd')"
    and "\<forall>t \<in> set fl. slides X g J t \<and> (\<forall>nd. sessions_wf nd \<longrightarrow> flying X nd t \<longrightarrow> J nd \<longrightarrow> J (land X t nd))"
    and "distinct (map flight_id fl)" "sessions_wf nd" "J nd" "\<forall>t \<in> set fl. flying X nd t"
  shows "same_node (fst (g (land_all X fl nd))) (land_all X fl (fst (g nd))) \<and> snd (g (land_all X fl nd)) = snd (g nd)"
  using assms(2-)
proof (induction fl arbitrary: nd)
  case (Cons t fl)
  have "flying X (land X t nd) u" if "u \<in> set fl" for u
    using Cons.prems that land_flying [of nd X t u] by force
  then have "\<forall>u \<in> set fl. flying X (land X t nd) u" by simp
  with Cons have "same_node (fst (g (land_all X fl (land X t nd)))) (land_all X fl (fst (g (land X t nd)))) \<and>
      snd (g (land_all X fl (land X t nd))) = snd (g (land X t nd))"
    by (simp add: land_wf)
  moreover have "same_node (fst (g (land X t nd))) (land X t (fst (g nd))) \<and> snd (g (land X t nd)) = snd (g nd)"
    using Cons.prems by (simp add: slides_def)
  ultimately show ?case
    using land_all_cong [of "fst (g (land X t nd))" "land X t (fst (g nd))" X fl] by (auto intro: same_node_trans)
qed simp

lemma land_middle:
  assumes "sessions_wf nd" "distinct (map flight_id (xs @ t # ys))" "\<forall>u \<in> set (xs @ t # ys). flying X nd u"
  shows "same_node (land_all X (xs @ t # ys) nd) (land_all X (xs @ ys) (land X t nd))"
proof -
  have "\<forall>u \<in> set xs. flight_id t \<noteq> flight_id u" using assms(2) by auto
  then have "\<forall>u \<in> set xs. slides X (\<lambda>nd. (land X t nd, ())) (\<lambda>nd. flying X nd t) u \<and>
      (\<forall>nd. sessions_wf nd \<longrightarrow> flying X nd u \<longrightarrow> flying X nd t \<longrightarrow> flying X (land X u nd) t)"
    using land_slides [of t] land_flying by metis
  from land_all_slides [OF _ this, of nd] assms land_cong
  have "same_node (land X t (land_all X xs nd)) (land_all X xs (land X t nd))" by auto
  then show ?thesis by (simp add: land_all_cong)
qed

text \<open>
  The requests one after the other give the node that the requests in progress are about to give,
  and the answers that were given and that will be given.
\<close>

definition in_step ::
  "cluster_env \<Rightarrow> 't sink \<Rightarrow> 't node \<Rightarrow> 't node \<Rightarrow> flight list \<Rightarrow> (entropy \<times> envelope) list \<Rightarrow> bool" where
  "in_step X K nd0 nd fl log \<longleftrightarrow> sessions_wf nd \<and> distinct (map flight_id fl) \<and> (\<forall>t \<in> set fl. flying X nd t) \<and>
     same_node (serve X K log nd0) (land_all X fl nd)"

definition answered ::
  "cluster_env \<Rightarrow> 't sink \<Rightarrow> 't node \<Rightarrow> 't node \<Rightarrow> flight list \<Rightarrow> (entropy \<times> envelope) list \<Rightarrow>
     (nat \<times> reply exec) list \<Rightarrow> bool" where
  "answered X K nd0 nd fl log ans \<longleftrightarrow>
     (\<forall>n rnd env a. Running n rnd env a \<in> set fl \<longrightarrow> n < length log \<and>
        replies X K log nd0 ! n = emap fst (snd (run_joiner X rnd env a nd))) \<and>
     (\<forall>n r. (n, r) \<in> set ans \<longrightarrow> n < length log \<and> r = replies X K log nd0 ! n) \<and>
     (\<forall>n < length log. n \<in> fst ` set ans \<or> (\<exists>rnd env a. Running n rnd env a \<in> set fl))"

lemma run_same_session:
  fixes nd nd' :: "'t node"
  assumes "nd_jheap nd' ! a = nd_jheap nd ! a"
  shows "snd (run_joiner X rnd env a nd') = snd (run_joiner X rnd env a nd)"
proof -
  obtain j g q where r: "\<And>v :: 't node. nd_jheap v ! a = nd_jheap nd ! a \<Longrightarrow>
      run_joiner X rnd env a v = (put_session a j g (e_invite_id env) v, q)"
    using run_joiner_put [of a nd X rnd env] by metis
  from r [of nd] r [of nd'] assms show ?thesis by simp
qed

lemma handle_next:
  assumes "in_step X K nd0 nd fl log" "\<forall>t \<in> set fl. apart env t"
  shows "same_node (serve X K (log @ [(rnd, env)]) nd0) (land_all X fl (fst (handle_request X K rnd env nd)))"
    "snd (handle_request X K rnd env (serve X K log nd0)) = snd (handle_request X K rnd env nd)"
proof -
  from assms(2) have "\<forall>t \<in> set fl. slides X (handle_request X K rnd env) (\<lambda>nd. True) t \<and>
      (\<forall>nd. sessions_wf nd \<longrightarrow> flying X nd t \<longrightarrow> True \<longrightarrow> True)"
    by (simp add: handle_slides)
  from land_all_slides [OF handle_cong this, of nd] assms(1)
  have s: "same_node (fst (handle_request X K rnd env (land_all X fl nd))) (land_all X fl (fst (handle_request X K rnd env nd)))"
      "snd (handle_request X K rnd env (land_all X fl nd)) = snd (handle_request X K rnd env nd)"
    by (simp_all add: in_step_def)
  from handle_cong [of "serve X K log nd0" "land_all X fl nd" X K rnd env] assms(1) s
  show "same_node (serve X K (log @ [(rnd, env)]) nd0) (land_all X fl (fst (handle_request X K rnd env nd)))"
    "snd (handle_request X K rnd env (serve X K log nd0)) = snd (handle_request X K rnd env nd)"
    by (auto simp: in_step_def serve_snoc intro: same_node_trans)
qed

lemma handle_flying:
  assumes wf: "sessions_wf nd" and fl: "flying X nd t" and "apart env t"
  shows "flying X (fst (handle_request X K rnd env nd)) t"
proof (cases "joins t")
  case True
  with assms handle_sessions(2) [of nd "flight_id t" env] show ?thesis
    by (cases t) (auto simp: apart_def sessions_wf_def)
next
  case False
  with assms have e: "e_invite_id env \<noteq> flight_id t \<or> e_phase env \<notin> {COMPLETION, DECLINE, FAIL, EXPIRED}"
    by (simp add: apart_def)
  then have "flight_id t \<noteq> e_invite_id env \<or> e_phase env \<notin> {DECLINE, FAIL, EXPIRED}"
    "e_invite_id env \<noteq> flight_id t \<or> e_phase env \<noteq> COMPLETION" by auto
  with wf False handle_inviters(2) [of nd "flight_id t" env X K rnd] put_inviter_handle [of nd "flight_id t" _ env X K rnd]
  have "flying X (fst (handle_request X K rnd env nd)) t = flying X nd t"
    by (intro flying_cong) (auto simp: sessions_wf_def)
  with fl show ?thesis by simp
qed

lemma handle_keeps_answer:
  assumes "sessions_wf nd" "flying X nd (Running n r e a)" "apart env (Running n r e a)"
  shows "snd (run_joiner X r e a (fst (handle_request X K rnd env nd))) = snd (run_joiner X r e a nd)"
  using assms put_session_handle [of nd "e_invite_id e" a env] by (intro run_same_session) (auto simp: apart_def sessions_wf_def)

lemma answered_next:
  assumes "answered X K nd0 nd fl log ans"
    and "snd (handle_request X K rnd env (serve X K log nd0)) = r"
    and "\<forall>n rnd env a. Running n rnd env a \<in> set fl \<longrightarrow>
      snd (run_joiner X rnd env a nd') = snd (run_joiner X rnd env a nd)"
  shows "answered X K nd0 nd' fl (log @ [(rnd, env)]) ((length log, r) # ans)"
  using assms by (auto simp: answered_def replies_snoc nth_append less_Suc_eq)

lemma whole_step:
  assumes "in_step X K nd0 nd fl log" "answered X K nd0 nd fl log ans" "\<forall>t \<in> set fl. apart env t"
    and h: "handle_request X K rnd env nd = (nd', r)"
  shows "in_step X K nd0 nd' fl (log @ [(rnd, env)])"
    "answered X K nd0 nd' fl (log @ [(rnd, env)]) ((length log, r) # ans)"
proof -
  have wf: "sessions_wf nd" and fl: "\<forall>t \<in> set fl. flying X nd t" using assms(1) by (simp_all add: in_step_def)
  show "in_step X K nd0 nd' fl (log @ [(rnd, env)])"
    using assms(1,3) handle_next(1) [OF assms(1,3), of rnd] handle_wf [OF wf, of X K rnd env]
      handle_flying [OF wf, of X _ env K rnd] h by (simp add: in_step_def)
  show "answered X K nd0 nd' fl (log @ [(rnd, env)]) ((length log, r) # ans)"
  proof (rule answered_next [OF assms(2)])
    show "snd (handle_request X K rnd env (serve X K log nd0)) = r"
      using handle_next(2) [OF assms(1,3), of rnd] h by simp
    have "snd (run_joiner X e v a nd') = snd (run_joiner X e v a nd)" if "Running n e v a \<in> set fl" for n e v a
      using handle_keeps_answer [OF wf, of X n e v a env K rnd] that fl assms(3) h by (metis fst_conv)
    then show "\<forall>n rnd env a. Running n rnd env a \<in> set fl \<longrightarrow>
        snd (run_joiner X rnd env a nd') = snd (run_joiner X rnd env a nd)" by blast
  qed
qed

lemma find_step:
  assumes "in_step X K nd0 nd fl log" "answered X K nd0 nd fl log ans" "\<forall>t \<in> set fl. e_invite_id env \<noteq> flight_id t"
    and q: "e_invite_id env \<noteq> []" "e_phase env = INITIAL" and f: "find_joiner X K env nd = (nd', Inr a)"
  shows "in_step X K nd0 nd' (Running (length log) rnd env a # fl) (log @ [(rnd, env)])"
    "answered X K nd0 nd' (Running (length log) rnd env a # fl) (log @ [(rnd, env)]) ans"
proof -
  have wf: "sessions_wf nd" and fl: "\<forall>t \<in> set fl. flying X nd t" using assms(1) by (simp_all add: in_step_def)
  then have jwf: "joiners_wf nd" by (simp add: sessions_wf_def)
  have ap: "\<forall>t \<in> set fl. apart env t" using assms(3) by (simp add: apart_def)
  let ?t = "Running (length log) rnd env a"
  have h: "handle_request X K rnd env nd = (land X ?t nd', emap fst (snd (run_joiner X rnd env a nd')))"
    using q f on_initial_alt [of X K rnd env nd "length log"] by (simp add: handle_request_def)
  have wf': "sessions_wf nd'"
    using wf found_session(2) [OF f jwf] inviters_wf_cong [of nd' nd] find_joiner_fields(2,3) [OF f]
    by (simp add: sessions_wf_def)
  have "flying X nd' t" if t: "t \<in> set fl" for t
  proof (cases "joins t")
    case True
    from t fl assms(3) have "flying X nd t" "e_invite_id env \<noteq> flight_id t" by auto
    with True found_session(3) [OF f jwf, of "flight_id t"] show ?thesis by (cases t) auto
  next
    case False
    with find_joiner_fields(2,3) [OF f] flying_cong [of t nd' nd X] fl t show ?thesis by simp
  qed
  moreover have "e_invite_id env \<notin> flight_id ` set fl" using assms(3) by force
  ultimately show "in_step X K nd0 nd' (?t # fl) (log @ [(rnd, env)])"
    using assms(1) wf' handle_next(1) [OF assms(1) ap, of rnd] found_session(1) [OF f jwf] h by (simp add: in_step_def)
  have "nd_jheap nd' ! b = nd_jheap nd ! b" if "Running n r e b \<in> set fl" for n r e b
    using find_keeps_session [of b nd X K env] fl jwf f that by (force simp: joiners_wf_def)
  then have "\<forall>n r e b. Running n r e b \<in> set fl \<longrightarrow> snd (run_joiner X r e b nd') = snd (run_joiner X r e b nd)"
    using run_same_session by metis
  with assms(2) handle_next(2) [OF assms(1) ap, of rnd] h
  show "answered X K nd0 nd' (?t # fl) (log @ [(rnd, env)]) ans"
    by (auto simp: answered_def replies_snoc nth_append less_Suc_eq) blast
qed

lemma run_step:
  assumes "in_step X K nd0 nd (xs @ Running n rnd env a # ys) log"
    and "answered X K nd0 nd (xs @ Running n rnd env a # ys) log ans"
    and r: "run_joiner X rnd env a nd = (nd', q)"
  shows "in_step X K nd0 nd' (xs @ Noting (e_invite_id env) (to_note q) # ys) log"
    "answered X K nd0 nd' (xs @ Noting (e_invite_id env) (to_note q) # ys) log ((n, emap fst q) # ans)"
proof -
  let ?t = "Running n rnd env a" and ?u = "Noting (e_invite_id env) (to_note q)"
  have wf: "sessions_wf nd" and fl: "\<forall>t \<in> set (xs @ ?t # ys). flying X nd t" and d: "distinct (map flight_id (xs @ ?t # ys))"
    and s: "same_node (serve X K log nd0) (land_all X (xs @ ?t # ys) nd)"
    using assms(1) by (simp_all add: in_step_def)
  have wf': "sessions_wf nd'"
    using wf run_wf [of nd X rnd env a] inviters_wf_cong [of nd' nd] run_joiner_fields(2,3) [OF r] r by (simp add: sessions_wf_def)
  have d': "distinct (map flight_id (xs @ ?u # ys))" using d by simp
  have other: "flight_id t \<noteq> e_invite_id env" if "t \<in> set xs \<union> set ys" for t
    using d that by (auto simp: image_iff)
  have "flying X nd' t = flying X nd t" if "t \<in> set xs \<union> set ys" for t
    using run_other_get [OF other [OF that], of X rnd a nd] run_joiner_fields(2,3) [OF r] r by (intro flying_cong) simp_all
  then have fl': "\<forall>t \<in> set (xs @ ?u # ys). flying X nd' t"
    using fl run_noted [of X rnd env a nd] r by auto
  have "land X ?t nd = land X ?u nd'" using r by simp
  with s land_middle [OF wf d fl] land_middle [OF wf' d' fl']
  have "same_node (serve X K log nd0) (land_all X (xs @ ?u # ys) nd')"
    by (metis same_node_sym same_node_trans)
  with wf' d' fl' show "in_step X K nd0 nd' (xs @ ?u # ys) log" by (simp add: in_step_def)
  have "snd (run_joiner X e v b nd') = snd (run_joiner X e v b nd)" if "Running m e v b \<in> set xs \<union> set ys" for m e v b
  proof -
    have "Running m e v b \<in> set (xs @ ?t # ys)" "?t \<in> set (xs @ ?t # ys)" using that by auto
    with fl have "flying X nd (Running m e v b)" "flying X nd ?t" by blast+
    then have "hm_get (nd_joiners nd) (e_invite_id v) = Some b" "hm_get (nd_joiners nd) (e_invite_id env) = Some a"
      by simp_all
    then have "a \<noteq> b" using other [OF that] wf session_apart [of nd "e_invite_id env" a "e_invite_id v" b] by (auto simp: sessions_wf_def)
    then have "nd_jheap nd' ! b = nd_jheap nd ! b" using run_keeps_session [of a b X rnd env nd] r by simp
    then show ?thesis by (rule run_same_session)
  qed
  then have keep: "\<forall>m e v b. Running m e v b \<in> set xs \<union> set ys \<longrightarrow> snd (run_joiner X e v b nd') = snd (run_joiner X e v b nd)"
    by blast
  have A: "\<And>m e v b. Running m e v b \<in> set (xs @ ?t # ys) \<Longrightarrow> m < length log \<and>
        replies X K log nd0 ! m = emap fst (snd (run_joiner X e v b nd))"
    "\<And>m z. (m, z) \<in> set ans \<Longrightarrow> m < length log \<and> z = replies X K log nd0 ! m"
    "\<And>m. m < length log \<Longrightarrow> m \<in> fst ` set ans \<or> (\<exists>e v b. Running m e v b \<in> set (xs @ ?t # ys))"
    using assms(2) unfolding answered_def by blast+
  show "answered X K nd0 nd' (xs @ ?u # ys) log ((n, emap fst q) # ans)"
    unfolding answered_def
  proof (intro conjI allI impI)
    fix m z
    assume "(m, z) \<in> set ((n, emap fst q) # ans)"
    then show "m < length log" "z = replies X K log nd0 ! m"
      using A(1) [of n rnd env a] A(2) [of m z] r by auto
  next
    fix m e v b
    assume "Running m e v b \<in> set (xs @ ?u # ys)"
    then have "Running m e v b \<in> set xs \<union> set ys" "Running m e v b \<in> set (xs @ ?t # ys)" by auto
    then show "m < length log" "replies X K log nd0 ! m = emap fst (snd (run_joiner X e v b nd'))"
      using A(1) [of m e v b] keep by auto
  next
    fix m
    assume "m < length log"
    with A(3) [of m] show "m \<in> fst ` set ((n, emap fst q) # ans) \<or> (\<exists>e v b. Running m e v b \<in> set (xs @ ?u # ys))"
      by auto
  qed
qed

lemma run_answers:
  "nd_jheap nd' = nd_jheap nd \<Longrightarrow> answered X K nd0 nd (xs @ t # ys) log ans \<Longrightarrow> \<forall>n rnd env a. t \<noteq> Running n rnd env a \<Longrightarrow>
   answered X K nd0 nd' (xs @ ys) log ans"
proof -
  assume a: "nd_jheap nd' = nd_jheap nd" "answered X K nd0 nd (xs @ t # ys) log ans" "\<forall>n rnd env a. t \<noteq> Running n rnd env a"
  then have "snd (run_joiner X e v b nd') = snd (run_joiner X e v b nd)" for e v b
    by (intro run_same_session) simp
  moreover have "Running n e v b \<in> set (xs @ ys) \<longleftrightarrow> Running n e v b \<in> set (xs @ t # ys)" for n e v b
    using a(3) by auto
  ultimately show ?thesis using a(2) by (simp only: answered_def simp_thms)
qed

text \<open>A request in progress that is done.\<close>

lemma landed_step:
  assumes "in_step X K nd0 nd (xs @ t # ys) log"
  shows "in_step X K nd0 (land X t nd) (xs @ ys) log"
proof -
  have p: "sessions_wf nd" "distinct (map flight_id (xs @ t # ys))" "\<forall>u \<in> set (xs @ t # ys). flying X nd u"
    "same_node (serve X K log nd0) (land_all X (xs @ t # ys) nd)"
    using assms by (simp_all add: in_step_def)
  have "flying X (land X t nd) u" if "u \<in> set xs \<union> set ys" for u
    using p(1-3) that land_flying [of nd X t u] by force
  with p land_middle [OF p(1-3)] land_wf [OF p(1), of X t] show ?thesis
    by (auto simp: in_step_def intro: same_node_trans)
qed

lemma enter_step:
  assumes "in_step X K nd0 nd (xs @ Noting iid po # ys) log" "answered X K nd0 nd (xs @ Noting iid po # ys) log ans"
  shows "in_step X K nd0 (note_pending po nd) (xs @ ys) log" "answered X K nd0 (note_pending po nd) (xs @ ys) log ans"
  using landed_step [OF assms(1)] run_answers [OF _ assms(2), of "note_pending po nd"] by simp_all

lemma look_step:
  assumes "in_step X K nd0 nd fl log" "answered X K nd0 nd fl log ans" "\<forall>t \<in> set fl. e_invite_id env \<noteq> flight_id t"
    and "e_invite_id env \<noteq> []" "e_phase env = COMPLETION" "hm_get (nd_inviters nd) (e_invite_id env) = Some a"
  shows "in_step X K nd0 nd (Looked rnd env a # fl) log" "answered X K nd0 nd (Looked rnd env a # fl) log ans"
  using assms by (auto simp: in_step_def answered_def image_iff)

lemma completion_handled:
  assumes "flying X nd (Looked rnd env a)" "run_inviter X rnd env a nd = (nd', q)"
  shows "handle_request X K rnd env nd = (pin_paired K (to_pin q) nd', emap fst q)"
  using assms by (simp add: handle_request_def completion_alt)

lemma unpaired_step:
  assumes "in_step X K nd0 nd (xs @ Looked rnd env a # ys) log" "answered X K nd0 nd (xs @ Looked rnd env a # ys) log ans"
    and "run_inviter X rnd env a nd = (nd', q)" "to_pin q = None"
  shows "in_step X K nd0 nd' (xs @ ys) (log @ [(rnd, env)])"
    "answered X K nd0 nd' (xs @ ys) (log @ [(rnd, env)]) ((length log, emap fst q) # ans)"
proof -
  have h: "handle_request X K rnd env nd = (nd', emap fst q)"
    using completion_handled [of X nd rnd env a nd' q K] assms by (simp add: in_step_def pin_paired_def)
  have ap: "\<forall>t \<in> set (xs @ ys). apart env t"
    using assms(1) by (auto simp: in_step_def apart_def image_iff)
  from whole_step [OF landed_step [OF assms(1), simplified] run_answers [OF _ assms(2)] ap h]
  show "in_step X K nd0 nd' (xs @ ys) (log @ [(rnd, env)])"
    "answered X K nd0 nd' (xs @ ys) (log @ [(rnd, env)]) ((length log, emap fst q) # ans)" by simp_all
qed

lemma accept_step:
  fixes nd :: "'t node"
  assumes s: "in_step X K nd0 nd (xs @ Looked rnd env a # ys) log" and "answered X K nd0 nd (xs @ Looked rnd env a # ys) log ans"
    and r: "run_inviter X rnd env a nd = (nd', Returned (r, Some p))"
  shows "in_step X K nd0 nd' (xs @ Pinning rnd env a (nd_iheap nd ! a) p r # ys) log"
    "answered X K nd0 nd' (xs @ Pinning rnd env a (nd_iheap nd ! a) p r # ys) log ans"
proof -
  let ?t = "Looked rnd env a" and ?u = "Pinning rnd env a (nd_iheap nd ! a) p r"
  have wf: "sessions_wf nd" and fl: "\<forall>t \<in> set (xs @ ?t # ys). flying X nd t" and d: "distinct (map flight_id (xs @ ?t # ys))"
    using s by (simp_all add: in_step_def)
  obtain v q where run: "\<And>nd' :: 't node. nd_iheap nd' ! a = nd_iheap nd ! a \<Longrightarrow> run_inviter X rnd env a nd' = (put_inviter a v nd', q)"
    using run_inviter_put [of a nd X rnd env] by metis
  from run [of nd] r have q: "nd' = put_inviter a v nd" "q = Returned (r, Some p)" by simp_all
  have t: "flying X nd ?t" using fl by simp
  with wf have "a < length (nd_iheap nd)" by (auto simp: sessions_wf_def inviters_wf_def)
  with t run q have "flying X nd' ?u" by simp
  moreover have "flying X nd' u" if "u \<in> set xs \<union> set ys" for u
  proof -
    have "flight_id u \<noteq> e_invite_id env" "flying X nd u" using d fl that by (auto simp: image_iff)
    with t wf inviter_apart [of nd "e_invite_id env" a "flight_id u"] have "flying X nd' u = flying X nd u"
      by (intro flying_cong) (auto simp: q(1) sessions_wf_def)
    with \<open>flying X nd u\<close> show ?thesis by simp
  qed
  ultimately have fl': "\<forall>t \<in> set (xs @ ?u # ys). flying X nd' t" by auto
  have wf': "sessions_wf nd'" using land_wf [OF wf, of X "Pinning rnd env a v p r"] q(1) by simp
  have d': "distinct (map flight_id (xs @ ?u # ys))" using d by simp
  have "land X ?u nd' = nd" by (simp add: q(1))
  with land_middle [OF wf' d' fl'] s have "same_node (serve X K log nd0) (land_all X (xs @ ?u # ys) nd')"
    by (simp add: in_step_def) (metis same_node_sym same_node_trans)
  with wf' d' fl' show "in_step X K nd0 nd' (xs @ ?u # ys) log" by (simp add: in_step_def)
  from run_answers [OF _ assms(2), of nd'] q(1) have "answered X K nd0 nd' (xs @ ys) log ans" by simp
  then show "answered X K nd0 nd' (xs @ ?u # ys) log ans" by (simp add: answered_def)
qed

lemma pin_step:
  assumes s: "in_step X K nd0 nd (xs @ Pinning rnd env a v p r # ys) log"
    and "answered X K nd0 nd (xs @ Pinning rnd env a v p r # ys) log ans"
  shows "in_step X K nd0 (pin_paired K (Some p) nd) (xs @ ys) (log @ [(rnd, env)])"
    "answered X K nd0 (pin_paired K (Some p) nd) (xs @ ys) (log @ [(rnd, env)]) ((length log, Returned r) # ans)"
proof -
  let ?t = "Pinning rnd env a v p r" and ?nd = "put_inviter a v nd"
  have t: "flying X nd ?t" and wf: "sessions_wf nd" using s by (simp_all add: in_step_def)
  then have "a < length (nd_iheap nd)" by (auto simp: sessions_wf_def inviters_wf_def)
  then have "nd_iheap ?nd ! a = v" by simp
  with t have run: "run_inviter X rnd env a ?nd = (put_inviter a (nd_iheap nd ! a) ?nd, Returned (r, Some p))" by simp
  from completion_handled [OF _ run, of K] t
  have h: "handle_request X K rnd env ?nd = (pin_paired K (Some p) nd, Returned r)" by simp
  have ap: "\<forall>t \<in> set (xs @ ys). apart env t"
    using s by (auto simp: in_step_def apart_def image_iff)
  from landed_step [OF s] have i: "in_step X K nd0 ?nd (xs @ ys) log" by simp
  from run_answers [OF _ assms(2), of ?nd] have a: "answered X K nd0 ?nd (xs @ ys) log ans" by simp
  show "in_step X K nd0 (pin_paired K (Some p) nd) (xs @ ys) (log @ [(rnd, env)])"
    "answered X K nd0 (pin_paired K (Some p) nd) (xs @ ys) (log @ [(rnd, env)]) ((length log, Returned r) # ans)"
    by (rule whole_step [OF i a ap h])+
qed

lemma clear_step:
  assumes "in_step X K nd0 nd (xs @ Clearing iid # ys) log" "answered X K nd0 nd (xs @ Clearing iid # ys) log ans"
  shows "in_step X K nd0 (clear_pending iid nd) (xs @ ys) log" "answered X K nd0 (clear_pending iid nd) (xs @ ys) log ans"
  using landed_step [OF assms(1)] run_answers [OF _ assms(2), of "clear_pending iid nd"] by simp_all

lemma cancel_step:
  assumes "in_step X K nd0 nd fl log" "answered X K nd0 nd fl log ans" "\<forall>t \<in> set fl. e_invite_id env \<noteq> flight_id t"
    and "e_invite_id env \<noteq> []" "e_phase env = CANCEL"
  shows "in_step X K nd0 (drop_joiner (e_invite_id env) nd) (Clearing (e_invite_id env) # fl) (log @ [(rnd, env)])"
    "answered X K nd0 (drop_joiner (e_invite_id env) nd) (Clearing (e_invite_id env) # fl) (log @ [(rnd, env)])
      ((length log, Returned (reply_ok default_envelope)) # ans)"
proof -
  let ?nd = "drop_joiner (e_invite_id env) nd"
  have wf: "sessions_wf nd" and fl: "\<forall>t \<in> set fl. flying X nd t" using assms(1) by (simp_all add: in_step_def)
  have ap: "\<forall>t \<in> set fl. apart env t" using assms(3) by (simp add: apart_def)
  have h: "handle_request X K rnd env nd = (land X (Clearing (e_invite_id env)) ?nd, Returned (reply_ok default_envelope))"
    using assms(4,5) by (simp add: handle_request_def on_signal_def drop_joiner_def clear_pending_def)
  have wf': "sessions_wf ?nd"
    using wf by (simp add: sessions_wf_def joiners_wf_def inviters_wf_def hm_simps)
  have "flying X ?nd t" if "t \<in> set fl" for t
  proof -
    have "flying X ?nd t = flying X nd t"
      using assms(3) that by (intro flying_cong) (auto simp: hm_simps)
    with fl that show ?thesis by simp
  qed
  then show "in_step X K nd0 ?nd (Clearing (e_invite_id env) # fl) (log @ [(rnd, env)])"
    using assms(1,3) wf' handle_next(1) [OF assms(1) ap, of rnd] h by (auto simp: in_step_def)
  have "snd (run_joiner X e v b ?nd) = snd (run_joiner X e v b nd)" for e v b
    by (rule run_same_session) simp
  then have "answered X K nd0 ?nd fl (log @ [(rnd, env)]) ((length log, Returned (reply_ok default_envelope)) # ans)"
    using handle_next(2) [OF assms(1) ap, of rnd] h by (intro answered_next [OF assms(2)]) simp_all
  then show "answered X K nd0 ?nd (Clearing (e_invite_id env) # fl) (log @ [(rnd, env)])
      ((length log, Returned (reply_ok default_envelope)) # ans)"
    by (simp add: answered_def)
qed

lemma concurrent_in_step:
  assumes "concurrent X K nd0 nd fl log ans" "sessions_wf nd0"
  shows "in_step X K nd0 nd fl log \<and> answered X K nd0 nd fl log ans"
  using assms
proof (induction rule: concurrent.induct)
  case start
  then show ?case by (simp add: in_step_def answered_def)
qed (blast intro: whole_step find_step run_step enter_step look_step unpaired_step accept_step pin_step cancel_step clear_step)+

text \<open>
  C16: requests to the pairing endpoint that are handled at the same time, in any interleaving of
  the critical sections of the handlers, leave the node, and get the answers, that the same requests
  get one after the other; requests that use the sessions of one invite are not handled at the same
  time. Pinning a peer is one section here. In pairing.rs it takes three locks in turn, and what is
  lost is the order in which two peers set the cluster id, which nothing reads.
\<close>
theorem concurrent_requests_serialize:
  assumes "concurrent X K nd0 nd [] log ans" "sessions_wf nd0"
  shows "same_node (serve X K log nd0) nd \<and>
    (\<forall>n < length log. map_of ans n = Some (replies X K log nd0 ! n))"
proof -
  have s: "in_step X K nd0 nd [] log" and a: "answered X K nd0 nd [] log ans"
    using concurrent_in_step [OF assms] by simp_all
  have "map_of ans n = Some (replies X K log nd0 ! n)" if "n < length log" for n
  proof -
    from a that have "n \<in> fst ` set ans" by (simp add: answered_def)
    then obtain r where "map_of ans n = Some r" by (metis map_of_eq_None_iff not_Some_eq)
    with a show ?thesis by (auto simp: answered_def dest: map_of_SomeD)
  qed
  with s show ?thesis by (simp add: in_step_def)
qed

section \<open>What a cancel in between does\<close>

lemma noted_pending:
  "hm_get (nd_pending (note_pending (Some p) nd)) = (hm_get (nd_pending nd))(pn_invite_id p \<mapsto> p)"
  by (simp add: note_pending_def hm_simps)

lemma unknown_invite:
  "is_valid_pin g \<Longrightarrow> hm_get (nd_joiners nd) iid = None \<Longrightarrow>
   submit_pin X K N rnd iid g (w, nd) = Some ((w, nd), Returned (Inl UnknownInvite))"
  by (simp add: submit_pin_def)

text \<open>An invite that the operator is asked about and that no PIN can accept.\<close>

definition dead_invite :: "string \<Rightarrow> 't node \<Rightarrow> bool" where
  "dead_invite iid nd \<longleftrightarrow> hm_get (nd_pending nd) iid \<noteq> None \<and> hm_get (nd_joiners nd) iid = None"

lemma initial_enters_live:
  assumes "hm_get (nd_pending nd) (e_invite_id env) = None"
  shows "\<not> dead_invite (e_invite_id env) (fst (on_initial_request X K rnd env nd))"
proof -
  obtain nd1 q where f: "find_joiner X K env nd = (nd1, q)" by fastforce
  then have p: "hm_get (nd_pending nd1) (e_invite_id env) = None" using assms find_joiner_fields(4) by metis
  show ?thesis
  proof (cases q)
    case (Inr a)
    with f have "hm_get (nd_joiners nd1) (e_invite_id env) = Some a"
      by (auto simp: find_joiner_def hm_simps split: option.splits if_splits)
    with f Inr p show ?thesis
      by (auto simp: on_initial_alt [where n = 0] dead_invite_def run_joiner_def Let_def case_prod_beta note_pending_def
          split: exec.split sum.split option.split)
  qed (use f p in \<open>simp add: on_initial_alt [where n = 0] dead_invite_def\<close>)
qed

text \<open>
  C22: when the inviter cancels after the session of its Initial request has answered, but before the
  handler has entered the invite, the invite is pending though its session is gone: the operator is
  asked for a PIN, and every PIN is refused as one for an unknown invite. The same two requests one
  after the other, in either order, leave no such invite.
\<close>
theorem cancel_leaves_dead_invite:
  assumes f: "find_joiner X K env nd = (nd1, Inr a)" and r: "run_joiner X rnd env a nd1 = (nd2, Returned (v, Some p))"
    and c: "e_phase sig = CANCEL" "e_invite_id sig = e_invite_id env" and g: "is_valid_pin g"
    and e: "e_phase env = INITIAL" "e_invite_id env \<noteq> []"
  shows "dead_invite (e_invite_id env) (note_pending (Some p) (fst (handle_request X K rnd sig nd2))) \<and>
    submit_pin X K N rnd' (e_invite_id env) g (w, note_pending (Some p) (fst (handle_request X K rnd sig nd2))) =
      Some ((w, note_pending (Some p) (fst (handle_request X K rnd sig nd2))), Returned (Inl UnknownInvite)) \<and>
    \<not> dead_invite (e_invite_id env) (serve X K [(rnd, env), (rnd, sig)] nd) \<and>
    \<not> dead_invite (e_invite_id env) (serve X K [(rnd, sig), (rnd, env)] nd)"
proof -
  let ?dead = "note_pending (Some p) (fst (handle_request X K rnd sig nd2))"
  have id: "pn_invite_id p = e_invite_id env" using run_noted [of X rnd env a nd1 p] r by simp
  have s: "fst (handle_request X K rnd sig v) = v\<lparr>nd_joiners := hm_remove (e_invite_id env) (nd_joiners v),
      nd_pending := hm_remove (e_invite_id env) (nd_pending v)\<rparr>" for v
    using c e by (simp add: handle_request_def on_signal_def)
  have j: "hm_get (nd_joiners ?dead) (e_invite_id env) = None" by (simp add: s hm_simps)
  have "\<not> dead_invite (e_invite_id env) (fst (handle_request X K rnd env (fst (handle_request X K rnd sig nd))))"
    using initial_enters_live [of "fst (handle_request X K rnd sig nd)" env X K rnd] e
    by (simp add: handle_request_def [of X K rnd env] s hm_simps)
  with unknown_invite [OF g j] j show ?thesis
    by (simp add: dead_invite_def noted_pending id s hm_simps)
qed

text \<open>
  C23: when an Initial request for a pending invite cannot be read, its session is dropped and the
  invite stays pending: \<open>openpair-node join\<close> then asks for the PIN of this invite, contacts
  nobody, and ends with the error that the invite is unknown. While the operator types, other tasks
  may do anything but bring a session for the invite back.
\<close>
theorem bad_request_strands_invite:
  assumes "hm_get (nd_joiners nd) iid = Some a" "nd_pending nd = [(iid, p)]" "pn_invite_id p = iid" "iid \<noteq> []"
    and "wire_of (js (ce X)) (blob X env) = None" "e_phase env = INITIAL" "e_invite_id env = iid"
    and "\<not> is_clustered K (nd_trust nd)" "is_valid_pin (trim line)"
    and "\<And>s. hm_get (nd_joiners (snd s)) iid = None \<Longrightarrow>
      snd (ask s) = Some line \<and> hm_get (nd_joiners (snd (fst (ask s)))) iid = None"
  shows "\<exists>nd' r. handle_request X K rnd env nd = (nd', Returned r) \<and> rp_status r = 400 \<and> dead_invite iid nd' \<and>
    run_join X K N rnd' tick ask (Inr (w, nd')) = Some (Some (fst (ask (w, nd'))), Returned (Inl (Drive UnknownInvite)))"
proof -
  have "joiner_on_initial X rnd (nd_jheap nd ! a) (blob X env) =
      (nd_jheap nd ! a, Returned (Inl (''eap-noob: malformed JSON'')))"
    using assms(5) by (simp add: joiner_on_initial_def peer_receive_def)
  then have "run_joiner X rnd env a nd = (nd\<lparr>nd_joiners := hm_remove iid (nd_joiners nd)\<rparr>,
      Returned (bad_request iid INITIAL ''eap-noob: malformed JSON'', None))"
    using assms(7) by (simp add: run_joiner_def)
  then have h: "handle_request X K rnd env nd = (nd\<lparr>nd_joiners := hm_remove iid (nd_joiners nd)\<rparr>,
      Returned (bad_request iid INITIAL ''eap-noob: malformed JSON''))"
    using assms by (simp add: handle_request_def on_initial_request_def find_joiner_def note_pending_def)
  let ?nd = "nd\<lparr>nd_joiners := hm_remove iid (nd_joiners nd)\<rparr>"
  have "await_invite K tick 0 (w, ?nd) = Some ((w, ?nd), Some p)"
    using assms(2,8) by (subst await_invite.simps) (simp add: pending_invites_def hm_values_def)
  moreover have gone: "hm_get (nd_joiners (snd (w, ?nd))) iid = None" by (simp add: hm_simps)
  obtain w1 nd1 where ask: "ask (w, ?nd) = ((w1, nd1), Some line)" using assms(10) [OF gone] by (metis prod.collapse)
  moreover from assms(10) [OF gone] ask have "hm_get (nd_joiners nd1) iid = None" by simp
  ultimately have "run_join X K N rnd' tick ask (Inr (w, ?nd)) =
      Some (Some (fst (ask (w, ?nd))), Returned (Inl (Drive UnknownInvite)))"
    using unknown_invite [OF assms(9), of nd1 iid X K N rnd' w1] assms(3) by (simp add: run_join_def prompt_pin_def)
  moreover have "dead_invite iid ?nd" using assms(2) by (simp add: dead_invite_def hm_simps) (simp add: hm_get_def)
  ultimately show ?thesis using h by simp
qed

section \<open>Witnesses\<close>

text \<open>A Discovery message, a node nobody has contacted, and one that waits for the PIN of an invite.\<close>

definition demo_hello :: "string \<Rightarrow> envelope" where
  "demo_hello iid = with_msg demo_X iid INITIAL (srv_start demo_env server_new)"

definition demo_idle :: "paired list node" where
  "demo_idle = node_new \<lparr>np_identity = demo_identity, np_name = [], np_cluster_id = [], np_cluster_friendly_name = [],
     np_admission_epoch = 1, np_advertised_addr = []\<rparr> []"

definition demo_waiting :: "paired list node" where
  "demo_waiting = demo_idle\<lparr>nd_joiners := [(''i'', 0)],
     nd_jheap := [\<lparr>j_peer = peer_new\<lparr>p_state := Waiting\<rparr>, j_inviter = Some \<lparr>pid_info = demo_info [] [], pid_cert = []\<rparr>\<rparr>],
     nd_pending := [(''i'', pending_of ''i'' \<lparr>pid_info = demo_info [] [], pid_cert = []\<rparr>)]\<rparr>"

lemma demo_hello_fields [simp]: "e_invite_id (demo_hello iid) = iid" "e_phase (demo_hello iid) = INITIAL"
  by (simp_all add: demo_hello_def)

lemma demo_hello_first: "first_type_of demo_codec (blob demo_X (demo_hello iid)) = Some 1"
proof -
  have "wire_ok (js (ce demo_X)) (empty_wire\<lparr>w_type := Some 1\<rparr>)"
    by (simp add: wire_ok_def raw_fields_def int_fields_def)
  from codec_okD(5) [OF demo_X_ok wire_of_bytes [OF codec_okD(1) [OF demo_X_ok] this]]
  show ?thesis using demo_X_ok by (simp add: demo_hello_def srv_start_def)
qed

definition demo_inviting :: "paired list node" where
  "demo_inviting = demo_idle\<lparr>nd_inviters := [(''k'', 0)], nd_iheap := [inviter_new demo_X (demo_info [] [])]\<rparr>"

lemma demo_inviting_wf: "sessions_wf demo_inviting"
  using sessions_wf_new [of "nd_profile demo_idle" "[] :: paired list"]
  by (auto simp: demo_inviting_def demo_idle_def sessions_wf_def joiners_wf_def inviters_wf_def node_new_def hm_get_def)

text \<open>Two Initial requests and the start of a Completion exchange, section by section.\<close>

definition demo_log :: "(entropy \<times> envelope) list" where
  "demo_log = [(demo_rnd, demo_hello ''i''), (demo_rnd, demo_hello ''j''), (demo_rnd, signal ''k'' COMPLETION [])]"

theorem concurrent_requests_serialize_witness:
  "\<exists>nd r r' r''. concurrent demo_X toy_sink demo_inviting nd [] demo_log [(2, r''), (0, r), (1, r')] \<and>
     [r, r', r''] = replies demo_X toy_sink demo_log demo_inviting \<and>
     same_node (serve demo_X toy_sink demo_log demo_inviting) nd"
proof -
  let ?e = "demo_hello ''i''" and ?f = "demo_hello ''j''" and ?k = "signal ''k'' COMPLETION []"
  let ?log = "[(demo_rnd, ?e), (demo_rnd, ?f)]"
  have k: "e_invite_id ?k = ''k''" "e_phase ?k = COMPLETION" by (simp_all add: signal_def default_envelope_def)
  obtain n1 where n1: "find_joiner demo_X toy_sink ?e demo_inviting = (n1, Inr 0)" "nd_joiners n1 = [(''i'', 0)]" "nd_trust n1 = []"
    by (simp add: find_joiner_def demo_inviting_def demo_idle_def node_new_def hm_simps demo_hello_first toy_sink_def hm_insert_def)
  obtain n2 b where n2: "find_joiner demo_X toy_sink ?f n1 = (n2, Inr b)"
    using n1(2,3) by (simp add: find_joiner_def hm_get_def demo_hello_first toy_sink_def)
  obtain n3 q3 where n3: "run_joiner demo_X demo_rnd ?f b n2 = (n3, q3)" by fastforce
  obtain n4 q4 where n4: "run_joiner demo_X demo_rnd ?e 0 n3 = (n4, q4)" by fastforce
  obtain n5 q5 where n5: "run_inviter demo_X demo_rnd ?k 0 n4 = (n5, q5)" by fastforce
  then have q5: "to_pin q5 = None" by (auto simp: run_inviter_def)
  note c0 = concurrent.start [of demo_X toy_sink demo_inviting]
  have "concurrent demo_X toy_sink demo_inviting demo_inviting [Looked demo_rnd ?k 0] [] []"
    by (rule concurrent.look [OF c0]) (simp_all add: k demo_inviting_def hm_get_def)
  from concurrent.find [OF this _ _ _ n1(1), of demo_rnd] k
  have c1: "concurrent demo_X toy_sink demo_inviting n1 [Running 0 demo_rnd ?e 0, Looked demo_rnd ?k 0] [(demo_rnd, ?e)] []" by simp
  from concurrent.find [OF c1 _ _ _ n2, of demo_rnd] k
  have "concurrent demo_X toy_sink demo_inviting n2 [Running 1 demo_rnd ?f b, Running 0 demo_rnd ?e 0, Looked demo_rnd ?k 0] ?log []"
    by simp
  from concurrent.run [where xs = "[]", simplified, OF this n3]
  have "concurrent demo_X toy_sink demo_inviting n3
      [Noting ''j'' (to_note q3), Running 0 demo_rnd ?e 0, Looked demo_rnd ?k 0] ?log [(1, emap fst q3)]" by simp
  from concurrent.run [where xs = "[Noting ''j'' (to_note q3)]", simplified, OF this n4]
  have "concurrent demo_X toy_sink demo_inviting n4
      ([Noting ''j'' (to_note q3), Noting ''i'' (to_note q4)] @ Looked demo_rnd ?k 0 # []) ?log
      [(0, emap fst q4), (1, emap fst q3)]" by simp
  from concurrent.unpaired [OF this n5 q5]
  have "concurrent demo_X toy_sink demo_inviting n5 [Noting ''j'' (to_note q3), Noting ''i'' (to_note q4)] demo_log
      [(2, emap fst q5), (0, emap fst q4), (1, emap fst q3)]" by (simp add: demo_log_def numeral_2_eq_2)
  from concurrent.enter [where xs = "[]", simplified, OF this]
  have c: "concurrent demo_X toy_sink demo_inviting (note_pending (to_note q4) (note_pending (to_note q3) n5)) [] demo_log
      [(2, emap fst q5), (0, emap fst q4), (1, emap fst q3)]"
    using concurrent.enter [where xs = "[]"] by fastforce
  note s = concurrent_requests_serialize [OF c demo_inviting_wf, THEN conjunct1]
    concurrent_requests_serialize [OF c demo_inviting_wf, THEN conjunct2, rule_format, of 0]
    concurrent_requests_serialize [OF c demo_inviting_wf, THEN conjunct2, rule_format, of 1]
    concurrent_requests_serialize [OF c demo_inviting_wf, THEN conjunct2, rule_format, of 2]
  from s(2-4) have "[emap fst q4, emap fst q3, emap fst q5] = replies demo_X toy_sink demo_log demo_inviting"
    by (simp add: demo_log_def)
  with c s(1) show ?thesis by blast
qed

lemma demo_waiting_facts:
  "find_joiner demo_X toy_sink env demo_waiting = (demo_waiting, Inr 0)" if "e_invite_id env = ''i''"
  using that by (simp add: find_joiner_def demo_waiting_def hm_get_def)

theorem cancel_leaves_dead_invite_witness:
  "\<exists>nd2 p. run_joiner demo_X demo_rnd (demo_hello ''i'') 0 demo_waiting =
       (nd2, Returned (reply_ok (with_msg demo_X ''i'' INITIAL (wire_bytes demo_env (type1_response demo_env (peer_new\<lparr>p_state := Waiting\<rparr>)))), Some p)) \<and>
     dead_invite ''i'' (note_pending (Some p) (fst (handle_request demo_X toy_sink demo_rnd (signal ''i'' CANCEL []) nd2)))"
proof -
  let ?p = "peer_new\<lparr>p_state := Waiting\<rparr>" and ?w = "\<lparr>pid_info = demo_info [] [], pid_cert = []\<rparr>"
  have "peer_receive demo_env demo_rnd ?p (srv_start demo_env server_new) = (?p, Returned (send_outcome demo_env (type1_response demo_env ?p)))"
    by (rule peer_gets_discovery) (use codec_okD(1) [OF demo_X_ok] in simp)
  then have r: "run_joiner demo_X demo_rnd (demo_hello ''i'') 0 demo_waiting = (demo_waiting,
      Returned (reply_ok (with_msg demo_X ''i'' INITIAL (wire_bytes demo_env (type1_response demo_env ?p))), Some (pending_of ''i'' ?w)))"
    by (simp add: run_joiner_def joiner_on_initial_def demo_waiting_def demo_hello_def demo_X_ok)
  have "is_valid_pin ''123456''" by code_simp
  from cancel_leaves_dead_invite [OF demo_waiting_facts r, of "signal ''i'' CANCEL []" "''123456''"] this r show ?thesis
    by fastforce
qed

theorem bad_request_strands_invite_witness:
  "\<exists>nd. dead_invite ''i'' nd \<and>
     run_join demo_X toy_sink (\<lambda>a e w. (w, Inl [])) (\<lambda>i. demo_rnd) (\<lambda>i st. st) (\<lambda>st. (st, Some ''123456'')) (Inr ((), nd)) =
       Some (Some ((), nd), Returned (Inl (Drive UnknownInvite)))"
proof -
  have "hm_get (nd_joiners demo_waiting) ''i'' = Some 0"
    "nd_pending demo_waiting = [(''i'', pending_of ''i'' \<lparr>pid_info = demo_info [] [], pid_cert = []\<rparr>)]"
    "\<not> is_clustered toy_sink (nd_trust demo_waiting)"
    by (simp_all add: demo_waiting_def demo_idle_def node_new_def toy_sink_def hm_get_def)
  moreover have "wire_of (js (ce demo_X)) (blob demo_X (signal ''i'' INITIAL [])) = None"
    using codec_okD(7) [OF demo_X_ok] by (simp add: blob_def signal_def default_envelope_def)
  moreover have "is_valid_pin (trim ''123456'')" by code_simp
  ultimately show ?thesis
    using bad_request_strands_invite [of demo_waiting "''i''" 0 _ demo_X "signal ''i'' INITIAL []" toy_sink "''123456''"
        "\<lambda>st. (st, Some ''123456'')" demo_rnd "\<lambda>a e w. (w, Inl [])" "\<lambda>i. demo_rnd" "\<lambda>i st. st" "()"]
    by (auto simp: pending_of_def)
qed

end
