(* ===== verification/Emits.thy ===== *)
theory Emits
  imports Daemon
begin

text \<open>
  What the two machines of crates/pair-pairing/src/machine.rs write to the network, and how far the
  six digits of the PIN protect an exchange.
\<close>

section \<open>Messages\<close>

text \<open>The three kinds of message: an error, the result of the method, and a step of an exchange.\<close>

definition message_kind :: "wire \<Rightarrow> outcome \<Rightarrow> bool" where
  "message_kind w out \<longleftrightarrow>
     w_type w = Some 0 \<and> w_eap w = None \<and> o_error_code out \<noteq> None \<and> w_error_code w = o_error_code out \<and>
       w_error_info w = o_error out \<and> o_done out \<and> \<not> o_success out \<or>
     w_type w = None \<and> w_error_code w = None \<and> o_error_code out = None \<and> o_done out \<and>
       w_eap w = Some (if o_success out then ''success'' else ''failure'') \<or>
     w_type w \<in> Some ` {1..6} \<and> w_error_code w = None \<and> w_eap w = None \<and> o_error_code out = None \<and> \<not> o_done out"

definition speaks :: "env \<Rightarrow> outcome exec \<Rightarrow> bool" where
  "speaks E r \<longleftrightarrow> (\<forall>out m. r = Returned out \<longrightarrow> o_send out = Some m \<longrightarrow>
     (\<exists>w. wire_ok (js E) w \<and> m = wire_bytes E w \<and> message_kind w out))"

lemma speaks_stuck [simp]: "speaks E Panicked" "speaks E Diverged"
  by (simp_all add: speaks_def)

lemma speaks_silent [simp]: "o_send out = None \<Longrightarrow> speaks E (Returned out)"
  by (simp add: speaks_def)

lemma speaksI:
  "o_send out = Some (wire_bytes E w) \<Longrightarrow> wire_ok (js E) w \<Longrightarrow> message_kind w out \<Longrightarrow> speaks E (Returned out)"
  by (auto simp: speaks_def)

lemma speaks_send:
  "wire_ok (js E) w \<Longrightarrow> w_type w \<in> Some ` {1..6} \<Longrightarrow> w_error_code w = None \<Longrightarrow> w_eap w = None \<Longrightarrow>
   speaks E (Returned (send_outcome E w))"
  by (auto simp: speaks_def send_outcome_def message_kind_def default_outcome_def)

lemma speaks_fail_code: "in_i64 c \<Longrightarrow> speaks E (Returned (fail_code E c txt))"
  by (rule speaksI [where w = "empty_wire\<lparr>w_type := Some 0, w_error_code := Some c, w_error_info := Some txt\<rparr>"])
    (simp_all add: fail_code_def err_bytes_def message_kind_def default_outcome_def wire_ok_def
      raw_fields_def int_fields_def)

lemma codes_in_i64 [simp]:
  "in_i64 INVALID_DATA" "in_i64 UNRECOGNIZED_OOB_MSG_ID" "in_i64 HMAC_VERIFICATION_FAILED"
  by (simp_all add: in_i64_def INVALID_DATA_def UNRECOGNIZED_OOB_MSG_ID_def HMAC_VERIFICATION_FAILED_def)

lemma speaks_fails [simp]:
  "speaks E (Returned (fail E txt))"
  "speaks E (Returned (fail_code E UNRECOGNIZED_OOB_MSG_ID txt))"
  "speaks E (Returned (fail_code E HMAC_VERIFICATION_FAILED txt))"
  by (simp_all add: fail_def speaks_fail_code)

lemma speaks_success [simp]:
  "speaks E (Returned (default_outcome\<lparr>o_send := Some (result_bytes E ''success''), o_done := True, o_success := True\<rparr>))"
  by (rule speaksI [where w = "empty_wire\<lparr>w_eap := Some ''success''\<rparr>"])
    (simp_all add: result_bytes_def message_kind_def default_outcome_def wire_ok_def raw_fields_def int_fields_def)

lemma speaks_failure [simp]: "speaks E (Returned (srv_done_failure E))"
  by (rule speaksI [where w = "empty_wire\<lparr>w_eap := Some ''failure''\<rparr>"])
    (simp_all add: srv_done_failure_def result_bytes_def message_kind_def default_outcome_def wire_ok_def
      raw_fields_def int_fields_def)

lemmas message_parts = wire_ok_def raw_fields_def int_fields_def

section \<open>The server\<close>

lemma speaks_peer_id_message: "json_ok (js E) \<Longrightarrow> t \<in> {1..6} \<Longrightarrow> speaks E (peer_id_message E t s)"
  by (auto simp: peer_id_message_def json_okD message_parts in_i64_def intro!: speaks_send)

lemma speaks_completion: "json_ok (js E) \<Longrightarrow> speaks E (snd (build_completion E s))"
  by (auto simp: build_completion_def Let_def json_okD message_parts intro!: speaks_send
      split: exec.split option.split)

lemma speaks_start_completion: "json_ok (js E) \<Longrightarrow> speaks E (snd (start_completion E s))"
  by (simp add: start_completion_def speaks_completion speaks_peer_id_message)

lemma speaks_negotiation: "json_ok (js E) \<Longrightarrow> srv_wf E s \<Longrightarrow> speaks E (snd (build_negotiation E rnd s))"
  by (auto simp: build_negotiation_def Let_def json_okD message_parts srv_wf_def intro!: speaks_send)

lemma speaks_key_exchange: "json_ok (js E) \<Longrightarrow> speaks E (snd (build_key_exchange E rnd s))"
  by (auto simp: build_key_exchange_def Let_def json_okD message_parts intro!: speaks_send split: option.split)

lemma srv_speaks:
  assumes "json_ok (js E)" "srv_wf E s"
  shows "speaks E (snd (srv_receive E rnd s input))"
proof -
  have "srv_wf E (s\<lparr>s_peer_state := ps, s_m := m\<rparr>)" for ps m using assms(2) by (simp add: srv_wf_def)
  then have d: "speaks E (snd (srv_on_discovery E rnd s wm))" for wm
    using assms(1) by (simp add: srv_on_discovery_def Let_def speaks_start_completion speaks_negotiation
        build_waiting_def speaks_peer_id_message)
  have n: "speaks E (snd (srv_on_negotiation E rnd s wm))" for wm
    using assms(1) by (simp add: srv_on_negotiation_def Let_def speaks_key_exchange)
  have k: "speaks E (snd (srv_on_key_exchange E s wm))" for wm
    by (simp add: srv_on_key_exchange_def split: option.split sum.split)
  have i: "speaks E (snd (srv_on_noob_id E s wm))" for wm
    using assms(1) by (simp add: srv_on_noob_id_def Let_def speaks_completion)
  have c: "speaks E (snd (srv_on_completion E s wm))" for wm
    by (simp add: srv_on_completion_def Let_def split: option.split)
  have "o_send (peer_error_outcome code i) = None" for code i
    by (simp add: peer_error_outcome_def default_outcome_def)
  then show ?thesis
    by (simp add: srv_receive_def srv_dispatch_def d n k i c split: option.split)
qed

section \<open>The peer\<close>

lemma peer_speaks:
  assumes "json_ok (js E)" "peer_wf E p"
  shows "speaks E (snd (peer_receive E rnd p input))"
proof -
  have d: "speaks E (snd (peer_on_discovery E p))"
    using assms(1) by (auto simp: peer_on_discovery_def Let_def json_okD message_parts intro!: speaks_send)
  have n: "speaks E (snd (peer_on_negotiation E p wm))" for wm
  proof (cases rule: peer_on_negotiation_cases [of E p wm])
    case (chosen pid v c d)
    have "v = 1"
      using chosen(3) assms(2) best_version_from_spec [of None _ "[1]" "Some v"]
      by (simp add: peer_wf_def best_version_def)
    moreover have "c = 1 \<or> c = 2"
      using first_supported_Some [OF chosen(4)] assms(2) by (simp add: peer_wf_def)
    moreover have "d = 1 \<or> d = 2"
      using chosen(5) assms(2) choose_dir_Some by (simp add: peer_wf_def)
    ultimately have "in_i64 v" "in_i64 c" "in_i64 d" by (auto simp: in_i64_def)
    with chosen(1) assms show ?thesis
      by (auto simp: peer_negotiation_reply_def json_okD peer_wf_def message_parts intro!: speaks_send)
  qed simp_all
  have r: "speaks E (peer_key_reply E rnd p kp)" for kp
    using assms(1) by (auto simp: peer_key_reply_def json_okD message_parts intro!: speaks_send)
  then have k: "speaks E (snd (peer_on_key_exchange E rnd p wm))" for wm
    by (simp add: peer_on_key_exchange_def Let_def split: option.split sum.split exec.split) metis
  have w: "speaks E (snd (peer_on_waiting E p))"
    using assms(1) by (auto simp: peer_on_waiting_def json_okD message_parts intro!: speaks_send)
  have i: "speaks E (snd (peer_on_noob_id E p))"
    using assms(1) by (auto simp: peer_on_noob_id_def json_okD message_parts intro!: speaks_send)
  have c: "speaks E (snd (peer_on_completion E p wm))" for wm
    using assms(1) by (auto simp: peer_on_completion_def Let_def json_okD message_parts intro!: speaks_send
        split: exec.split option.split)
  have e: "o_send (peer_error_outcome code i) = None" for code i
    by (simp add: peer_error_outcome_def default_outcome_def)
  have s: "speaks E (snd (peer_on_result p eap))" for eap
    by (simp add: peer_on_result_def default_outcome_def)
  show ?thesis
    by (simp add: peer_receive_def peer_dispatch_def d n k w i c e s split: option.split)
qed

text \<open>
  C13: whatever bytes a machine has received and receives, everything it sends is a message of the
  wire format, which the reader of the other side takes back apart: an error with the code and text of
  the outcome, a result at the end of the method, or a message of Type 1 to 6 that goes on.
\<close>
theorem machines_send_messages:
  assumes "json_ok (js E)" "crypto_ok (cr E)" "raw_ok (js E) info"
  shows "(srv_reach E (with_server_info server_new info) s \<longrightarrow>
      snd (srv_receive E rnd s input) = Returned out \<longrightarrow> o_send out = Some m \<longrightarrow>
      (\<exists>w. wire_of (js E) m = Some w \<and> message_kind w out)) \<and>
    (peer_reach E (with_peer_info peer_new info) p \<longrightarrow>
      snd (peer_receive E rnd p input) = Returned out \<longrightarrow> o_send out = Some m \<longrightarrow>
      (\<exists>w. wire_of (js E) m = Some w \<and> message_kind w out))"
proof -
  have read: "\<exists>w. wire_of (js E) m = Some w \<and> message_kind w out"
    if "speaks E r" "r = Returned out" "o_send out = Some m" for r
    using that wire_of_bytes [OF assms(1)] by (auto simp: speaks_def)
  show ?thesis
  proof (intro conjI impI)
    assume "srv_reach E (with_server_info server_new info) s"
    then have "srv_wf E s" using srv_reach_inv [OF assms(2,3)] by (simp add: srv_inv_def)
    then show "snd (srv_receive E rnd s input) = Returned out \<Longrightarrow> o_send out = Some m \<Longrightarrow>
        \<exists>w. wire_of (js E) m = Some w \<and> message_kind w out"
      by (rule read [OF srv_speaks [OF assms(1)]])
  next
    assume "peer_reach E (with_peer_info peer_new info) p"
    then have "peer_wf E p" using peer_reach_inv [OF assms(2,3)] by (simp add: peer_inv_def)
    then show "snd (peer_receive E rnd p input) = Returned out \<Longrightarrow> o_send out = Some m \<Longrightarrow>
        \<exists>w. wire_of (js E) m = Some w \<and> message_kind w out"
      by (rule read [OF peer_speaks [OF assms(1)]])
  qed
qed

section \<open>Trying every PIN\<close>

text \<open>
  A node that was invited and does not know the PIN runs the program's own joiner with one guess after
  the other: it claims the NoobId of the guess, lets its machine read the answer, and when that is
  no error sends what the machine answers. The result is the guess that went through, and how many
  requests were sent.
\<close>

definition guess_peer :: "cluster_env \<Rightarrow> peer \<Rightarrow> nat \<Rightarrow> peer" where
  "guess_peer X p n = peer_with_noob (ce X) (noob_from_pin (mint_pin n)) p"

definition guess_request :: "cluster_env \<Rightarrow> string \<Rightarrow> peer \<Rightarrow> nat \<Rightarrow> envelope" where
  "guess_request X iid p n =
     with_msg X iid COMPLETION (wire_bytes (ce X)
       (type5_response (ce X) (m_peer_id (p_m p)) (m_noob_id (p_m (guess_peer X p n)))))"

fun pin_search ::
  "cluster_env \<Rightarrow> 't sink \<Rightarrow> entropy \<Rightarrow> string \<Rightarrow> peer \<Rightarrow> nat \<Rightarrow> nat \<Rightarrow> 't node \<Rightarrow> 't node \<times> (nat \<times> nat) option" where
  "pin_search X K rnd iid p 0 n nd = (nd, None)"
| "pin_search X K rnd iid p (Suc fuel) n nd =
     (case handle_request X K rnd (guess_request X iid p n) nd of
        (nd1, Returned r) \<Rightarrow>
          (case peer_receive (ce X) rnd (guess_peer X p n) (blob X (rp_envelope r)) of
             (q, Returned out) \<Rightarrow>
               if o_error out \<noteq> None then pin_search X K rnd iid p fuel (Suc n) nd1
               else (fst (handle_request X K rnd (with_msg X iid COMPLETION (sent (Returned out))) nd1), Some (n, n + 2))
           | _ \<Rightarrow> (nd1, None))
      | (nd1, _) \<Rightarrow> (nd1, None))"

definition pin_noob_id :: "cluster_env \<Rightarrow> nat \<Rightarrow> bytes" where
  "pin_noob_id X n =
     compute_noob_id (cr (ce X)) (jstr (ce X) (b64 (ce X) (noob_from_pin (mint_pin n))))"

lemma guess_peer_fields [simp]:
  "m_noob_id (p_m (guess_peer X p n)) = pin_noob_id X n" "m_noob (p_m (guess_peer X p n)) = noob_from_pin (mint_pin n)"
  "m_peer_id (p_m (guess_peer X p n)) = m_peer_id (p_m p)"
  "m_z (p_m (guess_peer X p n)) = m_z (p_m p)" "m_ns (p_m (guess_peer X p n)) = m_ns (p_m p)"
  "m_np (p_m (guess_peer X p n)) = m_np (p_m p)"
  "m_inp (p_m (guess_peer X p n)) = (m_inp (p_m p))\<lparr>i_noob := jstr (ce X) (b64 (ce X) (noob_from_pin (mint_pin n)))\<rparr>"
  by (simp_all add: guess_peer_def pin_noob_id_def)

text \<open>The inviter at the time of the search.\<close>

definition invited_with ::
  "cluster_env \<Rightarrow> string \<Rightarrow> nat \<Rightarrow> nat \<Rightarrow> server \<Rightarrow> 't node \<Rightarrow> bool" where
  "invited_with X iid a v s nd \<longleftrightarrow>
     hm_get (nd_inviters nd) iid = Some a \<and> a < length (nd_iheap nd) \<and>
     nd_iheap nd ! a = \<lparr>v_server = with_noob (ce X) (noob_from_pin (mint_pin v)) s, v_joiner = None\<rparr>"

lemma wrong_guess:
  assumes X: "codec_ok X" and iid: "iid \<noteq> []" and inv: "invited_with X iid a v s nd" and sync: "synced s p"
    and diff: "pin_noob_id X n \<noteq> pin_noob_id X v"
  shows "pin_search X K rnd iid p (Suc fuel) n nd = pin_search X K rnd iid p fuel (Suc n) nd"
proof -
  let ?E = "ce X" and ?s = "with_noob (ce X) (noob_from_pin (mint_pin v)) s"
  let ?out = "fail_code ?E UNRECOGNIZED_OOB_MSG_ID ''unrecognized NoobId''"
  let ?w = "type5_response ?E (m_peer_id (p_m p)) (pin_noob_id X n)"
  note js = codec_okD(1) [OF X] and cr = codec_okD(2) [OF X]
  have v: "nd_iheap nd ! a = \<lparr>v_server = ?s, v_joiner = None\<rparr>" and a: "hm_get (nd_inviters nd) iid = Some a"
    using inv by (simp_all add: invited_with_def)
  have "m_peer_id (s_m ?s) = m_peer_id (p_m p)" using sync by (simp add: synced_def)
  from server_gets_type5 [OF js cr this, where rnd = rnd] diff
  have "srv_receive ?E rnd (v_server (nd_iheap nd ! a)) (wire_bytes ?E ?w) = (?s, Returned ?out)"
    by (simp add: v pin_noob_id_def)
  from completion_step [OF X iid a wire_bytes_not_Nil [OF X completion_messages_ok(2) [OF js]] this]
  have h: "handle_request X K rnd (guess_request X iid p n) nd =
      (nd\<lparr>nd_iheap := (nd_iheap nd)[a := nd_iheap nd ! a]\<rparr>,
       Returned (reply_ok (with_msg X iid COMPLETION (err_bytes ?E UNRECOGNIZED_OOB_MSG_ID ''unrecognized NoobId''))))"
    using sync by (simp add: guess_request_def fail_code_def default_outcome_def synced_def v)
  have "in_i64 UNRECOGNIZED_OOB_MSG_ID" by (simp add: in_i64_def UNRECOGNIZED_OOB_MSG_ID_def)
  from peer_gets_error [OF js this] h X show ?thesis
    by (simp add: peer_error_outcome_def default_outcome_def)
qed

lemma right_guess:
  assumes X: "codec_ok X" and iid: "iid \<noteq> []" and inv: "invited_with X iid a v s nd" and sync: "synced s p"
    and own: "server_peer_info s = pi_to (cj X) me" "pi_valid X me der"
  shows "\<exists>nd' key. pin_search X K rnd iid p (Suc fuel) v nd = (nd', Some (v, v + 2)) \<and>
    nd_trust nd' = pin_peer K (pinned_as me der key (as_u8 (s_csp s))) (nd_trust nd)"
proof -
  let ?E = "ce X" and ?ns = "noob_from_pin (mint_pin v)"
  let ?s = "with_noob ?E ?ns s" and ?q = "guess_peer X p v"
  note js = codec_okD(1) [OF X] and cr = codec_okD(2) [OF X]
  have v: "nd_iheap nd ! a = \<lparr>v_server = ?s, v_joiner = None\<rparr>" and a: "hm_get (nd_inviters nd) iid = Some a"
    and len: "a < length (nd_iheap nd)"
    using inv by (simp_all add: invited_with_def)
  have same: "m_peer_id (s_m s) = m_peer_id (p_m p)" "m_z (s_m s) = m_z (p_m p)" "m_ns (s_m s) = m_ns (p_m p)"
    "m_np (s_m s) = m_np (p_m p)" "m_inp (s_m s) = m_inp (p_m p)" "s_state s = Waiting"
    using sync by (simp_all add: synced_def)
  obtain k where k: "derive_completion (cr ?E) (m_z (p_m p)) (m_np (p_m p)) (m_ns (p_m p)) ?ns = Returned k"
    using derive_completion_cases [OF cr] by metis
  let ?s1 = "?s\<lparr>s_m := (s_m ?s)\<lparr>m_keym := Some k\<rparr>\<rparr>"
  let ?w6 = "type6_request ?E (m_peer_id (p_m p)) (pin_noob_id X v) (compute_mac (cr ?E) (kms k) 2 (m_inp (s_m ?s)))"
  have "srv_receive ?E rnd (v_server (nd_iheap nd ! a)) (wire_bytes ?E (type5_response ?E (m_peer_id (p_m p)) (pin_noob_id X v))) =
      (?s1, Returned (send_outcome ?E ?w6))"
    using server_gets_type5 [OF js cr, of ?s "m_peer_id (p_m p)" rnd] build_completion_eq [OF js, of ?s k] k same
    by (simp add: v pin_noob_id_def)
  from completion_step [OF X iid a wire_bytes_not_Nil [OF X completion_messages_ok(2) [OF js]] this]
  have h: "handle_request X K rnd (guess_request X iid p v) nd =
      (nd\<lparr>nd_iheap := (nd_iheap nd)[a := \<lparr>v_server = ?s1, v_joiner = None\<rparr>]\<rparr>,
       Returned (reply_ok (with_msg X iid COMPLETION (wire_bytes ?E ?w6))))"
    using same by (simp add: guess_request_def v send_outcome_def default_outcome_def)
  let ?nd1 = "nd\<lparr>nd_iheap := (nd_iheap nd)[a := \<lparr>v_server = ?s1, v_joiner = None\<rparr>]\<rparr>"
  let ?m = "wire_bytes ?E (type6_response ?E (m_peer_id (p_m p)) (compute_mac (cr ?E) (kmp k) 1 (m_inp (s_m ?s))))"
  have p: "peer_receive ?E rnd ?q (wire_bytes ?E ?w6) =
      (?q\<lparr>p_m := (p_m ?q)\<lparr>m_keym := Some k\<rparr>\<rparr>, Returned (default_outcome\<lparr>o_send := Some ?m\<rparr>))"
    using peer_gets_type6 [OF js cr, of ?q "pin_noob_id X v" k _ rnd] k same
    by (simp add: send_outcome_def)
  have v1: "nd_iheap ?nd1 ! a = \<lparr>v_server = ?s1, v_joiner = None\<rparr>" using len by simp
  have own1: "server_peer_info ?s1 = pi_to (cj X) me" using own(1) by (simp add: server_peer_info_def)
  let ?out = "default_outcome\<lparr>o_send := Some (result_bytes ?E ''success''), o_done := True, o_success := True\<rparr>"
  let ?v2 = "\<lparr>v_server = ?s1\<lparr>s_assoc := Some (srv_finish ?s1 k), s_state := Registered\<rparr>, v_joiner = Some \<lparr>pid_info = me, pid_cert = der\<rparr>\<rparr>"
  have acc: "inviter_on_completion X rnd (nd_iheap ?nd1 ! a) ?m = (?v2, Returned (Inr (step_of ?out)))"
    using inviter_accepts [OF X _ _ _ _ _ own(2), of "nd_iheap ?nd1 ! a" "m_peer_id (p_m p)" k _ rnd] own1 same
    unfolding v1 by simp
  have asc: "inviter_association ?v2 = Some (srv_finish ?s1 k)" by (simp add: inviter_association_def)
  from completion_accept [OF X iid _ wire_bytes_not_Nil [OF X completion_messages_ok(4) [OF js]] acc _ _ _ asc,
      where K = K] a
  have "nd_trust (fst (handle_request X K rnd (with_msg X iid COMPLETION ?m) ?nd1)) =
      pin_peer K (paired_of \<lparr>pid_info = me, pid_cert = der\<rparr> (srv_finish ?s1 k)) (nd_trust nd)"
    by (simp add: default_outcome_def)
  moreover have "paired_of \<lparr>pid_info = me, pid_cert = der\<rparr> (srv_finish ?s1 k) = pinned_as me der (kz k) (as_u8 (s_csp s))"
    by (simp add: paired_of_def pinned_as_def srv_finish_def with_noob_def)
  moreover have "pin_search X K rnd iid p (Suc fuel) v nd =
      (fst (handle_request X K rnd (with_msg X iid COMPLETION ?m) ?nd1), Some (v, v + 2))"
    unfolding pin_search.simps h prod.case exec.case reply_simps blob_with_msg [OF X] p
    by (simp add: default_outcome_def sent_def)
  ultimately show ?thesis by metis
qed

lemma pin_search_from:
  assumes "codec_ok X" "iid \<noteq> []" "invited_with X iid a v s nd" "synced s p"
    and "server_peer_info s = pi_to (cj X) me" "pi_valid X me der"
    and "\<forall>k < v. pin_noob_id X k \<noteq> pin_noob_id X v" "n \<le> v"
  shows "\<exists>nd' key. pin_search X K rnd iid p (Suc (v - n) + fuel) n nd = (nd', Some (v, v + 2)) \<and>
    nd_trust nd' = pin_peer K (pinned_as me der key (as_u8 (s_csp s))) (nd_trust nd)"
  using \<open>n \<le> v\<close>
proof (induction "v - n" arbitrary: n)
  case 0
  then have "n = v" by simp
  with right_guess [OF assms(1-6), of K rnd fuel] show ?case by (simp del: pin_search.simps)
next
  case (Suc d)
  then have n: "n < v" by simp
  with assms(7) have "pin_noob_id X n \<noteq> pin_noob_id X v" by simp
  note skip = wrong_guess [OF assms(1-4) this, of K rnd "Suc (v - Suc n) + fuel"]
  have "Suc (v - n) + fuel = Suc (Suc (v - Suc n) + fuel)" using n by simp
  then have "pin_search X K rnd iid p (Suc (v - n) + fuel) n nd = pin_search X K rnd iid p (Suc (v - Suc n) + fuel) (Suc n) nd"
    using skip by metis
  moreover have "d = v - Suc n" "Suc n \<le> v" using Suc.hyps(2) n by simp_all
  note Suc.hyps(1) [OF this]
  ultimately show ?case by metis
qed

text \<open>
  C28: the PIN does not protect an invite from the node that was invited. Once that node has let the
  Initial exchange run, it needs no PIN: it can try all PINs in order on the pairing port of the
  inviter, which neither counts the failures nor gives up the invite, and its certificate is
  pinned after at most 1000001 requests.
\<close>
theorem pin_search_succeeds:
  assumes "codec_ok X" "iid \<noteq> []" "hm_get (nd_joiners B) iid = None" "\<not> is_clustered KB (nd_trust B)"
    and "pi_valid X (profile_info X (nd_profile A) None) dera" "pi_valid X (profile_info X (nd_profile B) None) derb"
    and "v < 1000000" "\<forall>k < v. pin_noob_id X k \<noteq> pin_noob_id X v"
  shows "\<exists>A1 B1 A2 key requests.
    create_invite X (node_net X KB rb addr) rnd iid v addr (B, A) = Some ((B1, A1), Returned (Inr (iid, mint_pin v))) \<and>
    pin_search X KA ra iid (j_peer (nd_jheap B1 ! length (nd_jheap B))) 1000000 0 A1 = (A2, Some (v, requests)) \<and>
    requests \<le> 1000001 \<and>
    nd_trust A2 = pin_peer KA (pinned_as (profile_info X (nd_profile B) None) derb key 2) (nd_trust A)"
proof -
  let ?E = "ce X" and ?pia = "profile_info X (nd_profile A) None" and ?pib = "profile_info X (nd_profile B) None"
  obtain z where z: "create_invite X (node_net X KB rb addr) rnd iid v addr (B, A) =
     Some ((invited_node iid (invited_joiner X (rnd 0) (rnd 1) rb ?pia dera ?pib z) ?pia dera B,
            add_inviter iid \<lparr>v_server = with_noob ?E (noob_from_pin (mint_pin v))
              (server3 ?E (rnd 0) (rnd 1) rb (pi_to (cj X) ?pia) (pi_to (cj X) ?pib) z), v_joiner = None\<rparr> A),
       Returned (Inr (iid, mint_pin v)))"
    by (rule create_invite_run [OF assms(1-5)])
  let ?s = "server3 ?E (rnd 0) (rnd 1) rb (pi_to (cj X) ?pia) (pi_to (cj X) ?pib) z"
  let ?p = "peer2 ?E (rnd 0) (rnd 1) rb (pi_to (cj X) ?pia) (pi_to (cj X) ?pib) z"
  let ?B1 = "invited_node iid (invited_joiner X (rnd 0) (rnd 1) rb ?pia dera ?pib z) ?pia dera B"
  let ?A1 = "add_inviter iid \<lparr>v_server = with_noob ?E (noob_from_pin (mint_pin v)) ?s, v_joiner = None\<rparr> A"
  have inv: "invited_with X iid (length (nd_iheap A)) v ?s ?A1"
    by (simp add: invited_with_def add_inviter_def hm_simps)
  have p: "j_peer (nd_jheap ?B1 ! length (nd_jheap B)) = ?p"
    by (simp add: invited_node_def invited_joiner_def)
  have csp: "as_u8 (s_csp ?s) = 2" by (simp add: server3_def server2_def Let_def as_u8_def)
  have e: "Suc (v - 0) + (999999 - v) = 1000000" using assms(7) by simp
  obtain A2 key where run: "pin_search X KA ra iid ?p 1000000 0 ?A1 = (A2, Some (v, v + 2))"
    "nd_trust A2 = pin_peer KA (pinned_as ?pib derb key 2) (nd_trust A)"
    using pin_search_from [OF assms(1,2) inv synced_run run_infos(1) assms(6,8), of 0 KA ra "999999 - v", unfolded e csp]
    by (auto simp: add_inviter_def)
  have bound: "v + 2 \<le> 1000001" using assms(7) by simp
  show ?thesis
    by (rule exI [of _ ?A1], rule exI [of _ ?B1], rule exI [of _ A2], rule exI [of _ key], rule exI [of _ "v + 2"])
      (use run bound z p in \<open>simp del: pin_search.simps\<close>)
qed

section \<open>Witnesses\<close>

theorem machines_send_messages_witness:
  "\<exists>out m w. snd (srv_receive demo_env demo_rnd (with_server_info server_new ''{}'') []) = Returned out \<and>
     o_send out = Some m \<and> wire_of (js demo_env) m = Some w \<and> message_kind w out"
proof -
  let ?s = "with_server_info server_new ''{}''"
  have "wire_of (js demo_env) [] = None" using codec_okD(7) [OF demo_X_ok] by simp
  then have r: "snd (srv_receive demo_env demo_rnd ?s []) = Returned (fail demo_env ''malformed JSON'')"
    by (simp add: srv_receive_def)
  have m: "o_send (fail demo_env ''malformed JSON'') = Some (err_bytes demo_env INVALID_DATA ''malformed JSON'')"
    by (simp add: fail_def fail_code_def)
  have "raw_ok (js demo_env) ''{}''" by (simp only: demo_env_simps braces_raw_ok)
  from machines_send_messages [OF demo_env_ok this, THEN conjunct1, rule_format, OF srv_reach.start r m] r m
  show ?thesis by blast
qed

theorem pin_search_succeeds_witness:
  "\<exists>A1 B1 A2 p.
     create_invite demo_X (node_net demo_X demo_sink demo_rnd ''b:1'') (\<lambda>i. demo_rnd) ''i'' 1 ''b:1''
       (demo_node ''B'' ''b:1'', demo_node ''A'' ''a:1'') = Some ((B1, A1), Returned (Inr (''i'', mint_pin 1))) \<and>
     fst (pin_search demo_X demo_sink demo_rnd ''i'' p 1000000 0 A1) = A2 \<and> is_pinned (ts_pins (nd_trust A2)) [1, 2, 3]"
proof -
  have pins: "is_pinned (ts_pins (sink_pin_peer demo_crypto demo_pki demo_fs (pinned_as pi [1, 2, 3] key c)
      (trust_sink_new [] [] None False))) [1, 2, 3]" for pi key c
    by (simp add: sink_pin_peer_def sink_store_def trust_sink_new_def pinned_as_def pin_def is_pinned_def
        hm_values_def hm_insert_def)
  have "noob_from_pin (mint_pin 0) = replicate 15 0 @ [0]" "noob_from_pin (mint_pin 1) = replicate 15 0 @ [1]"
    using be_bytes_leading_zeros [of 0 1 15] be_bytes_leading_zeros [of 1 1 15] by (simp_all add: mint_pin_be)
  moreover have "demo_chars (d @ [b]) = demo_chars d @ [char_of (unat b)]" for d b
    by (simp add: demo_chars_def)
  ultimately have "pin_noob_id demo_X 0 ! 2 = 0" "pin_noob_id demo_X 1 ! 2 = 1"
    using demo_noob_id_last [of "demo_chars (replicate 15 0)"]
    by (simp_all add: pin_noob_id_def demo_json_def del: append_replicate_commute)
  then have "pin_noob_id demo_X k \<noteq> pin_noob_id demo_X 1" if "k < 1" for k
    using that by auto
  then have pre: "codec_ok demo_X" "''i'' \<noteq> []" "hm_get (nd_joiners (demo_node ''B'' ''b:1'')) ''i'' = None"
    "\<not> is_clustered demo_sink (nd_trust (demo_node ''B'' ''b:1''))"
    "pi_valid demo_X (profile_info demo_X (nd_profile (demo_node ''A'' ''a:1'')) None) [1, 2, 3]"
    "pi_valid demo_X (profile_info demo_X (nd_profile (demo_node ''B'' ''b:1'')) None) [1, 2, 3]"
    "(1::nat) < 1000000" "\<forall>k < 1. pin_noob_id demo_X k \<noteq> pin_noob_id demo_X 1"
    using demo_X_ok demo_profile_valid by (simp_all add: hm_simps trust_sink_new_def)
  from pin_search_succeeds [OF pre, of demo_rnd "''b:1''" "\<lambda>i. demo_rnd" demo_sink demo_rnd]
  obtain A1 B1 A2 key requests where run:
    "create_invite demo_X (node_net demo_X demo_sink demo_rnd ''b:1'') (\<lambda>i. demo_rnd) ''i'' 1 ''b:1''
       (demo_node ''B'' ''b:1'', demo_node ''A'' ''a:1'') = Some ((B1, A1), Returned (Inr (''i'', mint_pin 1)))"
    "pin_search demo_X demo_sink demo_rnd ''i'' (j_peer (nd_jheap B1 ! length (nd_jheap (demo_node ''B'' ''b:1'')))) 1000000 0 A1 =
       (A2, Some (1, requests))"
    "nd_trust A2 = pin_peer demo_sink (pinned_as (profile_info demo_X (nd_profile (demo_node ''B'' ''b:1'')) None) [1, 2, 3] key 2)
       (nd_trust (demo_node ''A'' ''a:1''))"
    by blast
  have "is_pinned (ts_pins (nd_trust A2)) [1, 2, 3]" unfolding run(3) by (simp add: pins)
  with run(1,2) show ?thesis by (metis fst_conv)
qed

end
