(* ===== verification/Spec2Isabelle.thy ===== *)
theory Spec2Isabelle
  imports Pin_Noob Handshake Mint Accept Boot Mdns Http_Client Contract Messages Dev_Trust Locks Interleave Emits
begin

text \<open>
  OpenPair is a daemon (\<open>openpair-node\<close>) that joins machines running a local inference engine to a
  cluster: two nodes pair by a six-digit PIN (EAP-NOOB, RFC 9140), pin each other's certificate, find
  each other by mDNS, and forward requests for a model to a node that has it, over mutual TLS. This
  development models the program of src/crates as functions of Isabelle/HOL and proves what makes its
  parts and their composition correct, and in some places what goes wrong.

  How the parts interact. A driver on the inviting node posts messages over plain HTTP to the pairing
  port of the other node (pair-cluster); both ends run the machines of pair-pairing and exchange identity
  objects; when the Completion exchange succeeds each side pins the certificate of the other through
  the trust sink (pair-node, pair-trust). Discovery (pair-discovery) fills the routing table
  (pair-proxy) with peers and marks those that are pinned; pollers fill in their models. The proxy
  selects a target for each request and hands it to the engine or, over mutual TLS, to the ingress
  receiver of the peer. The dashboard (pair-ui) reads and drives all of it. \<open>main\<close> (pair-node) starts
  these parts over shared state.

  The theories, from the bottom, and the code they model.

  \<^item> \<^bold>\<open>Common.\<close> \<open>Prelude\<close>: byte strings, Rust's string functions, numbers as text, association maps
    (\<open>hmap\<close>, for HashMap) and the locale \<open>keyed_store\<close>. \<open>Crates\<close>: the third-party cryptography as a
    record \<open>crypto\<close> with \<open>crypto_ok\<close>. \<open>Utf8\<close>: validation and lossy decoding. \<open>Json_Value\<close>: serde's
    \<open>Value\<close>. \<open>Serde\<close>: what serde derives for structs, fields and optional values, the text layer as a
    record \<open>json_text\<close> with \<open>text_ok\<close>, and the locale \<open>json_format\<close>.
  \<^item> \<^bold>\<open>EAP-NOOB\<close> (crates/pair-pairing). \<open>Pin_Noob\<close> (pin.rs), \<open>Kdf\<close> (kdf.rs), \<open>Mac\<close> (mac.rs), \<open>Suite\<close>
    (suite.rs), \<open>Wire\<close> (the data of machine.rs: states, the wire message, the shared method state),
    \<open>Server\<close> and \<open>Peer\<close> (the two machines, one function per handler, \<open>srv_receive\<close> and
    \<open>peer_receive\<close> on top), \<open>Handshake\<close> (the machines against each other), \<open>Messages\<close> (the types that
    lib.rs and messages.rs export).
  \<^item> \<^bold>\<open>Trust\<close> (crates/pair-trust). \<open>Pem\<close> (the PEM and base64 readers of identity.rs), \<open>Trust\<close>
    (uuid\_scheme.rs, pin.rs, the verifier of mtls.rs; locale \<open>trust_store\<close>), \<open>Cluster_Dir\<close>
    (cluster\_dir.rs and the loading of identities over a file system record), \<open>Mint\<close> (the making of
    an identity), \<open>Membership\<close> (membership.rs), \<open>Dev_Trust\<close> (the second reader in trust.rs of
    crates/pair-node).
  \<^item> \<^bold>\<open>Pairing between nodes\<close> (crates/pair-cluster). \<open>Pairing_Info\<close> (info.rs, wire.rs), \<open>Session\<close>
    (session.rs), \<open>Node\<close> (the endpoint of node.rs; locale \<open>trust_sink\<close>), \<open>Http\<close> (http.rs and the
    drivers \<open>create_invite\<close> and \<open>submit_pin\<close>), \<open>Sink\<close> (pairing.rs of crates/pair-node),
    \<open>Pairing_Run\<close> and \<open>Pairing_End\<close> (two nodes over HTTP). Sessions are addresses into a store, so
    that a session in use survives its removal from the map, as the Arc of the code does.
  \<^item> \<^bold>\<open>Proxy\<close> (crates/pair-proxy). \<open>Router\<close> (router.rs, routing.rs, model.rs), \<open>Proxy\<close> (live.rs,
    server.rs, peer.rs, tags.rs, the handler of ingress\_server.rs), \<open>Http_Client\<close> (backend.rs and
    peer.rs down to the calls into tokio, rustls and hyper, the TLS configurations of mtls.rs, and the
    clients of pair-ui and pair-cluster).
  \<^item> \<^bold>\<open>Formats and messages\<close> (crates/pair-proto, crates/pair-rpc). \<open>Formats\<close> (the JSON of the structs
    that cross the network), \<open>Framing\<close> (framing.rs, the transport of lib.rs), \<open>Rpc_Json\<close> (jsonrpc.rs),
    \<open>Contract\<close> (contract.rs).
  \<^item> \<^bold>\<open>Discovery, telemetry, dashboard.\<close> \<open>Discovery\<close> and \<open>Mdns\<close> (crates/pair-discovery, discovery.rs,
    the discovery part of \<open>main\<close>), \<open>Telemetry\<close> (crates/pair-nodeinfo, telemetry.rs,
    nodeinfo\_server.rs), \<open>Ui\<close> (crates/pair-ui).
  \<^item> \<^bold>\<open>The daemon\<close> (crates/pair-node). \<open>Daemon\<close> (configuration, start, tasks and commands of main.rs),
    \<open>Accept\<close> (the accept loop, once around each of the six handlers; locale \<open>guarded_handler\<close>), \<open>Boot\<close>
    (\<open>main\<close>), \<open>Locks\<close> (what each operation locks on each of its paths), \<open>Sections\<close> (the critical sections
    of the handlers of pairing requests) and \<open>Interleave\<close> (such requests handled at the same time), \<open>Emits\<close> (what the machines send, and a search for the
    PIN over the pairing port). This theory composes them.
  \<^item> \<open>Demo_Json\<close>, \<open>Demo_Codec\<close> and \<open>Demo_Text\<close> hold concrete stand-ins for serde, so that the witnesses
    evaluate; they satisfy the hypotheses and model no code.

  How the code is translated. A struct is a record, an enum a datatype, a \<open>uN\<close> a \<open>N word\<close>, an \<open>i64\<close>
  the word that holds it (in the machines an \<open>int\<close> checked to be in range), a String the list of its
  UTF-8 bytes as characters. A Result is a sum whose left side is the error. Where the code can panic
  the result is of type \<open>exec\<close>: \<open>Returned\<close>, \<open>Panicked\<close>, or \<open>Diverged\<close> for a loop that does not end.
  Loops without a bound are \<open>partial_function (option)\<close>, where \<open>None\<close> is not returning; that they do
  return where they must is proved (\<open>derive_completion_total\<close>, \<open>pairing_end_to_end\<close>). The only count
  chosen is the code's own: \<open>await_clustered\<close> looks 600 times, as \<open>run_invite\<close> does. In \<open>Locks\<close> the
  loops of the drivers are a construct that may go around for ever; what is proved is that the steps an
  operation takes by itself between two answers of the network are bounded. A usize has 64 bits. State is passed explicitly. Random draws are arguments. Everything that happens elsewhere while
  an operation waits (the network, other tasks) is a function on the state, so a theorem over it holds
  for every interleaving with other requests; a request itself is handled in one step. That this is no
  loss for the requests of the pairing port is proved (\<open>concurrent_requests_serialize\<close>), and where it
  is one (an Initial request and a cancel of the same invite) is too (\<open>cancel_leaves_dead_invite\<close>). In
  that relation the trust sink pins a peer in one step, where pairing.rs takes the lock of the pins, then
  that of the cluster id, then sets the flag; the only
  difference is which of two peers leaves its cluster id, and nothing reads the stored cluster id. How
  the locks inside an operation interleave is a model of its own (\<open>Locks\<close>).

  Hypotheses. Third-party code is a record of functions, and a theorem names what it relies on:
  \<open>crypto_ok\<close> (lengths, round trips of encodings, agreement of key exchange), \<open>json_ok\<close>, \<open>codec_ok\<close>,
  \<open>proxy_json_ok\<close> and \<open>text_ok\<close> (serde reads what it writes), \<open>fs_ok\<close> (a file that is
  written under a name reads back and is listed; names, by \<open>file_name\<close>, are not empty, not a dot or two,
  and without a slash, two that differ are two files, and nothing is said of any other path),
  \<open>rcgen_ok\<close> (of a certificate that rcgen did sign; it may fail to), \<open>resumption_ok\<close> (a session resumes
  with the certificate of the handshake that made it), \<open>keygen_ok\<close> and \<open>ed25519_ok\<close>, \<open>http_ok\<close> and \<open>tls_ok\<close> (a request is sent over the
  connection it is given; a connection is made only when the verifier accepts), \<open>mdns_ok\<close>. No
  cryptographic strength is assumed, and no theorem says that a value cannot be guessed. For the
  proxy and the pairing channel \<open>serde_proxy_ok\<close> and \<open>serde_codec_ok\<close> discharge the JSON hypotheses
  with the program's own struct formats over any text layer.

  Locales. \<open>keyed_store\<close> is interpreted on \<open>hmap\<close> (\<open>hm\<close>), and every map of the program uses its facts.
  \<open>trust_store\<close> is the contract of a set of pinned certificates, interpreted on the pin store (\<open>ps\<close>).
  \<open>trust_sink\<close> is the trait TrustSink, interpreted on the sink of the daemon (\<open>cts\<close>).
  \<open>guarded_handler\<close> is a listener whose handler preserves a property of the state, interpreted on the
  pairing port (\<open>ph\<close>). \<open>json_format\<close> is a struct that serde writes and reads, interpreted on eleven
  structs and on strings.

  What the lemmas show.

  \<^item> The machines: which messages succeed, fail or panic, with which error code (\<open>srv_success_iff\<close>,
    \<open>peer_success_iff\<close>, \<open>srv_receive_panics_iff\<close>, \<open>peer_receive_panics_iff\<close>, \<open>srv_error_codes\<close>), their
    state invariants over step relations (\<open>srv_reach_inv\<close>, \<open>peer_reach_inv\<close>), and that both
    register with the same key (\<open>completion_registers_both\<close>). Everything they send is a message that
    the other side can read (\<open>machines_send_messages\<close>).
  \<^item> Pairing: end to end with the right PIN and with a wrong one, and that a peer is pinned only after
    its MAC verified (\<open>pairing_end_to_end\<close>, \<open>wrong_pin_pins_nobody\<close>, \<open>request_pins_only_accepted\<close>);
    and how many requests an invited node needs without the PIN (\<open>pin_search_succeeds\<close>).
  \<^item> Trust: who is let in, what survives a restart, what a minted identity is good for, and that both
    certificate readers are one function (\<open>mtls_accepts_iff_pinned\<close>, \<open>start_trusts_only_files\<close>,
    \<open>trusted_peer_survives_restart\<close>, \<open>minted_identity_works\<close>, \<open>dev_reader_agrees\<close>).
  \<^item> Routing: selection against a reference, where requests may go and that they arrive, and what is
    sent over which connection (\<open>select_is_first_minimum\<close>, \<open>routing_target\<close>, \<open>peer_serves_request\<close>,
    \<open>peer_traffic_pinned\<close>, \<open>forwarding_is_over_tls\<close>); composed with the start of the daemon
    (\<open>forwarded_only_to_trusted\<close>, whose one exception are the UUIDs that were reported while the
    dashboard paired by certificates, \<open>ui_pair_believes_uuid\<close>) and with pairing from the dashboard (\<open>paired_peer_serves\<close>) below.
  \<^item> Listeners: who is answered, and that a resumed TLS session is answered whatever the pins say by then
    (\<open>ingress_answers_pinned\<close>, \<open>replaced_pin_still_served\<close>), what no request over a port can
    change, and what an accept error does (\<open>pairing_port_keeps_cluster\<close>, \<open>accept_error_ends_pairing\<close>).
  \<^item> Formats: structs, TXT records, frames and JSON-RPC messages read back (\<open>wire_structs_roundtrip\<close>,
    \<open>txt_roundtrip\<close>, \<open>rpc_stream_roundtrip\<close>), and what truncated, oversized or odd input is read as
    (\<open>truncated_frame\<close>, \<open>content_length_panics\<close>, \<open>odd_id_reads_as_notification\<close>).
  \<^item> Concurrency: no interleaving of the daemon's operations blocks, even when the network never answers,
    and no lock is held over the network (\<open>locks_never_block\<close>; whether an operation ends is up to the
    other side, as nothing has a timeout); pairing requests handled at the same time give what they give one
    after the other, whatever the interleaving of their sections (\<open>concurrent_requests_serialize\<close>).
  \<^item> Invites whose session is gone: how one comes about, and what the operator then sees
    (\<open>cancel_leaves_dead_invite\<close>, \<open>bad_request_strands_invite\<close>).
  \<^item> Discovery: what adverts leave in the routing table (\<open>advertised_is_discovered\<close>,
    \<open>last_advert_wins\<close>).

  Not modelled, because there is nothing in it that a theorem could be about: logging, the printing
  of \<open>--gpucheck\<close> and of the commands, the HTML page, module lists and re-exports, the tests and
  examples, and the sleeping between two rounds of a poller (the rounds are steps in any order).
  Parsing of X.509 certificates, JSON text, socket addresses and commands' floating-point output, the
  curves and hashes, rustls, hyper, tokio and mdns-sd are code outside src/ and enter as records. The
  contents of headers of a response other than its status, and timeouts, which the code does not set,
  are left out.

  What is left to do: in \<open>concurrent_requests_serialize\<close> two requests that use the session of one invite
  do not run at the same time (that a cancel beside an Initial request has another result is
  \<open>cancel_leaves_dead_invite\<close>; of two Initial or two Completion requests nothing is proved), and the
  drivers \<open>create_invite\<close> and \<open>submit_pin\<close> do not run beside the requests.
\<close>

section \<open>From the start of the daemon to the engine of a peer\<close>

text \<open>
  C8: a daemon that \<open>main\<close> started forwards requests only to trusted peers. Whatever its tasks
  have done since, pairing by certificates from the dashboard included, a request that is not kept
  local goes to another node whose UUID has a pinned certificate, or to a UUID that a peer reported
  of itself while it was paired by certificates (\<open>B\<close>, the case of \<open>ui_pair_believes_uuid\<close>); and in
  both cases, when the host that answers at its address shows any certificate that is not pinned, the
  request ends with 502 and no engine is called.
\<close>
theorem forwarded_only_to_trusted:
  assumes "daemon_main (cr (ce X)) (cp X) K F E r env etc ip w0 f = (Inr (ctx, st0), services, f')"
    and "daemon_reach X F (ui_node_id ctx) st0 B st" "proxy_json_ok J" "pr_body req = Inr body"
    and "select (candidates_for (extract_model J body) backend (ds_routing st)) = Some c" "\<not> c_is_self c"
  shows "(c_node_id c \<in> B \<or> c_node_id c \<noteq> ui_node_id ctx \<and> pin_get (ds_pins st) (c_node_id c) \<noteq> None) \<and>
    (if is_pinned (ds_pins st) peer_cert then True
     else \<exists>txt. route J G0 (mtls_link J G peer_backend (ds_pins st) my_cert peer_pins peer_cert h p) backend
       (ds_routing st) req w = (w, 502, txt))"
proof -
  obtain port where start: "daemon_start (cr (ce X)) (cp X) K F r env etc ip port w0 f = Inr st0"
    and self: "ui_node_id ctx = rt_local_id (ds_routing st0)"
    using main_running [OF assms(1)] by blast
  note reach = assms(2) [unfolded self]
  have "rt_local_id (ds_routing st) = rt_local_id (ds_routing st0)"
    using daemon_reach_inv [OF reach daemon_start_inv [OF start]] by (simp add: daemon_inv_def)
  with daemon_routes_to_pinned [OF start reach assms(5,6)] self
  have "c_node_id c \<in> B \<or> c_node_id c \<noteq> ui_node_id ctx \<and> pin_get (ds_pins st) (c_node_id c) \<noteq> None" by simp
  moreover have "\<exists>txt. route J G0 (mtls_link J G peer_backend (ds_pins st) my_cert peer_pins peer_cert h p) backend
      (ds_routing st) req w = (w, 502, txt)" if "\<not> is_pinned (ds_pins st) peer_cert"
    using that by (intro route_unpinned [OF _ assms(3-6)]) simp
  ultimately show ?thesis by simp
qed

definition demo_boot :: boot_env where
  "demo_boot = \<lparr>be_addr = (\<lambda>s. Some (s, 14321)), be_mdns = True, be_browse = True\<rparr>"

lemma demo_main_runs:
  "\<exists>ctx st0 services f. daemon_main demo_crypto demo_pki demo_self demo_fs demo_boot [] demo_vars None None () [] =
     (Inr (ctx, st0), services, f) \<and> ui_node_id ctx = ''s'' \<and> ds_routing st0 = routing_new ''s'' \<and> ds_pins st0 = []"
proof -
  obtain st where s: "daemon_start demo_crypto demo_pki demo_self demo_fs [] demo_vars None None 14321 () [] = Inr st"
    "ds_routing st = routing_new ''s''" "ds_pins st = []"
    using demo_daemon_starts by blast
  then have "\<exists>i. fst (load_identity_pins demo_crypto demo_pki demo_self demo_fs [] demo_vars []) = Inr i"
    by (auto simp: daemon_start_def split: sum.splits prod.splits)
  then obtain x where "fst (daemon_main demo_crypto demo_pki demo_self demo_fs demo_boot [] demo_vars None None () []) = Inr x"
    using daemon_main_iff [of demo_crypto demo_pki demo_self demo_fs demo_boot "[]" demo_vars None None "()" "[]"]
    by (auto simp: demo_boot_def addresses_ok_def)
  then obtain ctx st0 services f where
    m: "daemon_main demo_crypto demo_pki demo_self demo_fs demo_boot [] demo_vars None None () [] = (Inr (ctx, st0), services, f)"
    by (metis prod.collapse)
  from main_running [OF m] s have "st0 = st" "ui_node_id ctx = ''s''"
    by (auto simp: demo_boot_def routing_new_def)
  with m s show ?thesis by blast
qed

theorem forwarded_only_to_trusted_witness:
  "\<exists>ctx st0 services f st c.
     daemon_main demo_crypto demo_pki demo_self demo_fs demo_boot [] demo_vars None None () [] = (Inr (ctx, st0), services, f) \<and>
     daemon_reach demo_X demo_fs ''s'' st0 {} st \<and> select (candidates_for (extract_model demo_pj (str_bytes ''m'')) ''e'' (ds_routing st)) = Some c \<and>
     pin_get (ds_pins st) (c_node_id c) \<noteq> None"
proof -
  obtain ctx st0 services f where
    m: "daemon_main demo_crypto demo_pki demo_self demo_fs demo_boot [] demo_vars None None () [] = (Inr (ctx, st0), services, f)"
    "ui_node_id ctx = ''s''" "ds_routing st0 = routing_new ''s''" "ds_pins st0 = []"
    using demo_main_runs by blast
  obtain st c where r: "daemon_reach demo_X demo_fs ''s'' st0 {} st"
    "select (candidates_for (extract_model demo_pj (str_bytes ''m'')) ''e'' (ds_routing st)) = Some c" "\<not> c_is_self c"
    using demo_daemon_run [OF m(3,4)] demo_pj_model by metis
  have a: "daemon_main (cr (ce demo_X)) (cp demo_X) demo_self demo_fs demo_boot [] demo_vars None None () [] =
      (Inr (ctx, st0), services, f)"
    using m(1) by simp
  have b: "pr_body demo_req = Inr (str_bytes ''m'')" by (simp add: demo_req_def)
  have "c_node_id c \<in> {} \<or> c_node_id c \<noteq> ui_node_id ctx \<and> pin_get (ds_pins st) (c_node_id c) \<noteq> None"
    by (rule conjunct1 [OF forwarded_only_to_trusted [OF a r(1) [folded m(2)] demo_pj_ok b r(2,3)]])
  then have "pin_get (ds_pins st) (c_node_id c) \<noteq> None" by simp
  with m(1) r(1,2) show ?thesis by blast
qed

section \<open>From the dashboard to the engine of the paired peer\<close>

text \<open>
  The connections of a node: mutual TLS to the ingress receiver of the paired peer, with the pins of
  both as they are, and whatever the rest of the network does at every other address.
\<close>

definition ingress_link ::
  "proxy_json \<Rightarrow> ('v, 'g) dstate engine \<Rightarrow> string \<Rightarrow> bytes \<Rightarrow> bytes \<Rightarrow> string \<Rightarrow> 16 word \<Rightarrow>
     ('v, 'g) dstate link \<Rightarrow> (('v, 'g) dstate, 'f) dstate \<Rightarrow> ('v, 'g) dstate link" where
  "ingress_link J G engine my_cert peer_cert host port rest st h p =
     (if (h, p) = (host, port) then mtls_link J G engine (ds_pins st) my_cert (ds_pins (fst (fst st))) peer_cert host port h p
      else rest h p)"

lemma forward_same_address: "L h p = L' h p \<Longrightarrow> forward_to_peer J L h p env w = forward_to_peer J L' h p env w"
  by (simp add: forward_to_peer_def cong: option.case_cong)

lemma route_same_address:
  assumes "pr_body req = Inr body" "select (candidates_for (extract_model J body) backend t) = Some c"
    and "\<not> c_is_self c" "c_host c = Some h" "c_ingress_port c = Some p" "L h p = L' h p"
  shows "route J G0 L backend t req w = route J G0 L' backend t req w"
  using assms forward_same_address [of L h p L' J] by (simp add: route_def route_inner_def Let_def)

text \<open>The peers that a request for a model may go to.\<close>

definition lists_model :: "string \<Rightarrow> routing_table \<Rightarrow> string \<Rightarrow> bool" where
  "lists_model m t i \<longleftrightarrow> (\<exists>e. hm_get (rt_peers t) i = Some e \<and> pe_pinned e \<and> m \<in> pe_models e)"

lemma only_lister_selected:
  assumes "rt_wf t" "m \<notin> rt_local_models t" "\<And>j. lists_model m t j \<Longrightarrow> j = i" "lists_model m t i"
  obtains e where "hm_get (rt_peers t) i = Some e" "select (candidates_for (Some m) backend t) = Some (peer_candidate m e)"
proof -
  obtain e where e: "hm_get (rt_peers t) i = Some e" "pe_pinned e" "m \<in> pe_models e"
    using assms(4) by (auto simp: lists_model_def)
  then have "peer_candidate m e \<in> set (candidates_for (Some m) backend t)" "eligible (peer_candidate m e)"
    using candidates_in [OF assms(1)] by (auto simp: eligible_def peer_candidate_def)
  then obtain c where c: "select (candidates_for (Some m) backend t) = Some c"
    using select_None [of "candidates_for (Some m) backend t"] by (cases "select (candidates_for (Some m) backend t)") auto
  have "c \<noteq> self_candidate (Some m) backend t"
    using select_eligible [OF c] assms(2) by (auto simp: eligible_def self_candidate_def)
  then obtain j p where p: "hm_get (rt_peers t) j = Some p" "c = peer_candidate m p"
    using select_eligible [OF c] candidates_in [OF assms(1)] by blast
  then have "lists_model m t j" using select_eligible [OF c] by (auto simp: lists_model_def eligible_def peer_candidate_def)
  then have "p = e" using assms(3) p(1) e(1) by force
  with that e(1) c p(2) show thesis by simp
qed

lemma set_models_entry:
  "hm_get (rt_peers (set_peer_models n ms t)) j =
     (if j = n then map_option (pe_models_update (\<lambda>_. set ms)) (hm_get (rt_peers t) n) else hm_get (rt_peers t) j)"
  by (auto simp: set_peer_models_def hm.get_put split: option.split)

lemma set_models_lists:
  "lists_model m (set_peer_models n ms t) j \<longleftrightarrow>
     (if j = n then (\<exists>e. hm_get (rt_peers t) n = Some e \<and> pe_pinned e) \<and> m \<in> set ms else lists_model m t j)"
  by (auto simp: lists_model_def set_models_entry)

text \<open>A poll changes the models of the peers and nothing else.\<close>

definition same_peers :: "routing_table \<Rightarrow> routing_table \<Rightarrow> bool" where
  "same_peers t u \<longleftrightarrow> rt_local_models u = rt_local_models t \<and>
     (\<forall>j. map_option (pe_models_update (\<lambda>_. {})) (hm_get (rt_peers u) j) = map_option (pe_models_update (\<lambda>_. {})) (hm_get (rt_peers t) j))"

lemma upsert_local [simp]: "rt_local_models (upsert_peer_meta i host port b t) = rt_local_models t"
  by (simp add: upsert_peer_meta_def split: option.split)

lemma set_models_local [simp]: "rt_local_models (set_peer_models n ms t) = rt_local_models t"
  by (simp add: set_peer_models_def split: option.split)

lemma set_models_same: "same_peers t u \<Longrightarrow> same_peers t (set_peer_models n ms u)"
  by (simp add: same_peers_def set_models_entry option.map_comp comp_def)

lemma poll_each_same: "same_peers t (ds_routing st) \<Longrightarrow> same_peers t (ds_routing (poll_each J L ps st))"
proof (induction J L ps st rule: poll_each.induct)
  case (1 J L st)
  then show ?case by simp
next
  case (2 J L nid host port ps st)
  obtain w r where f: "fetch_peer_models J L host port (fst (fst st)) = (w, r)" by fastforce
  have s: "ds_routing ((w, t'), snd st) = t'" for t' by (simp add: ds_routing_def)
  show ?case
  proof (cases r)
    case (Inl e)
    with "2.IH"(1) [OF f [symmetric] Inl] "2.prems" f s show ?thesis by simp
  next
    case (Inr ms)
    with "2.IH"(2) [OF f [symmetric] Inr] set_models_same [OF "2.prems"] f s show ?thesis by simp
  qed
qed

text \<open>Whenever the peer \<open>n\<close> is polled it names the model if and only if it is \<open>i\<close>.\<close>

definition answers_for :: "proxy_json \<Rightarrow> 'w link \<Rightarrow> string \<Rightarrow> string \<Rightarrow> string \<Rightarrow> string \<Rightarrow> 16 word \<Rightarrow> bool" where
  "answers_for J L m i n host port \<longleftrightarrow>
     (\<forall>w. case snd (fetch_peer_models J L host port w) of Inl _ \<Rightarrow> n \<noteq> i | Inr ms \<Rightarrow> m \<in> set ms \<longleftrightarrow> n = i)"

lemma answers_forD:
  "answers_for J L m i n host port \<Longrightarrow> fetch_peer_models J L host port w = (w1, r) \<Longrightarrow>
   (case r of Inl _ \<Rightarrow> n \<noteq> i | Inr ms \<Rightarrow> m \<in> set ms \<longleftrightarrow> n = i)"
  by (auto simp: answers_for_def dest!: spec [of _ w])

lemma poll_each_lists:
  assumes "\<forall>(n, h, p) \<in> set ps. answers_for J L m i n h p"
    and "\<forall>j. j \<noteq> i \<longrightarrow> \<not> lists_model m (ds_routing st) j" "hm_get (rt_peers (ds_routing st)) i = Some e" "pe_pinned e"
    and "i \<in> fst ` set ps \<or> lists_model m (ds_routing st) i"
  shows "\<forall>j. lists_model m (ds_routing (poll_each J L ps st)) j \<longleftrightarrow> j = i"
  using assms
proof (induction J L ps st arbitrary: e rule: poll_each.induct)
  case (1 J L st)
  then show ?case by auto
next
  case (2 J L nid host port ps st)
  obtain w r where f: "fetch_peer_models J L host port (fst (fst st)) = (w, r)" by fastforce
  from "2.prems"(1) have "answers_for J L m i nid host port"
    and rest: "\<forall>(n, h, p) \<in> set ps. answers_for J L m i n h p" by simp_all
  from answers_forD [OF this(1) f] have r: "case r of Inl _ \<Rightarrow> nid \<noteq> i | Inr ms \<Rightarrow> m \<in> set ms \<longleftrightarrow> nid = i" .
  show ?case
  proof (cases r)
    case (Inl x)
    let ?s = "((w, ds_routing st), snd st)"
    have "\<forall>j. lists_model m (ds_routing (poll_each J L ps ?s)) j \<longleftrightarrow> j = i"
      using "2.prems"(2-5) r Inl by (intro "2.IH"(1) [OF f [symmetric] Inl rest, of e]) (simp_all add: ds_routing_def)
    with f Inl show ?thesis by simp
  next
    case (Inr ms)
    let ?s = "((w, set_peer_models nid ms (ds_routing st)), snd st)"
    have s: "ds_routing ?s = set_peer_models nid ms (ds_routing st)" by (simp add: ds_routing_def)
    have "\<exists>e1. hm_get (rt_peers (ds_routing ?s)) i = Some e1 \<and> pe_pinned e1"
      using "2.prems"(3,4) by (cases "i = nid") (simp_all add: s set_models_entry)
    then obtain e1 where e1: "hm_get (rt_peers (ds_routing ?s)) i = Some e1" "pe_pinned e1" by blast
    have "\<forall>j. lists_model m (ds_routing (poll_each J L ps ?s)) j \<longleftrightarrow> j = i"
      using "2.prems"(2-5) r Inr by (intro "2.IH"(2) [OF f [symmetric] Inr rest _ e1]) (auto simp: s set_models_lists)
    with f Inr show ?thesis by simp
  qed
qed

lemma upsert_get:
  assumes "rt_wf t"
  obtains e where "\<And>j. hm_get (rt_peers (upsert_peer_meta i host port b t)) j = (if j = i then Some e else hm_get (rt_peers t) j)"
    "pe_host e = host" "pe_ingress_port e = port" "pe_pinned e = b" "rt_wf (upsert_peer_meta i host port b t)"
proof -
  obtain e where e: "upsert_peer_meta i host port b t = t\<lparr>rt_peers := hm_insert i e (rt_peers t)\<rparr>" "pe_node_id e = i"
    by (rule upsert_entry [OF assms])
  moreover have "rt_wf (t\<lparr>rt_peers := hm_insert i e (rt_peers t)\<rparr>)" using rt_wf_insert [OF assms e(2)] .
  ultimately show thesis
    using that [of e] upsert_meta_get [of i host port b t] by (auto simp: hm.get_put)
qed

lemma polled_peer:
  assumes "rt_wf t" "(n, h, p) \<in> set (pinned_peers t)"
  obtains e where "hm_get (rt_peers t) n = Some e" "pe_pinned e" "pe_host e = h" "pe_ingress_port e = p"
  using assms by (auto simp: pinned_peers_def rt_wf_def hm.vals_get hm.all_entries_def)

lemma polled_peers:
  "rt_wf t \<Longrightarrow> hm_get (rt_peers t) n = Some e \<Longrightarrow> pe_pinned e \<Longrightarrow> n \<in> fst ` set (pinned_peers t)"
  using hm.vals_get [of "rt_peers t" e]
  by (auto simp: pinned_peers_def rt_wf_def hm.all_entries_def image_comp intro!: rev_image_eqI [of e])

lemma poll_wf: "rt_wf (ds_routing st) \<Longrightarrow> rt_wf (ds_routing (poll_peers J L st))"
  using poll_each_inv [of "rt_local_id (ds_routing st)" UNIV st J L "pinned_peers (ds_routing st)"]
  by (simp add: poll_peers_def daemon_inv_def hm.all_entries_def)

lemma same_peers_entry:
  assumes "same_peers t u" "hm_get (rt_peers t) i = Some e" "hm_get (rt_peers u) i = Some e'"
  shows "pe_host e' = pe_host e" "pe_ingress_port e' = pe_ingress_port e"
proof -
  have "pe_models_update (\<lambda>_. {}) e' = pe_models_update (\<lambda>_. {}) e"
    using assms by (auto simp: same_peers_def dest!: spec [of _ i])
  then have "pe_host (pe_models_update (\<lambda>_. {}) e') = pe_host (pe_models_update (\<lambda>_. {}) e)"
    "pe_ingress_port (pe_models_update (\<lambda>_. {}) e') = pe_ingress_port (pe_models_update (\<lambda>_. {}) e)"
    by simp_all
  then show "pe_host e' = pe_host e" "pe_ingress_port e' = pe_ingress_port e" by simp_all
qed

text \<open>
  When a poll finds the model at exactly one pinned peer, a request for it is sent there.
\<close>

lemma poll_selects:
  assumes "rt_wf (ds_routing st)" "m \<notin> rt_local_models (ds_routing st)" "hm_get (rt_peers (ds_routing st)) i = Some e" "pe_pinned e"
    and "\<And>w. case snd (fetch_peer_models J L (pe_host e) (pe_ingress_port e) w) of Inl _ \<Rightarrow> False | Inr ms \<Rightarrow> m \<in> set ms"
    and "\<And>j q w. hm_get (rt_peers (ds_routing st)) j = Some q \<Longrightarrow> pe_pinned q \<Longrightarrow> j \<noteq> i \<Longrightarrow> m \<notin> pe_models q \<and>
      (case snd (fetch_peer_models J L (pe_host q) (pe_ingress_port q) w) of Inl _ \<Rightarrow> True | Inr ms \<Rightarrow> m \<notin> set ms)"
  obtains c where "select (candidates_for (Some m) backend (ds_routing (poll_peers J L st))) = Some c" "\<not> c_is_self c"
    "c_host c = Some (pe_host e)" "c_ingress_port c = Some (pe_ingress_port e)"
proof -
  let ?ps = "pinned_peers (ds_routing st)" and ?t = "ds_routing (poll_peers J L st)"
  have "answers_for J L m i n h p" if np: "(n, h, p) \<in> set ?ps" for n h p
  proof -
    obtain q where q: "hm_get (rt_peers (ds_routing st)) n = Some q" "pe_pinned q" "pe_host q = h" "pe_ingress_port q = p"
      by (rule polled_peer [OF assms(1) np])
    have "case snd (fetch_peer_models J L h p w) of Inl _ \<Rightarrow> n \<noteq> i | Inr ms \<Rightarrow> m \<in> set ms \<longleftrightarrow> n = i" for w
    proof (cases "n = i")
      case True
      with q assms(3) have "q = e" by simp
      with assms(5) [of w] q True show ?thesis by (simp split: sum.splits)
    next
      case False
      with assms(6) [OF q(1,2) False, of w] q show ?thesis by (simp split: sum.splits)
    qed
    then show ?thesis by (simp add: answers_for_def)
  qed
  then have "\<forall>(n, h, p) \<in> set ?ps. answers_for J L m i n h p" by blast
  moreover have "\<forall>j. j \<noteq> i \<longrightarrow> \<not> lists_model m (ds_routing st) j" using assms(6) by (auto simp: lists_model_def)
  moreover have "i \<in> fst ` set ?ps" by (rule polled_peers [OF assms(1,3,4)])
  ultimately have lists: "\<forall>j. lists_model m ?t j \<longleftrightarrow> j = i"
    unfolding poll_peers_def using assms(3,4) by (intro poll_each_lists) blast+
  have same: "same_peers (ds_routing st) ?t"
    unfolding poll_peers_def by (rule poll_each_same) (simp add: same_peers_def)
  then have "m \<notin> rt_local_models ?t" using assms(2) by (simp add: same_peers_def)
  then obtain e' where "hm_get (rt_peers ?t) i = Some e'" "select (candidates_for (Some m) backend ?t) = Some (peer_candidate m e')"
    using only_lister_selected [OF poll_wf [OF assms(1)], of m J L i backend] lists by blast
  with same_peers_entry [OF same assms(3)] that [of "peer_candidate m e'"] show thesis by (simp add: peer_candidate_def)
qed

text \<open>
  C6: two nodes that are paired from the dashboard share their models. When the first node pairs
  with the URL of the dashboard of the second, polls its peers once, and gets a request for a
  model that it does not have and the engine of the second node lists, then that engine gets the path and
  the body of the request, and the client gets its answer. The first node may have other peers, and
  they may answer the poll or not, as long as no other peer that it trusts lists the model or claims
  the address of the second node.
\<close>
theorem paired_peer_serves:
  fixes st :: "(('v, 'g) dstate, 'f) dstate" and h :: "('v, 'g) ui_host"
  defines "C \<equiv> cr (ce (uh_cluster h))" and "P \<equiv> cp (uh_cluster h)"
  assumes url: "ue_of U body = Inr v" "Option.bind (jget ''peer'' v) j_str = Some url" "parse_url url = Inr (host, port, path)"
    and status: "ue_to (uh_env h) (ui_status C P (uh_env h) b (fst (fst st))) = Some sb"
      "ue_of U sb = Inr (ui_status C P (uh_env h) b (fst (fst st)))"
    and a: "pem_to_der (id_cert_pem (ui_identity a)) = Some da" "node_uuid_from_cert P da = Some ua"
      "utf8_valid (str_bytes (id_cert_pem (ui_identity a)))"
    and b: "pem_to_der (id_cert_pem (ui_identity b)) = Some db" "node_uuid_from_cert P db = Some ub"
      "utf8_valid (str_bytes (id_cert_pem (ui_identity b)))" "ui_ingress_port b \<noteq> 0"
    and pins: "pins_inv C P (ds_pins st)" "pins_inv C P (ds_pins (fst (fst st)))"
    and first: "rt_wf (ds_routing st)" "m \<notin> rt_local_models (ds_routing st)" "proxy_json_ok J"
    and others: "\<And>i e w. hm_get (rt_peers (ds_routing st)) i = Some e \<Longrightarrow> pe_pinned e \<Longrightarrow> i \<noteq> ui_node_id b \<Longrightarrow>
      (pe_host e, pe_ingress_port e) \<noteq> (host, ui_ingress_port b) \<and> m \<notin> pe_models e \<and>
      (case snd (fetch_peer_models J rest (pe_host e) (pe_ingress_port e) w) of Inr ms \<Rightarrow> m \<notin> set ms | Inl _ \<Rightarrow> True)"
    and tags: "\<And>w. \<exists>w1. G engine ''GET'' ''/api/tags'' [] w = (w1, Inr (200, listing))"
      "m \<in> set (parse_ollama_tags J (str_bytes (from_utf8_lossy listing)))"
    and req: "pr_body req = Inr rb" "extract_model J rb = Some m"
    and answer: "G engine ''POST'' (pr_path req) (utf8_lossy rb) w = (w1, Inr (code, out))" "100 \<le> code" "code < 1000"
  shows "\<exists>st' r. ui_pair C P U (ui_link h b host port) a body st = (st', Inr r) \<and>
    (let L = ingress_link J G engine da db host (ui_ingress_port b) rest st'
     in route J G0 L backend (ds_routing (poll_peers J L st')) req w = (w1, code, utf8_lossy out))"
proof -
  obtain st' r where run: "ui_pair C P U (ui_link h b host port) a body st = (st', Inr r)"
    and tb: "is_pinned (ds_pins st') db" and ta: "is_pinned (ds_pins (fst (fst st'))) da"
    and rt: "ds_routing st' = upsert_peer_meta (ui_node_id b) host (ui_ingress_port b) True (ds_routing st)"
    using ui_pair_run [OF url status [unfolded C_def P_def] a [unfolded P_def] b [unfolded P_def] pins [unfolded C_def P_def]]
    unfolding C_def P_def by metis
  let ?M = "mtls_link J G engine (ds_pins st') da (ds_pins (fst (fst st'))) db host (ui_ingress_port b)"
  let ?L = "ingress_link J G engine da db host (ui_ingress_port b) rest st'"
  let ?i = "ui_node_id b" and ?t = "ds_routing (poll_peers J ?L st')"
  let ?ms = "parse_ollama_tags J (str_bytes (from_utf8_lossy listing))"
  have here: "?L host (ui_ingress_port b) = ?M host (ui_ingress_port b)" by (intro ext) (simp add: ingress_link_def)
  have "\<exists>w1. fetch_peer_models J ?L host (ui_ingress_port b) w = (w1, Inr ?ms)" for w
  proof -
    obtain w2 where w2: "G engine ''GET'' ''/api/tags'' [] w = (w2, Inr (200, listing))" using tags(1) by blast
    have "forward_to_peer J ?M host (ui_ingress_port b) (default_ingress\<lparr>ig_method := Some ''GET'', ig_path := Some ''/api/tags''\<rparr>) w =
        (w2, Inr (ingress_reply (Inr (200, listing))))"
      by (rule forward_over_mtls [OF first(3) tb ta]) (use w2 in \<open>simp add: default_ingress_def\<close>)
    then show ?thesis by (simp add: fetch_peer_models_def forward_same_address [of ?L host "ui_ingress_port b" ?M, OF here] ingress_reply_def)
  qed
  then have polled: "case snd (fetch_peer_models J ?L host (ui_ingress_port b) w) of Inl _ \<Rightarrow> False | Inr ms \<Rightarrow> m \<in> set ms" for w
    using tags(2) by (metis (mono_tags, lifting) snd_conv sum.simps(6))
  obtain e where e: "\<And>j. hm_get (rt_peers (ds_routing st')) j = (if j = ?i then Some e else hm_get (rt_peers (ds_routing st)) j)"
    "pe_host e = host" "pe_ingress_port e = ui_ingress_port b" "pe_pinned e" "rt_wf (ds_routing st')"
    unfolding rt using upsert_get [OF first(1), of ?i host "ui_ingress_port b" True] by metis
  have apart: "m \<notin> pe_models q \<and>
      (case snd (fetch_peer_models J ?L (pe_host q) (pe_ingress_port q) w) of Inl _ \<Rightarrow> True | Inr ms \<Rightarrow> m \<notin> set ms)"
    if "hm_get (rt_peers (ds_routing st')) j = Some q" "pe_pinned q" "j \<noteq> ?i" for j q w
  proof -
    from that e(1) have q: "hm_get (rt_peers (ds_routing st)) j = Some q" by simp
    with others [OF q that(2,3)] have "?L (pe_host q) (pe_ingress_port q) = rest (pe_host q) (pe_ingress_port q)"
      by (intro ext) (auto simp: ingress_link_def)
    then have "fetch_peer_models J ?L (pe_host q) (pe_ingress_port q) w = fetch_peer_models J rest (pe_host q) (pe_ingress_port q) w"
      by (simp add: fetch_peer_models_def forward_same_address [of ?L _ _ rest])
    with others [OF q that(2,3), of w] show ?thesis by (simp split: sum.split)
  qed
  obtain c where c: "select (candidates_for (Some m) backend ?t) = Some c" "\<not> c_is_self c"
    "c_host c = Some host" "c_ingress_port c = Some (ui_ingress_port b)"
    by (rule poll_selects [OF e(5) _ _ e(4), of m ?i J ?L backend])
      (use first(2) polled apart e(1-3) rt in simp_all)
  have sel: "select (candidates_for (extract_model J rb) backend ?t) = Some c" using c(1) req(2) by simp
  have "route J G0 ?L backend ?t req w = route J G0 ?M backend ?t req w"
    using route_same_address [OF req(1) sel c(2-4), of ?L ?M] here by simp
  also have "\<dots> = (w1, case Inr (code, out) :: string + nat \<times> bytes of Inr (code, out) \<Rightarrow> (code, utf8_lossy out) | Inl e \<Rightarrow> (502, []))"
    by (rule route_over_mtls [OF first(3) tb ta req(1) sel c(2-4)]) (use answer in simp_all)
  finally show ?thesis using run by (auto simp: Let_def)
qed

definition demo_shared :: proxy_json where
  "demo_shared = demo_pj\<lparr>pj_value := (\<lambda>b. Some (JObj [(''models'', JArr [JObj [(''name'', JStr ''m'')]]), (''model'', JStr ''m'')]))\<rparr>"

definition demo_answers :: "'w engine" where
  "demo_answers backend meth path body w = (w, Inr (200, body))"

text \<open>The first node already trusts a peer that lists another model and does not answer.\<close>

definition demo_befriended :: "(((unit, unit) dstate, unit) dstate)" where
  "demo_befriended = ds_map_routing (set_peer_models ''z'' [''x''] \<circ> upsert_peer_meta ''z'' ''far'' 9 True) (demo_dstate (demo_dstate ()))"

definition demo_unreachable :: "(unit, unit) dstate link" where
  "demo_unreachable h p body w = (w, Inl ''no route'')"

theorem paired_peer_serves_witness:
  "let s = ui_status demo_crypto demo_pki (demo_ui_env (\<lambda>b. Inl [])) demo_ui_ctx (demo_dstate () :: (unit, unit) dstate);
       U = demo_ui_env (demo_ui_parse s)
   in \<exists>st' r. ui_pair demo_crypto demo_pki U (ui_link (demo_ui_host U) demo_ui_ctx ''b'' 80) demo_ui_ctx []
        demo_befriended = (st', Inr r) \<and>
      (let L = ingress_link demo_shared demo_answers ''e'' [1, 2, 3] [1, 2, 3] ''b'' 7443 demo_unreachable st'
       in snd (route demo_shared demo_answers L ''e'' (ds_routing (poll_peers demo_shared L st')) demo_req (demo_dstate ())) =
         (200, utf8_lossy (utf8_lossy (str_bytes ''m''))))"
proof -
  let ?s = "ui_status demo_crypto demo_pki (demo_ui_env (\<lambda>b. Inl [])) demo_ui_ctx (demo_dstate ())"
  let ?U = "demo_ui_env (demo_ui_parse ?s)"
  have s: "ui_status demo_crypto demo_pki ?U demo_ui_ctx (demo_dstate ()) = ?s"
    by (simp add: ui_status_def demo_ui_env_def)
  have of_: "ue_of ?U [] = Inr (JObj [(''peer'', JStr demo_url)])" "ue_of ?U [1] = Inr ?s" "ue_to ?U x = Some [1]" for x
    by (simp_all add: demo_ui_env_def demo_ui_parse_def)
  have h: "uh_cluster (demo_ui_host ?U) = demo_X" "uh_env (demo_ui_host ?U) = ?U"
    by (simp_all add: demo_ui_host_def)
  have i: "ui_identity demo_ui_ctx = demo_identity" "ui_ingress_port demo_ui_ctx = 7443"
    by (simp_all add: demo_ui_ctx_def)
  let ?z = "\<lparr>pe_node_id = ''z'', pe_host = ''far'', pe_ingress_port = 9, pe_models = {''x''}, pe_pinned = True,
      pe_priority_rank = None, pe_manually_selected = False\<rparr>"
  have t: "ds_routing demo_befriended = \<lparr>rt_local_models = {}, rt_peers = [(''z'', ?z)], rt_local_id = rt_local_id (ds_routing (demo_dstate (demo_dstate () :: (unit, unit) dstate) :: ((unit, unit) dstate, unit) dstate))\<rparr>"
    by (simp add: demo_befriended_def demo_dstate_def ds_routing_def ds_map_routing_def routing_new_def upsert_peer_meta_def
        set_peer_models_def hm_get_def hm_insert_def)
  have p: "ds_pins demo_befriended = ds_pins (demo_dstate (demo_dstate () :: (unit, unit) dstate) :: ((unit, unit) dstate, unit) dstate)" "fst (fst demo_befriended) = demo_dstate ()"
    by (simp_all add: demo_befriended_def ds_pins_def ds_map_routing_def demo_dstate_def)
  have e: "rt_wf (ds_routing demo_befriended)" "''m'' \<notin> rt_local_models (ds_routing demo_befriended)"
    by (simp_all add: t rt_wf_def hm_wf_def hm.all_entries_def hm_get_def)
  have o: "(pe_host q = ''b'' \<longrightarrow> pe_ingress_port q \<noteq> 7443) \<and> ''m'' \<notin> pe_models q \<and>
      (case snd (fetch_peer_models demo_shared demo_unreachable (pe_host q) (pe_ingress_port q) w) of Inr ms \<Rightarrow> ''m'' \<notin> set ms | Inl _ \<Rightarrow> True)"
    if "hm_get (rt_peers (ds_routing demo_befriended)) i = Some q" for i q w
    using that by (auto simp: t hm_get_def fetch_peer_models_def forward_to_peer_def demo_unreachable_def
        split: if_splits option.split)
  have j: "proxy_json_ok demo_shared" using demo_pj_ok by (simp add: proxy_json_ok_def demo_shared_def)
  have m: "''m'' \<in> set (parse_ollama_tags demo_shared x)" "extract_model demo_shared x = Some ''m''" for x
    by (simp_all add: demo_shared_def parse_ollama_tags_def extract_model_def List.map_filter_def)
  have "\<exists>st' r. ui_pair (cr (ce (uh_cluster (demo_ui_host ?U)))) (cp (uh_cluster (demo_ui_host ?U))) ?U
      (ui_link (demo_ui_host ?U) demo_ui_ctx ''b'' 80) demo_ui_ctx [] demo_befriended = (st', Inr r) \<and>
    (let L = ingress_link demo_shared demo_answers ''e'' [1, 2, 3] [1, 2, 3] ''b'' (ui_ingress_port demo_ui_ctx) demo_unreachable st'
     in route demo_shared demo_answers L ''e'' (ds_routing (poll_peers demo_shared L st')) demo_req (demo_dstate ()) =
       (demo_dstate (), 200, utf8_lossy (utf8_lossy (str_bytes ''m''))))"
    by (rule paired_peer_serves [where v = "JObj [(''peer'', JStr demo_url)]" and url = demo_url and path = "''/x''" and
          sb = "[1]" and ua = "''n1''" and ub = "''n1''" and m = "''m''" and listing = "[]" and rb = "str_bytes ''m''"])
      (simp_all add: of_ h s i p e o j m demo_url_parsed demo_pem_utf8 demo_answers_def demo_req_def)
  then show ?thesis
    unfolding Let_def h i demo_X_simps demo_env_simps by (metis snd_conv)
qed

end
